(* ===== verification/Prelude.thy ===== *)
theory Prelude
  imports Complex_Main "HOL-Library.AList" "HOL-Library.Sublist"
begin

text \<open>
  What the component theories share: the result type of operations that may raise, JSON
  values and insertion-ordered Python dictionaries, Python slices, the per-tenant
  dictionary-of-lists index every store of the program keeps, and the environment
  (\<open>uuid.uuid4\<close> and the wall clock) as a value that is threaded explicitly.
\<close>

section \<open>Collections of facts\<close>

named_theorems py_simps \<open>unfolding rules for the helpers of this theory\<close>
named_theorems row_simps \<open>how operations change the rows of a store\<close>

section \<open>Results\<close>

text \<open>
  An operation on a state returns the error it raised or its value, together with the
  state it leaves behind.  The state is returned on the error path too: Python does not
  roll back what was mutated before a \<open>raise\<close>.
\<close>

type_synonym ('e, 'a, 's) outcome = "('e + 'a) \<times> 's"

abbreviation raised :: "('e, 'a, 's) outcome \<Rightarrow> bool" where
  "raised r \<equiv> \<exists>e. fst r = Inl e"

abbreviation returned :: "('e, 'a, 's) outcome \<Rightarrow> bool" where
  "returned r \<equiv> \<exists>v. fst r = Inr v"

text \<open>An exception of Python, by type name and message.\<close>

datatype py_exn = Exn string string

definition andThen :: "('e, 'a, 's) outcome \<Rightarrow> ('a \<Rightarrow> 's \<Rightarrow> ('e, 'b, 's) outcome) \<Rightarrow>
    ('e, 'b, 's) outcome" where
  "andThen r f = (case r of (Inl e, s) \<Rightarrow> (Inl e, s) | (Inr a, s) \<Rightarrow> f a s)"

lemma andThen_simps [simp]:
  "andThen (Inr a, s) f = f a s" "andThen (Inl e, s) f = (Inl e, s)"
  by (simp_all add: andThen_def)

section \<open>JSON values and dictionaries\<close>

text \<open>
  A value of type \<open>Any\<close> in a payload.  A dictionary is an association list in insertion
  order with distinct keys; \<open>d[k] = v\<close> overwrites in place or appends at the end, which is
  what \<^const>\<open>AList.update\<close> does.
\<close>

text \<open>
  A float is named by its \<open>repr\<close>, which is the shortest decimal string that reads back as the
  same float; nothing in the program computes with a float taken from a payload.
\<close>

datatype json =
    JNull
  | JBool bool
  | JInt int
  | JFloat string
  | JStr string
  | JList "json list"
  | JObj "(string \<times> json) list"

type_synonym dict = "(string \<times> json) list"

abbreviation dict_get :: "dict \<Rightarrow> string \<Rightarrow> json option" where
  "dict_get d k \<equiv> map_of d k"

abbreviation dict_set :: "string \<Rightarrow> json \<Rightarrow> dict \<Rightarrow> dict" where
  "dict_set \<equiv> AList.update"

definition dict_get_or :: "dict \<Rightarrow> string \<Rightarrow> json \<Rightarrow> json" where
  "dict_get_or d k v = (case dict_get d k of None \<Rightarrow> v | Some w \<Rightarrow> w)"

fun truthy :: "json \<Rightarrow> bool" where
  "truthy JNull = False"
| "truthy (JBool b) = b"
| "truthy (JInt i) = (i \<noteq> 0)"
| "truthy (JFloat r) = (r \<noteq> ''0.0'' \<and> r \<noteq> ''-0.0'')"
| "truthy (JStr s) = (s \<noteq> [])"
| "truthy (JList xs) = (xs \<noteq> [])"
| "truthy (JObj d) = (d \<noteq> [])"

lemma dict_get_set [simp]:
  "dict_get (dict_set k v d) k' = (if k' = k then Some v else dict_get d k')"
  by (simp add: update_conv)

lemma dict_get_or_set [simp]:
  "dict_get_or (dict_set k v d) k' w = (if k' = k then v else dict_get_or d k' w)"
  by (simp add: dict_get_or_def)

section \<open>Python slices\<close>

definition py_take :: "int \<Rightarrow> 'a list \<Rightarrow> 'a list" where
  \<comment> \<open>\<open>xs[:i]\<close>\<close>
  "py_take i xs = (if 0 \<le> i then take (nat i) xs else take (length xs - nat (- i)) xs)"

definition py_drop :: "int \<Rightarrow> 'a list \<Rightarrow> 'a list" where
  \<comment> \<open>\<open>xs[i:]\<close>\<close>
  "py_drop i xs = (if 0 \<le> i then drop (nat i) xs else drop (length xs - nat (- i)) xs)"

definition keep_last :: "nat \<Rightarrow> 'a list \<Rightarrow> 'a list" where
  "keep_last n xs = drop (length xs - n) xs"

lemma length_keep_last [simp]: "length (keep_last n xs) = min n (length xs)"
  by (simp add: keep_last_def)

lemma keep_last_all [simp]: "length xs \<le> n \<Longrightarrow> keep_last n xs = xs"
  by (simp add: keep_last_def)

lemma keep_last_0 [simp]: "keep_last 0 xs = []"
  by (simp add: keep_last_def)

lemma suffix_keep_last: "suffix (keep_last n xs) xs"
  by (simp add: keep_last_def suffix_drop)

lemma set_keep_last: "set (keep_last n xs) \<subseteq> set xs"
  by (simp add: keep_last_def set_drop_subset)

lemma keep_last_append_keep_last [simp]:
  "keep_last n (keep_last n xs @ ys) = keep_last n (xs @ ys)"
proof (cases "length xs \<le> n")
  case False
  let ?d = "length xs - n"
  have "drop (length ys) (drop ?d xs @ ys) = drop (length ys) (drop ?d (xs @ ys))"
    using False by simp
  with False show ?thesis
    by (simp add: keep_last_def add.commute)
qed simp

lemma keep_last_keep_last [simp]: "keep_last m (keep_last n xs) = keep_last (min m n) xs"
proof (cases "m \<le> n")
  case True
  then show ?thesis
    by (cases "n \<le> length xs") (auto simp: keep_last_def min_def)
next
  case False
  then show ?thesis
    by (auto simp: keep_last_def min_def)
qed

lemma py_drop_neg: "0 < n \<Longrightarrow> py_drop (- int n) xs = keep_last n xs"
  by (simp add: py_drop_def keep_last_def)

section \<open>Dictionaries of lists\<close>

text \<open>
  \<open>m.setdefault(k, []).append(x)\<close> and \<open>m.get(k, [])\<close>, the per-tenant index idiom of the
  program.
\<close>

definition push :: "('k \<rightharpoonup> 'v list) \<Rightarrow> 'k \<Rightarrow> 'v \<Rightarrow> ('k \<rightharpoonup> 'v list)" where
  "push m k x = m(k \<mapsto> (case m k of None \<Rightarrow> [] | Some xs \<Rightarrow> xs) @ [x])"

definition get_list :: "('k \<rightharpoonup> 'v list) \<Rightarrow> 'k \<Rightarrow> 'v list" where
  "get_list m k = (case m k of None \<Rightarrow> [] | Some xs \<Rightarrow> xs)"

lemma get_list_empty [simp]: "get_list Map.empty k = []"
  by (simp add: get_list_def)

lemma get_list_upd [simp]: "get_list (m(k \<mapsto> xs)) k' = (if k' = k then xs else get_list m k')"
  by (simp add: get_list_def)

lemma get_list_push [simp]:
  "get_list (push m k x) k' = (if k' = k then get_list m k @ [x] else get_list m k')"
  by (auto simp: push_def get_list_def)

lemma push_get: "push m k x = m(k \<mapsto> get_list m k @ [x])"
  by (simp add: push_def get_list_def)

section \<open>The environment\<close>

text \<open>
  \<open>uuid.uuid4().hex\<close> and \<open>datetime.now(timezone.utc)\<close> are read from a supply that is part
  of the state: the n-th draw returns \<open>uuid_of w n\<close>, the n-th clock reading
  \<open>time_of w n\<close> (microseconds).  That uuids do not repeat is the hypothesis
  \<open>inj (uuid_of w)\<close> where a theorem needs it; nothing is assumed of the clock.
\<close>

type_synonym time = int

record world =
  uuid_of :: "nat \<Rightarrow> string"
  uuids_drawn :: nat
  time_of :: "nat \<Rightarrow> time"
  clock_reads :: nat

definition uuid4 :: "world \<Rightarrow> string \<times> world" where
  "uuid4 w = (uuid_of w (uuids_drawn w), w\<lparr>uuids_drawn := Suc (uuids_drawn w)\<rparr>)"

definition now :: "world \<Rightarrow> time \<times> world" where
  "now w = (time_of w (clock_reads w), w\<lparr>clock_reads := Suc (clock_reads w)\<rparr>)"

lemma now_world [simp]:
  "uuid_of (snd (now w)) = uuid_of w" "uuids_drawn (snd (now w)) = uuids_drawn w"
  by (simp_all add: now_def)

lemma uuid4_world [simp]:
  "uuid_of (snd (uuid4 w)) = uuid_of w" "uuids_drawn (snd (uuid4 w)) = Suc (uuids_drawn w)"
  "fst (uuid4 w) = uuid_of w (uuids_drawn w)"
  by (simp_all add: uuid4_def)

section \<open>Lists\<close>

lemma filter_remove1_key:
  "distinct xs \<Longrightarrow> filter P (remove1 x xs) = remove1 x (filter P xs)"
  by (induction xs) (auto simp: remove1_idem)

lemma find_append:
  "find P (xs @ ys) = (case find P xs of None \<Rightarrow> find P ys | Some x \<Rightarrow> Some x)"
  by (induction xs) auto

lemma distinct_snoc [simp]: "distinct (xs @ [x]) = (distinct xs \<and> x \<notin> set xs)"
  by auto

end
