(* ===== verification/Contracts.thy ===== *)
theory Contracts
  imports Prelude
begin

text \<open>
  The shared data shapes of \<open>contracts/\<close>: the enumerations with their wire values, the
  Pydantic models as records, and their field constraints and validators as executable
  predicates.  Constructing a model whose predicate fails raises \<open>ValidationError\<close>;
  \<open>model_copy(update=...)\<close> is a record update and validates nothing.  Every time value is
  an aware UTC instant, so the \<open>tzinfo\<close> validators have nothing to reject.
\<close>

definition len_within :: "nat \<Rightarrow> nat \<Rightarrow> string \<Rightarrow> bool" where
  "len_within lo hi s \<longleftrightarrow> lo \<le> length s \<and> length s \<le> hi"

definition opt_max :: "nat \<Rightarrow> string option \<Rightarrow> bool" where
  "opt_max hi so \<longleftrightarrow> (case so of None \<Rightarrow> True | Some s \<Rightarrow> length s \<le> hi)"

lemma len_within_simps [simp]:
  "len_within (Suc 0) hi s \<longleftrightarrow> s \<noteq> [] \<and> length s \<le> hi"
  by (cases s) (auto simp: len_within_def)

lemma opt_max_simps [simp]: "opt_max hi None" "opt_max hi (Some s) \<longleftrightarrow> length s \<le> hi"
  by (simp_all add: opt_max_def)

section \<open>actions.py\<close>

datatype action_type =
    SEND_BORROWER_MESSAGE
  | NOTIFY_LOAN_OFFICER
  | SCHEDULE_CALL
  | REQUEST_DOCUMENT
  | UPDATE_STATUS
  | NO_OP

fun action_type_value :: "action_type \<Rightarrow> string" where
  "action_type_value SEND_BORROWER_MESSAGE = ''send_borrower_message''"
| "action_type_value NOTIFY_LOAN_OFFICER = ''notify_loan_officer''"
| "action_type_value SCHEDULE_CALL = ''schedule_call''"
| "action_type_value REQUEST_DOCUMENT = ''request_document''"
| "action_type_value UPDATE_STATUS = ''update_status''"
| "action_type_value NO_OP = ''no_op''"

definition action_types :: "action_type list" where
  "action_types = [SEND_BORROWER_MESSAGE, NOTIFY_LOAN_OFFICER, SCHEDULE_CALL,
     REQUEST_DOCUMENT, UPDATE_STATUS, NO_OP]"

definition action_type_of :: "string \<Rightarrow> action_type option" where
  \<comment> \<open>\<open>ActionType(s)\<close>; \<open>None\<close> is the ValueError\<close>
  "action_type_of s = find (\<lambda>a. action_type_value a = s) action_types"

datatype action_status =
    PENDING_POLICY
  | PENDING_APPROVAL
  | PENDING_EXEC
  | EXECUTED
  | EXECUTION_FAILED
  | REJECTED

fun action_status_value :: "action_status \<Rightarrow> string" where
  "action_status_value PENDING_POLICY = ''pending_policy''"
| "action_status_value PENDING_APPROVAL = ''pending_approval''"
| "action_status_value PENDING_EXEC = ''pending_exec''"
| "action_status_value EXECUTED = ''executed''"
| "action_status_value EXECUTION_FAILED = ''execution_failed''"
| "action_status_value REJECTED = ''rejected''"

datatype proposed_by = LLM | FALLBACK

fun proposed_by_value :: "proposed_by \<Rightarrow> string" where
  "proposed_by_value LLM = ''llm''"
| "proposed_by_value FALLBACK = ''fallback''"

record proposal =
  pr_id :: string
  pr_tenant_id :: string
  pr_event_id :: string
  pr_customer_id :: "string option"
  pr_action_type :: action_type
  pr_proposed_by :: proposed_by
  pr_payload :: dict
  pr_created_at :: time

definition proposal_valid :: "proposal \<Rightarrow> bool" where
  "proposal_valid p \<longleftrightarrow>
     len_within 1 64 (pr_id p) \<and> len_within 1 64 (pr_tenant_id p) \<and>
     len_within 1 64 (pr_event_id p) \<and> opt_max 64 (pr_customer_id p)"

record action =
  a_id :: string
  a_tenant_id :: string
  a_proposal_id :: string
  a_event_id :: string
  a_customer_id :: "string option"
  a_action_type :: action_type
  a_status :: action_status
  a_payload :: dict
  a_created_at :: time
  a_updated_at :: time
  a_executed_at :: "time option"

definition executed_at_consistent :: "action \<Rightarrow> bool" where
  "executed_at_consistent a \<longleftrightarrow>
     (if a_status a = EXECUTED then a_executed_at a \<noteq> None else a_executed_at a = None)"

definition action_valid :: "action \<Rightarrow> bool" where
  "action_valid a \<longleftrightarrow>
     len_within 1 64 (a_id a) \<and> len_within 1 64 (a_tenant_id a) \<and>
     len_within 1 64 (a_proposal_id a) \<and> len_within 1 64 (a_event_id a) \<and>
     opt_max 64 (a_customer_id a) \<and> executed_at_consistent a"

lemma action_type_value_inj: "action_type_value a = action_type_value b \<Longrightarrow> a = b"
  by (cases a; cases b) simp_all

lemma action_type_of_value [simp]: "action_type_of (action_type_value a) = Some a"
  by (cases a) (simp_all add: action_type_of_def action_types_def)

lemma action_type_of_Some: "action_type_of s = Some a \<longleftrightarrow> s = action_type_value a"
proof
  assume "action_type_of s = Some a"
  then show "s = action_type_value a"
    by (auto simp: action_type_of_def find_Some_iff)
qed simp

section \<open>policies.py\<close>

datatype policy_decision = AUTO | APPROVAL_REQUIRED | REJECT

fun policy_decision_value :: "policy_decision \<Rightarrow> string" where
  "policy_decision_value AUTO = ''auto''"
| "policy_decision_value APPROVAL_REQUIRED = ''approval_required''"
| "policy_decision_value REJECT = ''reject''"

definition policy_decision_of :: "string \<Rightarrow> policy_decision option" where
  "policy_decision_of s =
     find (\<lambda>d. policy_decision_value d = s) [AUTO, APPROVAL_REQUIRED, REJECT]"

lemma policy_decision_of_value [simp]: "policy_decision_of (policy_decision_value d) = Some d"
  by (cases d) (simp_all add: policy_decision_of_def)

lemma policy_decision_of_Some: "policy_decision_of s = Some d \<longleftrightarrow> s = policy_decision_value d"
proof
  assume "policy_decision_of s = Some d"
  then show "s = policy_decision_value d"
    by (auto simp: policy_decision_of_def split: if_splits)
qed simp

record approval_rule =
  ar_id :: string
  ar_tenant_id :: string
  ar_action_id :: string
  ar_state :: string
  ar_assigned_to :: "string option"
  ar_required_approvals :: int
  ar_eligible_approvers :: "string list option"
  ar_approvals :: "string list"
  ar_enqueued_at :: time
  ar_decided_at :: "time option"
  ar_decided_by :: "string option"
  ar_decision_note :: "string option"
  ar_row_version :: int

definition approval_states :: "string list" where
  "approval_states = [''pending'', ''approved'', ''rejected'', ''expired'']"

definition approval_rule_valid :: "approval_rule \<Rightarrow> bool" where
  "approval_rule_valid r \<longleftrightarrow>
     len_within 1 64 (ar_id r) \<and> len_within 1 64 (ar_tenant_id r) \<and>
     len_within 1 64 (ar_action_id r) \<and> ar_state r \<in> set approval_states \<and>
     opt_max 128 (ar_assigned_to r) \<and> 1 \<le> ar_required_approvals r \<and>
     opt_max 128 (ar_decided_by r) \<and> opt_max 2048 (ar_decision_note r) \<and>
     1 \<le> ar_row_version r"

definition approvals_remaining :: "approval_rule \<Rightarrow> int" where
  "approvals_remaining r = max 0 (ar_required_approvals r - int (length (ar_approvals r)))"

section \<open>audit.py\<close>

datatype audit_kind =
    A_PROPOSAL
  | A_DECISION
  | A_APPROVAL
  | A_REJECTION
  | A_EXECUTION
  | A_EXECUTION_FAILED
  | A_POLICY_CHANGE

fun audit_kind_value :: "audit_kind \<Rightarrow> string" where
  "audit_kind_value A_PROPOSAL = ''proposal''"
| "audit_kind_value A_DECISION = ''decision''"
| "audit_kind_value A_APPROVAL = ''approval''"
| "audit_kind_value A_REJECTION = ''rejection''"
| "audit_kind_value A_EXECUTION = ''execution''"
| "audit_kind_value A_EXECUTION_FAILED = ''execution_failed''"
| "audit_kind_value A_POLICY_CHANGE = ''policy_change''"

datatype audit_actor_kind = BY_SYSTEM | BY_LLM | BY_HUMAN | BY_FALLBACK

fun audit_actor_kind_value :: "audit_actor_kind \<Rightarrow> string" where
  "audit_actor_kind_value BY_SYSTEM = ''system''"
| "audit_actor_kind_value BY_LLM = ''llm''"
| "audit_actor_kind_value BY_HUMAN = ''human''"
| "audit_actor_kind_value BY_FALLBACK = ''fallback''"

record audit_entry =
  ae_id :: "int option"
  ae_tenant_id :: string
  ae_ts :: time
  ae_kind :: audit_kind
  ae_action_id :: "string option"
  ae_caused_by_event_id :: "string option"
  ae_actor_kind :: audit_actor_kind
  ae_actor_id :: "string option"
  ae_payload :: dict

definition audit_entry_valid :: "audit_entry \<Rightarrow> bool" where
  "audit_entry_valid e \<longleftrightarrow>
     (case ae_id e of None \<Rightarrow> True | Some i \<Rightarrow> 1 \<le> i) \<and>
     len_within 1 64 (ae_tenant_id e) \<and> opt_max 64 (ae_action_id e) \<and>
     opt_max 64 (ae_caused_by_event_id e) \<and> opt_max 128 (ae_actor_id e)"

end
