(* ===== verification/Approval_Queue.thy ===== *)
theory Approval_Queue
  imports Contracts
begin

text \<open>
  \<open>orchestrator/approval_queue.py\<close>, class \<open>InMemoryApprovalQueue\<close>: the rows awaiting a human
  decision, by action id, and the FIFO list of pending action ids per tenant.  Every
  operation runs under the queue's lock and is one atomic step here.
\<close>

section \<open>State and operations\<close>

datatype approval_error =
    ApprovalValueError
  | ApprovalValidationError
  | ApprovalNotFoundError
  | ApprovalStateError
  | ApproverNotEligibleError
  | DuplicateApproverError

record approval_queue =
  aq_by_id :: "string \<rightharpoonup> approval_rule"
  aq_pending_by_tenant :: "string \<rightharpoonup> string list"

definition aq_new :: approval_queue where
  "aq_new = \<lparr>aq_by_id = Map.empty, aq_pending_by_tenant = Map.empty\<rparr>"

definition new_rule :: "string \<Rightarrow> time \<Rightarrow> string \<Rightarrow> string \<Rightarrow> string option \<Rightarrow> int \<Rightarrow>
    string list option \<Rightarrow> approval_rule" where
  "new_rule uuid t action_id tenant assigned required eligible =
     \<lparr>ar_id = ''appr_'' @ uuid, ar_tenant_id = tenant, ar_action_id = action_id,
      ar_state = ''pending'', ar_assigned_to = assigned,
      ar_required_approvals = required, ar_eligible_approvers = eligible,
      ar_approvals = [], ar_enqueued_at = t, ar_decided_at = None, ar_decided_by = None,
      ar_decision_note = None, ar_row_version = 1\<rparr>"

definition enqueue_args_ok :: "string \<Rightarrow> string \<Rightarrow> int \<Rightarrow> string list option \<Rightarrow> bool" where
  "enqueue_args_ok action_id tenant required eligible \<longleftrightarrow>
     action_id \<noteq> [] \<and> tenant \<noteq> [] \<and> 1 \<le> required \<and>
     (case eligible of
        None \<Rightarrow> True
      | Some pool \<Rightarrow> distinct pool \<and> required \<le> int (length pool))"

definition aq_enqueue :: "string \<Rightarrow> time \<Rightarrow> string \<Rightarrow> string \<Rightarrow> string option \<Rightarrow> int \<Rightarrow>
    string list option \<Rightarrow> approval_queue \<Rightarrow>
    (approval_error, approval_rule, approval_queue) outcome" where
  "aq_enqueue uuid t action_id tenant assigned required eligible q =
     (if \<not> enqueue_args_ok action_id tenant required eligible then (Inl ApprovalValueError, q)
      else case aq_by_id q action_id of
        Some existing \<Rightarrow> (Inr existing, q)
      | None \<Rightarrow>
          let rule = new_rule uuid t action_id tenant assigned required eligible
          in if \<not> approval_rule_valid rule then (Inl ApprovalValidationError, q)
          else (Inr rule,
                q\<lparr>aq_by_id := (aq_by_id q)(action_id \<mapsto> rule),
                  aq_pending_by_tenant := push (aq_pending_by_tenant q) tenant action_id\<rparr>))"

definition require_pending :: "string \<Rightarrow> approval_queue \<Rightarrow> approval_error + approval_rule" where
  "require_pending action_id q =
     (case aq_by_id q action_id of
        None \<Rightarrow> Inl ApprovalNotFoundError
      | Some rule \<Rightarrow>
          if ar_state rule \<noteq> ''pending'' then Inl ApprovalStateError else Inr rule)"

definition check_eligible :: "approval_rule \<Rightarrow> string option \<Rightarrow> bool" where
  \<comment> \<open>\<open>_check_eligible\<close>: False when it raises \<open>ApproverNotEligibleError\<close>\<close>
  "check_eligible rule decided_by \<longleftrightarrow>
     (case ar_eligible_approvers rule of
        None \<Rightarrow> True
      | Some pool \<Rightarrow> (case decided_by of None \<Rightarrow> False | Some v \<Rightarrow> v \<in> set pool))"

definition resolved_rule :: "time \<Rightarrow> string \<Rightarrow> string option \<Rightarrow> string option \<Rightarrow> string list \<Rightarrow>
    approval_rule \<Rightarrow> approval_rule" where
  "resolved_rule t target decided_by note approvals rule =
     rule\<lparr>ar_state := target, ar_approvals := approvals, ar_decided_at := Some t,
          ar_decided_by := decided_by, ar_decision_note := note,
          ar_row_version := ar_row_version rule + 1\<rparr>"

definition resolve :: "time \<Rightarrow> string \<Rightarrow> string option \<Rightarrow> string option \<Rightarrow> string list \<Rightarrow>
    approval_rule \<Rightarrow> approval_queue \<Rightarrow> approval_rule \<times> approval_queue" where
  "resolve t target decided_by note approvals rule q =
     (let resolved = resolved_rule t target decided_by note approvals rule;
          by_id = (aq_by_id q)(ar_action_id rule \<mapsto> resolved)
      in case aq_pending_by_tenant q (ar_tenant_id rule) of
           None \<Rightarrow> (resolved, q\<lparr>aq_by_id := by_id\<rparr>)
         | Some pending \<Rightarrow>
             (resolved,
              q\<lparr>aq_by_id := by_id,
                aq_pending_by_tenant := (aq_pending_by_tenant q)
                  (ar_tenant_id rule \<mapsto> remove1 (ar_action_id rule) pending)\<rparr>))"

definition aq_approve :: "time \<Rightarrow> string \<Rightarrow> string option \<Rightarrow> approval_queue \<Rightarrow>
    (approval_error, approval_rule, approval_queue) outcome" where
  "aq_approve t action_id decided_by q =
     (case require_pending action_id q of
        Inl e \<Rightarrow> (Inl e, q)
      | Inr rule \<Rightarrow>
          if \<not> check_eligible rule decided_by then (Inl ApproverNotEligibleError, q)
          else if ar_required_approvals rule \<le> 1 then
            let recorded = (case decided_by of
                  None \<Rightarrow> ar_approvals rule
                | Some v \<Rightarrow> if v \<in> set (ar_approvals rule) then ar_approvals rule
                          else ar_approvals rule @ [v]);
                (resolved, q') = resolve t ''approved'' decided_by None recorded rule q
            in (Inr resolved, q')
          else case decided_by of
            None \<Rightarrow> (Inl ApproverNotEligibleError, q)
          | Some v \<Rightarrow>
              if v \<in> set (ar_approvals rule) then (Inl DuplicateApproverError, q)
              else
                let recorded = ar_approvals rule @ [v]
                in if ar_required_approvals rule \<le> int (length recorded) then
                  let (resolved, q') = resolve t ''approved'' decided_by None recorded rule q
                  in (Inr resolved, q')
                else
                  let updated = rule\<lparr>ar_approvals := recorded,
                                     ar_row_version := ar_row_version rule + 1\<rparr>
                  in (Inr updated, q\<lparr>aq_by_id := (aq_by_id q)(action_id \<mapsto> updated)\<rparr>))"

definition aq_reject :: "time \<Rightarrow> string \<Rightarrow> string \<Rightarrow> string option \<Rightarrow> approval_queue \<Rightarrow>
    (approval_error, approval_rule, approval_queue) outcome" where
  "aq_reject t action_id reason decided_by q =
     (case require_pending action_id q of
        Inl e \<Rightarrow> (Inl e, q)
      | Inr rule \<Rightarrow>
          if \<not> check_eligible rule decided_by then (Inl ApproverNotEligibleError, q)
          else
            let (resolved, q') = resolve t ''rejected'' decided_by
                  (if reason = [] then None else Some reason) (ar_approvals rule) rule q
            in (Inr resolved, q'))"

definition aq_list_pending :: "string \<Rightarrow> approval_queue \<Rightarrow> approval_rule list" where
  "aq_list_pending tenant q =
     List.map_filter (aq_by_id q) (get_list (aq_pending_by_tenant q) tenant)"

definition aq_get :: "string \<Rightarrow> approval_queue \<Rightarrow> approval_rule option" where
  "aq_get action_id q = aq_by_id q action_id"

definition aq_is_pending :: "string \<Rightarrow> approval_queue \<Rightarrow> bool" where
  "aq_is_pending action_id q =
     (case aq_by_id q action_id of None \<Rightarrow> False | Some rule \<Rightarrow> ar_state rule = ''pending'')"

definition aq_clear :: "approval_queue \<Rightarrow> approval_queue" where
  "aq_clear q = q\<lparr>aq_by_id := Map.empty, aq_pending_by_tenant := Map.empty\<rparr>"

end
