(* ===== verification/Approval_Queue_Inv.thy ===== *)
theory Approval_Queue_Inv
  imports Approval_Queue
begin

text \<open>
  What the approval queue promises.  A row moves along the state machine of
  \<open>contracts/policies.py\<close> (\<open>row_step\<close>), every operation of the queue is at most one step of
  one row (\<open>aq_approve_step\<close>, \<open>aq_reject_step\<close>), and the pending index lists exactly the
  pending rows of each tenant (\<open>aq_inv\<close>).  The contract the decision pipeline relies on is
  the locale \<open>vote_queue\<close>.
\<close>

section \<open>The state machine of one row\<close>

definition may_vote :: "string \<Rightarrow> approval_rule \<Rightarrow> bool" where
  "may_vote v r \<longleftrightarrow>
     (case ar_eligible_approvers r of None \<Rightarrow> True | Some pool \<Rightarrow> v \<in> set pool)"

definition same_order :: "approval_rule \<Rightarrow> approval_rule \<Rightarrow> bool" where
  \<comment> \<open>the fields no decision ever changes\<close>
  "same_order r r' \<longleftrightarrow>
     ar_id r' = ar_id r \<and> ar_tenant_id r' = ar_tenant_id r \<and>
     ar_action_id r' = ar_action_id r \<and> ar_assigned_to r' = ar_assigned_to r \<and>
     ar_required_approvals r' = ar_required_approvals r \<and>
     ar_eligible_approvers r' = ar_eligible_approvers r \<and>
     ar_enqueued_at r' = ar_enqueued_at r \<and> ar_row_version r' = ar_row_version r + 1"

inductive row_step :: "approval_rule \<Rightarrow> approval_rule \<Rightarrow> bool" where
  vote: "\<lbrakk>ar_state r = ''pending''; may_vote v r; v \<notin> set (ar_approvals r);
          int (length (ar_approvals r)) + 1 < ar_required_approvals r;
          same_order r r'; ar_state r' = ''pending'';
          ar_approvals r' = ar_approvals r @ [v];
          ar_decided_at r' = ar_decided_at r; ar_decided_by r' = ar_decided_by r\<rbrakk>
         \<Longrightarrow> row_step r r'"
| quorum: "\<lbrakk>ar_state r = ''pending''; may_vote v r; v \<notin> set (ar_approvals r);
          ar_required_approvals r \<le> int (length (ar_approvals r)) + 1;
          same_order r r'; ar_state r' = ''approved'';
          ar_approvals r' = ar_approvals r @ [v];
          ar_decided_at r' \<noteq> None; ar_decided_by r' = Some v\<rbrakk>
         \<Longrightarrow> row_step r r'"
| repeated: "\<lbrakk>ar_state r = ''pending''; may_vote v r; v \<in> set (ar_approvals r);
          ar_required_approvals r \<le> 1; same_order r r'; ar_state r' = ''approved'';
          ar_approvals r' = ar_approvals r; ar_decided_at r' \<noteq> None;
          ar_decided_by r' = Some v\<rbrakk>
         \<Longrightarrow> row_step r r'"
| anonymous: "\<lbrakk>ar_state r = ''pending''; ar_eligible_approvers r = None;
          ar_required_approvals r \<le> 1; same_order r r'; ar_state r' = ''approved'';
          ar_approvals r' = ar_approvals r; ar_decided_at r' \<noteq> None;
          ar_decided_by r' = None\<rbrakk>
         \<Longrightarrow> row_step r r'"
| veto: "\<lbrakk>ar_state r = ''pending''; check_eligible r (ar_decided_by r');
          same_order r r'; ar_state r' = ''rejected'';
          ar_approvals r' = ar_approvals r; ar_decided_at r' \<noteq> None\<rbrakk>
         \<Longrightarrow> row_step r r'"

definition rule_wf :: "approval_rule \<Rightarrow> bool" where
  "rule_wf r \<longleftrightarrow>
     1 \<le> ar_required_approvals r \<and> distinct (ar_approvals r) \<and>
     (case ar_eligible_approvers r of
        None \<Rightarrow> True
      | Some pool \<Rightarrow> distinct pool \<and> ar_required_approvals r \<le> int (length pool) \<and>
                    set (ar_approvals r) \<subseteq> set pool) \<and>
     (ar_state r = ''pending'' \<and> ar_decided_at r = None \<and> ar_decided_by r = None \<and>
        int (length (ar_approvals r)) < ar_required_approvals r
      \<or> ar_state r = ''approved'' \<and> ar_decided_at r \<noteq> None \<and>
        (int (length (ar_approvals r)) = ar_required_approvals r
         \<or> ar_required_approvals r = 1 \<and> ar_decided_by r = None \<and> ar_approvals r = [] \<and>
         ar_eligible_approvers r = None)
      \<or> ar_state r = ''rejected'' \<and> ar_decided_at r \<noteq> None \<and>
        int (length (ar_approvals r)) < ar_required_approvals r)"

lemma row_step_wf: "row_step r r' \<Longrightarrow> rule_wf r \<Longrightarrow> rule_wf r'"
  by (induction rule: row_step.induct)
     (auto simp: rule_wf_def same_order_def may_vote_def split: option.splits)

lemma row_step_from_pending: "row_step r r' \<Longrightarrow> ar_state r = ''pending''"
  by (induction rule: row_step.induct) auto

lemma row_step_same_order: "row_step r r' \<Longrightarrow> same_order r r'"
  by (induction rule: row_step.induct) auto

lemma row_step_target: "row_step r r' \<Longrightarrow> ar_state r' \<in> {''pending'', ''approved'', ''rejected''}"
  by (induction rule: row_step.induct) auto

lemma row_step_approvals: "row_step r r' \<Longrightarrow> prefix (ar_approvals r) (ar_approvals r')"
  by (induction rule: row_step.induct) auto

lemma new_rule_wf:
  "enqueue_args_ok aid t n pool \<Longrightarrow> rule_wf (new_rule u s aid t asg n pool)"
  by (auto simp: rule_wf_def new_rule_def enqueue_args_ok_def split: option.splits)

section \<open>The invariant of the queue\<close>

definition pending_of :: "(string \<rightharpoonup> approval_rule) \<Rightarrow> string \<Rightarrow> string \<Rightarrow> bool" where
  "pending_of rows t aid \<longleftrightarrow>
     (case rows aid of None \<Rightarrow> False | Some r \<Rightarrow> ar_tenant_id r = t \<and> ar_state r = ''pending'')"

lemma pending_of_upd [simp]:
  "pending_of (rows(aid \<mapsto> r)) t a \<longleftrightarrow>
     (if a = aid then ar_tenant_id r = t \<and> ar_state r = ''pending'' else pending_of rows t a)"
  by (simp add: pending_of_def)

lemma pending_of_row: "rows aid = Some r \<Longrightarrow>
    pending_of rows t aid \<longleftrightarrow> ar_tenant_id r = t \<and> ar_state r = ''pending''"
  by (simp add: pending_of_def)

definition aq_inv :: "approval_queue \<Rightarrow> bool" where
  "aq_inv q \<longleftrightarrow>
     (\<forall>aid r. aq_by_id q aid = Some r \<longrightarrow> ar_action_id r = aid \<and> rule_wf r) \<and>
     (\<forall>t. distinct (get_list (aq_pending_by_tenant q) t) \<and>
          set (get_list (aq_pending_by_tenant q) t) = {aid. pending_of (aq_by_id q) t aid})"

lemma aq_invD:
  assumes "aq_inv q"
  shows "aq_by_id q aid = Some r \<Longrightarrow> ar_action_id r = aid"
    and "aq_by_id q aid = Some r \<Longrightarrow> rule_wf r"
    and "distinct (get_list (aq_pending_by_tenant q) t)"
    and "aid \<in> set (get_list (aq_pending_by_tenant q) t) \<longleftrightarrow> pending_of (aq_by_id q) t aid"
  using assms by (auto simp: aq_inv_def)

lemma aq_inv_new [simp]: "aq_inv aq_new"
  by (simp add: aq_inv_def aq_new_def pending_of_def)

lemma aq_inv_clear [simp]: "aq_inv (aq_clear q)"
  by (simp add: aq_inv_def aq_clear_def pending_of_def)

text \<open>Storing a row that is still pending, and resolving one.\<close>

lemma aq_inv_update_pending:
  assumes inv: "aq_inv q" and row: "aq_by_id q aid = Some r" and wf: "rule_wf r'"
    and same: "ar_action_id r' = aid" "ar_tenant_id r' = ar_tenant_id r"
    and pend: "ar_state r = ''pending''" "ar_state r' = ''pending''"
  shows "aq_inv (q\<lparr>aq_by_id := (aq_by_id q)(aid \<mapsto> r')\<rparr>)"
proof -
  have "pending_of (aq_by_id q) t aid \<longleftrightarrow> ar_tenant_id r' = t" for t
    using same pend by (simp add: pending_of_row [of "aq_by_id q", OF row])
  then have "{a. pending_of ((aq_by_id q)(aid \<mapsto> r')) t a} = {a. pending_of (aq_by_id q) t a}" for t
    using pend by auto
  with inv wf same show ?thesis
    by (auto simp: aq_inv_def split: if_splits)
qed

lemma resolve_by_id:
  "aq_by_id (snd (resolve t target v note aps r q)) =
     (aq_by_id q)(ar_action_id r \<mapsto> resolved_rule t target v note aps r)"
  by (simp add: resolve_def Let_def split: option.splits)

lemma resolve_pending:
  "get_list (aq_pending_by_tenant (snd (resolve t target v note aps r q))) t' =
     (if t' = ar_tenant_id r then remove1 (ar_action_id r) (get_list (aq_pending_by_tenant q) t')
      else get_list (aq_pending_by_tenant q) t')"
  by (auto simp: resolve_def Let_def get_list_def split: option.splits)

lemma resolve_fst: "fst (resolve t target v note aps r q) = resolved_rule t target v note aps r"
  by (simp add: resolve_def Let_def split: option.splits)

lemma resolved_rule_simps [simp]:
  "ar_state (resolved_rule t s v n aps r) = s"
  "ar_tenant_id (resolved_rule t s v n aps r) = ar_tenant_id r"
  "ar_action_id (resolved_rule t s v n aps r) = ar_action_id r"
  "ar_approvals (resolved_rule t s v n aps r) = aps"
  "ar_required_approvals (resolved_rule t s v n aps r) = ar_required_approvals r"
  "ar_eligible_approvers (resolved_rule t s v n aps r) = ar_eligible_approvers r"
  "ar_decided_at (resolved_rule t s v n aps r) = Some t"
  "ar_decided_by (resolved_rule t s v n aps r) = v"
  "ar_decision_note (resolved_rule t s v n aps r) = n"
  "same_order r (resolved_rule t s v n aps r)"
  by (simp_all add: resolved_rule_def same_order_def)

lemma aq_inv_resolve:
  assumes inv: "aq_inv q" and row: "aq_by_id q aid = Some r"
    and wf: "rule_wf (resolved_rule t target v note aps r)" and tgt: "target \<noteq> ''pending''"
  shows "aq_inv (snd (resolve t target v note aps r q))"
proof -
  have aid: "ar_action_id r = aid" using aq_invD(1) [OF inv row] .
  have index: "set (remove1 aid (get_list (aq_pending_by_tenant q) t')) =
      {a. pending_of (aq_by_id q) t' a} - {aid}" for t'
    using aq_invD(3) [OF inv, of t'] aq_invD(4) [OF inv, of _ t'] by auto
  have "\<not> pending_of (aq_by_id q) t' aid" if "t' \<noteq> ar_tenant_id r" for t'
    using that by (simp add: pending_of_row [of "aq_by_id q", OF row])
  with inv wf tgt index show ?thesis
    by (auto simp: aq_inv_def aid resolve_by_id resolve_pending split: if_splits)
qed

section \<open>The operations\<close>

lemma aq_enqueue_cases:
  obtains (error) e where "aq_enqueue u s aid t asg n pool q = (Inl e, q)"
      "e \<in> {ApprovalValueError, ApprovalValidationError}"
  | (existing) r where "aq_by_id q aid = Some r" "enqueue_args_ok aid t n pool"
      "aq_enqueue u s aid t asg n pool q = (Inr r, q)"
  | (added) r where "aq_by_id q aid = None" "enqueue_args_ok aid t n pool"
      "r = new_rule u s aid t asg n pool" "approval_rule_valid r"
      "aq_enqueue u s aid t asg n pool q =
         (Inr r, q\<lparr>aq_by_id := (aq_by_id q)(aid \<mapsto> r),
                   aq_pending_by_tenant := push (aq_pending_by_tenant q) t aid\<rparr>)"
proof (cases "enqueue_args_ok aid t n pool")
  case False
  then show thesis by (intro error) (auto simp: aq_enqueue_def)
next
  case ok: True
  show thesis
  proof (cases "aq_by_id q aid")
    case None
    show thesis
    proof (cases "approval_rule_valid (new_rule u s aid t asg n pool)")
      case True
      then show thesis
        by (intro added [OF None ok refl]) (use ok None in \<open>simp_all add: aq_enqueue_def Let_def\<close>)
    next
      case False
      with ok None show thesis by (intro error) (auto simp: aq_enqueue_def)
    qed
  next
    case (Some r)
    then show thesis by (rule existing [OF _ ok]) (use ok Some in \<open>simp add: aq_enqueue_def\<close>)
  qed
qed

lemma new_rule_simps [simp]:
  "ar_state (new_rule u s aid t asg n pool) = ''pending''"
  "ar_tenant_id (new_rule u s aid t asg n pool) = t"
  "ar_action_id (new_rule u s aid t asg n pool) = aid"
  "ar_approvals (new_rule u s aid t asg n pool) = []"
  "ar_required_approvals (new_rule u s aid t asg n pool) = n"
  "ar_eligible_approvers (new_rule u s aid t asg n pool) = pool"
  by (simp_all add: new_rule_def)

lemma aq_inv_enqueue:
  assumes "aq_inv q"
  shows "aq_inv (snd (aq_enqueue u s aid t asg n pool q))"
proof (cases rule: aq_enqueue_cases [of u s aid t asg n pool q])
  case (added r)
  have "\<not> pending_of (aq_by_id q) t' aid" for t'
    using added(1) by (simp add: pending_of_def)
  then show ?thesis
    using assms added(3) new_rule_wf [OF added(2), of u s asg]
    by (auto simp: added(5) aq_inv_def)
qed (use assms in auto)

text \<open>A vote or a veto: either it raises and changes nothing, or it moves its row one step.\<close>

lemma resolved_step:
  assumes "ar_state r = ''pending''" "check_eligible r v"
  shows "v = Some w \<Longrightarrow> w \<notin> set (ar_approvals r) \<Longrightarrow>
           ar_required_approvals r \<le> int (length (ar_approvals r)) + 1 \<Longrightarrow>
           row_step r (resolved_rule t ''approved'' v n (ar_approvals r @ [w]) r)"
    and "v = Some w \<Longrightarrow> w \<in> set (ar_approvals r) \<Longrightarrow> ar_required_approvals r \<le> 1 \<Longrightarrow>
           row_step r (resolved_rule t ''approved'' v n (ar_approvals r) r)"
    and "v = None \<Longrightarrow> ar_required_approvals r \<le> 1 \<Longrightarrow>
           row_step r (resolved_rule t ''approved'' v n (ar_approvals r) r)"
    and "row_step r (resolved_rule t ''rejected'' v n (ar_approvals r) r)"
  using assms
  by (auto simp: check_eligible_def may_vote_def split: option.splits intro: row_step.intros)

lemma aq_approve_step:
  obtains (error) e where "aq_approve t aid v q = (Inl e, q)"
      "e \<in> {ApprovalNotFoundError, ApprovalStateError, ApproverNotEligibleError,
            DuplicateApproverError}"
  | (partial) r r' where "aq_by_id q aid = Some r" "check_eligible r v" "row_step r r'"
      "ar_state r' = ''pending''"
      "aq_approve t aid v q = (Inr r', q\<lparr>aq_by_id := (aq_by_id q)(aid \<mapsto> r')\<rparr>)"
  | (resolved) r r' aps where "aq_by_id q aid = Some r" "check_eligible r v" "row_step r r'"
      "r' = resolved_rule t ''approved'' v None aps r"
      "aq_approve t aid v q = (Inr r', snd (resolve t ''approved'' v None aps r q))"
proof (cases "require_pending aid q")
  case (Inl e)
  then show thesis
    by (intro error [of e])
       (auto simp: aq_approve_def require_pending_def split: option.splits if_splits)
next
  case (Inr r)
  then have row: "aq_by_id q aid = Some r" and pend: "ar_state r = ''pending''"
    by (auto simp: require_pending_def split: option.splits if_splits)
  note def = aq_approve_def Inr Let_def case_prod_beta resolve_fst
  show thesis
  proof (cases "check_eligible r v")
    case False
    then show thesis by (intro error) (auto simp: def)
  next
    case True
    note step = resolved_step [OF pend True, where t = t and n = None]
    show thesis
    proof (cases v)
      case None
      show thesis
      proof (cases "ar_required_approvals r \<le> 1")
        case single: True
        show thesis
          by (rule resolved [OF row True step(3) [OF None single] refl])
             (use True None single in \<open>simp add: def\<close>)
      next
        case False
        with True None show thesis by (intro error) (auto simp: def)
      qed
    next
      case (Some w)
      let ?full = "ar_required_approvals r \<le> int (length (ar_approvals r)) + 1"
      consider (again) "w \<in> set (ar_approvals r)" "ar_required_approvals r \<le> 1"
        | (dup) "w \<in> set (ar_approvals r)" "\<not> ar_required_approvals r \<le> 1"
        | (full) "w \<notin> set (ar_approvals r)" ?full
        | (more) "w \<notin> set (ar_approvals r)" "\<not> ?full" by blast
      then show thesis
      proof cases
        case again
        show thesis
          by (rule resolved [OF row True step(2) [OF Some again] refl])
             (use True Some again in \<open>simp add: def\<close>)
      next
        case dup
        with True Some show thesis by (intro error) (auto simp: def)
      next
        case full
        show thesis
          by (rule resolved [OF row True step(1) [OF Some full] refl])
             (use True Some full in \<open>simp add: def\<close>)
      next
        case more
        let ?r' = "r\<lparr>ar_approvals := ar_approvals r @ [w], ar_row_version := ar_row_version r + 1\<rparr>"
        have "row_step r ?r'"
          using True Some more pend
          by (intro row_step.vote)
             (auto simp: check_eligible_def may_vote_def same_order_def split: option.splits)
        then show thesis
          by (rule partial [OF row True]) (use True Some more pend in \<open>auto simp: def\<close>)
      qed
    qed
  qed
qed

lemma aq_reject_step:
  obtains (error) e where "aq_reject t aid reason v q = (Inl e, q)"
      "e \<in> {ApprovalNotFoundError, ApprovalStateError, ApproverNotEligibleError}"
  | (resolved) r r' nt where "aq_by_id q aid = Some r" "check_eligible r v" "row_step r r'"
      "r' = resolved_rule t ''rejected'' v nt (ar_approvals r) r"
      "nt = (if reason = [] then None else Some reason)"
      "aq_reject t aid reason v q =
         (Inr r', snd (resolve t ''rejected'' v nt (ar_approvals r) r q))"
proof (cases "require_pending aid q")
  case (Inl e)
  then show thesis
    by (intro error [of e])
       (auto simp: aq_reject_def require_pending_def split: option.splits if_splits)
next
  case (Inr r)
  then have row: "aq_by_id q aid = Some r" and pend: "ar_state r = ''pending''"
    by (auto simp: require_pending_def split: option.splits if_splits)
  note def = aq_reject_def Inr Let_def case_prod_beta resolve_fst
  show thesis
  proof (cases "check_eligible r v")
    case False
    then show thesis by (intro error) (auto simp: def)
  next
    case True
    show thesis
      by (rule resolved [OF row True resolved_step(4) [OF pend True] refl refl])
         (use True in \<open>simp add: def\<close>)
  qed
qed

lemma aq_inv_approve:
  assumes inv: "aq_inv q"
  shows "aq_inv (snd (aq_approve t aid v q))"
proof (cases rule: aq_approve_step [of t aid v q])
  case (partial r r')
  have "rule_wf r'" using row_step_wf [OF partial(3)] aq_invD(2) [OF inv partial(1)] by simp
  then show ?thesis
    using aq_inv_update_pending [OF inv partial(1)] row_step_same_order [OF partial(3)]
      row_step_from_pending [OF partial(3)] partial(4) aq_invD(1) [OF inv partial(1)]
    by (simp add: partial(5) same_order_def)
next
  case (resolved r r' aps)
  have "rule_wf r'" using row_step_wf [OF resolved(3)] aq_invD(2) [OF inv resolved(1)] by simp
  then show ?thesis
    using aq_inv_resolve [OF inv resolved(1)] by (simp add: resolved(4,5))
qed (use inv in auto)

lemma aq_inv_reject:
  assumes inv: "aq_inv q"
  shows "aq_inv (snd (aq_reject t aid reason v q))"
proof (cases rule: aq_reject_step [of t aid reason v q])
  case (resolved r r' nt)
  have "rule_wf r'" using row_step_wf [OF resolved(3)] aq_invD(2) [OF inv resolved(1)] by simp
  then show ?thesis
    using aq_inv_resolve [OF inv resolved(1)] by (simp add: resolved(4,6))
qed (use inv in auto)

section \<open>The contract\<close>

datatype queue_call =
    Enqueue string time string string "string option" int "string list option"
  | Approve time string "string option"
  | Reject time string string "string option"

text \<open>
  What the pipeline and the HTTP surface rely on, for any implementation: \<open>rows\<close> is the
  table of rows, a call that raises changes nothing, and one that returns moves exactly one
  row by \<open>row_step\<close>.
\<close>

locale vote_queue =
  fixes rows :: "'q \<Rightarrow> string \<rightharpoonup> approval_rule"
    and inv :: "'q \<Rightarrow> bool"
    and enqueue :: "string \<Rightarrow> time \<Rightarrow> string \<Rightarrow> string \<Rightarrow> string option \<Rightarrow> int \<Rightarrow>
      string list option \<Rightarrow> 'q \<Rightarrow> (approval_error, approval_rule, 'q) outcome"
    and approve :: "time \<Rightarrow> string \<Rightarrow> string option \<Rightarrow> 'q \<Rightarrow>
      (approval_error, approval_rule, 'q) outcome"
    and reject :: "time \<Rightarrow> string \<Rightarrow> string \<Rightarrow> string option \<Rightarrow> 'q \<Rightarrow>
      (approval_error, approval_rule, 'q) outcome"
  assumes inv_enqueue: "inv q \<Longrightarrow> inv (snd (enqueue u s aid t asg n pool q))"
    and inv_approve: "inv q \<Longrightarrow> inv (snd (approve s aid v q))"
    and inv_reject: "inv q \<Longrightarrow> inv (snd (reject s aid reason v q))"
    and inv_rows: "inv q \<Longrightarrow> rows q aid = Some r \<Longrightarrow> ar_action_id r = aid \<and> rule_wf r"
    and enqueue_rows: "rows (snd (enqueue u s aid t asg n pool q)) = rows q \<or>
      rows q aid = None \<and> rows (snd (enqueue u s aid t asg n pool q)) =
        (rows q)(aid \<mapsto> new_rule u s aid t asg n pool)"
    and approve_raises: "fst (approve s aid v q) = Inl e \<Longrightarrow> snd (approve s aid v q) = q"
    and approve_returns: "inv q \<Longrightarrow> fst (approve s aid v q) = Inr r' \<Longrightarrow>
      \<exists>r. rows q aid = Some r \<and> row_step r r' \<and> ar_state r' \<noteq> ''rejected'' \<and>
          check_eligible r v \<and> rows (snd (approve s aid v q)) = (rows q)(aid \<mapsto> r')"
    and approve_accepts: "inv q \<Longrightarrow> rows q aid = Some r \<Longrightarrow> ar_state r = ''pending'' \<Longrightarrow>
      may_vote w r \<Longrightarrow> w \<notin> set (ar_approvals r) \<Longrightarrow> returned (approve s aid (Some w) q)"
    and approve_appends: "inv q \<Longrightarrow> rows q aid = Some r \<Longrightarrow>
      fst (approve s aid (Some w) q) = Inr r' \<Longrightarrow> ar_approvals r' = ar_approvals r @ [w]"
    and reject_raises: "fst (reject s aid reason v q) = Inl e \<Longrightarrow>
      snd (reject s aid reason v q) = q"
    and reject_returns: "inv q \<Longrightarrow> fst (reject s aid reason v q) = Inr r' \<Longrightarrow>
      \<exists>r. rows q aid = Some r \<and> row_step r r' \<and> ar_state r' = ''rejected'' \<and>
          check_eligible r v \<and> rows (snd (reject s aid reason v q)) = (rows q)(aid \<mapsto> r')"
begin

lemma approve_records:
  assumes "inv q" "fst (approve s aid (Some w) q) = Inr r'"
  shows "w \<in> set (ar_approvals r')"
  using approve_returns [OF assms] approve_appends [OF assms(1) _ assms(2)] by auto

fun call :: "queue_call \<Rightarrow> 'q \<Rightarrow> 'q" where
  "call (Enqueue u s aid t asg n pool) q = snd (enqueue u s aid t asg n pool q)"
| "call (Approve s aid v) q = snd (approve s aid v q)"
| "call (Reject s aid reason v) q = snd (reject s aid reason v q)"

lemma inv_call: "inv q \<Longrightarrow> inv (call c q)"
  by (cases c) (auto simp: inv_enqueue inv_approve inv_reject)

lemma inv_run: "inv q \<Longrightarrow> inv (fold call cs q)"
  by (induction cs arbitrary: q) (auto simp: inv_call)

text \<open>One call, seen from one row: it is absent and may appear, or it keeps or steps.\<close>

lemma call_row:
  assumes inv: "inv q" and row: "rows q aid = Some r"
  shows "rows (call c q) aid = Some r \<or>
    (\<exists>r'. rows (call c q) aid = Some r' \<and> row_step r r')"
proof (cases c)
  case (Enqueue u s aid' t asg n pool)
  then show ?thesis using enqueue_rows [of u s aid' t asg n pool q] row by auto
next
  case (Approve s aid' v)
  then show ?thesis
    using approve_returns [OF inv, of s aid' v] approve_raises [of s aid' v q] row
    by (cases "fst (approve s aid' v q)") fastforce+
next
  case (Reject s aid' reason v)
  then show ?thesis
    using reject_returns [OF inv, of s aid' reason v] reject_raises [of s aid' reason v q] row
    by (cases "fst (reject s aid' reason v q)") fastforce+
qed

lemma run_row:
  "inv q \<Longrightarrow> rows q aid = Some r \<Longrightarrow>
   \<exists>r'. rows (fold call cs q) aid = Some r' \<and> row_step\<^sup>*\<^sup>* r r'"
proof (induction cs arbitrary: q r)
  case (Cons c cs)
  from call_row [OF Cons.prems, of c]
  obtain r1 where r1: "rows (call c q) aid = Some r1" "row_step\<^sup>*\<^sup>* r r1" by blast
  from Cons.IH [OF inv_call [OF Cons.prems(1)] r1(1)]
  obtain r' where "rows (fold call cs (call c q)) aid = Some r'" "row_step\<^sup>*\<^sup>* r1 r'" by blast
  with r1(2) show ?case by (auto intro: rtranclp_trans)
qed auto

lemma resolved_final:
  assumes "inv q" "rows q aid = Some r" "ar_state r \<noteq> ''pending''"
  shows "rows (fold call cs q) aid = Some r"
proof -
  from run_row [OF assms(1,2)] obtain r' where r': "rows (fold call cs q) aid = Some r'"
    "row_step\<^sup>*\<^sup>* r r'" by blast
  from r'(2) assms(3) have "r' = r"
    by (cases rule: converse_rtranclpE) (auto dest: row_step_from_pending)
  with r'(1) show ?thesis by simp
qed

text \<open>
  Enough distinct eligible votes: the row stays pending until the last of them and is
  approved by it.
\<close>

lemma votes_pending:
  assumes "inv q" "rows q aid = Some r" "ar_state r = ''pending''"
    and "distinct vs" "\<forall>v \<in> set vs. may_vote v r \<and> v \<notin> set (ar_approvals r)"
    and "int (length (ar_approvals r) + length vs) < ar_required_approvals r"
  shows "\<exists>r'. rows (fold (\<lambda>v q. snd (approve s aid (Some v) q)) vs q) aid = Some r' \<and>
    ar_state r' = ''pending'' \<and> ar_approvals r' = ar_approvals r @ vs \<and>
    ar_required_approvals r' = ar_required_approvals r \<and>
    ar_eligible_approvers r' = ar_eligible_approvers r"
  using assms
proof (induction vs arbitrary: q r)
  case (Cons v vs)
  let ?q = "snd (approve s aid (Some v) q)"
  from approve_accepts [OF Cons.prems(1,2,3), of v s] Cons.prems(5)
  obtain r1 where ret: "fst (approve s aid (Some v) q) = Inr r1" by auto
  from approve_returns [OF Cons.prems(1) ret] Cons.prems(2)
  have step: "row_step r r1" "ar_state r1 \<noteq> ''rejected''" and row: "rows ?q aid = Some r1" by auto
  from approve_records [OF Cons.prems(1) ret] have "v \<in> set (ar_approvals r1)" .
  with step Cons.prems(4,5,6) have r1: "ar_state r1 = ''pending''"
      "ar_approvals r1 = ar_approvals r @ [v]" "same_order r r1"
    by (auto elim!: row_step.cases)
  have "\<exists>r'. rows (fold (\<lambda>v q. snd (approve s aid (Some v) q)) vs ?q) aid = Some r' \<and>
    ar_state r' = ''pending'' \<and> ar_approvals r' = ar_approvals r1 @ vs \<and>
    ar_required_approvals r' = ar_required_approvals r1 \<and>
    ar_eligible_approvers r' = ar_eligible_approvers r1"
    using Cons.prems(4,5,6) r1
    by (intro Cons.IH inv_approve Cons.prems(1) row) (auto simp: same_order_def may_vote_def)
  with r1 show ?case by (simp add: same_order_def)
qed simp

lemma votes_reach_quorum:
  assumes "inv q" "rows q aid = Some r" "ar_state r = ''pending''"
    and "distinct (vs @ [v])" "\<forall>w \<in> set (vs @ [v]). may_vote w r \<and> w \<notin> set (ar_approvals r)"
    and "int (length (ar_approvals r) + length vs) + 1 = ar_required_approvals r"
  shows "\<exists>r'. rows (fold (\<lambda>v q. snd (approve s aid (Some v) q)) (vs @ [v]) q) aid = Some r' \<and>
    ar_state r' = ''approved'' \<and> ar_approvals r' = ar_approvals r @ vs @ [v]"
proof -
  let ?vote = "\<lambda>v q. snd (approve s aid (Some v) q)"
  let ?q = "fold ?vote vs q"
  from votes_pending [OF assms(1-3), of vs s] assms(4-6)
  obtain r1 where r1: "rows ?q aid = Some r1" "ar_state r1 = ''pending''"
    "ar_approvals r1 = ar_approvals r @ vs"
    "ar_required_approvals r1 = ar_required_approvals r"
    "ar_eligible_approvers r1 = ar_eligible_approvers r" by auto
  have inv: "inv ?q" using assms(1) by (induction vs arbitrary: q) (auto simp: inv_approve)
  from approve_accepts [OF inv r1(1,2), of v s] assms(4,5) r1
  obtain r2 where ret: "fst (approve s aid (Some v) ?q) = Inr r2"
    by (auto simp: may_vote_def)
  from approve_returns [OF inv ret] r1(1)
  have step: "row_step r1 r2" "ar_state r2 \<noteq> ''rejected''" and row: "rows (?vote v ?q) aid = Some r2"
    by auto
  from approve_records [OF inv ret] have "v \<in> set (ar_approvals r2)" .
  with step r1 assms(4,5,6) have "ar_state r2 = ''approved''"
      "ar_approvals r2 = ar_approvals r1 @ [v]"
    by (auto elim!: row_step.cases)
  with row r1(3) show ?thesis by simp
qed

end

lemma aq_approve_appends:
  assumes "aq_inv q" "aq_by_id q aid = Some r" "fst (aq_approve s aid (Some w) q) = Inr r'"
  shows "ar_approvals r' = ar_approvals r @ [w]"
proof -
  have "rule_wf r" by (rule aq_invD(2) [OF assms(1,2)])
  with assms(2,3) show ?thesis
    by (cases "ar_approvals r")
       (auto simp: aq_approve_def require_pending_def rule_wf_def Let_def case_prod_beta
        resolve_fst split: sum.splits if_splits)
qed

text \<open>The pending lists of other tenants are not touched.\<close>

lemma aq_approve_pending:
  assumes "aq_inv q" "aq_by_id q aid = Some r" "t \<noteq> ar_tenant_id r"
  shows "get_list (aq_pending_by_tenant (snd (aq_approve s aid v q))) t =
    get_list (aq_pending_by_tenant q) t"
  by (cases rule: aq_approve_step [of s aid v q]) (use assms in \<open>auto simp: resolve_pending\<close>)

lemma aq_reject_pending:
  assumes "aq_inv q" "aq_by_id q aid = Some r" "t \<noteq> ar_tenant_id r"
  shows "get_list (aq_pending_by_tenant (snd (aq_reject s aid reason v q))) t =
    get_list (aq_pending_by_tenant q) t"
  by (cases rule: aq_reject_step [of s aid reason v q])
     (use assms in \<open>auto simp: resolve_pending\<close>)

lemma aq_approve_accepts:
  "aq_by_id q aid = Some r \<Longrightarrow> ar_state r = ''pending'' \<Longrightarrow> may_vote w r \<Longrightarrow>
   w \<notin> set (ar_approvals r) \<Longrightarrow> returned (aq_approve s aid (Some w) q)"
  by (auto simp: aq_approve_def require_pending_def check_eligible_def may_vote_def Let_def
      case_prod_beta split: option.splits)

interpretation vq: vote_queue aq_by_id aq_inv aq_enqueue aq_approve aq_reject
proof unfold_locales
  fix q :: approval_queue and aid s v
  show "fst (aq_approve s aid v q) = Inl e \<Longrightarrow> snd (aq_approve s aid v q) = q" for e
    by (cases rule: aq_approve_step [of s aid v q]) auto
  show "\<exists>r. aq_by_id q aid = Some r \<and> row_step r r' \<and> ar_state r' \<noteq> ''rejected'' \<and>
      check_eligible r v \<and> aq_by_id (snd (aq_approve s aid v q)) = (aq_by_id q)(aid \<mapsto> r')"
    if inv: "aq_inv q" and ret: "fst (aq_approve s aid v q) = Inr r'" for r'
    using ret aq_invD(1) [OF inv]
    by (cases rule: aq_approve_step [of s aid v q]) (auto simp: resolve_by_id)
  show "fst (aq_reject s aid reason v q) = Inl e \<Longrightarrow> snd (aq_reject s aid reason v q) = q"
    for e reason by (cases rule: aq_reject_step [of s aid reason v q]) auto
  show "\<exists>r. aq_by_id q aid = Some r \<and> row_step r r' \<and> ar_state r' = ''rejected'' \<and>
      check_eligible r v \<and>
      aq_by_id (snd (aq_reject s aid reason v q)) = (aq_by_id q)(aid \<mapsto> r')"
    if inv: "aq_inv q" and ret: "fst (aq_reject s aid reason v q) = Inr r'" for r' reason
    using ret aq_invD(1) [OF inv]
    by (cases rule: aq_reject_step [of s aid reason v q]) (auto simp: resolve_by_id)
next
  fix q :: approval_queue and u s aid t asg n pool
  show "aq_by_id (snd (aq_enqueue u s aid t asg n pool q)) = aq_by_id q \<or>
      aq_by_id q aid = None \<and> aq_by_id (snd (aq_enqueue u s aid t asg n pool q)) =
        (aq_by_id q)(aid \<mapsto> new_rule u s aid t asg n pool)"
    by (cases rule: aq_enqueue_cases [of u s aid t asg n pool q]) auto
qed (auto simp: aq_inv_enqueue aq_inv_approve aq_inv_reject aq_invD(1,2) aq_approve_appends
      intro: aq_approve_accepts)

end
