(* ===== verification/Approval_Queue_Spec.thy ===== *)
theory Approval_Queue_Spec
  imports Approval_Queue_Inv
begin

text \<open>
  The approval queue against its specification.  \<open>aq_run\<close> runs any sequence of calls from
  the empty queue; the specification keeps the rows as one list in arrival order and filters
  it, and \<open>aq_list_pending\<close> returns exactly that list.  The safety and liveness properties of
  N-of-M quorum follow from the contract \<open>vote_queue\<close>.
\<close>

section \<open>Runs\<close>

fun aq_call :: "queue_call \<Rightarrow> approval_queue \<Rightarrow> approval_queue" where
  "aq_call (Enqueue u s aid t asg n pool) q = snd (aq_enqueue u s aid t asg n pool q)"
| "aq_call (Approve s aid v) q = snd (aq_approve s aid v q)"
| "aq_call (Reject s aid reason v) q = snd (aq_reject s aid reason v q)"

definition aq_run :: "queue_call list \<Rightarrow> approval_queue \<Rightarrow> approval_queue" where
  "aq_run cs q = fold aq_call cs q"

lemma aq_call_eq: "aq_call = vq.call"
  by (intro ext, rename_tac c q, case_tac c) simp_all

lemma aq_run_eq: "aq_run cs q = fold vq.call cs q"
  by (simp add: aq_run_def aq_call_eq)

lemma aq_run_append [simp]: "aq_run (cs @ ds) q = aq_run ds (aq_run cs q)"
  by (simp add: aq_run_def)

lemma aq_run_inv [simp]: "aq_inv q \<Longrightarrow> aq_inv (aq_run cs q)"
  by (simp add: aq_run_eq vq.inv_run)

lemma aq_inv_call [simp]: "aq_inv q \<Longrightarrow> aq_inv (aq_call c q)"
  by (simp add: aq_call_eq vq.inv_call)

section \<open>The specification: one list in arrival order\<close>

definition spec_find :: "string \<Rightarrow> approval_rule list \<Rightarrow> approval_rule option" where
  "spec_find aid rs = find (\<lambda>r. ar_action_id r = aid) rs"

definition spec_put :: "approval_rule \<Rightarrow> approval_rule list \<Rightarrow> approval_rule list" where
  "spec_put r' rs = map (\<lambda>r. if ar_action_id r = ar_action_id r' then r' else r) rs"

definition spec_listing :: "string \<Rightarrow> approval_rule list \<Rightarrow> approval_rule list" where
  "spec_listing t rs = filter (\<lambda>r. ar_tenant_id r = t \<and> ar_state r = ''pending'') rs"

definition spec_vote :: "time \<Rightarrow> string option \<Rightarrow> approval_rule \<Rightarrow> approval_rule option" where
  \<comment> \<open>the row after an accepted vote, \<open>None\<close> when the vote is refused\<close>
  "spec_vote s v r =
     (if ar_state r \<noteq> ''pending'' \<or> \<not> check_eligible r v then None
      else if ar_required_approvals r \<le> 1
      then Some (resolved_rule s ''approved'' v None
             (case v of None \<Rightarrow> [] | Some w \<Rightarrow> [w]) r)
      else (case v of None \<Rightarrow> None | Some w \<Rightarrow>
        if w \<in> set (ar_approvals r) then None
        else if ar_required_approvals r \<le> int (length (ar_approvals r)) + 1
        then Some (resolved_rule s ''approved'' v None (ar_approvals r @ [w]) r)
        else Some (r\<lparr>ar_approvals := ar_approvals r @ [w],
                     ar_row_version := ar_row_version r + 1\<rparr>)))"

text \<open>
  A call of the concrete queue returns the row it leaves; the specification stores that row
  at the place of the old one, or at the end when the action is new.
\<close>

definition spec_store :: "string \<Rightarrow> approval_rule option \<Rightarrow> approval_rule list \<Rightarrow> approval_rule list" where
  "spec_store aid res rs =
     (case res of None \<Rightarrow> rs
      | Some r' \<Rightarrow> if spec_find aid rs = None then rs @ [r'] else spec_put r' rs)"

fun spec_call :: "queue_call \<Rightarrow> approval_rule list \<Rightarrow> approval_rule list" where
  "spec_call (Enqueue u s aid t asg n pool) rs =
     (let r = new_rule u s aid t asg n pool
      in if enqueue_args_ok aid t n pool \<and> spec_find aid rs = None \<and> approval_rule_valid r
         then rs @ [r] else rs)"
| "spec_call (Approve s aid v) rs =
     (case spec_find aid rs of None \<Rightarrow> rs
      | Some r \<Rightarrow> (case spec_vote s v r of None \<Rightarrow> rs | Some r' \<Rightarrow> spec_put r' rs))"
| "spec_call (Reject s aid reason v) rs =
     (case spec_find aid rs of None \<Rightarrow> rs
      | Some r \<Rightarrow>
          if ar_state r = ''pending'' \<and> check_eligible r v
          then spec_put (resolved_rule s ''rejected'' v
                 (if reason = [] then None else Some reason) (ar_approvals r) r) rs
          else rs)"

definition spec_run :: "queue_call list \<Rightarrow> approval_rule list" where
  "spec_run cs = fold spec_call cs []"

section \<open>The simulation\<close>

definition represents :: "approval_rule list \<Rightarrow> approval_queue \<Rightarrow> bool" where
  "represents rs q \<longleftrightarrow>
     distinct (map ar_action_id rs) \<and>
     (\<forall>aid. aq_by_id q aid = spec_find aid rs) \<and>
     (\<forall>t. get_list (aq_pending_by_tenant q) t = map ar_action_id (spec_listing t rs))"

lemma spec_find_Nil [simp]: "spec_find aid [] = None"
  by (simp add: spec_find_def)

lemma spec_find_snoc:
  "spec_find aid (rs @ [r]) =
     (case spec_find aid rs of Some x \<Rightarrow> Some x
      | None \<Rightarrow> if ar_action_id r = aid then Some r else None)"
  by (induction rs) (auto simp: spec_find_def)

lemma spec_find_None: "spec_find aid rs = None \<longleftrightarrow> aid \<notin> ar_action_id ` set rs"
  by (auto simp: spec_find_def find_None_iff)

lemma spec_find_Some_id: "spec_find aid rs = Some r \<Longrightarrow> ar_action_id r = aid \<and> r \<in> set rs"
  by (auto simp: spec_find_def find_Some_iff)

lemma spec_put_ids [simp]: "map ar_action_id (spec_put r rs) = map ar_action_id rs"
  by (simp add: spec_put_def)

lemma spec_find_put:
  "spec_find aid (spec_put r rs) =
     (if aid = ar_action_id r then map_option (\<lambda>_. r) (spec_find aid rs) else spec_find aid rs)"
  by (induction rs) (auto simp: spec_find_def spec_put_def)

lemma spec_find_member:
  "distinct (map ar_action_id rs) \<Longrightarrow> r \<in> set rs \<Longrightarrow> spec_find (ar_action_id r) rs = Some r"
  by (induction rs) (auto simp: spec_find_def rev_image_eqI)

text \<open>The listing after a row is replaced: still pending, or gone.\<close>

lemma listing_put_pending:
  assumes "distinct (map ar_action_id rs)" "spec_find aid rs = Some r" "ar_action_id r' = aid"
    and "ar_tenant_id r' = ar_tenant_id r" "ar_state r = ''pending''" "ar_state r' = ''pending''"
  shows "map ar_action_id (spec_listing t (spec_put r' rs)) = map ar_action_id (spec_listing t rs)"
proof -
  have "map ar_action_id (filter P (spec_put r' ss)) = map ar_action_id (filter P ss)"
    if "set ss \<subseteq> set rs" and P: "P = (\<lambda>r. ar_tenant_id r = t \<and> ar_state r = ''pending'')" for P ss
    using that(1)
  proof (induction ss)
    case (Cons x ss)
    have "x = r" if "ar_action_id x = aid"
      using spec_find_member [OF assms(1), of x] assms(2) Cons.prems that by auto
    with Cons show ?case using assms(3-6) by (auto simp: spec_put_def P)
  qed (simp add: spec_put_def)
  then show ?thesis unfolding spec_listing_def by blast
qed

lemma listing_put_resolved:
  assumes "distinct (map ar_action_id rs)" "spec_find aid rs = Some r" "ar_action_id r' = aid"
    and "ar_tenant_id r' = ar_tenant_id r" "ar_state r' \<noteq> ''pending''"
  shows "map ar_action_id (spec_listing t (spec_put r' rs)) =
    (if t = ar_tenant_id r then remove1 aid (map ar_action_id (spec_listing t rs))
     else map ar_action_id (spec_listing t rs))"
proof -
  let ?P = "\<lambda>r. ar_tenant_id r = t \<and> ar_state r = ''pending''"
  have gone: "map ar_action_id (filter ?P (spec_put r' ss)) =
      filter (\<lambda>a. a \<noteq> aid) (map ar_action_id (filter ?P ss))" for ss
    by (induction ss) (use assms(3,5) in \<open>auto simp: spec_put_def\<close>)
  have dist: "distinct (map ar_action_id (filter ?P rs))"
    using assms(1) by (induction rs) auto
  have "aid \<notin> set (map ar_action_id (filter ?P rs))" if "t \<noteq> ar_tenant_id r"
    using spec_find_member [OF assms(1)] assms(2) that by fastforce
  then have "filter (\<lambda>a. a \<noteq> aid) (map ar_action_id (filter ?P rs)) =
      map ar_action_id (filter ?P rs)" if "t \<noteq> ar_tenant_id r"
    using that by (intro filter_True) auto
  with gone [of rs] dist show ?thesis
    unfolding spec_listing_def by (auto simp: distinct_remove1_removeAll removeAll_filter_not_eq eq_commute)
qed

lemma represents_put_pending:
  assumes "represents rs q" "aq_by_id q aid = Some r" "ar_action_id r' = aid"
    "ar_tenant_id r' = ar_tenant_id r" "ar_state r = ''pending''" "ar_state r' = ''pending''"
  shows "represents (spec_put r' rs) (q\<lparr>aq_by_id := (aq_by_id q)(aid \<mapsto> r')\<rparr>)"
  using assms listing_put_pending [of rs aid r r'] spec_find_put [of _ r' rs]
  by (auto simp: represents_def)

lemma represents_put_resolved:
  assumes rep: "represents rs q" and row: "aq_by_id q aid = Some r" and aid: "ar_action_id r = aid"
    and "target \<noteq> ''pending''"
  shows "represents (spec_put (resolved_rule t target v nt aps r) rs)
           (snd (resolve t target v nt aps r q))"
  using assms listing_put_resolved [of rs aid r "resolved_rule t target v nt aps r"]
    spec_find_put [of _ "resolved_rule t target v nt aps r" rs]
  by (auto simp: represents_def resolve_by_id resolve_pending)

lemma spec_vote_refused:
  "aq_by_id q aid = Some r \<Longrightarrow> fst (aq_approve s aid v q) = Inl e \<Longrightarrow> spec_vote s v r = None"
  by (auto simp: aq_approve_def require_pending_def spec_vote_def Let_def case_prod_beta
      split: option.splits if_splits)

lemma rule_wf_single:
  "rule_wf r \<Longrightarrow> ar_state r = ''pending'' \<Longrightarrow> ar_required_approvals r \<le> 1 \<Longrightarrow> ar_approvals r = []"
  by (auto simp: rule_wf_def split: option.splits)

lemma spec_vote_accepted:
  "aq_by_id q aid = Some r \<Longrightarrow> fst (aq_approve s aid v q) = Inr r' \<Longrightarrow> rule_wf r \<Longrightarrow>
   spec_vote s v r = Some r'"
  using rule_wf_single [of r]
  by (auto simp: aq_approve_def require_pending_def spec_vote_def Let_def case_prod_beta
      resolve_fst split: option.splits if_splits)

lemma represents_enqueue:
  assumes "represents rs q"
  shows "represents (spec_call (Enqueue u s aid t asg n pool) rs)
           (snd (aq_enqueue u s aid t asg n pool q))"
proof -
  have find: "spec_find aid rs = aq_by_id q aid" using assms by (simp add: represents_def)
  show ?thesis
  proof (cases rule: aq_enqueue_cases [of u s aid t asg n pool q])
    case (added r)
    then show ?thesis
      using assms find spec_find_None [of aid rs]
      by (auto simp: represents_def Let_def spec_find_snoc spec_listing_def split: option.splits)
  qed (use assms in \<open>auto simp: find Let_def aq_enqueue_def split: option.splits if_splits\<close>)
qed

lemma represents_approve:
  assumes rep: "represents rs q" and inv: "aq_inv q"
  shows "represents (spec_call (Approve s aid v) rs) (snd (aq_approve s aid v q))"
proof -
  have find: "spec_find aid rs = aq_by_id q aid" using rep by (simp add: represents_def)
  show ?thesis
  proof (cases rule: aq_approve_step [of s aid v q])
    case (error e)
    then show ?thesis
      using rep spec_vote_refused [of q aid _ s v e] by (auto simp: find split: option.splits)
  next
    case (partial r r')
    have "spec_vote s v r = Some r'"
      using spec_vote_accepted [OF partial(1)] partial(5) aq_invD(2) [OF inv partial(1)] by simp
    then show ?thesis
      using represents_put_pending [OF rep partial(1), of r'] partial row_step_same_order [OF partial(3)]
        row_step_from_pending [OF partial(3)] aq_invD(1) [OF inv partial(1)]
      by (simp add: find same_order_def)
  next
    case (resolved r r' aps)
    have "spec_vote s v r = Some r'"
      using spec_vote_accepted [OF resolved(1)] resolved(5) aq_invD(2) [OF inv resolved(1)] by simp
    then show ?thesis
      using represents_put_resolved [OF rep resolved(1) aq_invD(1) [OF inv resolved(1)]] resolved
      by (simp add: find)
  qed
qed

lemma represents_reject:
  assumes rep: "represents rs q" and inv: "aq_inv q"
  shows "represents (spec_call (Reject s aid reason v) rs) (snd (aq_reject s aid reason v q))"
proof -
  have find: "spec_find aid rs = aq_by_id q aid" using rep by (simp add: represents_def)
  show ?thesis
  proof (cases rule: aq_reject_step [of s aid reason v q])
    case (error e)
    then show ?thesis
      using rep by (auto simp: find aq_reject_def require_pending_def Let_def case_prod_beta
          split: option.splits if_splits)
  next
    case (resolved r r' nt)
    then show ?thesis
      using represents_put_resolved [OF rep resolved(1) aq_invD(1) [OF inv resolved(1)],
          of "''rejected''"] row_step_from_pending [OF resolved(3)]
      by (auto simp: find)
  qed
qed

lemma represents_call: "represents rs q \<Longrightarrow> aq_inv q \<Longrightarrow> represents (spec_call c rs) (aq_call c q)"
  by (cases c) (simp_all only: aq_call.simps represents_enqueue represents_approve represents_reject)

lemma represents_run:
  "represents rs q \<Longrightarrow> aq_inv q \<Longrightarrow> represents (fold spec_call cs rs) (fold aq_call cs q)"
  by (induction cs arbitrary: rs q) (auto simp: represents_call)

lemma represents_new: "represents [] aq_new"
  by (simp add: represents_def aq_new_def spec_listing_def)

lemma represents_list_pending:
  assumes "represents rs q"
  shows "aq_list_pending t q = spec_listing t rs"
proof -
  have "List.map_filter (\<lambda>a. spec_find a rs) (map ar_action_id ss) = ss" if "set ss \<subseteq> set rs" for ss
    using that spec_find_member [of rs] assms
    by (induction ss) (auto simp: represents_def List.map_filter_simps)
  moreover have "set (spec_listing t rs) \<subseteq> set rs" by (auto simp: spec_listing_def)
  moreover have "aq_by_id q = (\<lambda>a. spec_find a rs)"
    using assms by (auto simp: represents_def)
  ultimately show ?thesis
    using assms by (simp add: aq_list_pending_def represents_def)
qed

section \<open>Properties\<close>

text \<open>
  C12. After any sequence of enqueue, approve and reject calls, the pending list of a tenant
  is the tenant's pending rows in arrival order (FIFO), each with its current votes, and
  nothing else; a lookup by action id finds the row the specification holds.
\<close>

theorem queue_refines_arrival_list:
  "aq_list_pending t (aq_run cs aq_new) = spec_listing t (spec_run cs) \<and>
   aq_get aid (aq_run cs aq_new) = spec_find aid (spec_run cs)"
proof -
  have "represents (spec_run cs) (aq_run cs aq_new)"
    unfolding spec_run_def aq_run_def by (rule represents_run) (simp_all add: represents_new)
  then show ?thesis
    by (simp add: represents_list_pending) (simp add: represents_def aq_get_def)
qed

text \<open>
  Re-decisioning is impossible: once a row has left \<open>pending\<close>, no further sequence of
  calls (votes, vetoes or re-enqueues, for this or any action) changes it in any field.
\<close>

theorem resolved_row_is_final:
  assumes "aq_get aid (aq_run cs aq_new) = Some r" and "ar_state r \<noteq> ''pending''"
  shows "aq_get aid (aq_run (cs @ ds) aq_new) = Some r"
  using vq.resolved_final [of "aq_run cs aq_new" aid r ds] assms
  by (simp add: aq_get_def aq_run_def aq_call_eq vq.inv_run)

definition demo_calls :: "queue_call list" where
  "demo_calls =
     [Enqueue ''u1'' 1 ''act_1'' ''acme'' None 2 (Some [''alice'', ''bob'', ''carol'']),
      Approve 2 ''act_1'' (Some ''alice''),
      Approve 3 ''act_1'' (Some ''bob'')]"

lemma demo_calls_row:
  "map_option (\<lambda>r. (ar_state r, ar_approvals r, ar_required_approvals r, ar_decided_by r))
     (aq_get ''act_1'' (aq_run demo_calls aq_new)) =
   Some (''approved'', [''alice'', ''bob''], 2, Some ''bob'')"
  by code_simp

theorem resolved_row_is_final_witness:
  "\<exists>r. ar_state r = ''approved'' \<and>
    aq_get ''act_1'' (aq_run (demo_calls @ [Approve 4 ''act_1'' (Some ''carol'')]) aq_new) = Some r"
proof -
  obtain r where r: "aq_get ''act_1'' (aq_run demo_calls aq_new) = Some r" "ar_state r = ''approved''"
    using demo_calls_row by auto
  then have "aq_get ''act_1'' (aq_run (demo_calls @ [Approve 4 ''act_1'' (Some ''carol'')]) aq_new) = Some r"
    by (intro resolved_row_is_final) simp_all
  with r(2) show ?thesis by blast
qed

text \<open>
  Quorum safety: a row that is approved after any sequence of calls carries exactly the
  required number of votes, all from different voters of its pool, and the pool is large
  enough; the one exception is the single-approver row without a pool that an anonymous
  caller approved.
\<close>

theorem approved_row_has_quorum:
  assumes "aq_get aid (aq_run cs aq_new) = Some r" and "ar_state r = ''approved''"
  shows "distinct (ar_approvals r) \<and>
    (int (length (ar_approvals r)) = ar_required_approvals r \<or>
     ar_required_approvals r = 1 \<and> ar_decided_by r = None \<and> ar_eligible_approvers r = None) \<and>
    (\<forall>v \<in> set (ar_approvals r). may_vote v r)"
proof -
  have "rule_wf r"
    using aq_invD(2) [of "aq_run cs aq_new"] assms(1) by (simp add: aq_get_def)
  with assms(2) show ?thesis
    by (auto simp: rule_wf_def may_vote_def split: option.splits)
qed

theorem approved_row_has_quorum_witness:
  "\<exists>r. aq_get ''act_1'' (aq_run demo_calls aq_new) = Some r \<and> length (ar_approvals r) = 2 \<and>
    distinct (ar_approvals r)"
proof -
  obtain r where r: "aq_get ''act_1'' (aq_run demo_calls aq_new) = Some r"
    "ar_state r = ''approved''" "ar_required_approvals r = 2"
    using demo_calls_row by auto
  from approved_row_has_quorum [OF r(1,2)] r show ?thesis by auto
qed

text \<open>
  C13. Quorum liveness: N-of-M can always be completed.  From any pending row, distinct
  eligible voters who have not voted yet resolve it to \<open>approved\<close> exactly with the vote that
  makes the tally N: before it the row is still pending, after it the votes are recorded in
  order.
\<close>

definition vote_all :: "time \<Rightarrow> string \<Rightarrow> string list \<Rightarrow> queue_call list" where
  "vote_all s aid vs = map (\<lambda>v. Approve s aid (Some v)) vs"

theorem quorum_is_reached:
  assumes "aq_get aid (aq_run cs aq_new) = Some r" and "ar_state r = ''pending''"
    and "distinct (vs @ [v])" and "\<forall>w \<in> set (vs @ [v]). may_vote w r \<and> w \<notin> set (ar_approvals r)"
    and "int (length (vs @ [v])) = approvals_remaining r"
  shows "\<exists>r1 r2. aq_get aid (aq_run (cs @ vote_all s aid vs) aq_new) = Some r1 \<and>
      ar_state r1 = ''pending'' \<and> ar_approvals r1 = ar_approvals r @ vs \<and>
      aq_get aid (aq_run (cs @ vote_all s aid (vs @ [v])) aq_new) = Some r2 \<and>
      ar_state r2 = ''approved'' \<and> ar_approvals r2 = ar_approvals r @ vs @ [v]"
proof -
  let ?q = "aq_run cs aq_new"
  have inv: "aq_inv ?q" by simp
  have row: "aq_by_id ?q aid = Some r" using assms(1) by (simp add: aq_get_def)
  have run: "aq_run (vote_all s aid ws) q = fold (\<lambda>v q. snd (aq_approve s aid (Some v) q)) ws q" for ws q
    by (induction ws arbitrary: q) (simp_all add: aq_run_def vote_all_def)
  have "int (length (ar_approvals r) + length vs) + 1 = ar_required_approvals r"
    using assms(5) by (simp add: approvals_remaining_def max_def split: if_splits)
  then show ?thesis
    using vq.votes_pending [OF inv row assms(2), of vs s]
      vq.votes_reach_quorum [OF inv row assms(2-4), of s] assms(3,4)
    by (auto simp: aq_get_def run)
qed

theorem quorum_is_reached_witness:
  "\<exists>r2. aq_get ''act_1'' (aq_run (take 2 demo_calls @ vote_all 9 ''act_1'' [''carol'']) aq_new) = Some r2 \<and>
    ar_state r2 = ''approved'' \<and> ar_approvals r2 = [''alice'', ''carol'']"
proof -
  have "map_option (\<lambda>r. (ar_state r, ar_approvals r, ar_required_approvals r, ar_eligible_approvers r))
     (aq_get ''act_1'' (aq_run (take 2 demo_calls) aq_new)) =
     Some (''pending'', [''alice''], 2, Some [''alice'', ''bob'', ''carol''])"
    by code_simp
  then obtain r where r: "aq_get ''act_1'' (aq_run (take 2 demo_calls) aq_new) = Some r"
    "ar_state r = ''pending''" "ar_approvals r = [''alice'']" "ar_required_approvals r = 2"
    "ar_eligible_approvers r = Some [''alice'', ''bob'', ''carol'']" by auto
  have "\<forall>w \<in> set ([] @ [''carol'']). may_vote w r \<and> w \<notin> set (ar_approvals r)"
    and "int (length ([] @ [''carol''])) = approvals_remaining r"
    using r by (simp_all add: may_vote_def approvals_remaining_def)
  from quorum_is_reached [OF r(1,2) _ this, of 9] r(3) show ?thesis by auto
qed

definition vote_refusal :: "string option \<Rightarrow> approval_rule option \<Rightarrow> approval_error option" where
  "vote_refusal v row =
     (case row of
        None \<Rightarrow> Some ApprovalNotFoundError
      | Some r \<Rightarrow>
          if ar_state r \<noteq> ''pending'' then Some ApprovalStateError
          else if \<not> check_eligible r v \<or> v = None \<and> 1 < ar_required_approvals r
          then Some ApproverNotEligibleError
          else if 1 < ar_required_approvals r \<and> v \<in> Some ` set (ar_approvals r)
          then Some DuplicateApproverError
          else None)"

text \<open>
  What a vote is refused for: \<open>approve\<close> raises exactly when the action has no row, its row
  is already resolved, the voter is outside the pool (or unnamed on a row that needs more
  than one approval), or has voted on it before, in this order of precedence; a refused vote
  leaves the queue as it was, and every other vote returns.
\<close>

theorem approve_refusals:
  "case vote_refusal v (aq_get aid q) of
     Some e \<Rightarrow> aq_approve s aid v q = (Inl e, q)
   | None \<Rightarrow> returned (aq_approve s aid v q)"
  by (auto simp: vote_refusal_def aq_approve_def require_pending_def aq_get_def Let_def
      case_prod_beta split: option.splits)

end
