(* ===== verification/Policy.thy ===== *)
theory Policy
  imports Contracts
begin

text \<open>
  The dictionary-backed policy engines of \<open>orchestrator/policy/\<close>: the declarative champion
  (\<open>declarative.py\<close>) and the compiled Python rules (\<open>python_rules.py\<close>), with the
  \<open>PolicyEngine\<close> protocol as a locale that both satisfy.  The locale's laws determine
  \<open>decide\<close> completely, so two engines configured alike decide alike.
\<close>

datatype policy_error =
    PolicyValueError
  | UnknownPolicyDecisionError

type_synonym policy_table = "(string \<times> policy_decision) list"

section \<open>Normalisation\<close>

definition default_key :: string where
  "default_key = ''default''"

definition wildcard_key :: string where
  "wildcard_key = ''*''"

definition normalize_decision :: "string \<Rightarrow> policy_error + policy_decision" where
  "normalize_decision s =
     (case policy_decision_of s of
        None \<Rightarrow> Inl UnknownPolicyDecisionError
      | Some d \<Rightarrow> Inr d)"

text \<open>An action type is passed as the enumeration or as a plain string.\<close>

datatype action_key = Enum action_type | Raw string

fun normalize_action_type :: "action_key \<Rightarrow> string" where
  "normalize_action_type (Enum a) = action_type_value a"
| "normalize_action_type (Raw s) = s"

text \<open>
  The loop of \<open>set_policies\<close>: every value has to be a string and a known decision.  The two
  engines raise different errors for a value that is not a string.
\<close>

fun normalize_table :: "policy_error \<Rightarrow> (string \<times> json) list \<Rightarrow> policy_table \<Rightarrow>
    policy_error + policy_table" where
  "normalize_table err [] acc = Inr acc"
| "normalize_table err ((key, JStr s) # rest) acc =
     (case normalize_decision s of
        Inl e \<Rightarrow> Inl e
      | Inr d \<Rightarrow> normalize_table err rest (AList.update key d acc))"
| "normalize_table err ((key, value) # rest) acc = Inl err"

text \<open>The lookup order: exact key, \<open>"default"\<close>, \<open>"*"\<close>, then the safe default.\<close>

definition resolve_table :: "(string \<rightharpoonup> policy_decision) \<Rightarrow> string \<Rightarrow> policy_decision" where
  "resolve_table table key =
     (case table key of Some d \<Rightarrow> d
      | None \<Rightarrow> (case table default_key of Some d \<Rightarrow> d
      | None \<Rightarrow> (case table wildcard_key of Some d \<Rightarrow> d
      | None \<Rightarrow> APPROVAL_REQUIRED)))"

section \<open>The declarative engine\<close>

record declarative_engine =
  de_by_tenant :: "string \<rightharpoonup> policy_table"

definition de_new :: declarative_engine where
  "de_new = \<lparr>de_by_tenant = Map.empty\<rparr>"

definition de_set_policies :: "string \<Rightarrow> (string \<times> json) list \<Rightarrow> declarative_engine \<Rightarrow>
    (policy_error, unit, declarative_engine) outcome" where
  "de_set_policies tenant policies e =
     (if tenant = [] then (Inl PolicyValueError, e)
      else case normalize_table UnknownPolicyDecisionError policies [] of
        Inl err \<Rightarrow> (Inl err, e)
      | Inr t \<Rightarrow> (Inr (), e\<lparr>de_by_tenant := (de_by_tenant e)(tenant \<mapsto> t)\<rparr>))"

definition de_decide :: "string \<Rightarrow> action_key \<Rightarrow> declarative_engine \<Rightarrow> policy_decision" where
  "de_decide tenant a e =
     (case de_by_tenant e tenant of
        None \<Rightarrow> APPROVAL_REQUIRED
      | Some t \<Rightarrow> resolve_table (map_of t) (normalize_action_type a))"

definition de_policies_for :: "string \<Rightarrow> declarative_engine \<Rightarrow> (string \<times> string) list" where
  "de_policies_for tenant e =
     (case de_by_tenant e tenant of
        None \<Rightarrow> []
      | Some t \<Rightarrow> map (\<lambda>(k, d). (k, policy_decision_value d)) t)"

definition de_clear :: "declarative_engine \<Rightarrow> declarative_engine" where
  "de_clear e = e\<lparr>de_by_tenant := Map.empty\<rparr>"

section \<open>The Python-rules engine\<close>

text \<open>
  A tenant's policies are compiled into a closure that is kept beside the raw table.  The
  event context is accepted and dropped, so the handler is a function of the action type.
\<close>

record python_engine =
  pe_handlers :: "string \<rightharpoonup> (string \<Rightarrow> policy_decision)"
  pe_raw_tables :: "string \<rightharpoonup> policy_table"

definition pe_new :: python_engine where
  "pe_new = \<lparr>pe_handlers = Map.empty, pe_raw_tables = Map.empty\<rparr>"

definition compile_handler :: "policy_table \<Rightarrow> string \<Rightarrow> policy_decision" where
  "compile_handler normalized =
     (\<lambda>action_type.
        if map_of normalized action_type \<noteq> None
        then the (map_of normalized action_type)
        else if map_of normalized default_key \<noteq> None
        then the (map_of normalized default_key)
        else if map_of normalized wildcard_key \<noteq> None
        then the (map_of normalized wildcard_key)
        else APPROVAL_REQUIRED)"

definition pe_set_policies :: "string \<Rightarrow> (string \<times> json) list \<Rightarrow> python_engine \<Rightarrow>
    (policy_error, unit, python_engine) outcome" where
  "pe_set_policies tenant policies e =
     (if tenant = [] then (Inl PolicyValueError, e)
      else case normalize_table PolicyValueError policies [] of
        Inl err \<Rightarrow> (Inl err, e)
      | Inr t \<Rightarrow> (Inr (), e\<lparr>pe_handlers := (pe_handlers e)(tenant \<mapsto> compile_handler t),
                           pe_raw_tables := (pe_raw_tables e)(tenant \<mapsto> t)\<rparr>))"

definition pe_decide :: "string \<Rightarrow> action_key \<Rightarrow> python_engine \<Rightarrow> policy_decision" where
  "pe_decide tenant a e =
     (case pe_handlers e tenant of
        None \<Rightarrow> APPROVAL_REQUIRED
      | Some handler \<Rightarrow> handler (normalize_action_type a))"

definition pe_policies_for :: "string \<Rightarrow> python_engine \<Rightarrow> (string \<times> string) list" where
  "pe_policies_for tenant e =
     (case pe_raw_tables e tenant of
        None \<Rightarrow> []
      | Some t \<Rightarrow> map (\<lambda>(k, d). (k, policy_decision_value d)) t)"

definition pe_clear :: "python_engine \<Rightarrow> python_engine" where
  "pe_clear e = e\<lparr>pe_handlers := Map.empty, pe_raw_tables := Map.empty\<rparr>"

section \<open>Facts about the tables\<close>

fun well_typed :: "(string \<times> json) list \<Rightarrow> bool" where
  "well_typed [] = True"
| "well_typed ((k, JStr s) # rest) = (policy_decision_of s \<noteq> None \<and> well_typed rest)"
| "well_typed ((k, v) # rest) = False"

fun decisions :: "(string \<times> json) list \<Rightarrow> string \<rightharpoonup> policy_decision" where
  "decisions [] = Map.empty"
| "decisions ((k, v) # rest) =
     (case v of
        JStr s \<Rightarrow> decisions rest ++ (if k \<in> dom (decisions rest) then Map.empty
                                   else [k \<mapsto> the (policy_decision_of s)])
      | _ \<Rightarrow> decisions rest)"

lemma normalize_decision_Inr [simp]:
  "normalize_decision s = Inr d \<longleftrightarrow> policy_decision_of s = Some d"
  by (simp add: normalize_decision_def split: option.splits)

lemma normalize_table_ok:
  "well_typed ps \<longleftrightarrow> (\<exists>t. normalize_table err ps acc = Inr t)"
  by (induction err ps acc rule: normalize_table.induct)
     (auto simp: normalize_decision_def split: option.splits)

lemma normalize_table_map_of:
  "normalize_table err ps acc = Inr t \<Longrightarrow> map_of t = map_of acc ++ decisions ps"
proof (induction err ps acc arbitrary: t rule: normalize_table.induct)
  case (2 err key s rest acc)
  then obtain d where d: "policy_decision_of s = Some d"
    and t: "normalize_table err rest (AList.update key d acc) = Inr t"
    by (auto simp: normalize_decision_def split: option.splits)
  have "map_of t = map_of (AList.update key d acc) ++ decisions rest"
    using "2.IH" [of d] d t by simp
  with d show ?case
    by (auto simp: fun_eq_iff update_conv map_add_def split: option.splits)
qed auto

lemma compile_handler_resolve: "compile_handler t = resolve_table (map_of t)"
  by (auto simp: fun_eq_iff compile_handler_def resolve_table_def split: option.splits)

text \<open>The decision after a run, read off the run: the last accepted table of the tenant.\<close>

fun last_table :: "string \<Rightarrow> (string \<times> (string \<times> json) list) list \<Rightarrow> (string \<rightharpoonup> policy_decision) option" where
  "last_table t [] = None"
| "last_table t ((tenant, ps) # cs) =
     (case last_table t cs of Some m \<Rightarrow> Some m
      | None \<Rightarrow> if tenant = t \<and> t \<noteq> [] \<and> well_typed ps then Some (decisions ps) else None)"

section \<open>The protocol\<close>

text \<open>
  What the pipeline relies on: a configuration call that returns installs exactly the
  table it was given for exactly its tenant, one that raises changes nothing, and a tenant
  without a table gets the safe default.
\<close>

locale policy_engine =
  fixes init :: "'e"
    and set_policies :: "string \<Rightarrow> (string \<times> json) list \<Rightarrow> 'e \<Rightarrow> (policy_error, unit, 'e) outcome"
    and decide :: "string \<Rightarrow> action_key \<Rightarrow> 'e \<Rightarrow> policy_decision"
  assumes decide_init: "decide tenant a init = APPROVAL_REQUIRED"
    and set_raises_iff: "raised (set_policies tenant ps e) \<longleftrightarrow> tenant = [] \<or> \<not> well_typed ps"
    and set_raises_frame: "raised (set_policies tenant ps e) \<Longrightarrow> snd (set_policies tenant ps e) = e"
    and decide_set: "returned (set_policies tenant ps e) \<Longrightarrow>
          decide t' a (snd (set_policies tenant ps e)) =
            (if t' = tenant
             then resolve_table (decisions ps) (normalize_action_type a)
             else decide t' a e)"
begin

text \<open>A run of configuration calls, each of which may raise and is then skipped.\<close>

definition configure :: "(string \<times> (string \<times> json) list) list \<Rightarrow> 'e \<Rightarrow> 'e" where
  "configure cs e = fold (\<lambda>(tenant, ps) e. snd (set_policies tenant ps e)) cs e"

lemma returned_iff: "returned (set_policies tenant ps e) \<longleftrightarrow> tenant \<noteq> [] \<and> well_typed ps"
  using set_raises_iff [of tenant ps e] by (cases "fst (set_policies tenant ps e)") auto

lemma set_other_tenant:
  "t' \<noteq> tenant \<Longrightarrow> decide t' a (snd (set_policies tenant ps e)) = decide t' a e"
  using decide_set [of tenant ps e t' a] set_raises_frame [of tenant ps e]
  by (cases "fst (set_policies tenant ps e)") auto

lemma configure_tenant_isolation:
  "\<forall>(tenant, ps) \<in> set cs. tenant \<noteq> t' \<Longrightarrow> decide t' a (configure cs e) = decide t' a e"
  by (induction cs arbitrary: e) (auto simp: configure_def set_other_tenant)

lemma decide_configure:
  "decide t a (configure cs e) =
     (case last_table t cs of
        None \<Rightarrow> decide t a e
      | Some m \<Rightarrow> resolve_table m (normalize_action_type a))"
proof (induction cs arbitrary: e)
  case Nil
  then show ?case by (simp add: configure_def)
next
  case (Cons c cs)
  obtain tenant ps where c: "c = (tenant, ps)" by (cases c)
  have "configure (c # cs) e = configure cs (snd (set_policies tenant ps e))"
    by (simp add: configure_def c)
  moreover have "decide t a (snd (set_policies tenant ps e)) = decide t a e"
    if "\<not> (tenant = t \<and> t \<noteq> [] \<and> well_typed ps)"
    using that set_raises_frame [of tenant ps e] set_raises_iff [of tenant ps e]
      set_other_tenant [of t tenant a ps e] by (cases "tenant = t") auto
  moreover have "decide t a (snd (set_policies t ps e)) =
      resolve_table (decisions ps) (normalize_action_type a)" if "t \<noteq> []" "well_typed ps"
    using decide_set [OF returned_iff [THEN iffD2, OF conjI [OF that]], of t a] by simp
  ultimately show ?case
    by (auto simp: Cons.IH c split: option.splits)
qed

end

lemma de_set_returned:
  "returned (de_set_policies tenant ps e) \<longleftrightarrow> tenant \<noteq> [] \<and> well_typed ps"
  using normalize_table_ok [of ps UnknownPolicyDecisionError "[]"]
  by (auto simp: de_set_policies_def split: sum.splits)

lemma pe_set_returned:
  "returned (pe_set_policies tenant ps e) \<longleftrightarrow> tenant \<noteq> [] \<and> well_typed ps"
  using normalize_table_ok [of ps PolicyValueError "[]"]
  by (auto simp: pe_set_policies_def split: sum.splits)

lemma raised_not_returned: "raised r \<longleftrightarrow> \<not> returned r"
  by (cases "fst r") auto

interpretation de: policy_engine de_new de_set_policies de_decide
proof unfold_locales
  fix tenant ps and e :: declarative_engine
  show "raised (de_set_policies tenant ps e) \<longleftrightarrow> tenant = [] \<or> \<not> well_typed ps"
    unfolding raised_not_returned de_set_returned by auto
  show "raised (de_set_policies tenant ps e) \<Longrightarrow> snd (de_set_policies tenant ps e) = e"
    by (auto simp: de_set_policies_def split: sum.splits if_splits)
next
  fix tenant ps t' a and e :: declarative_engine
  assume "returned (de_set_policies tenant ps e)"
  then obtain t where ne: "tenant \<noteq> []"
    and t: "normalize_table UnknownPolicyDecisionError ps [] = Inr t"
    by (auto simp: de_set_policies_def split: sum.splits if_splits)
  have "map_of t = decisions ps"
    using normalize_table_map_of [OF t] by simp
  with ne t show "de_decide t' a (snd (de_set_policies tenant ps e)) =
            (if t' = tenant
             then resolve_table (decisions ps) (normalize_action_type a)
             else de_decide t' a e)"
    by (simp add: de_set_policies_def de_decide_def)
qed (simp add: de_decide_def de_new_def)

interpretation pe: policy_engine pe_new pe_set_policies pe_decide
proof unfold_locales
  fix tenant ps and e :: python_engine
  show "raised (pe_set_policies tenant ps e) \<longleftrightarrow> tenant = [] \<or> \<not> well_typed ps"
    unfolding raised_not_returned pe_set_returned by auto
  show "raised (pe_set_policies tenant ps e) \<Longrightarrow> snd (pe_set_policies tenant ps e) = e"
    by (auto simp: pe_set_policies_def split: sum.splits if_splits)
next
  fix tenant ps t' a and e :: python_engine
  assume "returned (pe_set_policies tenant ps e)"
  then obtain t where ne: "tenant \<noteq> []"
    and t: "normalize_table PolicyValueError ps [] = Inr t"
    by (auto simp: pe_set_policies_def split: sum.splits if_splits)
  have "map_of t = decisions ps"
    using normalize_table_map_of [OF t] by simp
  with ne t show "pe_decide t' a (snd (pe_set_policies tenant ps e)) =
            (if t' = tenant
             then resolve_table (decisions ps) (normalize_action_type a)
             else pe_decide t' a e)"
    by (simp add: pe_set_policies_def pe_decide_def compile_handler_resolve)
qed (simp add: pe_decide_def pe_new_def)

section \<open>Properties\<close>

text \<open>
  Whatever configuration calls an engine has seen, accepted or refused, its decision for
  a tenant is read off the last table it accepted for that tenant (the action's own entry,
  then the default entry, then the wildcard entry); a tenant that never had a table accepted
  gets approval_required, and calls for other tenants play no part.
\<close>

theorem decision_of_last_accepted_table:
  "de_decide t a (fold (\<lambda>(tenant, ps) e. snd (de_set_policies tenant ps e)) cs de_new) =
     (case last_table t cs of
        None \<Rightarrow> APPROVAL_REQUIRED
      | Some m \<Rightarrow> resolve_table m (normalize_action_type a))"
  using de.decide_configure [of t a cs de_new] by (simp add: de.configure_def de.decide_init split: option.split)

text \<open>
  C35. The two policy engines are interchangeable: after the same sequence of configuration
  calls the table-driven engine and the one that compiles handlers decide every action of
  every tenant alike, and accept or refuse the next configuration call alike.
\<close>

theorem policy_engines_agree:
  "de_decide t a (fold (\<lambda>(tenant, ps) e. snd (de_set_policies tenant ps e)) cs de_new) =
   pe_decide t a (fold (\<lambda>(tenant, ps) e. snd (pe_set_policies tenant ps e)) cs pe_new) \<and>
   (returned (de_set_policies t ps
      (fold (\<lambda>(tenant, ps) e. snd (de_set_policies tenant ps e)) cs de_new)) \<longleftrightarrow>
    returned (pe_set_policies t ps
      (fold (\<lambda>(tenant, ps) e. snd (pe_set_policies tenant ps e)) cs pe_new)))"
  unfolding de_set_returned pe_set_returned
  using de.decide_configure [of t a cs de_new] pe.decide_configure [of t a cs pe_new]
  by (simp add: de.configure_def pe.configure_def de.decide_init pe.decide_init split: option.split)

end
