(* ===== verification/Quorum.thy ===== *)
theory Quorum
  imports Contracts
begin

text \<open>
  \<open>orchestrator/quorum.py\<close>: how many approvers an action of a tenant needs, and who they
  may be.  A rule is validated when it is made, so every rule the policy hands out can be
  reached by its pool.
\<close>

datatype quorum_error = QuorumValueError

record quorum_rule =
  qr_required_approvals :: int
  qr_eligible_approvers :: "string list option"

definition quorum_rule_post_init :: "quorum_rule \<Rightarrow> bool" where
  \<comment> \<open>\<open>__post_init__\<close>: True when nothing is raised\<close>
  "quorum_rule_post_init r \<longleftrightarrow>
     1 \<le> qr_required_approvals r \<and>
     (case qr_eligible_approvers r of
        None \<Rightarrow> True
      | Some pool \<Rightarrow> distinct pool \<and> qr_required_approvals r \<le> int (length pool))"

definition single_approver :: quorum_rule where
  "single_approver = \<lparr>qr_required_approvals = 1, qr_eligible_approvers = None\<rparr>"

record quorum_policy =
  qp_rules :: "(string \<times> action_type) \<rightharpoonup> quorum_rule"

definition qp_new :: quorum_policy where
  "qp_new = \<lparr>qp_rules = Map.empty\<rparr>"

definition qp_set_rule :: "string \<Rightarrow> action_type \<Rightarrow> int \<Rightarrow> string list option \<Rightarrow>
    quorum_policy \<Rightarrow> (quorum_error, quorum_rule, quorum_policy) outcome" where
  "qp_set_rule tenant a required eligible q =
     (if tenant = [] then (Inl QuorumValueError, q)
      else let rule = \<lparr>qr_required_approvals = required, qr_eligible_approvers = eligible\<rparr>
      in if \<not> quorum_rule_post_init rule then (Inl QuorumValueError, q)
      else (Inr rule, q\<lparr>qp_rules := (qp_rules q)((tenant, a) \<mapsto> rule)\<rparr>))"

definition qp_resolve :: "string \<Rightarrow> action_type \<Rightarrow> quorum_policy \<Rightarrow> quorum_rule" where
  "qp_resolve tenant a q =
     (case qp_rules q (tenant, a) of None \<Rightarrow> single_approver | Some r \<Rightarrow> r)"

definition qp_clear :: "quorum_policy \<Rightarrow> quorum_policy" where
  "qp_clear q = q\<lparr>qp_rules := Map.empty\<rparr>"

text \<open>Invariant: every stored rule passed \<open>__post_init__\<close>.\<close>

definition qp_inv :: "quorum_policy \<Rightarrow> bool" where
  "qp_inv q \<longleftrightarrow> (\<forall>k r. qp_rules q k = Some r \<longrightarrow> quorum_rule_post_init r)"

lemma qp_inv_new [simp]: "qp_inv qp_new"
  by (simp add: qp_inv_def qp_new_def)

lemma qp_inv_clear [simp]: "qp_inv (qp_clear q)"
  by (simp add: qp_inv_def qp_clear_def)

lemma qp_inv_set_rule: "qp_inv q \<Longrightarrow> qp_inv (snd (qp_set_rule t a n pool q))"
  by (auto simp: qp_set_rule_def qp_inv_def Let_def)

lemma quorum_single_approver [simp]: "quorum_rule_post_init single_approver"
  by (simp add: quorum_rule_post_init_def single_approver_def)

lemma qp_resolve_valid: "qp_inv q \<Longrightarrow> quorum_rule_post_init (qp_resolve t a q)"
  by (auto simp: qp_resolve_def qp_inv_def split: option.splits)

lemma qp_resolve_set_rule:
  "fst (qp_set_rule t a n pool q) = Inr r \<Longrightarrow>
   qp_resolve t' a' (snd (qp_set_rule t a n pool q)) =
     (if (t', a') = (t, a) then r else qp_resolve t' a' q)"
  by (auto simp: qp_set_rule_def qp_resolve_def Let_def split: if_splits)

lemma qp_set_rule_raises: "fst (qp_set_rule t a n pool q) = Inl e \<Longrightarrow> snd (qp_set_rule t a n pool q) = q"
  by (auto simp: qp_set_rule_def Let_def split: if_splits)

end
