(* ===== verification/Audit_Log.thy ===== *)
theory Audit_Log
  imports Contracts
begin

text \<open>
  \<open>orchestrator/audit.py\<close>, class \<open>InMemoryAuditLog\<close>: an append-only log with a tenant, an
  action and an event index.  The indices hold copies of the rows; \<open>al_inv\<close> says they are the
  log filtered by their key, which makes every indexed read a read of the one log.
\<close>

section \<open>State and operations\<close>

record audit_log =
  al_entries :: "audit_entry list"
  al_by_tenant :: "string \<rightharpoonup> audit_entry list"
  al_by_action :: "string \<rightharpoonup> audit_entry list"
  al_by_event :: "string \<rightharpoonup> audit_entry list"
  al_next_id :: int

definition al_new :: audit_log where
  "al_new = \<lparr>al_entries = [], al_by_tenant = Map.empty, al_by_action = Map.empty,
             al_by_event = Map.empty, al_next_id = 1\<rparr>"

definition al_write :: "audit_entry \<Rightarrow> audit_log \<Rightarrow> audit_entry \<times> audit_log" where
  "al_write entry l =
     (let assigned = entry\<lparr>ae_id := Some (al_next_id l)\<rparr>
      in (assigned,
          l\<lparr>al_next_id := al_next_id l + 1,
            al_entries := al_entries l @ [assigned],
            al_by_tenant := push (al_by_tenant l) (ae_tenant_id assigned) assigned,
            al_by_action := (case ae_action_id assigned of
                None \<Rightarrow> al_by_action l
              | Some a \<Rightarrow> push (al_by_action l) a assigned),
            al_by_event := (case ae_caused_by_event_id assigned of
                None \<Rightarrow> al_by_event l
              | Some e \<Rightarrow> push (al_by_event l) e assigned)\<rparr>))"

definition al_entries_for_tenant :: "string \<Rightarrow> audit_log \<Rightarrow> audit_entry list" where
  "al_entries_for_tenant tenant l = get_list (al_by_tenant l) tenant"

definition al_entries_for_action :: "string \<Rightarrow> string option \<Rightarrow> audit_log \<Rightarrow> audit_entry list" where
  "al_entries_for_action action_id tenant l =
     (let rows = get_list (al_by_action l) action_id
      in case tenant of None \<Rightarrow> rows | Some t \<Rightarrow> filter (\<lambda>r. ae_tenant_id r = t) rows)"

definition al_entries_for_event :: "string \<Rightarrow> string option \<Rightarrow> audit_log \<Rightarrow> audit_entry list" where
  "al_entries_for_event event_id tenant l =
     (let rows = get_list (al_by_event l) event_id
      in case tenant of None \<Rightarrow> rows | Some t \<Rightarrow> filter (\<lambda>r. ae_tenant_id r = t) rows)"

definition al_all_entries :: "audit_log \<Rightarrow> audit_entry list" where
  "al_all_entries l = al_entries l"

definition al_clear :: "audit_log \<Rightarrow> audit_log" where
  "al_clear l = l\<lparr>al_entries := [], al_by_tenant := Map.empty, al_by_action := Map.empty,
                  al_by_event := Map.empty, al_next_id := 1\<rparr>"

section \<open>Invariant\<close>

definition al_inv :: "audit_log \<Rightarrow> bool" where
  "al_inv l \<longleftrightarrow>
     al_next_id l = int (length (al_entries l)) + 1 \<and>
     (\<forall>i < length (al_entries l). ae_id (al_entries l ! i) = Some (int i + 1)) \<and>
     (\<forall>t. get_list (al_by_tenant l) t = filter (\<lambda>e. ae_tenant_id e = t) (al_entries l)) \<and>
     (\<forall>a. get_list (al_by_action l) a = filter (\<lambda>e. ae_action_id e = Some a) (al_entries l)) \<and>
     (\<forall>v. get_list (al_by_event l) v =
            filter (\<lambda>e. ae_caused_by_event_id e = Some v) (al_entries l))"

lemma al_inv_new [simp]: "al_inv al_new"
  by (simp add: al_inv_def al_new_def)

lemma al_inv_clear [simp]: "al_inv (al_clear l)"
  by (simp add: al_inv_def al_clear_def)

lemma al_write_entries [simp]:
  "al_entries (snd (al_write e l)) = al_entries l @ [e\<lparr>ae_id := Some (al_next_id l)\<rparr>]"
  "fst (al_write e l) = e\<lparr>ae_id := Some (al_next_id l)\<rparr>"
  by (simp_all add: al_write_def Let_def)

lemma al_inv_write [simp]: "al_inv l \<Longrightarrow> al_inv (snd (al_write e l))"
  unfolding al_inv_def
  by (intro conjI allI impI)
     (auto simp: al_write_def Let_def nth_append less_Suc_eq split: option.splits)

lemma al_inv_rows:
  assumes "al_inv l"
  shows "get_list (al_by_tenant l) t = filter (\<lambda>e. ae_tenant_id e = t) (al_entries l)"
    and "get_list (al_by_action l) a = filter (\<lambda>e. ae_action_id e = Some a) (al_entries l)"
    and "get_list (al_by_event l) v = filter (\<lambda>e. ae_caused_by_event_id e = Some v) (al_entries l)"
    and "al_next_id l = int (length (al_entries l)) + 1"
  using assms by (auto simp: al_inv_def)

lemma al_for_action: "al_inv l \<Longrightarrow>
    al_entries_for_action a None l = filter (\<lambda>e. ae_action_id e = Some a) (al_entries l)"
  by (simp add: al_inv_def al_entries_for_action_def)

section \<open>The contract\<close>

text \<open>
  An append-only log: \<open>rows\<close> are what was written, a write adds one row at the end and
  touches none before it, and each reader is a filter of the rows.
\<close>

locale append_only_log =
  fixes rows :: "'l \<Rightarrow> audit_entry list"
    and inv :: "'l \<Rightarrow> bool"
    and put :: "audit_entry \<Rightarrow> 'l \<Rightarrow> audit_entry \<times> 'l"
    and for_tenant :: "string \<Rightarrow> 'l \<Rightarrow> audit_entry list"
    and for_action :: "string \<Rightarrow> string option \<Rightarrow> 'l \<Rightarrow> audit_entry list"
    and for_event :: "string \<Rightarrow> string option \<Rightarrow> 'l \<Rightarrow> audit_entry list"
  assumes inv_write: "inv l \<Longrightarrow> inv (snd (put e l))"
    and write_rows: "inv l \<Longrightarrow> rows (snd (put e l)) = rows l @ [fst (put e l)]"
    and write_assigns: "inv l \<Longrightarrow>
          fst (put e l) = e\<lparr>ae_id := Some (int (length (rows l)) + 1)\<rparr>"
    and for_tenant_rows: "inv l \<Longrightarrow>
          for_tenant t l = filter (\<lambda>e. ae_tenant_id e = t) (rows l)"
    and for_action_rows: "inv l \<Longrightarrow>
          for_action a None l = filter (\<lambda>e. ae_action_id e = Some a) (rows l)"
    and for_event_rows: "inv l \<Longrightarrow>
          for_event v None l = filter (\<lambda>e. ae_caused_by_event_id e = Some v) (rows l)"
    and for_action_tenant: "for_action a (Some t) l = filter (\<lambda>e. ae_tenant_id e = t) (for_action a None l)"
    and for_event_tenant: "for_event v (Some t) l = filter (\<lambda>e. ae_tenant_id e = t) (for_event v None l)"
begin

definition write_all :: "audit_entry list \<Rightarrow> 'l \<Rightarrow> 'l" where
  "write_all es l = fold (\<lambda>e l. snd (put e l)) es l"

lemma inv_write_all: "inv l \<Longrightarrow> inv (write_all es l)"
  by (induction es arbitrary: l) (auto simp: write_all_def inv_write)

lemma write_all_rows:
  "inv l \<Longrightarrow> \<exists>new. rows (write_all es l) = rows l @ new \<and>
     map (ae_id_update (\<lambda>_. None)) new = map (ae_id_update (\<lambda>_. None)) es \<and>
     map ae_id new = map (\<lambda>i. Some (int i + 1)) [length (rows l) ..< length (rows l) + length es]"
proof (induction es arbitrary: l)
  case (Cons e es)
  let ?l = "snd (put e l)"
  have inv: "inv ?l" by (rule inv_write [OF Cons.prems])
  have rows: "rows ?l = rows l @ [e\<lparr>ae_id := Some (int (length (rows l)) + 1)\<rparr>]"
    using write_rows [OF Cons.prems] write_assigns [OF Cons.prems] by simp
  from Cons.IH [OF inv] obtain new where new: "rows (write_all es ?l) = rows ?l @ new"
    "map (ae_id_update (\<lambda>_. None)) new = map (ae_id_update (\<lambda>_. None)) es"
    "map ae_id new = map (\<lambda>i. Some (int i + 1)) [length (rows ?l) ..< length (rows ?l) + length es]"
    by blast
  have "rows (write_all (e # es) l) =
      rows l @ (e\<lparr>ae_id := Some (int (length (rows l)) + 1)\<rparr> # new)"
    using new(1) rows by (simp add: write_all_def)
  moreover have "[length (rows l) ..< length (rows l) + length (e # es)] =
      length (rows l) # [length (rows ?l) ..< length (rows ?l) + length es]"
    using rows by (simp add: upt_conv_Cons del: upt_Suc)
  ultimately show ?case
    using new(2,3) by (intro exI conjI) (assumption, simp_all)
qed (simp add: write_all_def)

lemma prefix_kept: "inv l \<Longrightarrow> prefix (rows l) (rows (write_all es l))"
  using write_all_rows [of l es] by (auto simp: prefix_def)

lemma tenant_isolation:
  assumes "inv l" "\<forall>e \<in> set es. ae_tenant_id e \<noteq> t"
  shows "for_tenant t (write_all es l) = for_tenant t l"
    and "for_action a (Some t) (write_all es l) = for_action a (Some t) l"
    and "for_event v (Some t) (write_all es l) = for_event v (Some t) l"
proof -
  from write_all_rows [OF assms(1)] obtain new where new: "rows (write_all es l) = rows l @ new"
    "map (ae_id_update (\<lambda>_. None)) new = map (ae_id_update (\<lambda>_. None)) es" by blast
  have "map ae_tenant_id (map (ae_id_update (\<lambda>_. None)) new) =
      map ae_tenant_id (map (ae_id_update (\<lambda>_. None)) es)" by (simp only: new(2))
  then have "map ae_tenant_id new = map ae_tenant_id es" by (simp add: comp_def)
  then have "ae_tenant_id ` set new = ae_tenant_id ` set es" by (metis list.set_map)
  with assms(2) have "ae_tenant_id e \<noteq> t" if "e \<in> set new" for e
    using that by (metis image_iff)
  then have none: "filter (\<lambda>e. P e \<and> ae_tenant_id e = t) new = []"
      "filter (\<lambda>e. ae_tenant_id e = t) new = []" for P
    by (auto simp: filter_empty_conv)
  have inv: "inv (write_all es l)" by (rule inv_write_all [OF assms(1)])
  show "for_tenant t (write_all es l) = for_tenant t l"
    by (simp add: for_tenant_rows inv assms(1) new(1) none)
  show "for_action a (Some t) (write_all es l) = for_action a (Some t) l"
    by (simp add: for_action_tenant for_action_rows inv assms(1) new(1) filter_filter none)
  show "for_event v (Some t) (write_all es l) = for_event v (Some t) l"
    by (simp add: for_event_tenant for_event_rows inv assms(1) new(1) filter_filter none)
qed

end

interpretation al: append_only_log al_entries al_inv al_write al_entries_for_tenant
  al_entries_for_action al_entries_for_event
  by unfold_locales
     (simp_all add: al_inv_rows al_entries_for_tenant_def al_entries_for_action_def
       al_entries_for_event_def)

end
