(* ===== verification/Executor.thy ===== *)
theory Executor
  imports Contracts Py_Text
begin

text \<open>
  \<open>orchestrator/executor.py\<close>: the mock handlers, the dispatch table and
  \<open>ActionExecutor.execute\<close>.  A handler may raise any exception, named by its type and
  message (\<open>py_exn\<close>); the table is a parameter of the constructor.
\<close>

type_synonym handler = "action \<Rightarrow> py_exn + json"
type_synonym executor_table = "action_type \<rightharpoonup> handler"

section \<open>The mock handlers\<close>

definition mock_send_borrower_message :: handler where
  "mock_send_borrower_message a =
     (let given = dict_get_or (a_payload a) ''message'' JNull;
          message = (if truthy given then given
            else JStr (''Acknowledged: we received your message for loan '' @
              py_str (dict_get_or (a_payload a) ''loan_id'' (JStr ''(unknown)'')) @ ''.''))
      in Inr (JObj [(''channel'', JStr ''chat''), (''recipient'', JStr ''borrower''),
                    (''message'', message)]))"

definition mock_notify_loan_officer :: handler where
  "mock_notify_loan_officer a =
     (let given = dict_get_or (a_payload a) ''reason'' JNull;
          reason = (if truthy given then given
            else dict_get_or (a_payload a) ''_planner_reasoning''
                   (JStr ''Event flagged for loan-officer review.''))
      in Inr (JObj [(''channel'', JStr ''internal''), (''recipient'', JStr ''loan_officer''),
                    (''reason'', reason)]))"

definition mock_schedule_call :: handler where
  "mock_schedule_call a =
     Inr (JObj [(''channel'', JStr ''voice''),
                (''scheduled_for'',
                 dict_get_or (a_payload a) ''scheduled_for'' (JStr ''next available slot''))])"

definition mock_request_document :: handler where
  "mock_request_document a =
     Inr (JObj [(''channel'', JStr ''email''), (''recipient'', JStr ''borrower''),
                (''document_type'',
                 dict_get_or (a_payload a) ''document_type'' (JStr ''missing document''))])"

definition mock_update_status :: handler where
  "mock_update_status a =
     Inr (JObj [(''channel'', JStr ''internal''),
                (''new_status'', dict_get_or (a_payload a) ''new_status'' (JStr ''in_review''))])"

definition mock_no_op :: handler where
  "mock_no_op a = Inr (JObj [(''channel'', JStr ''noop'')])"

definition default_executors :: executor_table where
  "default_executors t =
     Some (case t of
        SEND_BORROWER_MESSAGE \<Rightarrow> mock_send_borrower_message
      | NOTIFY_LOAN_OFFICER \<Rightarrow> mock_notify_loan_officer
      | SCHEDULE_CALL \<Rightarrow> mock_schedule_call
      | REQUEST_DOCUMENT \<Rightarrow> mock_request_document
      | UPDATE_STATUS \<Rightarrow> mock_update_status
      | NO_OP \<Rightarrow> mock_no_op)"

definition executor_init :: "(action_type \<times> handler) list option \<Rightarrow> executor_table" where
  \<comment> \<open>an empty table is falsy and is replaced by the default\<close>
  "executor_init custom =
     (case custom of
        None \<Rightarrow> default_executors
      | Some [] \<Rightarrow> default_executors
      | Some tbl \<Rightarrow> map_of tbl)"

section \<open>Dispatch\<close>

definition ex_dispatch :: "executor_table \<Rightarrow> action \<Rightarrow> py_exn + (string \<times> json) list" where
  "ex_dispatch tbl a =
     (case tbl (a_action_type a) of
        None \<Rightarrow> Inl (Exn ''ExecutionError''
          (''no executor registered for action_type='' @
           py_repr_str (action_type_value (a_action_type a))))
      | Some h \<Rightarrow> (case h a of
          Inl exn \<Rightarrow> Inl exn
        | Inr (JObj d) \<Rightarrow> Inr d
        | Inr result \<Rightarrow> Inl (Exn ''ExecutionError''
            (''executor for '' @ py_repr_str (action_type_value (a_action_type a)) @
             '' returned '' @ py_type_name result @ '', expected dict''))))"

definition ex_execute :: "executor_table \<Rightarrow> time \<Rightarrow> action \<Rightarrow> py_exn + action" where
  "ex_execute tbl t a =
     (case ex_dispatch tbl a of
        Inl exn \<Rightarrow> Inl exn
      | Inr d \<Rightarrow> Inr (a\<lparr>a_status := EXECUTED, a_executed_at := Some t, a_updated_at := t,
                       a_payload := dict_set ''_executed_payload'' (JObj d) (a_payload a)\<rparr>))"

lemma ex_execute_Inr:
  "ex_execute tbl t a = Inr a' \<Longrightarrow>
   a_status a' = EXECUTED \<and> a_executed_at a' = Some t \<and> a_id a' = a_id a \<and>
   a_tenant_id a' = a_tenant_id a \<and> a_event_id a' = a_event_id a \<and>
   a_proposal_id a' = a_proposal_id a \<and> a_customer_id a' = a_customer_id a \<and>
   a_action_type a' = a_action_type a \<and> a_created_at a' = a_created_at a"
  by (auto simp: ex_execute_def split: sum.splits)

lemma default_never_raises: "\<exists>a'. ex_execute default_executors t a = Inr a'"
  by (cases "a_action_type a")
     (simp_all add: ex_execute_def ex_dispatch_def default_executors_def Let_def
       mock_send_borrower_message_def mock_notify_loan_officer_def mock_schedule_call_def
       mock_request_document_def mock_update_status_def mock_no_op_def)

end
