(* ===== verification/Action_Store.thy ===== *)
theory Action_Store
  imports Contracts
begin

text \<open>
  \<open>InMemoryActionStore\<close> of \<open>orchestrator/decision_pipeline.py\<close>: the actions by id and, per
  tenant, the ids in the order they were first stored.
\<close>

record action_store =
  as_by_id :: "string \<rightharpoonup> action"
  as_by_tenant :: "string \<rightharpoonup> string list"

definition as_new :: action_store where
  "as_new = \<lparr>as_by_id = Map.empty, as_by_tenant = Map.empty\<rparr>"

definition as_put :: "action \<Rightarrow> action_store \<Rightarrow> action_store" where
  "as_put a s =
     (let existed = as_by_id s (a_id a) \<noteq> None;
          s' = s\<lparr>as_by_id := (as_by_id s)(a_id a \<mapsto> a)\<rparr>
      in if existed then s'
         else s'\<lparr>as_by_tenant := push (as_by_tenant s') (a_tenant_id a) (a_id a)\<rparr>)"

definition as_get :: "string \<Rightarrow> action_store \<Rightarrow> action option" where
  \<comment> \<open>\<open>None\<close> is \<open>ActionNotFoundError\<close>\<close>
  "as_get aid s = as_by_id s aid"

definition as_list_for_tenant :: "string \<Rightarrow> action_store \<Rightarrow> action list" where
  "as_list_for_tenant tenant s = List.map_filter (as_by_id s) (get_list (as_by_tenant s) tenant)"

definition as_clear :: "action_store \<Rightarrow> action_store" where
  "as_clear s = s\<lparr>as_by_id := Map.empty, as_by_tenant := Map.empty\<rparr>"

text \<open>
  Invariant: rows are keyed by their id, and a tenant's index lists its ids, each once.
\<close>

definition as_inv :: "action_store \<Rightarrow> bool" where
  "as_inv s \<longleftrightarrow>
     (\<forall>aid a. as_by_id s aid = Some a \<longrightarrow> a_id a = aid) \<and>
     (\<forall>t. distinct (get_list (as_by_tenant s) t) \<and>
          (\<forall>aid. aid \<in> set (get_list (as_by_tenant s) t) \<longleftrightarrow>
                 (case as_by_id s aid of None \<Rightarrow> False | Some a \<Rightarrow> a_tenant_id a = t)))"

lemma as_inv_new [simp]: "as_inv as_new"
  by (simp add: as_inv_def as_new_def)

lemma as_inv_clear [simp]: "as_inv (as_clear s)"
  by (simp add: as_inv_def as_clear_def)

lemma as_put_by_id [simp]: "as_by_id (as_put a s) = (as_by_id s)(a_id a \<mapsto> a)"
  by (simp add: as_put_def Let_def)

lemma as_inv_put:
  assumes "as_inv s"
    and "\<And>b. as_by_id s (a_id a) = Some b \<Longrightarrow> a_tenant_id b = a_tenant_id a"
  shows "as_inv (as_put a s)"
proof (cases "as_by_id s (a_id a)")
  case None
  then show ?thesis
    using assms(1) unfolding as_inv_def
    by (auto simp: as_put_def Let_def split: option.splits)
next
  case (Some b)
  then show ?thesis
    using assms(1) assms(2) [OF Some] unfolding as_inv_def
    by (auto simp: as_put_def Let_def split: option.splits)
qed

lemma as_list_for_tenant_scoped:
  assumes "as_inv s" and "a \<in> set (as_list_for_tenant t s)"
  shows "a_tenant_id a = t \<and> as_by_id s (a_id a) = Some a"
proof -
  obtain aid where "aid \<in> set (get_list (as_by_tenant s) t)" "as_by_id s aid = Some a"
    using assms(2) by (auto simp: as_list_for_tenant_def List.map_filter_def)
  with assms(1) show ?thesis by (auto simp: as_inv_def split: option.splits)
qed

lemma as_list_for_tenant_complete:
  assumes "as_inv s" and "as_by_id s aid = Some a"
  shows "a \<in> set (as_list_for_tenant (a_tenant_id a) s)"
proof -
  have "aid \<in> set (get_list (as_by_tenant s) (a_tenant_id a))"
    using assms by (auto simp: as_inv_def split: option.splits)
  with assms(2) show ?thesis
    by (force simp: as_list_for_tenant_def List.map_filter_def)
qed

end
