(* ===== verification/Decision_Pipeline.thy ===== *)
theory Decision_Pipeline
  imports Policy Quorum Approval_Queue_Inv Audit_Log Executor Action_Store
begin

text \<open>
  \<open>orchestrator/decision_pipeline.py\<close>, class \<open>DecisionPipeline\<close>: the composition of the
  policy engine, the quorum table, the approval queue, the executor, the action store and
  the audit log.  Each public method runs under the pipeline's lock and is one function on
  the whole state here; the state left behind by a method that raises is the one the code
  leaves behind.  A clock reading the code takes on one branch only is taken on every
  branch here; what the clock returns is arbitrary, so the reading is not observable.
\<close>

section \<open>State\<close>

datatype pipeline_error =
    ActionNotFoundError
  | QueueError approval_error
  | ValidationError

record pipeline =
  p_policy :: declarative_engine
  p_queue :: approval_queue
  p_audit :: audit_log
  p_executors :: executor_table
  p_actions :: action_store
  p_quorum :: quorum_policy
  p_dedup :: "(string \<times> string) \<rightharpoonup> string list"
  p_world :: world

definition make_pipeline :: "(action_type \<times> handler) list option \<Rightarrow> world \<Rightarrow> pipeline" where
  "make_pipeline executors w =
     \<lparr>p_policy = de_new, p_queue = aq_new, p_audit = al_new,
      p_executors = executor_init executors, p_actions = as_new, p_quorum = qp_new,
      p_dedup = Map.empty, p_world = w\<rparr>"

definition make_default_pipeline :: "world \<Rightarrow> pipeline" where
  "make_default_pipeline w = make_pipeline None w"

section \<open>Internals\<close>

definition p_now :: "pipeline \<Rightarrow> time \<times> pipeline" where
  "p_now p = (let (t, w) = now (p_world p) in (t, p\<lparr>p_world := w\<rparr>))"

definition p_uuid :: "pipeline \<Rightarrow> string \<times> pipeline" where
  "p_uuid p = (let (u, w) = uuid4 (p_world p) in (u, p\<lparr>p_world := w\<rparr>))"

definition p_put :: "action \<Rightarrow> pipeline \<Rightarrow> pipeline" where
  "p_put a p = p\<lparr>p_actions := as_put a (p_actions p)\<rparr>"

definition p_write_audit :: "audit_kind \<Rightarrow> action \<Rightarrow> audit_actor_kind \<Rightarrow> string option \<Rightarrow> dict \<Rightarrow>
    pipeline \<Rightarrow> (pipeline_error, unit, pipeline) outcome" where
  "p_write_audit kind a actor_kind actor_id payload p =
     (let (t, p1) = p_now p;
          entry = \<lparr>ae_id = None, ae_tenant_id = a_tenant_id a, ae_ts = t, ae_kind = kind,
                   ae_action_id = Some (a_id a), ae_caused_by_event_id = Some (a_event_id a),
                   ae_actor_kind = actor_kind, ae_actor_id = actor_id, ae_payload = payload\<rparr>
      in if \<not> audit_entry_valid entry then (Inl ValidationError, p1)
         else (Inr (), p1\<lparr>p_audit := snd (al_write entry (p_audit p1))\<rparr>))"

definition p_materialize_action :: "proposal \<Rightarrow> pipeline \<Rightarrow>
    (pipeline_error, action, pipeline) outcome" where
  "p_materialize_action proposal p =
     (let (u, p1) = p_uuid p;
          (created, p2) = p_now p1;
          (updated, p3) = p_now p2;
          a = \<lparr>a_id = ''act_'' @ u, a_tenant_id = pr_tenant_id proposal,
               a_proposal_id = pr_id proposal, a_event_id = pr_event_id proposal,
               a_customer_id = pr_customer_id proposal,
               a_action_type = pr_action_type proposal, a_status = PENDING_POLICY,
               a_payload = pr_payload proposal, a_created_at = created,
               a_updated_at = updated, a_executed_at = None\<rparr>
      in if action_valid a then (Inr a, p3) else (Inl ValidationError, p3))"

definition p_execute :: "action \<Rightarrow> pipeline \<Rightarrow> (pipeline_error, action, pipeline) outcome" where
  "p_execute a p =
     (let (t, p1) = p_now p
      in case ex_execute (p_executors p1) t a of
           Inl (Exn kind message) \<Rightarrow>
             let failed = a\<lparr>a_status := EXECUTION_FAILED, a_updated_at := t\<rparr>
             in andThen
                  (p_write_audit A_EXECUTION_FAILED a BY_SYSTEM None
                     [(''error_kind'', JStr kind), (''error_message'', JStr message)]
                     (p_put failed p1))
                  (\<lambda>_ p2. (Inr failed, p2))
         | Inr executed \<Rightarrow>
             andThen
               (p_write_audit A_EXECUTION executed BY_SYSTEM None
                  [(''executed_payload'',
                    dict_get_or (a_payload executed) ''_executed_payload'' (JObj []))]
                  (p_put executed p1))
               (\<lambda>_ p2. (Inr executed, p2)))"

definition set_status :: "action_status \<Rightarrow> time \<Rightarrow> action \<Rightarrow> action" where
  "set_status s t a = a\<lparr>a_status := s, a_updated_at := t\<rparr>"

definition p_enqueue :: "action \<Rightarrow> quorum_rule \<Rightarrow> pipeline \<Rightarrow>
    (pipeline_error, approval_rule, pipeline) outcome" where
  "p_enqueue a rule p =
     (let (u, p1) = p_uuid p;
          (t, p2) = p_now p1;
          (r, q) = aq_enqueue u t (a_id a) (a_tenant_id a) None
                     (qr_required_approvals rule) (qr_eligible_approvers rule) (p_queue p2);
          p3 = p2\<lparr>p_queue := q\<rparr>
      in case r of Inl e \<Rightarrow> (Inl (QueueError e), p3) | Inr row \<Rightarrow> (Inr row, p3))"

definition p_apply_decision :: "action \<Rightarrow> policy_decision \<Rightarrow> pipeline \<Rightarrow>
    (pipeline_error, action, pipeline) outcome" where
  "p_apply_decision a decision p =
     (let (t, p1) = p_now p
      in case decision of
           REJECT \<Rightarrow>
             let rejected = set_status REJECTED t a
             in andThen
                  (p_write_audit A_REJECTION rejected BY_SYSTEM None
                     [(''reason'', JStr ''policy=reject''), (''by'', JStr ''policy_engine'')]
                     (p_put rejected p1))
                  (\<lambda>_ p2. (Inr rejected, p2))
         | APPROVAL_REQUIRED \<Rightarrow>
             let queued = set_status PENDING_APPROVAL t a;
                 p2 = p_put queued p1;
                 rule = qp_resolve (a_tenant_id queued) (a_action_type queued) (p_quorum p2)
             in andThen (p_enqueue queued rule p2) (\<lambda>_ p3. (Inr queued, p3))
         | AUTO \<Rightarrow>
             let pending_exec = set_status PENDING_EXEC t a
             in p_execute pending_exec (p_put pending_exec p1))"

section \<open>The public methods\<close>

definition handle_proposal :: "proposal \<Rightarrow> pipeline \<Rightarrow>
    (pipeline_error, action list, pipeline) outcome" where
  "handle_proposal proposal p =
     (let key = (pr_tenant_id proposal, pr_event_id proposal)
      in case p_dedup p key of
           Some cached_ids \<Rightarrow>
             (case those (map (\<lambda>aid. as_get aid (p_actions p)) cached_ids) of
                None \<Rightarrow> (Inl ActionNotFoundError, p)
              | Some cached \<Rightarrow> (Inr cached, p))
         | None \<Rightarrow>
             andThen (p_materialize_action proposal p) (\<lambda>a p1.
             andThen
               (p_write_audit A_PROPOSAL a
                  (if proposed_by_value (pr_proposed_by proposal) = ''llm''
                   then BY_LLM else BY_FALLBACK) None
                  [(''proposed_by'', JStr (proposed_by_value (pr_proposed_by proposal))),
                   (''action_type'', JStr (action_type_value (pr_action_type proposal))),
                   (''reasoning'',
                    dict_get_or (pr_payload proposal) ''_planner_reasoning'' (JStr ''''))]
                  (p_put a p1)) (\<lambda>_ p2.
             let decision = de_decide (pr_tenant_id proposal) (Enum (pr_action_type proposal))
                              (p_policy p2)
             in andThen
               (p_write_audit A_DECISION a BY_SYSTEM None
                  [(''decision'', JStr (policy_decision_value decision)),
                   (''action_type'', JStr (action_type_value (pr_action_type proposal)))] p2) (\<lambda>_ p3.
             andThen (p_apply_decision a decision p3) (\<lambda>resolved p4.
               (Inr [resolved], p4\<lparr>p_dedup := (p_dedup p4)(key \<mapsto> [a_id resolved])\<rparr>))))))"

definition tenant_guard :: "string option \<Rightarrow> action \<Rightarrow> bool" where
  \<comment> \<open>the check on \<open>expected_tenant_id\<close>: True when it does not raise\<close>
  "tenant_guard expected a \<longleftrightarrow> (case expected of None \<Rightarrow> True | Some t \<Rightarrow> a_tenant_id a = t)"

definition get_action :: "string \<Rightarrow> string option \<Rightarrow> pipeline \<Rightarrow> pipeline_error + action" where
  "get_action aid expected p =
     (case as_get aid (p_actions p) of
        None \<Rightarrow> Inl ActionNotFoundError
      | Some a \<Rightarrow> if tenant_guard expected a then Inr a else Inl ActionNotFoundError)"

definition approve_action :: "string \<Rightarrow> string \<Rightarrow> string option \<Rightarrow> pipeline \<Rightarrow>
    (pipeline_error, action, pipeline) outcome" where
  "approve_action aid decided_by expected p =
     (case as_get aid (p_actions p) of
        None \<Rightarrow> (Inl ActionNotFoundError, p)
      | Some a \<Rightarrow>
          if \<not> tenant_guard expected a then (Inl ActionNotFoundError, p)
          else
            let (t, p1) = p_now p;
                (r, q) = aq_approve t aid (Some decided_by) (p_queue p1);
                p2 = p1\<lparr>p_queue := q\<rparr>
            in case r of
                 Inl e \<Rightarrow> (Inl (QueueError e), p2)
               | Inr rule \<Rightarrow>
                   let quorum_reached = (ar_state rule = ''approved'')
                   in andThen
                     (p_write_audit A_APPROVAL a BY_HUMAN (Some decided_by)
                        [(''prior_status'', JStr (action_status_value (a_status a))),
                         (''approvals_recorded'', JInt (int (length (ar_approvals rule)))),
                         (''required_approvals'', JInt (ar_required_approvals rule)),
                         (''quorum_reached'', JBool quorum_reached)] p2) (\<lambda>_ p3.
                   if \<not> quorum_reached then (Inr a, p3)
                   else
                     let (t', p4) = p_now p3;
                         promoted = set_status PENDING_EXEC t' a
                     in p_execute promoted (p_put promoted p4)))"

definition reject_action :: "string \<Rightarrow> string \<Rightarrow> string \<Rightarrow> string option \<Rightarrow> pipeline \<Rightarrow>
    (pipeline_error, action, pipeline) outcome" where
  "reject_action aid reason decided_by expected p =
     (case as_get aid (p_actions p) of
        None \<Rightarrow> (Inl ActionNotFoundError, p)
      | Some a \<Rightarrow>
          if \<not> tenant_guard expected a then (Inl ActionNotFoundError, p)
          else
            let (t, p1) = p_now p;
                (r, q) = aq_reject t aid reason (Some decided_by) (p_queue p1);
                p2 = p1\<lparr>p_queue := q\<rparr>
            in case r of
                 Inl e \<Rightarrow> (Inl (QueueError e), p2)
               | Inr rule \<Rightarrow>
                   andThen
                     (p_write_audit A_REJECTION a BY_HUMAN (Some decided_by)
                        [(''prior_status'', JStr (action_status_value (a_status a))),
                         (''reason'', JStr reason)] p2) (\<lambda>_ p3.
                   let (t', p4) = p_now p3;
                       rejected = set_status REJECTED t' a
                   in (Inr rejected, p_put rejected p4)))"

definition p_approval_rule :: "string \<Rightarrow> pipeline \<Rightarrow> approval_rule option" where
  "p_approval_rule aid p = aq_get aid (p_queue p)"

definition list_actions_for_tenant :: "string \<Rightarrow> pipeline \<Rightarrow> action list" where
  "list_actions_for_tenant tenant p = as_list_for_tenant tenant (p_actions p)"

definition list_pending_actions :: "string \<Rightarrow> pipeline \<Rightarrow> action list" where
  "list_pending_actions tenant p =
     List.map_filter (\<lambda>rule. as_get (ar_action_id rule) (p_actions p))
       (aq_list_pending tenant (p_queue p))"

definition audit_for_action :: "string \<Rightarrow> pipeline \<Rightarrow> audit_entry list" where
  "audit_for_action aid p = al_entries_for_action aid None (p_audit p)"

definition p_clear :: "pipeline \<Rightarrow> pipeline" where
  "p_clear p =
     p\<lparr>p_dedup := Map.empty, p_actions := as_clear (p_actions p),
       p_queue := aq_clear (p_queue p), p_audit := al_clear (p_audit p),
       p_quorum := qp_clear (p_quorum p)\<rparr>"

section \<open>Histories\<close>

text \<open>
  What clients do with a pipeline: the event listener hands over proposals, the HTTP layer
  and the approver UI vote, veto and configure.  The result of a call is forgotten; the
  state it leaves, on the error paths too, is what the next call sees.
\<close>

datatype pipeline_call =
    HandleProposal proposal
  | ApproveAction string string "string option"
  | RejectAction string string string "string option"
  | SetPolicies string "(string \<times> json) list"
  | SetQuorum string action_type int "string list option"

fun p_call :: "pipeline_call \<Rightarrow> pipeline \<Rightarrow> pipeline" where
  "p_call (HandleProposal proposal) p = snd (handle_proposal proposal p)"
| "p_call (ApproveAction aid v t) p = snd (approve_action aid v t p)"
| "p_call (RejectAction aid reason v t) p = snd (reject_action aid reason v t p)"
| "p_call (SetPolicies t tbl) p = p\<lparr>p_policy := snd (de_set_policies t tbl (p_policy p))\<rparr>"
| "p_call (SetQuorum t a n pool) p = p\<lparr>p_quorum := snd (qp_set_rule t a n pool (p_quorum p))\<rparr>"

abbreviation p_run :: "pipeline_call list \<Rightarrow> pipeline \<Rightarrow> pipeline" where
  "p_run cs p \<equiv> fold p_call cs p"

end
