(* ===== verification/Decision_Pipeline_Inv.thy ===== *)
theory Decision_Pipeline_Inv
  imports Decision_Pipeline
begin

text \<open>
  The invariant of the decision pipeline.  The audit rows of an action are replayed by an
  automaton (\<open>trail_step\<close>) whose state is the action's status; the invariant says that the
  replay ends in the status the store holds, that the queue row agrees with it, that the
  votes on the row are the voters of the approval rows, and that the dedup index lists
  exactly the stored actions.  Every call preserves it (\<open>pipe_inv_call\<close>).
\<close>

section \<open>Replaying the audit trail\<close>

datatype trail = Fresh | At action_status | Illegal

fun trail_step :: "trail \<Rightarrow> audit_entry \<Rightarrow> trail" where
  "trail_step Fresh e = (if ae_kind e = A_PROPOSAL then At PENDING_POLICY else Illegal)"
| "trail_step (At PENDING_POLICY) e =
     (case ae_kind e of
        A_DECISION \<Rightarrow>
          (if dict_get (ae_payload e) ''decision'' = Some (JStr ''auto'') then At PENDING_EXEC
           else if dict_get (ae_payload e) ''decision'' = Some (JStr ''approval_required'')
           then At PENDING_APPROVAL else At PENDING_POLICY)
      | A_REJECTION \<Rightarrow> At REJECTED
      | _ \<Rightarrow> Illegal)"
| "trail_step (At PENDING_APPROVAL) e =
     (case ae_kind e of
        A_APPROVAL \<Rightarrow>
          (if dict_get (ae_payload e) ''quorum_reached'' = Some (JBool True)
           then At PENDING_EXEC else At PENDING_APPROVAL)
      | A_REJECTION \<Rightarrow> At REJECTED
      | _ \<Rightarrow> Illegal)"
| "trail_step (At PENDING_EXEC) e =
     (case ae_kind e of
        A_EXECUTION \<Rightarrow> At EXECUTED
      | A_EXECUTION_FAILED \<Rightarrow> At EXECUTION_FAILED
      | _ \<Rightarrow> Illegal)"
| "trail_step (At s) e = Illegal"
| "trail_step Illegal e = Illegal"

definition replay :: "audit_entry list \<Rightarrow> trail" where
  "replay es = foldl trail_step Fresh es"

definition voters :: "audit_entry list \<Rightarrow> string option list" where
  "voters es = map ae_actor_id (filter (\<lambda>e. ae_kind e = A_APPROVAL) es)"

definition executions :: "audit_entry list \<Rightarrow> audit_entry list" where
  "executions es = filter (\<lambda>e. ae_kind e \<in> {A_EXECUTION, A_EXECUTION_FAILED}) es"

lemma replay_append: "replay (es @ fs) = foldl trail_step (replay es) fs"
  by (simp add: replay_def)

lemma voters_simps [simp]:
  "voters [] = []" "voters (es @ fs) = voters es @ voters fs"
  "voters (e # es) = (if ae_kind e = A_APPROVAL then [ae_actor_id e] else []) @ voters es"
  by (simp_all add: voters_def)

lemma trail_final:
  "foldl trail_step (At s) es = At s' \<Longrightarrow> s \<in> {EXECUTED, EXECUTION_FAILED, REJECTED} \<Longrightarrow>
   es = [] \<and> s' = s"
proof (cases es)
  case (Cons e fs)
  have illegal: "foldl trail_step Illegal gs = Illegal" for gs by (induction gs) auto
  assume "foldl trail_step (At s) es = At s'" "s \<in> {EXECUTED, EXECUTION_FAILED, REJECTED}"
  with Cons illegal show ?thesis by auto
qed auto

text \<open>An execution row is the last row of a legal trail, so there is at most one.\<close>

lemma trail_step_exec:
  "trail_step s e = At s' \<Longrightarrow>
   (s = At PENDING_EXEC \<longleftrightarrow> ae_kind e \<in> {A_EXECUTION, A_EXECUTION_FAILED}) \<and>
   (s' = EXECUTED \<longleftrightarrow> ae_kind e = A_EXECUTION) \<and>
   (s' = EXECUTION_FAILED \<longleftrightarrow> ae_kind e = A_EXECUTION_FAILED) \<and>
   s \<notin> {At EXECUTED, At EXECUTION_FAILED, At REJECTED, Illegal}"
  by (induction s e rule: trail_step.induct) (auto split: audit_kind.splits if_splits)

lemma replay_executions:
  "replay es = At s \<Longrightarrow>
   map ae_kind (executions es) =
     (if s = EXECUTED then [A_EXECUTION]
      else if s = EXECUTION_FAILED then [A_EXECUTION_FAILED] else [])"
proof (induction es arbitrary: s rule: rev_induct)
  case (snoc e es)
  from snoc.prems have step: "trail_step (replay es) e = At s" by (simp add: replay_append)
  show ?case
  proof (cases "replay es")
    case (At s0)
    with snoc.IH [OF At] trail_step_exec [OF step] show ?thesis
      by (auto simp: executions_def)
  next
    case Fresh
    then have "es = []"
    proof (cases es rule: rev_cases)
      case (snoc fs f)
      have "trail_step s f \<noteq> Fresh" for s f
        by (induction s f rule: trail_step.induct) (auto split: audit_kind.splits)
      with snoc Fresh show ?thesis by (simp add: replay_append)
    qed simp
    with step trail_step_exec [OF step] Fresh show ?thesis by (auto simp: executions_def)
  next
    case Illegal
    with step show ?thesis by simp
  qed
qed (simp add: replay_def executions_def)

section \<open>What one call may touch\<close>

definition comps_inv :: "pipeline \<Rightarrow> bool" where
  "comps_inv p \<longleftrightarrow>
     as_inv (p_actions p) \<and> aq_inv (p_queue p) \<and> al_inv (p_audit p) \<and> qp_inv (p_quorum p)"

abbreviation store :: "pipeline \<Rightarrow> string \<rightharpoonup> action" where
  "store p \<equiv> as_by_id (p_actions p)"

abbreviation queue_rows :: "pipeline \<Rightarrow> string \<rightharpoonup> approval_rule" where
  "queue_rows p \<equiv> aq_by_id (p_queue p)"

definition trail_of :: "string \<Rightarrow> pipeline \<Rightarrow> audit_entry list" where
  "trail_of aid p = filter (\<lambda>e. ae_action_id e = Some aid) (al_entries (p_audit p))"

definition tenant_index :: "pipeline \<Rightarrow> string \<Rightarrow> string list \<times> string list" where
  \<comment> \<open>a tenant's entries in the indices of the store and of the queue\<close>
  "tenant_index p t =
     (get_list (as_by_tenant (p_actions p)) t, get_list (aq_pending_by_tenant (p_queue p)) t)"

lemma tenant_index_simps [simp]:
  "tenant_index (p\<lparr>p_world := w\<rparr>) t = tenant_index p t"
  "tenant_index (p\<lparr>p_audit := l\<rparr>) t = tenant_index p t"
  "tenant_index (p\<lparr>p_policy := e\<rparr>) t = tenant_index p t"
  "tenant_index (p\<lparr>p_quorum := qp\<rparr>) t = tenant_index p t"
  "tenant_index (p\<lparr>p_dedup := d\<rparr>) t = tenant_index p t"
  "tenant_index (p\<lparr>p_queue := q\<rparr>) t =
     (fst (tenant_index p t), get_list (aq_pending_by_tenant q) t)"
  "snd (tenant_index p t) = get_list (aq_pending_by_tenant (p_queue p)) t"
  "(fst (tenant_index p t), get_list (aq_pending_by_tenant (p_queue p)) t) = tenant_index p t"
  by (simp_all add: tenant_index_def)

text \<open>
  \<open>touches aid t es p p'\<close>: from \<open>p\<close> to \<open>p'\<close> nothing but action \<open>aid\<close> of tenant \<open>t\<close> was
  touched, and the audit rows \<open>es\<close>, all about it, were written.
\<close>

definition touches :: "string \<Rightarrow> string \<Rightarrow> audit_entry list \<Rightarrow> pipeline \<Rightarrow> pipeline \<Rightarrow> bool" where
  "touches aid t es p p' \<longleftrightarrow>
     comps_inv p' \<and>
     (\<forall>b. b \<noteq> aid \<longrightarrow> store p' b = store p b \<and> queue_rows p' b = queue_rows p b) \<and>
     (\<forall>s. s \<noteq> t \<longrightarrow> tenant_index p' s = tenant_index p s) \<and>
     al_entries (p_audit p') = al_entries (p_audit p) @ es \<and>
     (\<forall>e \<in> set es. ae_action_id e = Some aid \<and> ae_tenant_id e = t) \<and>
     p_policy p' = p_policy p \<and> p_executors p' = p_executors p \<and>
     p_quorum p' = p_quorum p \<and> p_dedup p' = p_dedup p \<and>
     uuid_of (p_world p') = uuid_of (p_world p) \<and>
     uuids_drawn (p_world p) \<le> uuids_drawn (p_world p')"

lemma touches_refl: "comps_inv p \<Longrightarrow> touches aid t [] p p"
  by (simp add: touches_def)

lemma touches_trans:
  "touches aid t es p p1 \<Longrightarrow> touches aid t fs p1 p2 \<Longrightarrow> touches aid t (es @ fs) p p2"
  by (auto simp: touches_def)

lemma touchesD:
  assumes "touches aid t es p p'"
  shows "comps_inv p'" "b \<noteq> aid \<Longrightarrow> store p' b = store p b"
    "b \<noteq> aid \<Longrightarrow> queue_rows p' b = queue_rows p b"
    "p_policy p' = p_policy p" "p_executors p' = p_executors p" "p_quorum p' = p_quorum p"
    "p_dedup p' = p_dedup p" "uuid_of (p_world p') = uuid_of (p_world p)"
    "uuids_drawn (p_world p) \<le> uuids_drawn (p_world p')"
    "trail_of aid p' = trail_of aid p @ es" "b \<noteq> aid \<Longrightarrow> trail_of b p' = trail_of b p"
    "al_entries (p_audit p') = al_entries (p_audit p) @ es"
    "e \<in> set es \<Longrightarrow> ae_tenant_id e = t \<and> ae_action_id e = Some aid"
    "s \<noteq> t \<Longrightarrow> tenant_index p' s = tenant_index p s"
  using assms by (auto simp: touches_def trail_of_def filter_empty_conv)

text \<open>The primitives.\<close>

lemma touches_now: "comps_inv p \<Longrightarrow> touches aid t [] p (snd (p_now p))"
  by (simp add: touches_def p_now_def now_def comps_inv_def tenant_index_def)

lemma p_now_simps [simp]:
  "p_actions (snd (p_now p)) = p_actions p" "p_queue (snd (p_now p)) = p_queue p"
  "p_audit (snd (p_now p)) = p_audit p" "p_executors (snd (p_now p)) = p_executors p"
  "p_quorum (snd (p_now p)) = p_quorum p" "p_policy (snd (p_now p)) = p_policy p"
  "p_dedup (snd (p_now p)) = p_dedup p" "comps_inv (snd (p_now p)) = comps_inv p"
  "uuid_of (p_world (snd (p_now p))) = uuid_of (p_world p)"
  "uuids_drawn (p_world (snd (p_now p))) = uuids_drawn (p_world p)"
  by (simp_all add: p_now_def now_def comps_inv_def)

lemma tenant_index_world [simp]:
  "tenant_index (snd (p_now p)) t = tenant_index p t"
  "tenant_index (snd (p_uuid p)) t = tenant_index p t"
  by (simp_all add: tenant_index_def p_now_def now_def p_uuid_def uuid4_def)

lemma p_uuid_simps [simp]:
  "p_actions (snd (p_uuid p)) = p_actions p" "p_queue (snd (p_uuid p)) = p_queue p"
  "p_audit (snd (p_uuid p)) = p_audit p" "p_executors (snd (p_uuid p)) = p_executors p"
  "p_quorum (snd (p_uuid p)) = p_quorum p" "p_policy (snd (p_uuid p)) = p_policy p"
  "p_dedup (snd (p_uuid p)) = p_dedup p" "comps_inv (snd (p_uuid p)) = comps_inv p"
  "uuid_of (p_world (snd (p_uuid p))) = uuid_of (p_world p)"
  "uuids_drawn (p_world (snd (p_uuid p))) = Suc (uuids_drawn (p_world p))"
  by (simp_all add: p_uuid_def uuid4_def comps_inv_def)

lemma p_uuid_fst: "fst (p_uuid p) = uuid_of (p_world p) (uuids_drawn (p_world p))"
  by (simp add: p_uuid_def uuid4_def)

lemma p_put_simps [simp]:
  "store (p_put a p) = (store p)(a_id a \<mapsto> a)" "p_queue (p_put a p) = p_queue p"
  "p_audit (p_put a p) = p_audit p" "p_executors (p_put a p) = p_executors p"
  "p_quorum (p_put a p) = p_quorum p" "p_policy (p_put a p) = p_policy p"
  "p_dedup (p_put a p) = p_dedup p" "p_world (p_put a p) = p_world p"
  by (simp_all add: p_put_def)

lemma touches_put:
  assumes "comps_inv p" "\<And>b. store p (a_id a) = Some b \<Longrightarrow> a_tenant_id b = a_tenant_id a"
  shows "touches (a_id a) (a_tenant_id a) [] p (p_put a p)"
  using assms as_inv_put [of "p_actions p" a]
  by (auto simp: touches_def comps_inv_def tenant_index_def)
     (simp_all add: p_put_def as_put_def Let_def)

text \<open>The audit row a write adds.\<close>

definition is_row :: "audit_kind \<Rightarrow> action \<Rightarrow> string option \<Rightarrow> dict \<Rightarrow> audit_entry \<Rightarrow> bool" where
  "is_row k a v d e \<longleftrightarrow>
     ae_kind e = k \<and> ae_action_id e = Some (a_id a) \<and> ae_tenant_id e = a_tenant_id a \<and>
     ae_actor_id e = v \<and> ae_payload e = d"

definition ids_ok :: "action \<Rightarrow> bool" where
  "ids_ok a \<longleftrightarrow> len_within 1 64 (a_id a) \<and> len_within 1 64 (a_tenant_id a) \<and>
     len_within 1 64 (a_event_id a)"

lemma write_audit_ok:
  assumes "comps_inv p" "ids_ok a" "opt_max 128 v"
  obtains e p' where "p_write_audit k a by v d p = (Inr (), p')" "is_row k a v d e"
    "touches (a_id a) (a_tenant_id a) [e] p p'" "p_actions p' = p_actions p"
    "p_queue p' = p_queue p" "uuids_drawn (p_world p') = uuids_drawn (p_world p)"
proof -
  let ?entry = "\<lparr>ae_id = None, ae_tenant_id = a_tenant_id a, ae_ts = fst (p_now p), ae_kind = k,
    ae_action_id = Some (a_id a), ae_caused_by_event_id = Some (a_event_id a),
    ae_actor_kind = by, ae_actor_id = v, ae_payload = d\<rparr>"
  let ?p1 = "snd (p_now p)"
  let ?p' = "?p1\<lparr>p_audit := snd (al_write ?entry (p_audit ?p1))\<rparr>"
  have valid: "audit_entry_valid ?entry"
    using assms(2,3) by (simp add: audit_entry_valid_def ids_ok_def len_within_def)
  show thesis
  proof (rule that)
    show "p_write_audit k a by v d p = (Inr (), ?p')"
      using valid by (simp add: p_write_audit_def case_prod_beta Let_def)
    show "is_row k a v d (?entry\<lparr>ae_id := Some (al_next_id (p_audit p))\<rparr>)"
      by (simp add: is_row_def)
    show "touches (a_id a) (a_tenant_id a) [?entry\<lparr>ae_id := Some (al_next_id (p_audit p))\<rparr>] p ?p'"
      using assms(1) by (simp add: touches_def comps_inv_def)
  qed simp_all
qed


section \<open>The operations\<close>

definition same_ident :: "action \<Rightarrow> action \<Rightarrow> bool" where
  \<comment> \<open>the fields no transition changes\<close>
  "same_ident a b \<longleftrightarrow>
     a_id b = a_id a \<and> a_tenant_id b = a_tenant_id a \<and> a_proposal_id b = a_proposal_id a \<and>
     a_event_id b = a_event_id a \<and> a_customer_id b = a_customer_id a \<and>
     a_action_type b = a_action_type a \<and> a_created_at b = a_created_at a"

lemma same_ident_refl [simp]: "same_ident a a"
  by (simp add: same_ident_def)

lemma same_ident_trans: "same_ident a b \<Longrightarrow> same_ident b c \<Longrightarrow> same_ident a c"
  by (simp add: same_ident_def)

lemma same_ident_ids: "same_ident a b \<Longrightarrow> ids_ok b \<longleftrightarrow> ids_ok a"
  by (simp add: same_ident_def ids_ok_def)

lemma set_status_simps [simp]:
  "a_status (set_status s t a) = s" "same_ident a (set_status s t a)"
  "a_id (set_status s t a) = a_id a" "a_tenant_id (set_status s t a) = a_tenant_id a"
  "a_event_id (set_status s t a) = a_event_id a"
  "a_executed_at (set_status s t a) = a_executed_at a"
  "a_action_type (set_status s t a) = a_action_type a"
  "ids_ok (set_status s t a) = ids_ok a"
  by (simp_all add: set_status_def same_ident_def ids_ok_def)

definition executed_ok :: "action \<Rightarrow> audit_entry \<Rightarrow> bool" where
  "executed_ok a e \<longleftrightarrow>
     (a_status a = EXECUTED \<and> a_executed_at a \<noteq> None \<and> ae_kind e = A_EXECUTION
      \<or> a_status a = EXECUTION_FAILED \<and> a_executed_at a = None \<and>
        ae_kind e = A_EXECUTION_FAILED)"

lemma p_execute_ok:
  assumes inv: "comps_inv p" and ids: "ids_ok a" and new: "a_executed_at a = None"
    and tenant: "\<And>b. store p (a_id a) = Some b \<Longrightarrow> a_tenant_id b = a_tenant_id a"
  obtains a' e p' where "p_execute a p = (Inr a', p')"
    "touches (a_id a) (a_tenant_id a) [e] p p'" "store p' (a_id a) = Some a'"
    "p_queue p' = p_queue p" "same_ident a a'" "executed_ok a' e"
    "p_executors p = default_executors \<Longrightarrow> a_status a' = EXECUTED"
proof -
  let ?t = "fst (p_now p)" and ?p1 = "snd (p_now p)"
  obtain k b v d a' where parts:
      "p_execute a p = andThen (p_write_audit k b BY_SYSTEM None d (p_put a' ?p1)) (\<lambda>_ p2. (Inr a', p2))"
      "same_ident a b" "same_ident a a'"
      "a_status a' = EXECUTED \<and> a_executed_at a' \<noteq> None \<and> k = A_EXECUTION \<or>
       a_status a' = EXECUTION_FAILED \<and> a_executed_at a' = None \<and> k = A_EXECUTION_FAILED"
      "p_executors p = default_executors \<Longrightarrow> a_status a' = EXECUTED"
  proof (cases "ex_execute (p_executors p) ?t a")
    case (Inl exn)
    obtain n m where "exn = Exn n m" by (cases exn)
    with Inl new default_never_raises [of ?t a] show thesis
      by (intro that [of A_EXECUTION_FAILED a
            "[(''error_kind'', JStr n), (''error_message'', JStr m)]"
            "a\<lparr>a_status := EXECUTION_FAILED, a_updated_at := ?t\<rparr>"])
         (auto simp: p_execute_def case_prod_beta Let_def same_ident_def)
  next
    case (Inr x)
    with ex_execute_Inr [OF Inr] show thesis
      by (intro that [of A_EXECUTION x
            "[(''executed_payload'', dict_get_or (a_payload x) ''_executed_payload'' (JObj []))]" x])
         (auto simp: p_execute_def case_prod_beta Let_def same_ident_def)
  qed
  have ident: "a_id b = a_id a" "a_tenant_id b = a_tenant_id a" "a_id a' = a_id a"
      "a_tenant_id a' = a_tenant_id a"
    using parts(2,3) by (simp_all add: same_ident_def)
  have put: "touches (a_id a) (a_tenant_id a) [] p (p_put a' ?p1)"
    using touches_trans [OF touches_now [OF inv] touches_put [of ?p1 a']] inv tenant ident
    by simp
  obtain e p' where w: "p_write_audit k b BY_SYSTEM None d (p_put a' ?p1) = (Inr (), p')"
      "is_row k b None d e" "touches (a_id b) (a_tenant_id b) [e] (p_put a' ?p1) p'"
      "p_actions p' = p_actions (p_put a' ?p1)" "p_queue p' = p_queue (p_put a' ?p1)"
    by (rule write_audit_ok [OF touchesD(1) [OF put], of b None k BY_SYSTEM d])
       (use ids parts(2) in \<open>simp_all add: same_ident_ids\<close>)
  show thesis
  proof (rule that)
    show "p_execute a p = (Inr a', p')" using parts(1) w(1) by simp
    show "touches (a_id a) (a_tenant_id a) [e] p p'"
      using touches_trans [OF put, of "[e]" p'] w(3) ident by simp
    show "executed_ok a' e" using parts(4) w(2) by (auto simp: executed_ok_def is_row_def)
  qed (use w(4,5) ident parts(3,5) in \<open>simp_all add: p_put_def\<close>)
qed

text \<open>A vote through the pipeline.\<close>

definition vote_row :: "action \<Rightarrow> string \<Rightarrow> approval_rule \<Rightarrow> audit_entry \<Rightarrow> bool" where
  "vote_row a v r e \<longleftrightarrow>
     ae_kind e = A_APPROVAL \<and> ae_actor_id e = Some v \<and>
     dict_get (ae_payload e) ''quorum_reached'' = Some (JBool (ar_state r = ''approved'')) \<and>
     dict_get (ae_payload e) ''approvals_recorded'' = Some (JInt (int (length (ar_approvals r)))) \<and>
     dict_get (ae_payload e) ''required_approvals'' = Some (JInt (ar_required_approvals r))"

definition vote_ready :: "pipeline \<Rightarrow> string \<Rightarrow> bool" where
  "vote_ready p aid \<longleftrightarrow>
     (\<forall>a. store p aid = Some a \<longrightarrow> a_id a = aid \<and> ids_ok a \<and>
        (\<forall>r. queue_rows p aid = Some r \<longrightarrow> ar_tenant_id r = a_tenant_id a) \<and>
        (\<forall>r. queue_rows p aid = Some r \<longrightarrow> ar_state r = ''pending'' \<longrightarrow> a_executed_at a = None))"

lemma approve_action_cases:
  assumes inv: "comps_inv p" and len: "length v \<le> 128"
    and ready: "vote_ready p aid"
  obtains (refused) e p' where "approve_action aid v t p = (Inl e, p')"
      "touches aid t' [] p p'" "p_actions p' = p_actions p" "p_queue p' = p_queue p"
      "e \<noteq> ValidationError"
      "(\<exists>a. store p aid = Some a \<and> tenant_guard t a) \<Longrightarrow>
        raised (aq_approve (fst (p_now p)) aid (Some v) (p_queue p))"
  | (partial) a r r' e p' where "store p aid = Some a" "tenant_guard t a"
      "queue_rows p aid = Some r" "row_step r r'" "ar_state r' = ''pending''"
      "ar_approvals r' = ar_approvals r @ [v]" "vote_row a v r' e"
      "approve_action aid v t p = (Inr a, p')"
      "touches aid (a_tenant_id a) [e] p p'" "p_actions p' = p_actions p"
      "queue_rows p' aid = Some r'"
  | (executed) a r r' a' e f p' where "store p aid = Some a" "tenant_guard t a"
      "queue_rows p aid = Some r" "row_step r r'" "ar_state r' = ''approved''"
      "ar_approvals r' = ar_approvals r @ [v]" "vote_row a v r' e"
      "approve_action aid v t p = (Inr a', p')"
      "touches aid (a_tenant_id a) [e, f] p p'" "store p' aid = Some a'"
      "queue_rows p' aid = Some r'" "same_ident a a'" "executed_ok a' f"
      "p_executors p = default_executors \<Longrightarrow> a_status a' = EXECUTED"
proof (cases "store p aid")
  case None
  then show thesis
    by (intro refused) (auto simp: approve_action_def as_get_def inv intro: touches_refl)
next
  case (Some a)
  from ready Some have a: "a_id a = aid" "ids_ok a" by (auto simp: vote_ready_def)
  show thesis
  proof (cases "tenant_guard t a")
    case False
    with Some show thesis
      by (intro refused) (auto simp: approve_action_def as_get_def inv intro: touches_refl)
  next
    case guard: True
    let ?s = "fst (p_now p)" and ?p1 = "snd (p_now p)"
    let ?q = "snd (aq_approve ?s aid (Some v) (p_queue p))"
    let ?p2 = "?p1\<lparr>p_queue := ?q\<rparr>"
    note def = approve_action_def as_get_def Some guard case_prod_beta Let_def
    have aq: "aq_inv (p_queue p)" using inv by (simp add: comps_inv_def)
    show thesis
    proof (cases "fst (aq_approve ?s aid (Some v) (p_queue p))")
      case (Inl e)
      with vq.approve_raises [of ?s aid "Some v" "p_queue p" e] have same: "?p2 = ?p1" by simp
      show thesis
        by (rule refused [of "QueueError e" ?p1])
           (use same Inl touches_now [OF inv] in \<open>simp_all add: def\<close>)
    next
      case (Inr r')
      from vq.approve_returns [OF aq Inr] obtain r where r: "queue_rows p aid = Some r"
        "row_step r r'" "ar_state r' \<noteq> ''rejected''" "aq_by_id ?q = (queue_rows p)(aid \<mapsto> r')"
        by blast
      have voted: "ar_approvals r' = ar_approvals r @ [v]"
        by (rule vq.approve_appends [OF aq r(1) Inr])
      have t2: "touches aid (a_tenant_id a) [] p ?p2"
        using inv vq.inv_approve [OF aq, of ?s aid "Some v"] r(1,4) ready Some
          aq_approve_pending [OF aq r(1), of _ ?s "Some v"]
        by (simp add: vote_ready_def) (simp add: touches_def comps_inv_def)
      let ?d = "[(''prior_status'', JStr (action_status_value (a_status a))),
         (''approvals_recorded'', JInt (int (length (ar_approvals r')))),
         (''required_approvals'', JInt (ar_required_approvals r')),
         (''quorum_reached'', JBool (ar_state r' = ''approved''))]"
      obtain e p3 where w: "p_write_audit A_APPROVAL a BY_HUMAN (Some v) ?d ?p2 = (Inr (), p3)"
        "is_row A_APPROVAL a (Some v) ?d e" "touches aid (a_tenant_id a) [e] ?p2 p3"
        "p_actions p3 = p_actions p" "p_queue p3 = ?q"
        by (rule write_audit_ok [OF touchesD(1) [OF t2] a(2), of "Some v" A_APPROVAL BY_HUMAN ?d])
           (use len a(1) in simp_all)
      have t3: "touches aid (a_tenant_id a) [e] p p3" using touches_trans [OF t2 w(3)] by simp
      have vr: "vote_row a v r' e" using w(2) by (auto simp: vote_row_def is_row_def)
      show thesis
      proof (cases "ar_state r' = ''approved''")
        case False
        with r(2,3) row_step_target [OF r(2)] have "ar_state r' = ''pending''" by auto
        then show thesis
          by (intro partial [OF Some guard r(1,2) _ voted vr _ t3 w(4)])
             (use w False Inr r(4) in \<open>simp_all add: def\<close>)
      next
        case True
        let ?p4 = "snd (p_now p3)"
        let ?a2 = "set_status PENDING_EXEC (fst (p_now p3)) a"
        have c3: "comps_inv p3" by (rule touchesD(1) [OF t3])
        have put: "touches aid (a_tenant_id a) [] p3 (p_put ?a2 ?p4)"
          using touches_trans [OF touches_now [OF c3] touches_put [of ?p4 ?a2]] c3 w(4) Some a(1)
          by simp
        have none: "a_executed_at a = None"
          using ready Some r(1) row_step_from_pending [OF r(2)] by (auto simp: vote_ready_def)
        obtain a' f p' where x: "p_execute ?a2 (p_put ?a2 ?p4) = (Inr a', p')"
          "touches aid (a_tenant_id a) [f] (p_put ?a2 ?p4) p'" "store p' aid = Some a'"
          "p_queue p' = p_queue (p_put ?a2 ?p4)" "same_ident ?a2 a'" "executed_ok a' f"
          "p_executors (p_put ?a2 ?p4) = default_executors \<Longrightarrow> a_status a' = EXECUTED"
          by (rule p_execute_ok [OF touchesD(1) [OF put], of ?a2])
             (use a none in auto)
        have t5: "touches aid (a_tenant_id a) [e, f] p p'"
          using touches_trans [OF t3 touches_trans [OF put x(2)]] by simp
        have id5: "same_ident a a'" using same_ident_trans [OF _ x(5)] by simp
        show thesis
          by (rule executed [OF Some guard r(1,2) True voted vr _ t5 x(3) _ id5 x(6)])
             (use w True Inr r(4) x(1,4,7) touchesD(5) [OF t3] in \<open>simp_all add: def\<close>)
      qed
    qed
  qed
qed

text \<open>A veto through the pipeline.\<close>

lemma reject_action_cases:
  assumes inv: "comps_inv p" and len: "length v \<le> 128"
    and ready: "vote_ready p aid"
  obtains (refused) e p' where "reject_action aid reason v t p = (Inl e, p')"
      "touches aid t' [] p p'" "p_actions p' = p_actions p" "p_queue p' = p_queue p"
      "e \<noteq> ValidationError"
  | (rejected) a r r' s e p' where "store p aid = Some a" "tenant_guard t a"
      "queue_rows p aid = Some r" "row_step r r'" "ar_state r' = ''rejected''"
      "ae_kind e = A_REJECTION" "ae_actor_id e = Some v"
      "reject_action aid reason v t p = (Inr (set_status REJECTED s a), p')"
      "touches aid (a_tenant_id a) [e] p p'"
      "store p' aid = Some (set_status REJECTED s a)" "queue_rows p' aid = Some r'"
proof (cases "store p aid")
  case None
  then show thesis
    by (intro refused) (auto simp: reject_action_def as_get_def inv intro: touches_refl)
next
  case (Some a)
  from ready Some have a: "a_id a = aid" "ids_ok a" by (auto simp: vote_ready_def)
  show thesis
  proof (cases "tenant_guard t a")
    case False
    with Some show thesis
      by (intro refused) (auto simp: reject_action_def as_get_def inv intro: touches_refl)
  next
    case guard: True
    let ?s = "fst (p_now p)" and ?p1 = "snd (p_now p)"
    let ?q = "snd (aq_reject ?s aid reason (Some v) (p_queue p))"
    let ?p2 = "?p1\<lparr>p_queue := ?q\<rparr>"
    note def = reject_action_def as_get_def Some guard case_prod_beta Let_def
    have aq: "aq_inv (p_queue p)" using inv by (simp add: comps_inv_def)
    show thesis
    proof (cases "fst (aq_reject ?s aid reason (Some v) (p_queue p))")
      case (Inl e)
      with vq.reject_raises [of ?s aid reason "Some v" "p_queue p" e]
      have same: "?p2 = ?p1" by simp
      show thesis
        by (rule refused [of "QueueError e" ?p1])
           (use same Inl touches_now [OF inv] in \<open>simp_all add: def\<close>)
    next
      case (Inr r')
      from vq.reject_returns [OF aq Inr] obtain r where r: "queue_rows p aid = Some r"
        "row_step r r'" "ar_state r' = ''rejected''" "aq_by_id ?q = (queue_rows p)(aid \<mapsto> r')"
        by blast
      have t2: "touches aid (a_tenant_id a) [] p ?p2"
        using inv vq.inv_reject [OF aq, of ?s aid reason "Some v"] r(1,4) ready Some
          aq_reject_pending [OF aq r(1), of _ ?s reason "Some v"]
        by (simp add: vote_ready_def) (simp add: touches_def comps_inv_def)
      let ?d = "[(''prior_status'', JStr (action_status_value (a_status a))),
         (''reason'', JStr reason)]"
      obtain e p3 where w: "p_write_audit A_REJECTION a BY_HUMAN (Some v) ?d ?p2 = (Inr (), p3)"
        "is_row A_REJECTION a (Some v) ?d e" "touches aid (a_tenant_id a) [e] ?p2 p3"
        "p_actions p3 = p_actions p" "p_queue p3 = ?q"
        by (rule write_audit_ok [OF touchesD(1) [OF t2] a(2), of "Some v" A_REJECTION BY_HUMAN ?d])
           (use len a(1) in simp_all)
      have t3: "touches aid (a_tenant_id a) [e] p p3" using touches_trans [OF t2 w(3)] by simp
      let ?p4 = "snd (p_now p3)" and ?s' = "fst (p_now p3)"
      let ?a2 = "set_status REJECTED ?s' a"
      have c3: "comps_inv p3" by (rule touchesD(1) [OF t3])
      have put: "touches aid (a_tenant_id a) [] p3 (p_put ?a2 ?p4)"
        using touches_trans [OF touches_now [OF c3] touches_put [of ?p4 ?a2]] c3 w(4) Some a(1)
        by simp
      have t5: "touches aid (a_tenant_id a) [e] p (p_put ?a2 ?p4)"
        using touches_trans [OF t3 put] by simp
      show thesis
        by (rule rejected [OF Some guard r(1-3) _ _ _ t5, of ?s'])
           (use w(1,2,5) Inr r(4) a(1) in \<open>simp_all add: def is_row_def\<close>)
    qed
  qed
qed

text \<open>A proposal of an event not seen before.\<close>

definition fresh_action :: "proposal \<Rightarrow> pipeline \<Rightarrow> string" where
  "fresh_action proposal p = ''act_'' @ uuid_of (p_world p) (uuids_drawn (p_world p))"

definition uuids_ok :: "nat \<Rightarrow> world \<Rightarrow> bool" where
  \<comment> \<open>\<open>uuid4().hex\<close> is 32 hex digits, and the next \<open>k\<close> draws repeat neither each other nor
      an earlier one\<close>
  "uuids_ok k w \<longleftrightarrow>
     inj_on (uuid_of w) {..< uuids_drawn w + k} \<and>
     (\<forall>n < uuids_drawn w + k. length (uuid_of w n) = 32)"

definition draws :: "nat \<Rightarrow> pipeline \<Rightarrow> pipeline \<Rightarrow> bool" where
  "draws k p p' \<longleftrightarrow>
     uuid_of (p_world p') = uuid_of (p_world p) \<and>
     uuids_drawn (p_world p) \<le> uuids_drawn (p_world p') \<and>
     uuids_drawn (p_world p') \<le> uuids_drawn (p_world p) + k"

lemma uuids_ok_now [simp]: "uuids_ok k (p_world (snd (p_now p))) = uuids_ok k (p_world p)"
  by (simp add: uuids_ok_def)

lemma uuids_ok_draws:
  assumes "draws j p p'" "uuids_ok (j + k) (p_world p)"
  shows "uuids_ok k (p_world p')"
proof -
  have "{..< uuids_drawn (p_world p') + k} \<subseteq> {..< uuids_drawn (p_world p) + (j + k)}"
    using assms(1) by (auto simp: draws_def)
  with assms show ?thesis
    by (auto simp: uuids_ok_def draws_def intro: inj_on_subset)
qed

lemma draws_trans: "draws j p p1 \<Longrightarrow> draws k p1 p2 \<Longrightarrow> draws (j + k) p p2"
  by (simp add: draws_def)

lemma draws_andThen:
  assumes "draws j p (snd r)" "\<And>v q. r = (Inr v, q) \<Longrightarrow> draws k q (snd (f v q))"
  shows "draws (j + k) p (snd (andThen r f))"
proof (cases r)
  case (Pair x q)
  show ?thesis
  proof (cases x)
    case (Inl e)
    with Pair assms(1) show ?thesis by (simp add: draws_def)
  next
    case (Inr v)
    with Pair assms(1) assms(2) [of v q] show ?thesis by (auto intro: draws_trans)
  qed
qed

lemma draws_refl [simp]: "draws k p p" "draws 0 p (snd (p_now p))" "draws 0 p (p_put a p)"
  "draws 0 p (p\<lparr>p_queue := q\<rparr>)" "draws 0 p (p\<lparr>p_dedup := d\<rparr>)"
  by (simp_all add: draws_def)

lemma draws_write_audit: "draws 0 p (snd (p_write_audit k a b v d p))"
  by (simp add: p_write_audit_def case_prod_beta Let_def draws_def)

lemma draws_execute: "draws 0 p (snd (p_execute a p))"
proof -
  have "draws (0 + 0) p (snd (andThen (p_write_audit k b c v d (p_put x (snd (p_now p)))) (\<lambda>_ q. (Inr y, q))))"
    for k b c v d x and y :: action
    by (rule draws_andThen)
       (use draws_write_audit [of "p_put x (snd (p_now p))"] in \<open>simp_all add: draws_def\<close>)
  then show ?thesis
    by (simp add: p_execute_def case_prod_beta Let_def split: sum.split py_exn.split)
qed

lemma draws_enqueue: "draws 1 p (snd (p_enqueue a rule p))"
  by (simp add: p_enqueue_def case_prod_beta Let_def draws_def split: sum.split)

lemma draws_apply_decision: "draws 1 p (snd (p_apply_decision a d p))"
proof -
  have put: "draws 0 p (p_put x (snd (p_now p)))" for x by (simp add: draws_def)
  have "draws (0 + 0) p (snd (andThen (p_write_audit k b c v y (p_put x (snd (p_now p))))
      (\<lambda>_ q. (Inr x, q))))" for k b c v y x
    by (rule draws_andThen) (use draws_trans [OF put draws_write_audit] in simp_all)
  moreover have "draws (1 + 0) p (snd (andThen (p_enqueue x r (p_put x (snd (p_now p))))
      (\<lambda>_ q. (Inr x, q))))" for x r
    by (rule draws_andThen) (use draws_trans [OF put draws_enqueue] in simp_all)
  moreover have "draws 0 p (snd (p_execute x (p_put x (snd (p_now p)))))" for x
    using draws_trans [OF put draws_execute] by simp
  moreover have "draws 0 p q \<Longrightarrow> draws 1 p q" for q by (simp add: draws_def)
  ultimately show ?thesis
    by (cases d) (simp_all add: p_apply_decision_def case_prod_beta Let_def)
qed

lemma draws_materialize: "draws 1 p (snd (p_materialize_action pr p))"
  by (simp add: p_materialize_action_def case_prod_beta Let_def draws_def)

lemma draws_handle: "draws 2 p (snd (handle_proposal pr p))"
proof (cases "p_dedup p (pr_tenant_id pr, pr_event_id pr)")
  case None
  have put: "draws 0 q (snd (p_write_audit k a b v d (p_put a q)))" for q k a b v d
    using draws_write_audit [of "p_put a q" k a b v d] by (simp add: draws_def)
  have "draws (1 + (0 + (0 + (1 + 0)))) p (snd (handle_proposal pr p))"
    unfolding handle_proposal_def Let_def None option.case
    by (intro draws_andThen draws_materialize put draws_write_audit draws_apply_decision)
       simp
  then show ?thesis by (simp add: numeral_2_eq_2)
qed (simp add: handle_proposal_def split: option.split)

lemma draws_approve: "draws 0 p (snd (approve_action aid v t p))"
proof -
  have "draws (0 + 0) p (snd (andThen (p_write_audit k a b u d (snd (p_now p)\<lparr>p_queue := q\<rparr>))
     (\<lambda>_ r. if \<not> c then (Inr a, r)
            else let (s, r') = p_now r; x = set_status PENDING_EXEC s a
                 in p_execute x (p_put x r'))))" for k a b u d q c
  proof (rule draws_andThen)
    show "draws 0 p (snd (p_write_audit k a b u d (snd (p_now p)\<lparr>p_queue := q\<rparr>)))"
      using draws_write_audit [of "snd (p_now p)\<lparr>p_queue := q\<rparr>" k a b u d]
      by (simp add: draws_def)
    show "draws 0 r (snd (if \<not> c then (Inr a, r)
            else let (s, r') = p_now r; x = set_status PENDING_EXEC s a
                 in p_execute x (p_put x r')))" for r
      using draws_execute [of "p_put (set_status PENDING_EXEC (fst (p_now r)) a) (snd (p_now r))"
          "set_status PENDING_EXEC (fst (p_now r)) a"]
      by (simp add: case_prod_beta Let_def draws_def)
  qed
  then show ?thesis
    by (simp add: approve_action_def case_prod_beta Let_def split: option.split sum.split)
       (simp add: draws_def)
qed

lemma draws_reject: "draws 0 p (snd (reject_action aid reason v t p))"
proof -
  have "draws (0 + 0) p (snd (andThen (p_write_audit k a b u d (snd (p_now p)\<lparr>p_queue := q\<rparr>))
     (\<lambda>_ r. let (s, r') = p_now r; x = set_status REJECTED s a in (Inr x, p_put x r'))))"
    for k a b u d q
  proof (rule draws_andThen)
    show "draws 0 p (snd (p_write_audit k a b u d (snd (p_now p)\<lparr>p_queue := q\<rparr>)))"
      using draws_write_audit [of "snd (p_now p)\<lparr>p_queue := q\<rparr>" k a b u d]
      by (simp add: draws_def)
  qed (simp add: case_prod_beta Let_def draws_def)
  then show ?thesis
    by (simp add: reject_action_def case_prod_beta Let_def split: option.split sum.split)
       (simp add: draws_def)
qed

definition queue_row_for :: "quorum_rule \<Rightarrow> action \<Rightarrow> approval_rule option \<Rightarrow> bool" where
  "queue_row_for rule a ro \<longleftrightarrow>
     (if a_status a = PENDING_APPROVAL
      then (case ro of None \<Rightarrow> False
            | Some r \<Rightarrow> ar_state r = ''pending'' \<and> ar_approvals r = [] \<and>
                       ar_tenant_id r = a_tenant_id a \<and>
                       ar_required_approvals r = qr_required_approvals rule \<and>
                       ar_eligible_approvers r = qr_eligible_approvers rule)
      else ro = None)"

definition from_proposal :: "proposal \<Rightarrow> action \<Rightarrow> bool" where
  "from_proposal proposal a \<longleftrightarrow>
     a_tenant_id a = pr_tenant_id proposal \<and> a_event_id a = pr_event_id proposal \<and>
     a_proposal_id a = pr_id proposal \<and> a_customer_id a = pr_customer_id proposal \<and>
     a_action_type a = pr_action_type proposal"

definition decided_status :: "policy_decision \<Rightarrow> action_status \<Rightarrow> bool" where
  "decided_status d s \<longleftrightarrow>
     (case d of
        AUTO \<Rightarrow> s \<in> {EXECUTED, EXECUTION_FAILED}
      | APPROVAL_REQUIRED \<Rightarrow> s = PENDING_APPROVAL
      | REJECT \<Rightarrow> s = REJECTED)"

lemma p_enqueue_new:
  assumes inv: "comps_inv p" and none: "queue_rows p (a_id a) = None" and ids: "ids_ok a"
    and w: "uuids_ok 1 (p_world p)" and rule: "quorum_rule_post_init rule"
  obtains r p' where "p_enqueue a rule p = (Inr r, p')"
    "touches (a_id a) (a_tenant_id a) [] p p'" "p_actions p' = p_actions p"
    "queue_rows p' (a_id a) = Some r" "ar_state r = ''pending''" "ar_approvals r = []"
    "ar_tenant_id r = a_tenant_id a" "ar_required_approvals r = qr_required_approvals rule"
    "ar_eligible_approvers r = qr_eligible_approvers rule"
proof -
  let ?u = "fst (p_uuid p)" and ?p1 = "snd (p_uuid p)"
  let ?s = "fst (p_now ?p1)" and ?p2 = "snd (p_now ?p1)"
  let ?n = "qr_required_approvals rule" and ?pool = "qr_eligible_approvers rule"
  let ?r = "new_rule ?u ?s (a_id a) (a_tenant_id a) None ?n ?pool"
  let ?q = "snd (aq_enqueue ?u ?s (a_id a) (a_tenant_id a) None ?n ?pool (p_queue p))"
  have ok: "enqueue_args_ok (a_id a) (a_tenant_id a) ?n ?pool"
    using ids rule by (auto simp: enqueue_args_ok_def ids_ok_def quorum_rule_post_init_def
        split: option.splits)
  have valid: "approval_rule_valid ?r"
    using ids rule w by (simp add: approval_rule_valid_def new_rule_def ids_ok_def uuids_ok_def p_uuid_fst
        quorum_rule_post_init_def approval_states_def)
  have enq: "fst (aq_enqueue ?u ?s (a_id a) (a_tenant_id a) None ?n ?pool (p_queue p)) = Inr ?r"
    and rows: "aq_by_id ?q = (queue_rows p)(a_id a \<mapsto> ?r)"
    and index: "s \<noteq> a_tenant_id a \<Longrightarrow> get_list (aq_pending_by_tenant ?q) s = snd (tenant_index p s)" for s
    using ok valid none by (simp_all add: aq_enqueue_def Let_def)
  have aq: "aq_inv ?q" using inv by (auto simp: comps_inv_def intro: aq_inv_enqueue)
  show thesis
  proof (rule that)
    show "p_enqueue a rule p = (Inr ?r, ?p2\<lparr>p_queue := ?q\<rparr>)"
      using enq by (simp add: p_enqueue_def case_prod_beta Let_def)
    show "touches (a_id a) (a_tenant_id a) [] p (?p2\<lparr>p_queue := ?q\<rparr>)"
      using inv aq rows index by (simp add: touches_def comps_inv_def)
  qed (simp_all add: rows)
qed

lemma p_apply_decision_ok:
  assumes inv: "comps_inv p" and ids: "ids_ok a" and w: "uuids_ok 1 (p_world p)"
    and a: "store p (a_id a) = Some a" "a_executed_at a = None"
    and none: "queue_rows p (a_id a) = None"
  obtains a' es p' where "p_apply_decision a d p = (Inr a', p')"
    "touches (a_id a) (a_tenant_id a) es p p'" "store p' (a_id a) = Some a'"
    "same_ident a a'" "decided_status d (a_status a')" "queue_row_for (qp_resolve (a_tenant_id a) (a_action_type a) (p_quorum p)) a' (queue_rows p' (a_id a))"
    "executed_at_consistent a'" "voters es = []"
    "d = APPROVAL_REQUIRED \<longrightarrow> es = []" "d = REJECT \<longrightarrow> map ae_kind es = [A_REJECTION]"
    "d = AUTO \<longrightarrow> (\<exists>e. es = [e] \<and> executed_ok a' e)"
    "d = AUTO \<longrightarrow> p_executors p = default_executors \<longrightarrow> a_status a' = EXECUTED"
proof -
  let ?t = "fst (p_now p)" and ?p1 = "snd (p_now p)"
  have put: "touches (a_id a) (a_tenant_id a) [] p (p_put (set_status s ?t a) ?p1)" for s
    using touches_trans [OF touches_now [OF inv] touches_put [of ?p1 "set_status s ?t a"]] inv a
    by simp
  show thesis
  proof (cases d)
    case REJECT
    let ?a = "set_status REJECTED ?t a"
    obtain e p' where x: "p_write_audit A_REJECTION ?a BY_SYSTEM None
        [(''reason'', JStr ''policy=reject''), (''by'', JStr ''policy_engine'')]
        (p_put ?a ?p1) = (Inr (), p')"
      "is_row A_REJECTION ?a None
        [(''reason'', JStr ''policy=reject''), (''by'', JStr ''policy_engine'')] e"
      "touches (a_id ?a) (a_tenant_id ?a) [e] (p_put ?a ?p1) p'"
      "p_actions p' = p_actions (p_put ?a ?p1)" "p_queue p' = p_queue (p_put ?a ?p1)"
      by (rule write_audit_ok [OF touchesD(1) [OF put [of REJECTED]], of ?a None]) (use ids in simp_all)
    have t: "touches (a_id a) (a_tenant_id a) [e] p p'"
      using touches_trans [OF put x(3) [unfolded set_status_simps]] by simp
    show thesis
      by (rule that [OF _ t, of ?a])
         (use x(1,2,4,5) REJECT none a in \<open>auto simp: p_apply_decision_def case_prod_beta Let_def
            decided_status_def queue_row_for_def executed_at_consistent_def is_row_def\<close>)
  next
    case APPROVAL_REQUIRED
    let ?a = "set_status PENDING_APPROVAL ?t a"
    let ?p2 = "p_put ?a ?p1"
    let ?rule = "qp_resolve (a_tenant_id ?a) (a_action_type ?a) (p_quorum ?p2)"
    have rule: "quorum_rule_post_init ?rule"
      using inv by (auto simp: comps_inv_def intro: qp_resolve_valid)
    obtain r p' where x: "p_enqueue ?a ?rule ?p2 = (Inr r, p')"
      "touches (a_id ?a) (a_tenant_id ?a) [] ?p2 p'" "p_actions p' = p_actions ?p2"
      "queue_rows p' (a_id ?a) = Some r" "ar_state r = ''pending''" "ar_approvals r = []"
      "ar_tenant_id r = a_tenant_id ?a" "ar_required_approvals r = qr_required_approvals ?rule"
      "ar_eligible_approvers r = qr_eligible_approvers ?rule"
      by (rule p_enqueue_new [where a = ?a, OF touchesD(1) [OF put [of PENDING_APPROVAL]] _ _ _ rule])
         (use none ids w in simp_all)
    have t: "touches (a_id a) (a_tenant_id a) [] p p'"
      using touches_trans [OF put x(2) [unfolded set_status_simps]] by simp
    show thesis
      by (rule that [OF _ t, of ?a])
         (use x APPROVAL_REQUIRED none a in \<open>auto simp: p_apply_decision_def case_prod_beta Let_def
            decided_status_def queue_row_for_def executed_at_consistent_def\<close>)
  next
    case AUTO
    let ?a = "set_status PENDING_EXEC ?t a"
    obtain a' e p' where x: "p_execute ?a (p_put ?a ?p1) = (Inr a', p')"
      "touches (a_id ?a) (a_tenant_id ?a) [e] (p_put ?a ?p1) p'" "store p' (a_id ?a) = Some a'"
      "p_queue p' = p_queue (p_put ?a ?p1)" "same_ident ?a a'" "executed_ok a' e"
      "p_executors (p_put ?a ?p1) = default_executors \<Longrightarrow> a_status a' = EXECUTED"
      by (rule p_execute_ok [OF touchesD(1) [OF put [of PENDING_EXEC]], of ?a])
         (use ids a in auto)
    have t: "touches (a_id a) (a_tenant_id a) [e] p p'"
      using touches_trans [OF put x(2) [unfolded set_status_simps]] by simp
    have ident: "same_ident a a'" using same_ident_trans [OF _ x(5)] by simp
    show thesis
      by (rule that [OF _ t _ ident])
         (use x(1,3,4,6,7) AUTO none in \<open>auto simp: p_apply_decision_def case_prod_beta Let_def
            decided_status_def queue_row_for_def executed_at_consistent_def executed_ok_def\<close>)
  qed
qed

definition proposal_row :: "proposal \<Rightarrow> audit_entry \<Rightarrow> bool" where
  "proposal_row pr e \<longleftrightarrow> ae_kind e = A_PROPOSAL \<and>
     dict_get (ae_payload e) ''action_type'' =
       Some (JStr (action_type_value (pr_action_type pr)))"

definition decision_row :: "policy_decision \<Rightarrow> audit_entry \<Rightarrow> bool" where
  "decision_row d e \<longleftrightarrow> ae_kind e = A_DECISION \<and>
     dict_get (ae_payload e) ''decision'' = Some (JStr (policy_decision_value d))"

abbreviation decision_of :: "proposal \<Rightarrow> pipeline \<Rightarrow> policy_decision" where
  "decision_of proposal p \<equiv>
     de_decide (pr_tenant_id proposal) (Enum (pr_action_type proposal)) (p_policy p)"

lemma handle_proposal_new:
  assumes inv: "comps_inv p" and valid: "proposal_valid proposal"
    and w: "uuids_ok 2 (p_world p)"
    and new: "p_dedup p (pr_tenant_id proposal, pr_event_id proposal) = None"
    and fresh: "store p (fresh_action proposal p) = None"
      "queue_rows p (fresh_action proposal p) = None"
  obtains a e f es p1 where
    "handle_proposal proposal p = (Inr [a], p1\<lparr>p_dedup := (p_dedup p)
       ((pr_tenant_id proposal, pr_event_id proposal) \<mapsto> [a_id a])\<rparr>)"
    "a_id a = fresh_action proposal p" "from_proposal proposal a" "ids_ok a"
    "touches (a_id a) (a_tenant_id a) (e # f # es) p p1"
    "uuids_drawn (p_world p) < uuids_drawn (p_world p1)"
    "store p1 (a_id a) = Some a" "decided_status (decision_of proposal p) (a_status a)"
    "queue_row_for (qp_resolve (pr_tenant_id proposal) (pr_action_type proposal) (p_quorum p))
       a (queue_rows p1 (a_id a))" "executed_at_consistent a"
    "proposal_row proposal e" "decision_row (decision_of proposal p) f" "voters es = []"
    "replay (e # f # es) = At (a_status a)"
    "decision_of proposal p = AUTO \<longrightarrow> p_executors p = default_executors \<longrightarrow> a_status a = EXECUTED"
proof -
  let ?d = "decision_of proposal p"
  let ?pu = "snd (p_uuid p)"
  let ?pc = "snd (p_now (snd (p_now ?pu)))"
  define a where "a = \<lparr>a_id = fresh_action proposal p, a_tenant_id = pr_tenant_id proposal,
     a_proposal_id = pr_id proposal, a_event_id = pr_event_id proposal,
     a_customer_id = pr_customer_id proposal, a_action_type = pr_action_type proposal,
     a_status = PENDING_POLICY, a_payload = pr_payload proposal,
     a_created_at = fst (p_now ?pu), a_updated_at = fst (p_now (snd (p_now ?pu))),
     a_executed_at = None\<rparr>"
  have id32: "length (uuid_of (p_world p) (uuids_drawn (p_world p))) = 32"
    using w by (simp add: uuids_ok_def)
  have ids: "ids_ok a" and av: "action_valid a"
    using valid id32 by (simp_all add: a_def ids_ok_def action_valid_def proposal_valid_def
        fresh_action_def executed_at_consistent_def)
  have mat: "p_materialize_action proposal p = (Inr a, ?pc)"
    using av by (simp add: p_materialize_action_def case_prod_beta Let_def a_def fresh_action_def p_uuid_fst)
  have put: "touches (a_id a) (a_tenant_id a) [] p (p_put a ?pc)"
    using touches_put [of ?pc a] inv fresh
    by (simp add: touches_def a_def)
  let ?by = "if proposed_by_value (pr_proposed_by proposal) = ''llm'' then BY_LLM else BY_FALLBACK"
  let ?pl = "[(''proposed_by'', JStr (proposed_by_value (pr_proposed_by proposal))),
     (''action_type'', JStr (action_type_value (pr_action_type proposal))),
     (''reasoning'', dict_get_or (pr_payload proposal) ''_planner_reasoning'' (JStr ''''))]"
  obtain e p2 where x: "p_write_audit A_PROPOSAL a ?by None ?pl (p_put a ?pc) = (Inr (), p2)"
    "is_row A_PROPOSAL a None ?pl e" "touches (a_id a) (a_tenant_id a) [e] (p_put a ?pc) p2"
    "p_actions p2 = p_actions (p_put a ?pc)" "p_queue p2 = p_queue (p_put a ?pc)"
    "uuids_drawn (p_world p2) = uuids_drawn (p_world (p_put a ?pc))"
    by (rule write_audit_ok [OF touchesD(1) [OF put] ids, of None]) simp_all
  have t2: "touches (a_id a) (a_tenant_id a) [e] p p2" using touches_trans [OF put x(3)] by simp
  let ?dl = "[(''decision'', JStr (policy_decision_value ?d)),
     (''action_type'', JStr (action_type_value (pr_action_type proposal)))]"
  obtain f p3 where y: "p_write_audit A_DECISION a BY_SYSTEM None ?dl p2 = (Inr (), p3)"
    "is_row A_DECISION a None ?dl f" "touches (a_id a) (a_tenant_id a) [f] p2 p3"
    "p_actions p3 = p_actions p2" "p_queue p3 = p_queue p2"
    "uuids_drawn (p_world p3) = uuids_drawn (p_world p2)"
    by (rule write_audit_ok [OF touchesD(1) [OF t2] ids, of None]) simp_all
  have t3: "touches (a_id a) (a_tenant_id a) [e, f] p p3" using touches_trans [OF t2 y(3)] by simp
  have st3: "store p3 (a_id a) = Some a" "queue_rows p3 (a_id a) = None" "a_executed_at a = None"
    using x(4,5) y(4,5) fresh by (simp_all add: a_def)
  have "draws 1 p p3" using x(6) y(6) touchesD(8) [OF t3] by (simp add: draws_def)
  then have w3: "uuids_ok 1 (p_world p3)"
    by (rule uuids_ok_draws) (use w in \<open>simp add: numeral_2_eq_2\<close>)
  obtain a' es p4 where z: "p_apply_decision a ?d p3 = (Inr a', p4)"
    "touches (a_id a) (a_tenant_id a) es p3 p4" "store p4 (a_id a) = Some a'"
    "same_ident a a'" "decided_status ?d (a_status a')"
    "queue_row_for (qp_resolve (a_tenant_id a) (a_action_type a) (p_quorum p3)) a'
       (queue_rows p4 (a_id a))" "executed_at_consistent a'" "voters es = []"
    "?d = APPROVAL_REQUIRED \<longrightarrow> es = []" "?d = REJECT \<longrightarrow> map ae_kind es = [A_REJECTION]"
    "?d = AUTO \<longrightarrow> (\<exists>e. es = [e] \<and> executed_ok a' e)"
    "?d = AUTO \<longrightarrow> p_executors p3 = default_executors \<longrightarrow> a_status a' = EXECUTED"
    by (rule p_apply_decision_ok [OF touchesD(1) [OF t3] ids w3 st3(1,3,2), of ?d])
       (rule that, assumption+)
  have t4: "touches (a_id a) (a_tenant_id a) (e # f # es) p p4"
    using touches_trans [OF t3 z(2)] by simp
  have id4: "a_id a' = a_id a" "a_tenant_id a' = a_tenant_id a"
    using z(4) by (simp_all add: same_ident_def)
  have drawn: "uuids_drawn (p_world p) < uuids_drawn (p_world p4)"
    using touchesD(9) [OF x(3)] touchesD(9) [OF y(3)] touchesD(9) [OF z(2)] by simp
  have rows: "proposal_row proposal e" "decision_row ?d f"
    using x(2) y(2) by (simp_all add: is_row_def proposal_row_def decision_row_def)
  have rep: "replay (e # f # es) = At (a_status a')"
    using rows z(5,9,10,11)
    by (cases ?d) (auto simp: replay_def proposal_row_def decision_row_def decided_status_def
        executed_ok_def)
  show thesis
  proof (rule that [of a' p4 e f es])
    have pol: "p_policy p2 = p_policy p" "p_dedup p4 = p_dedup p"
      using touchesD(4) [OF t2] touchesD(7) [OF t4] .
    then show "handle_proposal proposal p = (Inr [a'], p4\<lparr>p_dedup := (p_dedup p)
       ((pr_tenant_id proposal, pr_event_id proposal) \<mapsto> [a_id a'])\<rparr>)"
      using new mat x(1) y(1) z(1) by (simp add: handle_proposal_def Let_def)
    show "from_proposal proposal a'" "a_id a' = fresh_action proposal p"
      using z(4) by (simp_all add: from_proposal_def same_ident_def a_def)
    show "?d = AUTO \<longrightarrow> p_executors p = default_executors \<longrightarrow> a_status a' = EXECUTED"
      using z(12) touchesD(5) [OF t3] by simp
    have quo: "qp_resolve (a_tenant_id a) (a_action_type a) (p_quorum p3) =
        qp_resolve (pr_tenant_id proposal) (pr_action_type proposal) (p_quorum p)"
      using touchesD(6) [OF t3] by (simp add: a_def)
    show "queue_row_for (qp_resolve (pr_tenant_id proposal) (pr_action_type proposal) (p_quorum p))
        a' (queue_rows p4 (a_id a'))" using z(6) id4 quo by simp
  qed (use z drawn rows rep t4 id4 ids same_ident_ids [OF z(4)] in simp_all)
qed

section \<open>The invariant\<close>

definition coherent :: "action \<Rightarrow> approval_rule option \<Rightarrow> audit_entry list \<Rightarrow> bool" where
  "coherent a ro es \<longleftrightarrow>
     replay es = At (a_status a) \<and> executed_at_consistent a \<and>
     (case ro of
        None \<Rightarrow> a_status a \<in> {EXECUTED, EXECUTION_FAILED, REJECTED} \<and> voters es = []
      | Some r \<Rightarrow>
          ar_tenant_id r = a_tenant_id a \<and> voters es = map Some (ar_approvals r) \<and>
          (ar_state r = ''pending'' \<longleftrightarrow> a_status a = PENDING_APPROVAL) \<and>
          (ar_state r = ''approved'' \<longleftrightarrow> a_status a \<in> {EXECUTED, EXECUTION_FAILED}) \<and>
          (ar_state r = ''approved'' \<longrightarrow> ar_approvals r \<noteq> []) \<and>
          (ar_state r = ''rejected'' \<longleftrightarrow> a_status a = REJECTED))"

definition drawn :: "pipeline \<Rightarrow> string \<Rightarrow> bool" where
  "drawn p aid \<longleftrightarrow> (\<exists>n < uuids_drawn (p_world p). aid = ''act_'' @ uuid_of (p_world p) n)"

lemma drawn_mono: "touches b t es p p' \<Longrightarrow> drawn p aid \<Longrightarrow> drawn p' aid"
  by (auto simp: drawn_def touchesD(8) intro: less_le_trans [OF _ touchesD(9)])

definition action_inv :: "pipeline \<Rightarrow> string \<Rightarrow> bool" where
  "action_inv p aid \<longleftrightarrow>
     (case store p aid of
        None \<Rightarrow> queue_rows p aid = None \<and> trail_of aid p = []
      | Some a \<Rightarrow>
          a_id a = aid \<and> ids_ok a \<and>
          p_dedup p (a_tenant_id a, a_event_id a) = Some [aid] \<and>
          drawn p aid \<and>
          (\<forall>e \<in> set (trail_of aid p). ae_tenant_id e = a_tenant_id a) \<and>
          coherent a (queue_rows p aid) (trail_of aid p))"

definition dedup_inv :: "pipeline \<Rightarrow> bool" where
  "dedup_inv p \<longleftrightarrow>
     (\<forall>t e ids. p_dedup p (t, e) = Some ids \<longrightarrow>
        (\<exists>a. ids = [a_id a] \<and> store p (a_id a) = Some a \<and> a_tenant_id a = t \<and> a_event_id a = e))"

definition pipe_inv :: "pipeline \<Rightarrow> bool" where
  "pipe_inv p \<longleftrightarrow>
     comps_inv p \<and> (\<forall>aid. action_inv p aid) \<and> dedup_inv p"

lemma pipe_invD:
  assumes "pipe_inv p"
  shows "comps_inv p" "drawn p aid \<or> store p aid = None"
    "store p aid = Some a \<Longrightarrow> a_id a = aid" "store p aid = Some a \<Longrightarrow> ids_ok a"
    "store p aid = Some a \<Longrightarrow> p_dedup p (a_tenant_id a, a_event_id a) = Some [aid]"
    "store p aid = Some a \<Longrightarrow> coherent a (queue_rows p aid) (trail_of aid p)"
    "store p aid = Some a \<Longrightarrow> e \<in> set (trail_of aid p) \<Longrightarrow> ae_tenant_id e = a_tenant_id a"
    "store p aid = None \<Longrightarrow> queue_rows p aid = None \<and> trail_of aid p = []"
    "p_dedup p (t, ev) = Some ids \<Longrightarrow>
       \<exists>a. ids = [a_id a] \<and> store p (a_id a) = Some a \<and> a_tenant_id a = t \<and> a_event_id a = ev"
  using assms unfolding pipe_inv_def action_inv_def dedup_inv_def
  by (auto split: option.splits) (metis option.distinct(1) option.inject)+

lemma pipe_inv_new: "pipe_inv (make_pipeline ex w)"
  by (simp add: pipe_inv_def make_pipeline_def comps_inv_def action_inv_def dedup_inv_def
      trail_of_def as_new_def al_new_def aq_new_def)
     (simp add: as_inv_def aq_inv_def al_inv_def pending_of_def)

lemma pipe_inv_clear: "pipe_inv p \<Longrightarrow> pipe_inv (p_clear p)"
  by (simp add: pipe_inv_def p_clear_def comps_inv_def action_inv_def dedup_inv_def
      as_clear_def aq_clear_def)
     (simp add: trail_of_def al_clear_def comps_inv_def as_inv_def aq_inv_def al_inv_def
      pending_of_def)

text \<open>A call that touched one stored action.\<close>

lemma pipe_inv_step:
  assumes inv: "pipe_inv p" and a: "store p aid = Some a"
    and t: "touches aid (a_tenant_id a) es p p'" and a': "store p' aid = Some a'" "same_ident a a'"
    and coh: "coherent a' (queue_rows p' aid) (trail_of aid p @ es)"
  shows "pipe_inv p'"
proof -
  have ident: "a_id a' = a_id a" "a_tenant_id a' = a_tenant_id a" "a_event_id a' = a_event_id a"
    using a'(2) by (simp_all add: same_ident_def)
  have acts: "action_inv p b" for b using inv by (simp add: pipe_inv_def)
  have "action_inv p' b" for b
  proof (cases "b = aid")
    case True
    show ?thesis
      using acts [of aid] coh a a' ident touchesD(13) [OF t]
      by (auto simp: True action_inv_def touchesD(7,10) [OF t] same_ident_ids
          intro: drawn_mono [OF t])
  next
    case False
    show ?thesis
      using acts [of b]
      by (auto simp: action_inv_def touchesD(2,3,7,11) [OF t] False split: option.splits
          intro: drawn_mono [OF t])
  qed
  moreover have "dedup_inv p'"
    unfolding dedup_inv_def
  proof (intro allI impI)
    fix s e ids
    assume "p_dedup p' (s, e) = Some ids"
    then obtain b where b: "ids = [a_id b]" "store p (a_id b) = Some b" "a_tenant_id b = s"
      "a_event_id b = e" using pipe_invD(9) [OF inv] touchesD(7) [OF t] by metis
    show "\<exists>b. ids = [a_id b] \<and> store p' (a_id b) = Some b \<and> a_tenant_id b = s \<and> a_event_id b = e"
    proof (cases "a_id b = aid")
      case True
      with b a have "b = a" by simp
      with b a' ident True show ?thesis by (intro exI [of _ a']) auto
    next
      case False
      with b show ?thesis using touchesD(2) [OF t False] by auto
    qed
  qed
  ultimately show ?thesis
    using inv touchesD(1) [OF t] by (simp add: pipe_inv_def)
qed

lemma pipe_inv_refused:
  assumes inv: "pipe_inv p" and t: "touches aid t [] p p'"
    and same: "p_actions p' = p_actions p" "p_queue p' = p_queue p"
  shows "pipe_inv p'"
proof -
  have trails: "trail_of b p' = trail_of b p" for b
    using touchesD(12) [OF t] by (simp add: trail_of_def)
  have acts: "action_inv p b" for b using inv by (simp add: pipe_inv_def)
  have "action_inv p' b" for b
    using acts [of b] by (auto simp: action_inv_def touchesD(7) [OF t] same trails split: option.splits
        intro: drawn_mono [OF t])
  then show ?thesis
    using inv touchesD(1) [OF t] same touchesD(7) [OF t]
    by (simp add: pipe_inv_def dedup_inv_def)
qed

section \<open>Every call preserves the invariant\<close>

lemma coherent_pending:
  "coherent a (Some r) es \<Longrightarrow> ar_state r = ''pending'' \<Longrightarrow>
   a_status a = PENDING_APPROVAL \<and> a_executed_at a = None"
  by (auto simp: coherent_def executed_at_consistent_def)

lemma replay_snoc [simp]: "replay (es @ [e]) = trail_step (replay es) e"
  by (simp add: replay_append)

lemma coherent_vote:
  assumes "coherent a (Some r) es" "row_step r r'" "ar_approvals r' = ar_approvals r @ [v]"
    "vote_row a v r' e" "ar_state r' = ''pending''"
  shows "coherent a (Some r') (es @ [e])"
proof -
  have pend: "ar_state r = ''pending''" by (rule row_step_from_pending [OF assms(2)])
  with assms row_step_same_order [OF assms(2)] show ?thesis
    by (auto simp: coherent_def vote_row_def same_order_def)
qed

lemma coherent_quorum:
  assumes "coherent a (Some r) es" "row_step r r'" "ar_approvals r' = ar_approvals r @ [v]"
    "vote_row a v r' e" "ar_state r' = ''approved''" "same_ident a a'" "executed_ok a' f"
  shows "coherent a' (Some r') (es @ [e, f])"
proof -
  have pend: "ar_state r = ''pending''" by (rule row_step_from_pending [OF assms(2)])
  have "es @ [e, f] = (es @ [e]) @ [f]" by simp
  then have "replay (es @ [e, f]) = trail_step (trail_step (replay es) e) f"
    by (metis replay_snoc)
  with assms pend row_step_same_order [OF assms(2)] show ?thesis
    by (auto simp: coherent_def vote_row_def same_order_def executed_ok_def
        executed_at_consistent_def same_ident_def)
qed

lemma coherent_veto:
  assumes "coherent a (Some r) es" "row_step r r'" "ar_state r' = ''rejected''"
    "ae_kind e = A_REJECTION"
  shows "coherent (set_status REJECTED t a) (Some r') (es @ [e])"
proof -
  have pend: "ar_state r = ''pending''" by (rule row_step_from_pending [OF assms(2)])
  have "ar_approvals r' = ar_approvals r"
    using assms(2,3) by (auto elim!: row_step.cases)
  with assms pend row_step_same_order [OF assms(2)] show ?thesis
    by (auto simp: coherent_def same_order_def executed_at_consistent_def)
qed

lemma pipe_inv_vote_ready:
  assumes inv: "pipe_inv p"
  shows "vote_ready p aid"
  unfolding vote_ready_def
proof (intro allI impI conjI)
  fix a assume a: "store p aid = Some a"
  show "a_id a = aid" "ids_ok a" by (rule pipe_invD(3,4) [OF inv a])+
  fix r assume "queue_rows p aid = Some r"
  with pipe_invD(6) [OF inv a] have coh: "coherent a (Some r) (trail_of aid p)" by simp
  then show "ar_tenant_id r = a_tenant_id a" by (simp add: coherent_def)
  assume "ar_state r = ''pending''"
  with coherent_pending [OF coh] show "a_executed_at a = None" by simp
qed

lemmas approve_cases_inv = approve_action_cases [OF pipe_invD(1) _ pipe_inv_vote_ready]
lemmas reject_cases_inv = reject_action_cases [OF pipe_invD(1) _ pipe_inv_vote_ready]

lemma pipe_inv_approve:
  assumes inv: "pipe_inv p" and len: "length v \<le> 128"
  shows "pipe_inv (snd (approve_action aid v t p))"
proof (cases rule: approve_cases_inv [OF inv len inv, of aid t "[]", case_names refused partial executed])
  case (refused e p')
  then show ?thesis using pipe_inv_refused [OF inv] by simp
next
  case x: (partial a r r' e p')
  have coh: "coherent a (Some r) (trail_of aid p)" using pipe_invD(6) [OF inv x(1)] x(3) by simp
  show ?thesis
    using pipe_inv_step [OF inv x(1) x(9), of a] coherent_vote [OF coh x(4,6,7,5)] x by simp
next
  case x: (executed a r r' a' e f p')
  have coh: "coherent a (Some r) (trail_of aid p)" using pipe_invD(6) [OF inv x(1)] x(3) by simp
  show ?thesis
    using pipe_inv_step [OF inv x(1) x(9,10,12)] coherent_quorum [OF coh x(4,6,7,5,12,13)] x(8,11)
    by simp
qed

lemma pipe_inv_reject:
  assumes inv: "pipe_inv p" and len: "length v \<le> 128"
  shows "pipe_inv (snd (reject_action aid reason v t p))"
proof (cases rule: reject_cases_inv [OF inv len inv, of aid reason t "[]", case_names refused rejected])
  case (refused e p')
  then show ?thesis using pipe_inv_refused [OF inv] by simp
next
  case x: (rejected a r r' s e p')
  have coh: "coherent a (Some r) (trail_of aid p)" using pipe_invD(6) [OF inv x(1)] x(3) by simp
  show ?thesis
    using pipe_inv_step [OF inv x(1) x(9) x(10)] coherent_veto [OF coh x(4,5,6)] x(8,11) by simp
qed

lemma fresh_not_stored:
  assumes inv: "pipe_inv p" and w: "uuids_ok 2 (p_world p)"
  shows "store p (fresh_action pr p) = None" "queue_rows p (fresh_action pr p) = None"
    "trail_of (fresh_action pr p) p = []"
proof -
  have "\<not> drawn p (fresh_action pr p)"
    using w by (auto simp: drawn_def fresh_action_def uuids_ok_def dest!: inj_onD)
  then show none: "store p (fresh_action pr p) = None"
    using pipe_invD(2) [OF inv] by blast
  then show "queue_rows p (fresh_action pr p) = None" "trail_of (fresh_action pr p) p = []"
    using pipe_invD(8) [OF inv none] by auto
qed

lemma handle_proposal_cached:
  assumes inv: "pipe_inv p" and hit: "p_dedup p (pr_tenant_id pr, pr_event_id pr) = Some ids"
  obtains a where "handle_proposal pr p = (Inr [a], p)" "store p (a_id a) = Some a" "ids = [a_id a]"
    "a_tenant_id a = pr_tenant_id pr" "a_event_id a = pr_event_id pr"
  using pipe_invD(9) [OF inv hit] hit by (auto simp: handle_proposal_def as_get_def)

lemma coherent_new:
  assumes "queue_row_for rule a ro" "decided_status d (a_status a)" "executed_at_consistent a"
    "replay es = At (a_status a)" "voters es = []"
  shows "coherent a ro es"
  using assms
  by (cases d) (auto simp: coherent_def queue_row_for_def decided_status_def split: option.splits)

lemmas handle_new_inv = handle_proposal_new [OF pipe_invD(1) _ _ _ fresh_not_stored(1,2)]

lemma pipe_inv_handle:
  assumes inv: "pipe_inv p" and valid: "proposal_valid pr" and w: "uuids_ok 2 (p_world p)"
  shows "pipe_inv (snd (handle_proposal pr p))"
proof (cases "p_dedup p (pr_tenant_id pr, pr_event_id pr)")
  case (Some ids)
  then show ?thesis by (rule handle_proposal_cached [OF inv]) (use inv in simp)
next
  case None
  show ?thesis
  proof (rule handle_new_inv [OF inv valid w None inv w inv w])
    fix a :: action and e f es and p1 :: pipeline
    let ?key = "(pr_tenant_id pr, pr_event_id pr)"
    let ?p' = "p1\<lparr>p_dedup := (p_dedup p)(?key \<mapsto> [a_id a])\<rparr>"
    assume h: "handle_proposal pr p = (Inr [a], ?p')"
      and fresh: "a_id a = fresh_action pr p" and made: "from_proposal pr a" "ids_ok a"
      and t: "touches (a_id a) (a_tenant_id a) (e # f # es) p p1"
      and less: "uuids_drawn (p_world p) < uuids_drawn (p_world p1)"
      and st: "store p1 (a_id a) = Some a"
      and row: "decided_status (decision_of pr p) (a_status a)"
        "queue_row_for (qp_resolve (pr_tenant_id pr) (pr_action_type pr) (p_quorum p))
           a (queue_rows p1 (a_id a))" "executed_at_consistent a"
      and kinds: "proposal_row pr e" "decision_row (decision_of pr p) f" "voters es = []"
        "replay (e # f # es) = At (a_status a)"
    have key: "(a_tenant_id a, a_event_id a) = ?key" using made(1) by (simp add: from_proposal_def)
    have tr: "trail_of b ?p' = trail_of b p1" for b by (simp add: trail_of_def)
    have acts: "action_inv p b" for b using inv by (simp add: pipe_inv_def)
    have none: "store p (a_id a) = None" "trail_of (a_id a) p = []"
      using fresh_not_stored [OF inv w, of pr] fresh by simp_all
    have d: "drawn p b \<Longrightarrow> drawn ?p' b" for b
      using drawn_mono [OF t, of b] by (simp add: drawn_def)
    have "action_inv ?p' b" for b
    proof (cases "b = a_id a")
      case True
      have "drawn ?p' (a_id a)"
        unfolding drawn_def fresh fresh_action_def using less touchesD(8) [OF t]
        by (intro exI [of _ "uuids_drawn (p_world p)"]) simp
      moreover have "coherent a (queue_rows p1 (a_id a)) (e # f # es)"
        using kinds by (intro coherent_new [OF row(2,1,3)])
          (simp_all add: proposal_row_def decision_row_def)
      ultimately show ?thesis
        using made st key none touchesD(13) [OF t]
        by (auto simp: True action_inv_def tr touchesD(10) [OF t])
    next
      case False
      have "p_dedup p ?key = None" by (rule None)
      with acts [of b] show ?thesis
        by (auto simp: action_inv_def tr touchesD(2,3,11) [OF t False] split: option.splits
            intro: d)
    qed
    moreover have "dedup_inv ?p'"
      unfolding dedup_inv_def
    proof (intro allI impI)
      fix s ev ids
      assume hit: "p_dedup ?p' (s, ev) = Some ids"
      show "\<exists>b. ids = [a_id b] \<and> store ?p' (a_id b) = Some b \<and> a_tenant_id b = s \<and>
          a_event_id b = ev"
      proof (cases "(s, ev) = ?key")
        case True
        with hit st key show ?thesis by (intro exI [of _ a]) auto
      next
        case False
        with hit have "p_dedup p (s, ev) = Some ids" by (auto split: if_splits)
        from pipe_invD(9) [OF inv this] obtain b where b: "ids = [a_id b]"
          "store p (a_id b) = Some b" "a_tenant_id b = s" "a_event_id b = ev" by blast
        with none(1) have "a_id b \<noteq> a_id a" by auto
        with b show ?thesis using touchesD(2) [OF t] by auto
      qed
    qed
    ultimately have "pipe_inv ?p'"
      using inv touchesD(1) [OF t]
      by (simp add: pipe_inv_def comps_inv_def)
    with h show ?thesis by simp
  qed
qed

section \<open>Histories\<close>

text \<open>
  A history of calls whose proposals passed their contract and whose voters' names fit the
  audit row.  (A longer name breaks the invariant: see \<open>Decision_Pipeline_Spec\<close>.)
\<close>

fun call_ok :: "pipeline_call \<Rightarrow> bool" where
  "call_ok (HandleProposal proposal) = proposal_valid proposal"
| "call_ok (ApproveAction aid v t) = (length v \<le> 128)"
| "call_ok (RejectAction aid reason v t) = (length v \<le> 128)"
| "call_ok (SetPolicies t tbl) = True"
| "call_ok (SetQuorum t a n pool) = True"

lemma config_view [simp]:
  "trail_of aid (p\<lparr>p_policy := x\<rparr>) = trail_of aid p"
  "trail_of aid (p\<lparr>p_quorum := y\<rparr>) = trail_of aid p"
  "action_inv (p\<lparr>p_policy := x\<rparr>) aid = action_inv p aid"
  "action_inv (p\<lparr>p_quorum := y\<rparr>) aid = action_inv p aid"
  by (cases "store p aid"; simp add: trail_of_def action_inv_def drawn_def)+

lemma pipe_inv_call:
  assumes "pipe_inv p" "call_ok c" "uuids_ok 2 (p_world p)"
  shows "pipe_inv (p_call c p)"
proof (cases c)
  case (SetPolicies t tbl)
  with assms show ?thesis
    by (simp add: pipe_inv_def dedup_inv_def comps_inv_def)
next
  case (SetQuorum t a n pool)
  have "qp_inv (snd (qp_set_rule t a n pool (p_quorum p)))"
    using assms by (simp add: pipe_inv_def comps_inv_def qp_inv_set_rule)
  with SetQuorum assms show ?thesis
    by (simp add: pipe_inv_def dedup_inv_def comps_inv_def)
qed (use assms in \<open>auto intro: pipe_inv_handle pipe_inv_approve pipe_inv_reject\<close>)

lemma draws_call: "draws 2 p (p_call c p)"
proof -
  have "draws 0 p q \<Longrightarrow> draws 2 p q" for q by (simp add: draws_def)
  then show ?thesis
    by (cases c) (simp_all add: draws_handle draws_approve draws_reject, simp_all add: draws_def)
qed

text \<open>A history of calls that may start in \<open>p\<close>.\<close>

definition run_ok :: "pipeline_call list \<Rightarrow> pipeline \<Rightarrow> bool" where
  "run_ok cs p \<longleftrightarrow> list_all call_ok cs \<and> uuids_ok (2 * length cs) (p_world p)"

lemma uuids_ok_mono: "uuids_ok k w \<Longrightarrow> j \<le> k \<Longrightarrow> uuids_ok j w"
  by (auto simp: uuids_ok_def intro: inj_on_subset)

lemma run_ok_Cons:
  assumes "run_ok (c # cs) p"
  shows "call_ok c" "uuids_ok 2 (p_world p)" "run_ok cs (p_call c p)"
  using assms uuids_ok_draws [OF draws_call, of "2 * length cs" p c] uuids_ok_mono
  by (auto simp: run_ok_def)

lemma run_ok_append: "run_ok (cs @ ds) p \<Longrightarrow> run_ok cs p \<and> run_ok ds (p_run cs p)"
proof (induction cs arbitrary: p)
  case Nil
  then show ?case by (auto simp: run_ok_def intro: uuids_ok_mono)
next
  case (Cons c cs)
  from Cons.IH [of "p_call c p"] run_ok_Cons(3) [of c "cs @ ds" p] Cons.prems
  have "run_ok ds (p_run cs (p_call c p))" by simp
  moreover have "run_ok (c # cs) p"
    using Cons.prems by (auto simp: run_ok_def intro: uuids_ok_mono)
  ultimately show ?case by simp
qed

lemma pipe_inv_run: "pipe_inv p \<Longrightarrow> run_ok cs p \<Longrightarrow> pipe_inv (p_run cs p)"
  by (induction cs arbitrary: p) (auto dest: run_ok_Cons intro: pipe_inv_call)

text \<open>One call, seen from one stored action.\<close>

lemma call_action:
  assumes inv: "pipe_inv p" and ok: "call_ok c" and w: "uuids_ok 2 (p_world p)"
    and a: "store p aid = Some a"
  shows "\<exists>a' es. store (p_call c p) aid = Some a' \<and> same_ident a a' \<and>
    trail_of aid (p_call c p) = trail_of aid p @ es"
proof -
  have touch: "\<exists>a' es'. store p' aid = Some a' \<and> same_ident a a' \<and>
      trail_of aid p' = trail_of aid p @ es'"
    if "touches b t es p p'" "b = aid \<Longrightarrow> \<exists>a'. store p' aid = Some a' \<and> same_ident a a'"
    for b t es p'
  proof (cases "b = aid")
    case True
    then show ?thesis using that touchesD(10) [OF that(1)] by auto
  next
    case False
    then have "aid \<noteq> b" by simp
    from touchesD(2,11) [OF that(1) this] a show ?thesis by (auto intro: exI [of _ "[]"])
  qed
  show ?thesis
  proof (cases c)
    case (HandleProposal pr)
    show ?thesis
    proof (cases "p_dedup p (pr_tenant_id pr, pr_event_id pr)")
      case (Some ids)
      then show ?thesis
        by (rule handle_proposal_cached [OF inv]) (use a HandleProposal in \<open>auto intro: exI [of _ "[]"]\<close>)
    next
      case None
      have valid: "proposal_valid pr" using ok HandleProposal by simp
      show ?thesis
      proof (rule handle_new_inv [OF inv valid w None inv w inv w])
        fix b :: action and e f es and p1 :: pipeline
        assume h: "handle_proposal pr p = (Inr [b], p1\<lparr>p_dedup := (p_dedup p)
           ((pr_tenant_id pr, pr_event_id pr) \<mapsto> [a_id b])\<rparr>)"
          and "a_id b = fresh_action pr p"
          and t: "touches (a_id b) (a_tenant_id b) (e # f # es) p p1"
        then have "a_id b \<noteq> aid" using fresh_not_stored(1) [OF inv w, of pr] a by auto
        then have "store p1 aid = Some a" "trail_of aid p1 = trail_of aid p"
          using touchesD(2,11) [OF t] a by auto
        with h HandleProposal show ?thesis by (auto simp: trail_of_def intro: exI [of _ "[]"])
      qed
    qed
  next
    case (ApproveAction b v t)
    then have len: "length v \<le> 128" using ok by simp
    show ?thesis
    proof (cases rule: approve_cases_inv [OF inv len inv, of b t "[]",
        case_names refused partial executed])
      case (refused e p')
      then show ?thesis using touch [OF refused(2)] a by (simp add: ApproveAction)
    next
      case (partial b' r r' e p')
      then show ?thesis using touch [OF partial(9)] a by (simp add: ApproveAction)
    next
      case (executed b' r r' a' e f p')
      then have "b = aid \<Longrightarrow> \<exists>a'. store p' aid = Some a' \<and> same_ident a a'"
        using a by auto
      from touch [OF executed(9) this] executed(8) show ?thesis by (simp add: ApproveAction)
    qed
  next
    case (RejectAction b reason v t)
    then have len: "length v \<le> 128" using ok by simp
    show ?thesis
    proof (cases rule: reject_cases_inv [OF inv len inv, of b reason t "[]",
        case_names refused rejected])
      case (refused e p')
      then show ?thesis using touch [OF refused(2)] a by (simp add: RejectAction)
    next
      case (rejected b' r r' s e p')
      then have "b = aid \<Longrightarrow> \<exists>a'. store p' aid = Some a' \<and> same_ident a a'"
        using a by auto
      from touch [OF rejected(9) this] rejected(8) show ?thesis by (simp add: RejectAction)
    qed
  qed (use a in \<open>auto intro: exI [of _ "[]"]\<close>)
qed

lemma run_action:
  "pipe_inv p \<Longrightarrow> run_ok cs p \<Longrightarrow> store p aid = Some a \<Longrightarrow>
   \<exists>a' es. store (p_run cs p) aid = Some a' \<and> same_ident a a' \<and>
     trail_of aid (p_run cs p) = trail_of aid p @ es"
proof (induction cs arbitrary: p a)
  case (Cons c cs)
  note ok = run_ok_Cons [OF Cons.prems(2)]
  from call_action [OF Cons.prems(1) ok(1,2) Cons.prems(3)]
  obtain b es where b: "store (p_call c p) aid = Some b" "same_ident a b"
    "trail_of aid (p_call c p) = trail_of aid p @ es" by blast
  have "pipe_inv (p_call c p)" using Cons.prems ok by (simp add: pipe_inv_call)
  from Cons.IH [OF this ok(3) b(1)] obtain a' fs where
    "store (p_run cs (p_call c p)) aid = Some a'" "same_ident b a'"
    "trail_of aid (p_run cs (p_call c p)) = trail_of aid (p_call c p) @ fs" by auto
  with b show ?case by (auto intro: same_ident_trans)
qed (auto intro: exI [of _ "[]"])

end
