(* ===== verification/Decision_Pipeline_Spec.thy ===== *)
theory Decision_Pipeline_Spec
  imports Decision_Pipeline_Inv
begin

text \<open>
  What the decision pipeline promises over every history of calls: the audit trail
  determines the status, an action executes at most once and never before its quorum, an
  action's status follows the documented state machine, redelivery is answered from the
  index, and tenants do not see each other.  The last section holds the one way found to
  break the agreement of queue, store and log.
\<close>

section \<open>Observing a reachable pipeline\<close>

lemma get_action_stored: "get_action aid None p = Inr a \<longleftrightarrow> store p aid = Some a"
  by (auto simp: get_action_def as_get_def tenant_guard_def split: option.splits)

lemma audit_for_action_trail: "pipe_inv p \<Longrightarrow> audit_for_action aid p = trail_of aid p"
  by (simp add: audit_for_action_def trail_of_def al_for_action pipe_inv_def comps_inv_def)

lemma reachable_inv: "run_ok cs (make_pipeline ex w) \<Longrightarrow> pipe_inv (p_run cs (make_pipeline ex w))"
  by (rule pipe_inv_run [OF pipe_inv_new])

lemma reachable_action:
  assumes "run_ok cs (make_pipeline ex w)" "get_action aid None (p_run cs (make_pipeline ex w)) = Inr a"
  shows "coherent a (p_approval_rule aid (p_run cs (make_pipeline ex w)))
    (audit_for_action aid (p_run cs (make_pipeline ex w)))"
  using pipe_invD(6) [OF reachable_inv [OF assms(1)], of aid a] assms
  by (simp add: get_action_stored p_approval_rule_def aq_get_def audit_for_action_trail
      reachable_inv)

section \<open>Progress\<close>

text \<open>What one proposal and one accepted vote do in a state that satisfies the invariant.\<close>

lemma after_proposal:
  assumes inv: "pipe_inv p" and valid: "proposal_valid pr" and w: "uuids_ok 2 (p_world p)"
    and new: "p_dedup p (pr_tenant_id pr, pr_event_id pr) = None"
  obtains a p' e f es where "handle_proposal pr p = (Inr [a], p')" "a_id a = fresh_action pr p"
    "store p' (a_id a) = Some a" "from_proposal pr a"
    "decided_status (decision_of pr p) (a_status a)"
    "queue_row_for (qp_resolve (pr_tenant_id pr) (pr_action_type pr) (p_quorum p)) a
       (queue_rows p' (a_id a))"
    "trail_of (a_id a) p' = e # f # es" "proposal_row pr e" "decision_row (decision_of pr p) f"
    "a_status a = EXECUTION_FAILED \<longrightarrow> p_executors p \<noteq> default_executors"
proof (rule handle_new_inv [OF inv valid w new inv w inv w])
  fix a :: action and e f es and p1 :: pipeline
  let ?q = "p1\<lparr>p_dedup := (p_dedup p)((pr_tenant_id pr, pr_event_id pr) \<mapsto> [a_id a])\<rparr>"
  assume x: "handle_proposal pr p = (Inr [a], ?q)" "a_id a = fresh_action pr p"
    "from_proposal pr a" "touches (a_id a) (a_tenant_id a) (e # f # es) p p1"
    "store p1 (a_id a) = Some a" "decided_status (decision_of pr p) (a_status a)"
    "queue_row_for (qp_resolve (pr_tenant_id pr) (pr_action_type pr) (p_quorum p)) a
      (queue_rows p1 (a_id a))"
    "proposal_row pr e" "decision_row (decision_of pr p) f"
    "decision_of pr p = AUTO \<longrightarrow> p_executors p = default_executors \<longrightarrow> a_status a = EXECUTED"
  have "trail_of (a_id a) p = []" using fresh_not_stored(3) [OF inv w, of pr] x(2) by simp
  then have tr: "trail_of (a_id a) ?q = e # f # es"
    using touchesD(10) [OF x(4)] by (simp add: trail_of_def)
  have fail: "a_status a = EXECUTION_FAILED \<longrightarrow> p_executors p \<noteq> default_executors"
    using x(6,10) by (auto simp: decided_status_def split: policy_decision.splits)
  show thesis by (rule that [of a ?q e f es]) (use x tr fail in simp_all)
qed

lemma executors_call: "pipe_inv p \<Longrightarrow> call_ok c \<Longrightarrow> uuids_ok 2 (p_world p) \<Longrightarrow>
    p_executors (p_call c p) = p_executors p"
proof (cases c)
  case (HandleProposal pr)
  assume inv: "pipe_inv p" and ok: "call_ok c" and w: "uuids_ok 2 (p_world p)"
  have valid: "proposal_valid pr" using ok HandleProposal by simp
  show ?thesis
  proof (cases "p_dedup p (pr_tenant_id pr, pr_event_id pr)")
    case None
    show ?thesis
      by (rule handle_new_inv [OF inv valid w None inv w inv w])
         (use HandleProposal in \<open>simp add: touchesD(5)\<close>)
  next
    case (Some ids)
    then show ?thesis
      by (rule handle_proposal_cached [OF inv]) (use HandleProposal in simp)
  qed
next
  case (ApproveAction aid v t)
  assume inv: "pipe_inv p" and "call_ok c"
  then have len: "length v \<le> 128" using ApproveAction by simp
  show ?thesis
    by (rule approve_cases_inv [OF inv len inv, of aid t "[]"])
       (use ApproveAction in \<open>simp_all add: touchesD(5)\<close>)
next
  case (RejectAction aid reason v t)
  assume inv: "pipe_inv p" and "call_ok c"
  then have len: "length v \<le> 128" using RejectAction by simp
  show ?thesis
    by (rule reject_cases_inv [OF inv len inv, of aid reason t "[]"])
       (use RejectAction in \<open>simp_all add: touchesD(5)\<close>)
qed simp_all

lemma executors_run:
  "pipe_inv p \<Longrightarrow> run_ok cs p \<Longrightarrow> p_executors (p_run cs p) = p_executors p"
proof (induction cs arbitrary: p)
  case (Cons c cs)
  note ok = run_ok_Cons [OF Cons.prems(2)]
  from Cons.IH [OF pipe_inv_call [OF Cons.prems(1) ok(1,2)] ok(3)]
    executors_call [OF Cons.prems(1) ok(1,2)]
  show ?case by simp
qed simp

lemma vote_step:
  assumes inv: "pipe_inv p" and len: "length v \<le> 128" and a: "store p aid = Some a"
    and guard: "tenant_guard t a" and r: "queue_rows p aid = Some r" "ar_state r = ''pending''"
    and v: "may_vote v r" "v \<notin> set (ar_approvals r)"
  obtains (more) r' p' where "int (length (ar_approvals r)) + 1 < ar_required_approvals r"
      "approve_action aid v t p = (Inr a, p')" "store p' aid = Some a"
      "queue_rows p' aid = Some r'" "ar_state r' = ''pending''"
      "ar_approvals r' = ar_approvals r @ [v]" "same_order r r'" "p_executors p' = p_executors p"
  | (complete) a' p' where "ar_required_approvals r \<le> int (length (ar_approvals r)) + 1"
      "approve_action aid v t p = (Inr a', p')" "store p' aid = Some a'" "same_ident a a'"
      "a_status a' \<in> {EXECUTED, EXECUTION_FAILED}"
      "p_executors p = default_executors \<Longrightarrow> a_status a' = EXECUTED"
      "queue_rows p' aid \<noteq> None"
proof (cases rule: approve_cases_inv [OF inv len inv, of aid t "[]",
    case_names refused partial executed])
  case (refused e p')
  have "aq_inv (p_queue p)" using inv by (simp add: pipe_inv_def comps_inv_def)
  from vq.approve_accepts [OF this r v, of "fst (p_now p)"]
  have "returned (aq_approve (fst (p_now p)) aid (Some v) (p_queue p))" .
  moreover have "raised (aq_approve (fst (p_now p)) aid (Some v) (p_queue p))"
    using refused(6) a guard by blast
  ultimately show thesis by auto
next
  case (partial b s r' e p')
  then have s: "s = r" "b = a" using a r by simp_all
  have "int (length (ar_approvals r)) + 1 < ar_required_approvals r"
    using partial(4,5,6) s by (auto elim!: row_step.cases)
  then show thesis
    by (rule more [of p' r'])
       (use partial s row_step_same_order touchesD(5) [OF partial(9)] a in auto)
next
  case (executed b s r' a' e f p')
  then have s: "s = r" "b = a" using a r by simp_all
  have "ar_required_approvals r \<le> int (length (ar_approvals r)) + 1"
    using executed(4,5,6) s by (auto elim!: row_step.cases)
  then show thesis
    by (rule complete [of a' p']) (use executed s in \<open>auto simp: executed_ok_def\<close>)
qed

section \<open>Concrete histories\<close>

definition demo_uuid :: "nat \<Rightarrow> string" where
  "demo_uuid n = replicate (31 - n) CHR ''0'' @ replicate (Suc n) CHR ''f''"

definition demo_world :: world where
  "demo_world = \<lparr>uuid_of = demo_uuid, uuids_drawn = 0, time_of = int, clock_reads = 0\<rparr>"

lemma demo_uuids_ok:
  assumes "k \<le> 32"
  shows "uuids_ok k demo_world"
proof -
  have count: "length (filter (\<lambda>c. c = CHR ''f'') (demo_uuid n)) = Suc n" for n
    by (simp add: demo_uuid_def)
  have "inj_on demo_uuid {..<k}"
    by (rule inj_onI) (metis count nat.inject)
  moreover have "n < k \<Longrightarrow> length (demo_uuid n) = 32" for n
    using assms by (simp add: demo_uuid_def)
  ultimately show ?thesis by (simp add: uuids_ok_def demo_world_def)
qed

definition demo_proposal :: "string \<Rightarrow> string \<Rightarrow> action_type \<Rightarrow> proposal" where
  "demo_proposal tenant event a =
     \<lparr>pr_id = ''prop_1'', pr_tenant_id = tenant, pr_event_id = event, pr_customer_id = None,
      pr_action_type = a, pr_proposed_by = LLM, pr_payload = [(''loan_id'', JStr ''L-7'')],
      pr_created_at = 0\<rparr>"

definition demo_start :: pipeline where
  "demo_start = make_pipeline None demo_world"

definition demo_event :: proposal where
  "demo_event = demo_proposal ''acme'' ''ev_1'' SCHEDULE_CALL"

definition demo_action :: string where
  "demo_action = fresh_action demo_event demo_start"

lemma demo_run_ok:
  "list_all call_ok cs \<Longrightarrow> length cs \<le> 16 \<Longrightarrow> run_ok cs (make_pipeline None demo_world)"
  by (auto simp: run_ok_def make_pipeline_def intro: demo_uuids_ok)

lemma demo_event_valid [simp]: "proposal_valid demo_event"
  by (simp add: demo_event_def demo_proposal_def proposal_valid_def)

lemma demo_fresh: "p_world p = demo_world \<Longrightarrow> fresh_action demo_event p = demo_action"
  by (simp add: fresh_action_def demo_action_def demo_start_def make_pipeline_def)

text \<open>No policy: the action waits for one approver.\<close>

lemma demo_pending:
  obtains a r where
    "store (p_run [HandleProposal demo_event] (make_pipeline None demo_world)) demo_action = Some a"
    "a_status a = PENDING_APPROVAL" "a_tenant_id a = ''acme''" "a_id a = demo_action"
    "queue_rows (p_run [HandleProposal demo_event] (make_pipeline None demo_world)) demo_action = Some r"
    "ar_state r = ''pending''" "ar_approvals r = []" "ar_required_approvals r = 1"
    "ar_eligible_approvers r = None"
proof -
  let ?p = "make_pipeline None demo_world"
  have w: "uuids_ok 2 (p_world ?p)" by (simp add: make_pipeline_def demo_uuids_ok)
  have fields: "p_dedup ?p k = None" "decision_of demo_event ?p = APPROVAL_REQUIRED"
    "qp_resolve t x (p_quorum ?p) = single_approver" for k t x
    by (simp_all add: make_pipeline_def de_new_def de_decide_def qp_new_def qp_resolve_def)
  have fresh: "fresh_action demo_event ?p = demo_action"
    by (rule demo_fresh) (simp add: make_pipeline_def)
  have tenant: "pr_tenant_id demo_event = ''acme''"
    by (simp add: demo_event_def demo_proposal_def)
  show thesis
  proof (rule after_proposal [OF pipe_inv_new demo_event_valid w fields(1)])
    fix a :: action and p' e f es
    assume "handle_proposal demo_event ?p = (Inr [a], p')"
      and "a_id a = fresh_action demo_event ?p" "store p' (a_id a) = Some a"
      and "from_proposal demo_event a" "decided_status (decision_of demo_event ?p) (a_status a)"
      and "queue_row_for (qp_resolve (pr_tenant_id demo_event) (pr_action_type demo_event)
        (p_quorum ?p)) a (queue_rows p' (a_id a))"
    then show thesis
      unfolding fields fresh
      by (intro that [of a "the (queue_rows p' (a_id a))"])
         (auto simp: decided_status_def queue_row_for_def single_approver_def from_proposal_def
           tenant split: option.splits)
  qed
qed

text \<open>One vote by ann then executes it.\<close>

definition demo_history :: "pipeline_call list" where
  "demo_history = [HandleProposal demo_event, ApproveAction demo_action ''ann'' None]"

lemma demo_history_ok: "run_ok demo_history (make_pipeline None demo_world)"
  by (rule demo_run_ok) (simp_all add: demo_history_def)

lemma demo_executed:
  obtains a r where
    "store (p_run demo_history (make_pipeline None demo_world)) demo_action = Some a"
    "a_status a = EXECUTED" "a_tenant_id a = ''acme''" "a_id a = demo_action"
    "queue_rows (p_run demo_history (make_pipeline None demo_world)) demo_action = Some r"
proof (rule demo_pending)
  let ?s = "make_pipeline None demo_world"
  let ?p = "p_run [HandleProposal demo_event] ?s"
  fix a r
  assume a: "store ?p demo_action = Some a" "a_tenant_id a = ''acme''" "a_id a = demo_action"
    and r: "queue_rows ?p demo_action = Some r" "ar_state r = ''pending''" "ar_approvals r = []"
    "ar_required_approvals r = 1" "ar_eligible_approvers r = None"
  have ok: "run_ok [HandleProposal demo_event] ?s" by (rule demo_run_ok) simp_all
  have inv: "pipe_inv ?p" by (rule reachable_inv [OF ok])
  have ex: "p_executors ?p = default_executors"
    using executors_run [OF pipe_inv_new ok] by (simp add: make_pipeline_def executor_init_def)
  have "length ''ann'' \<le> 128" "tenant_guard None a" "may_vote ''ann'' r"
    "''ann'' \<notin> set (ar_approvals r)"
    using r by (simp_all add: tenant_guard_def may_vote_def)
  then show thesis
  proof (cases rule: vote_step [OF inv _ a(1) _ r(1,2), of "''ann''" None, case_names l g m n more complete])
    case (complete a' p')
    have "p_run demo_history ?s = p'" using complete(2) by (simp add: demo_history_def)
    with complete a ex show thesis
      by (intro that [of a' "the (queue_rows p' demo_action)"]) (auto simp: same_ident_def)
  qed (use r in auto)
qed

section \<open>The audit trail\<close>

text \<open>
  C4. In every reachable state of the pipeline, replaying the audit rows of an action
  through the trail automaton ends in exactly the status the action store holds: the log
  alone reconstructs the status-transition history, and it contains no illegal step.
\<close>

theorem audit_trail_determines_status:
  assumes "run_ok cs (make_pipeline ex w)"
    and "get_action aid None (p_run cs (make_pipeline ex w)) = Inr a"
  shows "replay (audit_for_action aid (p_run cs (make_pipeline ex w))) = At (a_status a)"
  using reachable_action [OF assms] by (simp add: coherent_def)

theorem audit_trail_determines_status_witness:
  "replay (audit_for_action demo_action (p_run demo_history (make_pipeline None demo_world))) = At EXECUTED"
proof (rule demo_executed)
  fix a r assume "store (p_run demo_history (make_pipeline None demo_world)) demo_action = Some a" "a_status a = EXECUTED"
  then show ?thesis
    using audit_trail_determines_status [OF demo_history_ok, of demo_action a]
    by (simp add: get_action_stored)
qed

text \<open>
  C7. In every reachable state an action has at most one execution row in the audit log,
  of kind execution when it is executed and of kind execution_failed when it failed, and
  none in any other status: no action is executed twice, whatever is redelivered or
  approved again.
\<close>

theorem executes_at_most_once:
  assumes "run_ok cs (make_pipeline ex w)"
    and "get_action aid None (p_run cs (make_pipeline ex w)) = Inr a"
  shows "map ae_kind (executions (audit_for_action aid (p_run cs (make_pipeline ex w)))) =
    (if a_status a = EXECUTED then [A_EXECUTION]
     else if a_status a = EXECUTION_FAILED then [A_EXECUTION_FAILED] else [])"
  by (rule replay_executions) (use reachable_action [OF assms] in \<open>simp add: coherent_def\<close>)

theorem executes_at_most_once_witness:
  "map ae_kind (executions (audit_for_action demo_action (p_run demo_history (make_pipeline None demo_world)))) = [A_EXECUTION]"
proof (rule demo_executed)
  fix a r assume "store (p_run demo_history (make_pipeline None demo_world)) demo_action = Some a" "a_status a = EXECUTED"
  then show ?thesis
    using executes_at_most_once [OF demo_history_ok, of demo_action a]
    by (simp add: get_action_stored)
qed

text \<open>
  C3. In every state reached by calls with valid proposals and names of at most 128 characters, an
  action that was queued for approval and has been executed (or whose execution failed) had its
  quorum: the voters recorded by its approval rows in the audit log are the
  votes of its queue row, in order; they are pairwise distinct, as many as the row requires,
  and all members of its pool.  (A longer name is recorded in the row although its audit row is
  refused, so the bound is needed for the trail.)
\<close>

theorem executed_only_with_quorum:
  assumes "run_ok cs (make_pipeline ex w)"
    and "get_action aid None (p_run cs (make_pipeline ex w)) = Inr a"
    and "p_approval_rule aid (p_run cs (make_pipeline ex w)) = Some r"
    and "a_status a \<in> {EXECUTED, EXECUTION_FAILED}"
  shows "voters (audit_for_action aid (p_run cs (make_pipeline ex w))) = map Some (ar_approvals r)
    \<and> distinct (ar_approvals r)
    \<and> int (length (ar_approvals r)) = ar_required_approvals r
    \<and> list_all (\<lambda>v. may_vote v r) (ar_approvals r)"
proof -
  have coh: "coherent a (Some r) (audit_for_action aid (p_run cs (make_pipeline ex w)))"
    using reachable_action [OF assms(1,2)] assms(3) by simp
  have "rule_wf r"
    using assms(3) reachable_inv [OF assms(1)] aq_invD(2)
    by (auto simp: pipe_inv_def comps_inv_def p_approval_rule_def aq_get_def)
  with coh assms(4) show ?thesis
    by (auto simp: coherent_def rule_wf_def may_vote_def list_all_iff split: option.splits)
qed

theorem executed_only_with_quorum_witness:
  "\<exists>r. p_approval_rule demo_action (p_run demo_history (make_pipeline None demo_world)) = Some r \<and>
    voters (audit_for_action demo_action (p_run demo_history (make_pipeline None demo_world))) = map Some (ar_approvals r) \<and>
    int (length (ar_approvals r)) = ar_required_approvals r"
proof (rule demo_executed)
  fix a r assume "store (p_run demo_history (make_pipeline None demo_world)) demo_action = Some a" "a_status a = EXECUTED"
    "queue_rows (p_run demo_history (make_pipeline None demo_world)) demo_action = Some r"
  then show ?thesis
    using executed_only_with_quorum [OF demo_history_ok, of demo_action a r]
    by (simp add: get_action_stored p_approval_rule_def aq_get_def)
qed

section \<open>The status of an action\<close>

text \<open>The state machine documented in \<open>contracts/actions.py\<close>.\<close>

inductive status_step :: "action_status \<Rightarrow> action_status \<Rightarrow> bool" where
  auto: "status_step PENDING_POLICY PENDING_EXEC"
| approval_required: "status_step PENDING_POLICY PENDING_APPROVAL"
| policy_reject: "status_step PENDING_POLICY REJECTED"
| human_approved: "status_step PENDING_APPROVAL PENDING_EXEC"
| human_rejected: "status_step PENDING_APPROVAL REJECTED"
| success: "status_step PENDING_EXEC EXECUTED"
| failure: "status_step PENDING_EXEC EXECUTION_FAILED"

inductive_cases status_step_from_final:
  "status_step EXECUTED s" "status_step EXECUTION_FAILED s" "status_step REJECTED s"

lemma trail_step_status: "trail_step (At s) e = At s' \<Longrightarrow> s' = s \<or> status_step s s'"
  by (cases s) (auto split: audit_kind.splits if_splits intro: status_step.intros)

lemma trail_illegal: "foldl trail_step Illegal es = Illegal"
  by (induction es) auto

lemma trail_status: "foldl trail_step (At s) es = At s' \<Longrightarrow> status_step\<^sup>*\<^sup>* s s'"
proof (induction es arbitrary: s)
  case (Cons e es)
  then show ?case
  proof (cases "trail_step (At s) e")
    case (At s1)
    with Cons trail_step_status [OF At] show ?thesis
      by (auto intro: converse_rtranclp_into_rtranclp)
  next
    case Fresh
    have "trail_step (At s) e \<noteq> Fresh" by (cases s) (auto split: audit_kind.splits)
    with Fresh show ?thesis by simp
  qed (simp add: trail_illegal)
qed simp

text \<open>
  C6. Whatever calls follow, an action keeps its identity (id, tenant, event, proposal,
  customer, type, creation time), its audit rows stay a prefix of its trail, and its status
  only moves along the state machine documented in the contract; executed, failed and
  rejected actions keep their status for ever.
\<close>

theorem status_follows_state_machine:
  assumes "run_ok (cs @ ds) (make_pipeline ex w)"
    and "get_action aid None (p_run cs (make_pipeline ex w)) = Inr a"
  shows "\<exists>a'. get_action aid None (p_run (cs @ ds) (make_pipeline ex w)) = Inr a' \<and>
    same_ident a a' \<and> status_step\<^sup>*\<^sup>* (a_status a) (a_status a') \<and>
    (a_status a \<in> {EXECUTED, EXECUTION_FAILED, REJECTED} \<longrightarrow> a_status a' = a_status a) \<and>
    prefix (audit_for_action aid (p_run cs (make_pipeline ex w)))
           (audit_for_action aid (p_run (cs @ ds) (make_pipeline ex w)))"
proof -
  let ?p = "p_run cs (make_pipeline ex w)" and ?q = "p_run (cs @ ds) (make_pipeline ex w)"
  from run_ok_append [OF assms(1)] have ok: "run_ok cs (make_pipeline ex w)" "run_ok ds ?p" by auto
  note inv = reachable_inv [OF ok(1)] and inv' = reachable_inv [OF assms(1)]
  from assms(2) have "store ?p aid = Some a" by (simp add: get_action_stored)
  from run_action [OF inv ok(2) this] obtain a' es where a': "store ?q aid = Some a'"
    "same_ident a a'" "trail_of aid ?q = trail_of aid ?p @ es" by auto
  have "replay (trail_of aid ?p) = At (a_status a)" "replay (trail_of aid ?q) = At (a_status a')"
    using pipe_invD(6) [OF inv] pipe_invD(6) [OF inv' a'(1)] assms(2)
    by (auto simp: get_action_stored coherent_def)
  then have fold: "foldl trail_step (At (a_status a)) es = At (a_status a')"
    using a'(3) by (simp add: replay_append)
  then have "status_step\<^sup>*\<^sup>* (a_status a) (a_status a')" by (rule trail_status)
  with trail_final [OF fold] a' inv inv' show ?thesis
    by (auto simp: get_action_stored audit_for_action_trail)
qed

theorem status_follows_state_machine_witness:
  "\<exists>a a'. get_action demo_action None
      (p_run [HandleProposal demo_event] (make_pipeline None demo_world)) = Inr a \<and>
    get_action demo_action None (p_run demo_history (make_pipeline None demo_world)) = Inr a' \<and>
    status_step\<^sup>*\<^sup>* (a_status a) (a_status a') \<and> a_status a = PENDING_APPROVAL"
proof (rule demo_pending)
  fix a r
  assume a: "store (p_run [HandleProposal demo_event] (make_pipeline None demo_world)) demo_action = Some a"
    "a_status a = PENDING_APPROVAL"
  have "demo_history = [HandleProposal demo_event] @ [ApproveAction demo_action ''ann'' None]"
    by (simp add: demo_history_def)
  then show ?thesis
    using status_follows_state_machine [of "[HandleProposal demo_event]"
        "[ApproveAction demo_action ''ann'' None]" None demo_world demo_action a]
      demo_history_ok a by (auto simp: get_action_stored simp del: fold_simps)
qed

section \<open>From proposal to execution\<close>



lemma votes_pending_action:
  assumes "pipe_inv p" "store p aid = Some a" "tenant_guard t a"
    "queue_rows p aid = Some r" "ar_state r = ''pending''" "distinct vs"
    "\<forall>v \<in> set vs. may_vote v r \<and> v \<notin> set (ar_approvals r) \<and> length v \<le> 128"
    "int (length (ar_approvals r) + length vs) < ar_required_approvals r"
  shows "\<exists>q r'. q = fold (\<lambda>v p. snd (approve_action aid v t p)) vs p \<and> pipe_inv q \<and>
    store q aid = Some a \<and> queue_rows q aid = Some r' \<and> ar_state r' = ''pending'' \<and>
    ar_approvals r' = ar_approvals r @ vs \<and>
    ar_required_approvals r' = ar_required_approvals r \<and>
    ar_eligible_approvers r' = ar_eligible_approvers r \<and> p_executors q = p_executors p"
  using assms
proof (induction vs arbitrary: p r)
  case (Cons v vs)
  have v: "length v \<le> 128" "may_vote v r" "v \<notin> set (ar_approvals r)" using Cons.prems(7) by auto
  note inv = pipe_inv_approve [OF Cons.prems(1) v(1), of aid t]
  show ?case
  proof (cases rule: vote_step [OF Cons.prems(1) v(1) Cons.prems(2-5) v(2,3),
        case_names more complete])
    case (more r' p')
    have "pipe_inv p'" using inv more(2) by simp
    from Cons.IH [OF this more(3) Cons.prems(3) more(4,5)] Cons.prems(6-8) more(6,7)
    have "\<exists>q s. q = fold (\<lambda>v p. snd (approve_action aid v t p)) vs p' \<and> pipe_inv q \<and>
      store q aid = Some a \<and> queue_rows q aid = Some s \<and> ar_state s = ''pending'' \<and>
      ar_approvals s = ar_approvals r' @ vs \<and> ar_required_approvals s = ar_required_approvals r' \<and>
      ar_eligible_approvers s = ar_eligible_approvers r' \<and> p_executors q = p_executors p'"
      by (auto simp: may_vote_def same_order_def)
    with more(2,6,7,8) show ?thesis by (auto simp: same_order_def)
  next
    case (complete a' p')
    with Cons.prems(8) show ?thesis by simp
  qed
qed auto

text \<open>
  C10. Quorum is live: for an action pending approval in a state the pipeline with the default
  executors reaches by calls with valid proposals and names of at most 128 characters, as many
  distinct, eligible, not yet recorded votes under such names as its row still needs execute it.  Before the last of them the stored action is unchanged; the last one
  returns it executed, under the same identity.
\<close>

theorem quorum_votes_execute:
  assumes "run_ok cs (make_default_pipeline w)"
    and "get_action aid None (p_run cs (make_default_pipeline w)) = Inr a"
    and "p_approval_rule aid (p_run cs (make_default_pipeline w)) = Some r"
    and "ar_state r = ''pending''" and "distinct (vs @ [v])"
    and "list_all (\<lambda>u. may_vote u r \<and> u \<notin> set (ar_approvals r) \<and> length u \<le> 128) (vs @ [v])"
    and "int (length (ar_approvals r) + length vs) + 1 = ar_required_approvals r"
  shows "let vote = (\<lambda>u p. approve_action aid u (Some (a_tenant_id a)) p);
             q = fold (\<lambda>u p. snd (vote u p)) vs (p_run cs (make_default_pipeline w))
         in get_action aid None q = Inr a \<and>
            (\<exists>a' p'. vote v q = (Inr a', p') \<and> a_status a' = EXECUTED \<and> same_ident a a' \<and>
               get_action aid None p' = Inr a')"
proof -
  let ?p = "p_run cs (make_default_pipeline w)"
  have inv: "pipe_inv ?p"
    using reachable_inv assms(1) by (simp add: make_default_pipeline_def)
  have ex: "p_executors ?p = default_executors"
    using executors_run [OF pipe_inv_new, of cs None w] assms(1)
    by (simp add: make_default_pipeline_def make_pipeline_def executor_init_def)
  have a: "store ?p aid = Some a" using assms(2) by (simp add: get_action_stored)
  have r: "queue_rows ?p aid = Some r" using assms(3) by (simp add: p_approval_rule_def aq_get_def)
  have guard: "tenant_guard (Some (a_tenant_id a)) a" by (simp add: tenant_guard_def)
  from votes_pending_action [OF inv a guard r assms(4), of vs] assms(5-7)
  obtain q r' where q: "q = fold (\<lambda>v p. snd (approve_action aid v (Some (a_tenant_id a)) p)) vs ?p"
    "pipe_inv q" "store q aid = Some a" "queue_rows q aid = Some r'" "ar_state r' = ''pending''"
    "ar_approvals r' = ar_approvals r @ vs" "ar_required_approvals r' = ar_required_approvals r"
    "ar_eligible_approvers r' = ar_eligible_approvers r" "p_executors q = p_executors ?p"
    by (auto simp: list_all_iff)
  have v: "length v \<le> 128" "may_vote v r'" "v \<notin> set (ar_approvals r')"
    using assms(5,6) q(6,8) by (auto simp: may_vote_def)
  have "\<exists>a' p'. approve_action aid v (Some (a_tenant_id a)) q = (Inr a', p') \<and>
      a_status a' = EXECUTED \<and> same_ident a a' \<and> store p' aid = Some a'"
    by (cases rule: vote_step [OF q(2) v(1) q(3) guard q(4,5) v(2,3)])
       (use assms(7) q(6,7,9) ex in auto)
  with q(1,3) show ?thesis by (simp add: get_action_stored Let_def)
qed

theorem quorum_votes_execute_witness:
  "\<exists>a. fst (approve_action demo_action ''ann'' (Some ''acme'')
      (p_run [HandleProposal demo_event] (make_default_pipeline demo_world))) = Inr a \<and>
    a_status a = EXECUTED"
proof (rule demo_pending)
  let ?p = "p_run [HandleProposal demo_event] (make_pipeline None demo_world)"
  fix a r
  assume a: "store ?p demo_action = Some a" "a_tenant_id a = ''acme''"
    and r: "queue_rows ?p demo_action = Some r" "ar_state r = ''pending''" "ar_approvals r = []"
    "ar_required_approvals r = 1" "ar_eligible_approvers r = None"
  have "run_ok [HandleProposal demo_event] (make_pipeline None demo_world)"
    by (rule demo_run_ok) simp_all
  then show ?thesis
    using quorum_votes_execute [of "[HandleProposal demo_event]" demo_world demo_action a r "[]" "''ann''"]
      a r by (auto simp: make_default_pipeline_def get_action_stored p_approval_rule_def aq_get_def
        may_vote_def simp del: fold_simps)
qed

section \<open>Redelivery\<close>

lemma handle_proposal_hit:
  assumes "p_dedup q (t, e) = Some [aid]" "pr_tenant_id pr = t" "pr_event_id pr = e"
    "store q aid = Some a"
  shows "handle_proposal pr q = (Inr [a], q)"
  using assms by (simp add: handle_proposal_def as_get_def)

text \<open>
  C5. Handling is idempotent per tenant and event: once a proposal has been handled, any
  later proposal for the same tenant and event (even with another payload or action type)
  returns the one stored action, in its current status and under its original identity, and
  changes nothing in the pipeline: no new action, no audit row, no execution.
\<close>

theorem redelivery_returns_stored_action:
  assumes "run_ok (cs @ HandleProposal pr # ds) (make_pipeline ex w)"
    and "pr_tenant_id pr' = pr_tenant_id pr" and "pr_event_id pr' = pr_event_id pr"
  shows "\<exists>a a'.
    fst (handle_proposal pr (p_run cs (make_pipeline ex w))) = Inr [a] \<and>
    handle_proposal pr' (p_run (cs @ HandleProposal pr # ds) (make_pipeline ex w)) =
      (Inr [a'], p_run (cs @ HandleProposal pr # ds) (make_pipeline ex w)) \<and>
    same_ident a a' \<and>
    get_action (a_id a) None (p_run (cs @ HandleProposal pr # ds) (make_pipeline ex w)) = Inr a'"
proof -
  let ?p = "p_run cs (make_pipeline ex w)"
  let ?p1 = "snd (handle_proposal pr ?p)"
  let ?q = "p_run (cs @ HandleProposal pr # ds) (make_pipeline ex w)"
  let ?key = "(pr_tenant_id pr, pr_event_id pr)"
  from run_ok_append [OF assms(1)] have ok: "run_ok cs (make_pipeline ex w)"
    "run_ok (HandleProposal pr # ds) ?p" by auto
  note inv = reachable_inv [OF ok(1)] and inv' = reachable_inv [OF assms(1)]
  note step = run_ok_Cons [OF ok(2)]
  have valid: "proposal_valid pr" using step(1) by simp
  have inv1: "pipe_inv ?p1" by (rule pipe_inv_handle [OF inv valid step(2)])
  obtain a where a: "fst (handle_proposal pr ?p) = Inr [a]" "store ?p1 (a_id a) = Some a"
    "a_tenant_id a = pr_tenant_id pr" "a_event_id a = pr_event_id pr"
  proof (cases "p_dedup ?p ?key")
    case None
    show thesis
      by (rule handle_new_inv [OF inv valid step(2) None inv step(2) inv step(2)])
         (rule that, auto simp: from_proposal_def)
  next
    case (Some ids)
    show thesis by (rule handle_proposal_cached [OF inv Some]) (rule that, auto)
  qed
  have ok1: "run_ok ds ?p1" using step(3) by simp
  have q: "?q = p_run ds ?p1" by simp
  from run_action [OF inv1 ok1 a(2)] obtain a' where a': "store ?q (a_id a) = Some a'" "same_ident a a'"
    unfolding q by blast
  have "p_dedup ?q ?key = Some [a_id a]"
    using pipe_invD(5) [OF inv' a'(1)] a'(2) a(3,4) by (simp add: same_ident_def)
  from handle_proposal_hit [OF this assms(2,3) a'(1)]
  have "handle_proposal pr' ?q = (Inr [a'], ?q)" .
  with a(1) a' show ?thesis by (auto simp: get_action_stored)
qed

theorem redelivery_returns_stored_action_witness:
  "\<exists>a'. handle_proposal (demo_event\<lparr>pr_action_type := NO_OP\<rparr>)
      (p_run demo_history (make_pipeline None demo_world)) =
    (Inr [a'], p_run demo_history (make_pipeline None demo_world))"
proof -
  have "[] @ HandleProposal demo_event # [ApproveAction demo_action ''ann'' None] = demo_history"
    by (simp add: demo_history_def)
  then show ?thesis
    using redelivery_returns_stored_action [of "[]" demo_event
        "[ApproveAction demo_action ''ann'' None]" None demo_world "demo_event\<lparr>pr_action_type := NO_OP\<rparr>"]
      demo_history_ok by (auto simp del: fold_simps)
qed

section \<open>Reads\<close>

text \<open>
  C11. In every state reached by calls with valid proposals and names of at most 128 characters,
  the pending list of a tenant is exactly its stored actions in status pending_approval, each
  once, in the order of the queue's own pending rows, which is that of arrival: the queue and
  the store never disagree on what awaits a decision.  (After a longer name they can.)
\<close>

theorem pending_list_exact:
  assumes "run_ok cs (make_pipeline ex w)"
  shows "map a_id (list_pending_actions t (p_run cs (make_pipeline ex w))) =
      map ar_action_id (aq_list_pending t (p_queue (p_run cs (make_pipeline ex w)))) \<and>
    distinct (map a_id (list_pending_actions t (p_run cs (make_pipeline ex w)))) \<and>
    set (list_pending_actions t (p_run cs (make_pipeline ex w))) =
      {a. a \<in> set (list_actions_for_tenant t (p_run cs (make_pipeline ex w))) \<and>
          a_status a = PENDING_APPROVAL}"
proof -
  let ?p = "p_run cs (make_pipeline ex w)"
  let ?ids = "get_list (aq_pending_by_tenant (p_queue ?p)) t"
  note inv = reachable_inv [OF assms]
  have aq: "aq_inv (p_queue ?p)" and as: "as_inv (p_actions ?p)"
    using pipe_invD(1) [OF inv] by (auto simp: comps_inv_def)
  have pend: "(\<exists>a. store ?p aid = Some a \<and> a_tenant_id a = t \<and> a_status a = PENDING_APPROVAL)
      \<longleftrightarrow> aid \<in> set ?ids" for aid
  proof (cases "store ?p aid")
    case None
    with pipe_invD(8) [OF inv None] show ?thesis
      using aq_invD(4) [OF aq, of aid t] by (simp add: pending_of_def)
  next
    case (Some a)
    with pipe_invD(6) [OF inv Some] show ?thesis
      using aq_invD(4) [OF aq, of aid t]
      by (auto simp: coherent_def pending_of_def split: option.splits)
  qed
  have rows: "\<exists>r a. queue_rows ?p aid = Some r \<and> ar_action_id r = aid \<and> store ?p aid = Some a \<and>
      a_id a = aid" if "aid \<in> set ?ids" for aid
    using that pend [of aid] aq_invD(1) [OF aq, of aid] aq_invD(4) [OF aq, of aid t]
      pipe_invD(3) [OF inv, of aid] by (auto simp: pending_of_def split: option.splits)
  have list: "list_pending_actions t ?p = map (\<lambda>aid. the (store ?p aid)) ?ids"
  proof -
    have "List.map_filter (\<lambda>r. store ?p (ar_action_id r)) (List.map_filter (queue_rows ?p) xs) =
        map (\<lambda>aid. the (store ?p aid)) xs" if "set xs \<subseteq> set ?ids" for xs
      using that by (induction xs) (use rows in \<open>fastforce simp: List.map_filter_simps\<close>)+
    then show ?thesis by (simp add: list_pending_actions_def aq_list_pending_def as_get_def)
  qed
  have "map a_id (list_pending_actions t ?p) = ?ids"
    unfolding list using rows by (simp add: map_idI comp_def) (metis (mono_tags, lifting) map_idI option.sel)
  moreover have "set (list_pending_actions t ?p) =
      {a. a \<in> set (list_actions_for_tenant t ?p) \<and> a_status a = PENDING_APPROVAL}"
    unfolding list list_actions_for_tenant_def
    using pend as_list_for_tenant_scoped [OF as] as_list_for_tenant_complete [OF as]
    by (auto simp: image_iff) (metis option.sel pipe_invD(3) [OF inv])+
  moreover have "map ar_action_id (aq_list_pending t (p_queue ?p)) = ?ids"
  proof -
    have "map ar_action_id (List.map_filter (queue_rows ?p) xs) = xs" if "set xs \<subseteq> set ?ids" for xs
      using that by (induction xs) (use rows in \<open>fastforce simp: List.map_filter_simps\<close>)+
    then show ?thesis by (simp add: aq_list_pending_def)
  qed
  ultimately show ?thesis using aq_invD(3) [OF aq, of t] by simp
qed

theorem pending_list_exact_witness:
  "set (list_pending_actions ''acme'' (p_run demo_history (make_pipeline None demo_world))) =
    {a. a \<in> set (list_actions_for_tenant ''acme'' (p_run demo_history (make_pipeline None demo_world))) \<and>
        a_status a = PENDING_APPROVAL}"
  using pending_list_exact [OF demo_history_ok] by blast

section \<open>Tenants\<close>

text \<open>
  Reading, approving or rejecting another tenant's action is indistinguishable from
  naming an action that does not exist: the same error is raised and nothing is changed, in
  any state of the pipeline.
\<close>

theorem cross_tenant_like_missing:
  assumes "get_action aid None p = Inr a" and "a_tenant_id a \<noteq> t"
    and "get_action missing None p = Inl ActionNotFoundError"
  shows "get_action aid (Some t) p = get_action missing (Some t) p \<and>
    approve_action aid v (Some t) p = approve_action missing v (Some t) p \<and>
    reject_action aid reason v (Some t) p = reject_action missing reason v (Some t) p \<and>
    approve_action aid v (Some t) p = (Inl ActionNotFoundError, p) \<and>
    reject_action aid reason v (Some t) p = (Inl ActionNotFoundError, p)"
proof -
  have "as_get aid (p_actions p) = Some a" "as_get missing (p_actions p) = None"
    using assms(1,3) by (auto simp: get_action_def tenant_guard_def split: option.splits)
  with assms(2) show ?thesis
    by (simp add: get_action_def approve_action_def reject_action_def tenant_guard_def)
qed

theorem cross_tenant_like_missing_witness:
  "approve_action demo_action ''ann'' (Some ''other'')
      (p_run demo_history (make_pipeline None demo_world)) =
    (Inl ActionNotFoundError, p_run demo_history (make_pipeline None demo_world))"
proof (rule demo_executed)
  let ?p = "p_run demo_history (make_pipeline None demo_world)"
  fix a r assume a: "store ?p demo_action = Some a" "a_tenant_id a = ''acme''"
  have "\<not> drawn ?p ''act_''"
  proof
    assume "drawn ?p ''act_''"
    then obtain n where "uuid_of (p_world ?p) n = []" by (auto simp: drawn_def dest: sym)
    moreover have "uuid_of (p_world (p_run cs q)) = uuid_of (p_world q)" for cs q
    proof (induction cs arbitrary: q)
      case (Cons c cs)
      then show ?case using draws_call [of q c] by (simp add: draws_def)
    qed simp
    then have "uuid_of (p_world ?p) = demo_uuid" by (simp add: make_pipeline_def demo_world_def)
    ultimately show False by (simp add: demo_uuid_def)
  qed
  then have "store ?p ''act_'' = None"
    using pipe_invD(2) [OF reachable_inv [OF demo_history_ok], of "''act_''"] by simp
  then have "get_action ''act_'' None ?p = Inl ActionNotFoundError"
    by (simp add: get_action_def as_get_def)
  with a have "get_action demo_action None ?p = Inr a" "a_tenant_id a \<noteq> ''other''"
      "get_action ''act_'' None ?p = Inl ActionNotFoundError"
    by (simp_all add: get_action_stored)
  from cross_tenant_like_missing [OF this] show ?thesis by blast
qed

text \<open>
  What a tenant can observe: its policy decisions and quorum rules, its actions, its pending
  list and its audit rows.
\<close>

definition tenant_view :: "string \<Rightarrow> pipeline \<Rightarrow>
    (action_key \<Rightarrow> policy_decision) \<times> (action_type \<Rightarrow> quorum_rule) \<times> action list \<times>
    action list \<times> audit_entry list" where
  "tenant_view t p =
     ((\<lambda>k. de_decide t k (p_policy p)), (\<lambda>a. qp_resolve t a (p_quorum p)),
      list_actions_for_tenant t p, list_pending_actions t p,
      al_entries_for_tenant t (p_audit p))"

text \<open>A call made on behalf of another tenant.\<close>

fun foreign_call :: "string \<Rightarrow> pipeline_call \<Rightarrow> bool" where
  "foreign_call t (HandleProposal pr) = (pr_tenant_id pr \<noteq> t)"
| "foreign_call t (ApproveAction aid v s) = (case s of None \<Rightarrow> False | Some u \<Rightarrow> u \<noteq> t)"
| "foreign_call t (RejectAction aid reason v s) = (case s of None \<Rightarrow> False | Some u \<Rightarrow> u \<noteq> t)"
| "foreign_call t (SetPolicies u tbl) = (u \<noteq> t)"
| "foreign_call t (SetQuorum u a n pool) = (u \<noteq> t)"

lemma map_filter_same:
  assumes "\<And>x. x \<in> set xs \<Longrightarrow> f x = g x"
  shows "List.map_filter f xs = List.map_filter g xs"
  using assms by (induction xs) (auto simp: List.map_filter_simps split: option.splits)

lemma tenant_view_touches:
  assumes inv: "pipe_inv p" and t: "touches aid s es p p'" and other: "s \<noteq> t"
    and store: "\<And>a. store p aid = Some a \<Longrightarrow> a_tenant_id a = s"
  shows "tenant_view t p' = tenant_view t p"
proof -
  have comps: "comps_inv p" "comps_inv p'" using pipe_invD(1) [OF inv] touchesD(1) [OF t] .
  have index: "get_list (as_by_tenant (p_actions p')) t = get_list (as_by_tenant (p_actions p)) t"
    "get_list (aq_pending_by_tenant (p_queue p')) t = get_list (aq_pending_by_tenant (p_queue p)) t"
    using touchesD(14) [OF t, of t] other by (auto simp: tenant_index_def)
  have own: "aid \<notin> set (get_list (as_by_tenant (p_actions p)) t)"
    using comps(1) store other by (auto simp: comps_inv_def as_inv_def split: option.splits)
  have own': "aid \<notin> set (get_list (aq_pending_by_tenant (p_queue p)) t)"
  proof
    assume "aid \<in> set (get_list (aq_pending_by_tenant (p_queue p)) t)"
    then obtain r where r: "queue_rows p aid = Some r" "ar_tenant_id r = t"
      using comps(1) aq_invD(4) [of "p_queue p" aid t]
      by (auto simp: comps_inv_def pending_of_def split: option.splits)
    with pipe_invD(8) [OF inv, of aid] obtain a where a: "store p aid = Some a" by (cases "store p aid") auto
    with pipe_invD(6) [OF inv a] r store [OF a] other show False by (simp add: coherent_def)
  qed
  have acts: "list_actions_for_tenant t p' = list_actions_for_tenant t p"
    unfolding list_actions_for_tenant_def as_list_for_tenant_def index
    by (rule map_filter_same) (use own touchesD(2) [OF t] in metis)
  have rows: "aq_list_pending t (p_queue p') = aq_list_pending t (p_queue p)"
    unfolding aq_list_pending_def index
    by (rule map_filter_same) (use own' touchesD(3) [OF t] in metis)
  have "ar_action_id r \<noteq> aid" if "r \<in> set (aq_list_pending t (p_queue p))" for r
    using that own' comps(1) aq_invD(1) [of "p_queue p"]
    by (auto simp: aq_list_pending_def List.map_filter_def comps_inv_def)
  then have pend: "list_pending_actions t p' = list_pending_actions t p"
    unfolding list_pending_actions_def rows
    by (intro map_filter_same) (simp add: as_get_def touchesD(2) [OF t])
  have "filter (\<lambda>e. ae_tenant_id e = t) es = []"
    using touchesD(13) [OF t] other by (auto simp: filter_empty_conv)
  then have "al_entries_for_tenant t (p_audit p') = al_entries_for_tenant t (p_audit p)"
    using comps touchesD(12) [OF t]
    by (simp add: comps_inv_def al.for_tenant_rows)
  with acts pend show ?thesis
    by (simp add: tenant_view_def touchesD(4,6) [OF t])
qed

lemma tenant_view_call:
  assumes inv: "pipe_inv p" and ok: "call_ok c" and w: "uuids_ok 2 (p_world p)"
    and foreign: "foreign_call t c"
  shows "tenant_view t (p_call c p) = tenant_view t p"
proof (cases c)
  case (HandleProposal pr)
  have valid: "proposal_valid pr" using ok HandleProposal by simp
  show ?thesis
  proof (cases "p_dedup p (pr_tenant_id pr, pr_event_id pr)")
    case None
    show ?thesis
    proof (rule handle_new_inv [OF inv valid w None inv w inv w])
      fix a :: action and e f es and p1 :: pipeline
      let ?q = "p1\<lparr>p_dedup := (p_dedup p)((pr_tenant_id pr, pr_event_id pr) \<mapsto> [a_id a])\<rparr>"
      assume x: "handle_proposal pr p = (Inr [a], ?q)" "a_id a = fresh_action pr p"
        "from_proposal pr a" "touches (a_id a) (a_tenant_id a) (e # f # es) p p1"
      have "a_tenant_id a \<noteq> t" using x(3) foreign HandleProposal by (simp add: from_proposal_def)
      from tenant_view_touches [OF inv x(4) this] x(2) fresh_not_stored(1) [OF inv w, of pr]
      have "tenant_view t p1 = tenant_view t p" by simp
      with x(1) HandleProposal show ?thesis
        by (simp add: tenant_view_def list_actions_for_tenant_def list_pending_actions_def)
    qed
  next
    case (Some ids)
    then show ?thesis by (rule handle_proposal_cached [OF inv]) (use HandleProposal in simp)
  qed
next
  case (ApproveAction aid v s)
  then obtain u where u: "s = Some u" "u \<noteq> t" using foreign by (cases s) auto
  have len: "length v \<le> 128" using ok ApproveAction by simp
  show ?thesis
  proof (cases rule: approve_cases_inv [OF inv len inv, of aid s "[]",
      case_names refused partial executed])
    case (refused e p')
    have "tenant_view t p' = tenant_view t p"
      using refused(2-4) by (simp add: tenant_view_def list_actions_for_tenant_def
          list_pending_actions_def touchesD(4,6) [OF refused(2)])
        (use pipe_invD(1) [OF inv] touchesD(1,12) [OF refused(2)] in
          \<open>simp add: comps_inv_def al.for_tenant_rows\<close>)
    with refused(1) show ?thesis by (simp add: ApproveAction)
  next
    case (partial a r r' e p')
    have "a_tenant_id a \<noteq> t" using partial(2) u by (simp add: tenant_guard_def)
    from tenant_view_touches [OF inv partial(9) this] partial(1,8)
    show ?thesis by (simp add: ApproveAction)
  next
    case (executed a r r' a' e f p')
    have "a_tenant_id a \<noteq> t" using executed(2) u by (simp add: tenant_guard_def)
    from tenant_view_touches [OF inv executed(9) this] executed(1,8)
    show ?thesis by (simp add: ApproveAction)
  qed
next
  case (RejectAction aid reason v s)
  then obtain u where u: "s = Some u" "u \<noteq> t" using foreign by (cases s) auto
  have len: "length v \<le> 128" using ok RejectAction by simp
  show ?thesis
  proof (cases rule: reject_cases_inv [OF inv len inv, of aid reason s "[]",
      case_names refused rejected])
    case (refused e p')
    have "tenant_view t p' = tenant_view t p"
      using refused(2-4) by (simp add: tenant_view_def list_actions_for_tenant_def
          list_pending_actions_def touchesD(4,6) [OF refused(2)])
        (use pipe_invD(1) [OF inv] touchesD(1,12) [OF refused(2)] in
          \<open>simp add: comps_inv_def al.for_tenant_rows\<close>)
    with refused(1) show ?thesis by (simp add: RejectAction)
  next
    case (rejected a r r' b e p')
    have "a_tenant_id a \<noteq> t" using rejected(2) u by (simp add: tenant_guard_def)
    from tenant_view_touches [OF inv rejected(9) this] rejected(1,8)
    show ?thesis by (simp add: RejectAction)
  qed
next
  case (SetPolicies u tbl)
  then have "de_decide t k (snd (de_set_policies u tbl (p_policy p))) = de_decide t k (p_policy p)" for k
    using foreign by (auto simp: de_set_policies_def de_decide_def split: sum.splits)
  with SetPolicies show ?thesis
    by (simp add: tenant_view_def list_actions_for_tenant_def list_pending_actions_def)
next
  case (SetQuorum u a n pool)
  then have "qp_resolve t k (snd (qp_set_rule u a n pool (p_quorum p))) = qp_resolve t k (p_quorum p)" for k
    using foreign by (auto simp: qp_set_rule_def qp_resolve_def Let_def)
  with SetQuorum show ?thesis
    by (simp add: tenant_view_def list_actions_for_tenant_def list_pending_actions_def)
qed

text \<open>
  C8. Tenants do not interfere: whatever sequence of calls is made on behalf of other
  tenants (their proposals, votes and vetoes under their own tenant id, even on this tenant's
  action ids, and their configuration), a tenant's decisions, quorum rules, actions, pending
  list and audit rows stay what they were.
\<close>

theorem tenants_do_not_interfere:
  assumes "run_ok (cs @ ds) (make_pipeline ex w)" and "list_all (foreign_call t) ds"
  shows "tenant_view t (p_run (cs @ ds) (make_pipeline ex w)) =
    tenant_view t (p_run cs (make_pipeline ex w))"
proof -
  from run_ok_append [OF assms(1)]
  have ok: "run_ok cs (make_pipeline ex w)" "run_ok ds (p_run cs (make_pipeline ex w))" by auto
  have "tenant_view t (p_run ds p) = tenant_view t p"
    if "pipe_inv p" "run_ok ds p" "list_all (foreign_call t) ds" for p ds
    using that
  proof (induction ds arbitrary: p)
    case (Cons c cs)
    note step = run_ok_Cons [OF Cons.prems(2)]
    have "tenant_view t (p_run cs (p_call c p)) = tenant_view t (p_call c p)"
      using Cons step by (simp add: pipe_inv_call)
    then show ?case using tenant_view_call [OF Cons.prems(1) step(1,2)] Cons.prems(3) by simp
  qed simp
  from this [OF reachable_inv [OF ok(1)] ok(2) assms(2)] show ?thesis by simp
qed

theorem tenants_do_not_interfere_witness:
  "tenant_view ''acme'' (p_run (demo_history @
      [HandleProposal (demo_proposal ''other'' ''ev_1'' NO_OP),
       RejectAction demo_action ''no'' ''eve'' (Some ''other'')]) (make_pipeline None demo_world)) =
    tenant_view ''acme'' (p_run demo_history (make_pipeline None demo_world))"
proof (rule tenants_do_not_interfere)
  show "run_ok (demo_history @ [HandleProposal (demo_proposal ''other'' ''ev_1'' NO_OP),
       RejectAction demo_action ''no'' ''eve'' (Some ''other'')]) (make_pipeline None demo_world)"
    by (rule demo_run_ok) (simp_all add: demo_history_def,
        simp add: demo_proposal_def proposal_valid_def)
qed (simp add: demo_proposal_def)

section \<open>A name that does not fit the audit row\<close>





end
