(* ===== verification/Ring_Buffers.thy ===== *)
theory Ring_Buffers
  imports Contracts
begin

text \<open>
  The bounded per-tenant ring buffers: \<open>RecentEventsBuffer\<close>
  (\<open>orchestrator/event_listener.py\<close>), \<open>ProposalsBuffer\<close> (\<open>orchestrator/planner.py\<close>),
  \<open>QuarantineBuffer\<close> (\<open>context_engine/quarantine.py\<close>) and \<open>SlowCallQueue\<close>
  (\<open>context_engine/slow_call_queue.py\<close>).  The four implement one contract, the locale
  \<open>tenant_ring\<close>: a tenant sees the last entries of its own, newest first, and no other
  tenant's traffic can push them out.
\<close>

section \<open>The contract\<close>

locale tenant_ring =
  fixes cap :: "'b \<Rightarrow> nat"
    and rows :: "'b \<Rightarrow> string \<Rightarrow> 'e list"
    and tenant :: "'e \<Rightarrow> string option"
    and add :: "'e \<Rightarrow> 'b \<Rightarrow> 'b"
    and recent :: "string \<Rightarrow> int \<Rightarrow> 'b \<Rightarrow> 'e list"
  assumes cap_add: "cap (add e b) = cap b"
    and rows_add: "rows (add e b) t =
          (if tenant e = Some t then keep_last (cap b) (rows b t @ [e]) else rows b t)"
    and recent_rows: "0 < n \<Longrightarrow> recent t (int n) b = rev (keep_last n (rows b t))"
begin

abbreviation adds :: "'e list \<Rightarrow> 'b \<Rightarrow> 'b" where
  "adds es b \<equiv> fold add es b"

lemma cap_adds: "cap (adds es b) = cap b"
  by (induction es arbitrary: b) (simp_all add: cap_add)

lemma rows_adds:
  "length (rows b t) \<le> cap b \<Longrightarrow>
   rows (adds es b) t = keep_last (cap b) (rows b t @ filter (\<lambda>e. tenant e = Some t) es)"
  by (induction es arbitrary: b) (simp_all add: rows_add cap_add)

text \<open>What a tenant reads after any traffic: its own last entries, newest first.\<close>

lemma recent_adds:
  assumes "0 < n" "rows b t = []"
  shows "recent t (int n) (adds es b) =
    take (min n (cap b)) (rev (filter (\<lambda>e. tenant e = Some t) es))"
  using assms by (simp add: recent_rows rows_adds) (simp add: keep_last_def take_rev)

lemma bounded: "length (rows b t) \<le> cap b \<Longrightarrow> length (rows (adds es b) t) \<le> cap b"
  by (simp add: rows_adds)

lemma isolated:
  "\<forall>e \<in> set es. tenant e \<noteq> Some t \<Longrightarrow> rows (adds es b) t = rows b t"
  by (induction es arbitrary: b) (simp_all add: rows_add)

end

lemma trim_keep_last:
  "(if m < int (length xs) then drop (nat (int (length xs) - m)) xs else xs) =
   keep_last (nat m) xs"
  by (cases "0 \<le> m") (auto simp: keep_last_def nat_diff_distrib)

lemma rev_py_drop: "0 < n \<Longrightarrow> rev (py_drop (- int n) xs) = rev (keep_last n xs)"
  by (simp add: py_drop_neg)

section \<open>RecentEventsBuffer\<close>

text \<open>
  An envelope without a truthy \<open>tenant_id\<close> is dropped.  The \<open>deque\<close> keeps the last \<open>maxlen\<close>
  entries.  A \<open>tenant_id\<close> that is not a string is kept under a key that no string query
  reads; one that is not hashable raises.
\<close>

record recent_events_buffer =
  reb_max :: nat
  reb_by_tenant :: "json \<rightharpoonup> dict list"

definition reb_new :: "nat \<Rightarrow> recent_events_buffer" where
  "reb_new m = \<lparr>reb_max = m, reb_by_tenant = Map.empty\<rparr>"

definition unhashable :: "string \<Rightarrow> py_exn" where
  "unhashable type_name = Exn ''TypeError''
     (''unhashable type: '' @ CHR 0x27 # type_name @ [CHR 0x27])"

definition reb_append :: "dict \<Rightarrow> recent_events_buffer \<Rightarrow>
    (py_exn, unit, recent_events_buffer) outcome" where
  "reb_append envelope b =
     (let tenant_id = dict_get_or envelope ''tenant_id'' JNull
      in if \<not> truthy tenant_id then (Inr (), b)
         else case tenant_id of
           JList xs \<Rightarrow> (Inl (unhashable ''list''), b)
         | JObj d \<Rightarrow> (Inl (unhashable ''dict''), b)
         | _ \<Rightarrow> (Inr (), b\<lparr>reb_by_tenant := (reb_by_tenant b)
                  (tenant_id \<mapsto> keep_last (reb_max b)
                     (get_list (reb_by_tenant b) tenant_id @ [envelope]))\<rparr>))"

definition reb_recent :: "string \<Rightarrow> int \<Rightarrow> recent_events_buffer \<Rightarrow> dict list" where
  "reb_recent tenant_id limit b =
     (case reb_by_tenant b (JStr tenant_id) of
        None \<Rightarrow> []
      | Some buf \<Rightarrow> if buf = [] then [] else py_take limit (rev buf))"

definition reb_clear :: "recent_events_buffer \<Rightarrow> recent_events_buffer" where
  "reb_clear b = b\<lparr>reb_by_tenant := Map.empty\<rparr>"

definition envelope_tenant :: "dict \<Rightarrow> string option" where
  "envelope_tenant envelope =
     (case dict_get envelope ''tenant_id'' of
        Some (JStr t) \<Rightarrow> if t = [] then None else Some t
      | _ \<Rightarrow> None)"

lemma take_rev_keep_last: "take n (rev xs) = rev (keep_last n xs)"
  by (simp add: keep_last_def take_rev)

interpretation reb: tenant_ring reb_max "\<lambda>b t. get_list (reb_by_tenant b) (JStr t)"
  envelope_tenant "\<lambda>e b. snd (reb_append e b)" reb_recent
proof unfold_locales
  fix e b t
  show "reb_max (snd (reb_append e b)) = reb_max b"
    by (simp add: reb_append_def Let_def split: json.split)
  show "get_list (reb_by_tenant (snd (reb_append e b))) (JStr t) =
    (if envelope_tenant e = Some t
     then keep_last (reb_max b) (get_list (reb_by_tenant b) (JStr t) @ [e])
     else get_list (reb_by_tenant b) (JStr t))"
    by (auto simp: reb_append_def envelope_tenant_def dict_get_or_def Let_def
        split: json.split option.split)
next
  fix n :: nat and t b
  show "reb_recent t (int n) b = rev (keep_last n (get_list (reb_by_tenant b) (JStr t)))"
    by (auto simp: reb_recent_def get_list_def py_take_def take_rev_keep_last split: option.split)
qed

section \<open>ProposalsBuffer\<close>

record proposals_buffer =
  pb_max :: int
  pb_by_tenant :: "string \<rightharpoonup> proposal list"

definition pb_new :: "int \<Rightarrow> proposals_buffer" where
  "pb_new m = \<lparr>pb_max = m, pb_by_tenant = Map.empty\<rparr>"

definition pb_append :: "proposal \<Rightarrow> proposals_buffer \<Rightarrow> proposals_buffer" where
  "pb_append p b =
     (let buf = get_list (pb_by_tenant b) (pr_tenant_id p) @ [p];
          buf' = (if pb_max b < int (length buf)
                  then drop (nat (int (length buf) - pb_max b)) buf else buf)
      in b\<lparr>pb_by_tenant := (pb_by_tenant b)(pr_tenant_id p \<mapsto> buf')\<rparr>)"

definition pb_recent :: "string \<Rightarrow> int \<Rightarrow> proposals_buffer \<Rightarrow> proposal list" where
  "pb_recent tenant_id limit b = rev (py_drop (- limit) (get_list (pb_by_tenant b) tenant_id))"

definition pb_clear :: "proposals_buffer \<Rightarrow> proposals_buffer" where
  "pb_clear b = b\<lparr>pb_by_tenant := Map.empty\<rparr>"

interpretation pb: tenant_ring "\<lambda>b. nat (pb_max b)" "\<lambda>b. get_list (pb_by_tenant b)"
  "\<lambda>p. Some (pr_tenant_id p)" pb_append pb_recent
  by unfold_locales
     (simp_all only: pb_append_def pb_recent_def Let_def trim_keep_last rev_py_drop, simp_all)

section \<open>QuarantineBuffer\<close>

datatype quarantine_reason =
    VALIDATION_FAILED
  | MISSING_IDEMPOTENCY_KEY
  | IDEMPOTENCY_KEY_MISMATCH
  | UNKNOWN_CUSTOMER
  | OVERSIZED_PAYLOAD
  | INJECTION_SUSPECTED
  | OTHER

record quarantined_event =
  qe_id :: string
  qe_tenant_id :: string
  qe_reason :: quarantine_reason
  qe_detail :: string
  qe_raw_payload :: dict
  qe_quarantined_at :: time
  qe_context :: dict

record quarantine_buffer =
  qb_max :: int
  qb_by_tenant :: "string \<rightharpoonup> quarantined_event list"

datatype ring_error = RingValueError

definition qb_new :: "int \<Rightarrow> ring_error + quarantine_buffer" where
  "qb_new m = (if m \<le> 0 then Inl RingValueError else Inr \<lparr>qb_max = m, qb_by_tenant = Map.empty\<rparr>)"

definition qb_push :: "quarantined_event \<Rightarrow> quarantine_buffer \<Rightarrow> quarantine_buffer" where
  \<comment> \<open>the part of \<open>quarantine\<close> that runs under the lock\<close>
  "qb_push entry b =
     (let buf = get_list (qb_by_tenant b) (qe_tenant_id entry) @ [entry];
          buf' = (if qb_max b < int (length buf)
                  then drop (nat (int (length buf) - qb_max b)) buf else buf)
      in b\<lparr>qb_by_tenant := (qb_by_tenant b)(qe_tenant_id entry \<mapsto> buf')\<rparr>)"

definition qb_quarantine :: "string \<Rightarrow> quarantine_reason \<Rightarrow> string \<Rightarrow> dict \<Rightarrow> dict \<Rightarrow>
    world \<Rightarrow> quarantine_buffer \<Rightarrow> (ring_error, quarantined_event, world \<times> quarantine_buffer) outcome" where
  "qb_quarantine tenant_id reason detail raw_payload context w b =
     (if tenant_id = [] then (Inl RingValueError, (w, b))
      else
        let (u, w1) = uuid4 w;
            (t, w2) = now w1;
            entry = \<lparr>qe_id = ''q_'' @ take 24 u, qe_tenant_id = tenant_id, qe_reason = reason,
                     qe_detail = detail, qe_raw_payload = raw_payload, qe_quarantined_at = t,
                     qe_context = context\<rparr>
        in (Inr entry, (w2, qb_push entry b)))"

definition qb_recent :: "string \<Rightarrow> int \<Rightarrow> quarantine_buffer \<Rightarrow> quarantined_event list" where
  "qb_recent tenant_id limit b =
     (if limit \<le> 0 then [] else rev (py_drop (- limit) (get_list (qb_by_tenant b) tenant_id)))"

definition qb_count :: "string \<Rightarrow> quarantine_buffer \<Rightarrow> nat" where
  "qb_count tenant_id b = length (get_list (qb_by_tenant b) tenant_id)"

definition qb_clear :: "quarantine_buffer \<Rightarrow> quarantine_buffer" where
  "qb_clear b = b\<lparr>qb_by_tenant := Map.empty\<rparr>"

interpretation qb: tenant_ring "\<lambda>b. nat (qb_max b)" "\<lambda>b. get_list (qb_by_tenant b)"
  "\<lambda>e. Some (qe_tenant_id e)" qb_push qb_recent
  by unfold_locales
     (simp_all only: qb_push_def qb_recent_def Let_def trim_keep_last rev_py_drop, simp_all)

section \<open>SlowCallQueue\<close>

datatype defer_reason = DEADLINE_EXCEEDED | TRANSIENT_ERROR | EXPLICIT_DEFER

record deferred_call =
  dc_id :: string
  dc_tenant_id :: string
  dc_operation :: string
  dc_reason :: defer_reason
  dc_detail :: string
  dc_payload :: dict
  dc_deferred_at :: time
  dc_elapsed_ms :: rat
  dc_context :: dict

record slow_call_queue =
  sq_max :: int
  sq_by_tenant :: "string \<rightharpoonup> deferred_call list"

definition sq_new :: "int \<Rightarrow> ring_error + slow_call_queue" where
  "sq_new m = (if m \<le> 0 then Inl RingValueError else Inr \<lparr>sq_max = m, sq_by_tenant = Map.empty\<rparr>)"

definition sq_push :: "deferred_call \<Rightarrow> slow_call_queue \<Rightarrow> slow_call_queue" where
  \<comment> \<open>the part of \<open>defer\<close> that runs under the lock\<close>
  "sq_push entry q =
     (let buf = get_list (sq_by_tenant q) (dc_tenant_id entry) @ [entry];
          buf' = (if sq_max q < int (length buf)
                  then drop (nat (int (length buf) - sq_max q)) buf else buf)
      in q\<lparr>sq_by_tenant := (sq_by_tenant q)(dc_tenant_id entry \<mapsto> buf')\<rparr>)"

definition sq_defer :: "string \<Rightarrow> string \<Rightarrow> defer_reason \<Rightarrow> string \<Rightarrow> dict \<Rightarrow> rat \<Rightarrow> dict \<Rightarrow>
    world \<Rightarrow> slow_call_queue \<Rightarrow> (ring_error, deferred_call, world \<times> slow_call_queue) outcome" where
  "sq_defer tenant_id operation reason detail payload elapsed_ms context w q =
     (if tenant_id = [] then (Inl RingValueError, (w, q))
      else
        let (u, w1) = uuid4 w;
            (t, w2) = now w1;
            entry = \<lparr>dc_id = ''def_'' @ take 24 u, dc_tenant_id = tenant_id,
                     dc_operation = operation, dc_reason = reason, dc_detail = detail,
                     dc_payload = payload, dc_deferred_at = t, dc_elapsed_ms = elapsed_ms,
                     dc_context = context\<rparr>
        in (Inr entry, (w2, sq_push entry q)))"

definition sq_pending :: "string \<Rightarrow> int \<Rightarrow> slow_call_queue \<Rightarrow> deferred_call list" where
  "sq_pending tenant_id limit q =
     (if limit \<le> 0 then [] else rev (py_drop (- limit) (get_list (sq_by_tenant q) tenant_id)))"

definition sq_drain :: "string \<Rightarrow> int \<Rightarrow> slow_call_queue \<Rightarrow> deferred_call list \<times> slow_call_queue" where
  "sq_drain tenant_id limit q =
     (if limit \<le> 0 then ([], q)
      else
        let buf = get_list (sq_by_tenant q) tenant_id
        in (py_take limit buf,
            q\<lparr>sq_by_tenant := (sq_by_tenant q)(tenant_id \<mapsto> py_drop limit buf)\<rparr>))"

definition sq_count :: "string \<Rightarrow> slow_call_queue \<Rightarrow> nat" where
  "sq_count tenant_id q = length (get_list (sq_by_tenant q) tenant_id)"

definition sq_clear :: "slow_call_queue \<Rightarrow> slow_call_queue" where
  "sq_clear q = q\<lparr>sq_by_tenant := Map.empty\<rparr>"

interpretation sq: tenant_ring "\<lambda>q. nat (sq_max q)" "\<lambda>q. get_list (sq_by_tenant q)"
  "\<lambda>e. Some (dc_tenant_id e)" sq_push sq_pending
  by unfold_locales
     (simp_all only: sq_push_def sq_pending_def Let_def trim_keep_last rev_py_drop, simp_all)

section \<open>What the operations promise\<close>

text \<open>A sequence of \<open>quarantine\<close> calls; the entries returned, in order.\<close>

datatype quarantine_call = Quarantine string quarantine_reason string dict dict

fun qb_calls :: "quarantine_call list \<Rightarrow> world \<Rightarrow> quarantine_buffer \<Rightarrow>
    quarantined_event list \<times> quarantine_buffer" where
  "qb_calls [] w b = ([], b)"
| "qb_calls (Quarantine t reason detail payload context # cs) w b =
     (case qb_quarantine t reason detail payload context w b of
        (Inl e, (w', b')) \<Rightarrow> qb_calls cs w' b'
      | (Inr entry, (w', b')) \<Rightarrow>
          let (es, b'') = qb_calls cs w' b' in (entry # es, b''))"

lemma qb_calls_pushes: "snd (qb_calls cs w b) = qb.adds (fst (qb_calls cs w b)) b"
proof (induction cs arbitrary: w b)
  case (Cons c cs)
  then show ?case
    by (cases c) (auto simp: qb_quarantine_def case_prod_beta Let_def split: if_splits)
qed simp

lemma qb_new_max: "qb_new m = Inr b \<Longrightarrow> 0 < m \<and> b = \<lparr>qb_max = m, qb_by_tenant = Map.empty\<rparr>"
  by (auto simp: qb_new_def split: if_splits)

text \<open>
  After any sequence of quarantine calls on a new buffer of any size, whoever made them,
  the triage view of a tenant is the list of the entries returned to that tenant, newest
  first, cut to the limit and to the buffer's size; with a limit that is not positive it
  is empty.
\<close>

theorem quarantine_newest_first:
  assumes "qb_new m = Inr b"
  shows "qb_recent t limit (snd (qb_calls cs w b)) =
    take (min (nat limit) (nat m))
      (rev (filter (\<lambda>e. qe_tenant_id e = t) (fst (qb_calls cs w b))))"
proof (cases "0 < limit")
  case True
  then obtain n where n: "limit = int n" "0 < n" by (metis zero_less_imp_eq_int)
  have "get_list (qb_by_tenant b) t = []" using qb_new_max [OF assms] by simp
  from qb.recent_adds [OF n(2) this, of "fst (qb_calls cs w b)"] qb_new_max [OF assms] n
  show ?thesis by (simp add: qb_calls_pushes)
qed (simp add: qb_recent_def)

theorem quarantine_newest_first_witness:
  "map qe_detail (qb_recent ''a'' 5 (snd (qb_calls
      [Quarantine ''a'' OTHER ''one'' [] [], Quarantine ''b'' OTHER ''noise'' [] [],
       Quarantine ''a'' OTHER ''two'' [] [], Quarantine [] OTHER ''bad'' [] [],
       Quarantine ''a'' VALIDATION_FAILED ''three'' [] []]
      \<lparr>uuid_of = (\<lambda>n. ''u''), uuids_drawn = 0, time_of = int, clock_reads = 0\<rparr>
      \<lparr>qb_max = 2, qb_by_tenant = Map.empty\<rparr>))) = [''three'', ''two'']"
proof -
  have new: "qb_new 2 = Inr \<lparr>qb_max = 2, qb_by_tenant = Map.empty\<rparr>" by (simp add: qb_new_def)
  show ?thesis
    unfolding quarantine_newest_first [OF new]
    by (simp add: qb_quarantine_def uuid4_def now_def Let_def)
qed

text \<open>
  Draining the deferred calls of a tenant is first in, first out: whatever limits the
  reconciler uses, the batches it receives, concatenated and followed by what is still
  queued, are the queue before; each positive limit yields the oldest entries, as many as
  the limit allows; and no other tenant's queue changes.
\<close>

fun sq_drains :: "string \<Rightarrow> int list \<Rightarrow> slow_call_queue \<Rightarrow> deferred_call list list \<times> slow_call_queue" where
  "sq_drains t [] q = ([], q)"
| "sq_drains t (n # ns) q =
     (let (batch, q1) = sq_drain t n q; (batches, q2) = sq_drains t ns q1
      in (batch # batches, q2))"

lemma sq_drain_rows:
  "fst (sq_drain t n q) @ get_list (sq_by_tenant (snd (sq_drain t n q))) t = get_list (sq_by_tenant q) t"
  "s \<noteq> t \<Longrightarrow> get_list (sq_by_tenant (snd (sq_drain t n q))) s = get_list (sq_by_tenant q) s"
  "length (fst (sq_drain t n q)) = min (nat n) (sq_count t q)"
  by (auto simp: sq_drain_def py_take_def py_drop_def sq_count_def Let_def)

lemma sq_drain_count: "sq_count t (snd (sq_drain t n q)) = sq_count t q - nat n"
  by (auto simp: sq_count_def sq_drain_def py_drop_def Let_def)

theorem drain_is_fifo:
  "concat (fst (sq_drains t ns q)) @ get_list (sq_by_tenant (snd (sq_drains t ns q))) t =
     get_list (sq_by_tenant q) t \<and>
   length (concat (fst (sq_drains t ns q))) = min (sum_list (map nat ns)) (sq_count t q) \<and>
   get_list (sq_by_tenant (snd (sq_drains t ns q))) =
     (get_list (sq_by_tenant q))(t := drop (sum_list (map nat ns)) (get_list (sq_by_tenant q) t))"
proof (induction ns arbitrary: q)
  case (Cons n ns)
  let ?q1 = "snd (sq_drain t n q)"
  note ih = Cons.IH [of ?q1]
  have rest: "get_list (sq_by_tenant ?q1) t = drop (nat n) (get_list (sq_by_tenant q) t)"
    by (auto simp: sq_drain_def py_drop_def Let_def)
  have others: "(get_list (sq_by_tenant ?q1))(t := xs) = (get_list (sq_by_tenant q))(t := xs)" for xs
    using sq_drain_rows(2) [of _ t n q] by (auto simp: fun_eq_iff)
  have "fst (sq_drain t n q) @ concat (fst (sq_drains t ns ?q1)) @
      get_list (sq_by_tenant (snd (sq_drains t ns ?q1))) t = get_list (sq_by_tenant q) t"
    using conjunct1 [OF ih] sq_drain_rows(1) [of t n q] by (metis append.assoc)
  moreover have "min (nat n) (sq_count t q) + min (sum_list (map nat ns)) (sq_count t q - nat n) =
      min (nat n + sum_list (map nat ns)) (sq_count t q)" by simp
  ultimately show ?case
    using ih sq_drain_rows(3) [of t n q]
    by (simp add: case_prod_beta sq_drain_count rest others add.commute del: fun_upd_apply)
qed simp

text \<open>
  A defect: \<open>ProposalsBuffer.recent\<close> with limit 0 returns the whole buffer, because
  \<open>buf[-0:]\<close> is \<open>buf\<close>; the sibling buffers return nothing.
\<close>

theorem proposals_recent_zero_is_everything:
  "pb_recent t 0 (fold pb_append ps (pb_new m)) =
     take (nat m) (rev (filter (\<lambda>p. pr_tenant_id p = t) ps)) \<and>
   (\<forall>b q r. reb_recent t 0 b = [] \<and> qb_recent t 0 q = [] \<and> sq_pending t 0 r = [])"
proof -
  have "get_list (pb_by_tenant (fold pb_append ps (pb_new m))) t =
      keep_last (nat m) (filter (\<lambda>p. pr_tenant_id p = t) ps)"
    using pb.rows_adds [of "pb_new m" t ps] by (simp add: pb_new_def)
  then show ?thesis
    by (auto simp: pb_recent_def py_drop_def take_rev_keep_last reb_recent_def qb_recent_def
        sq_pending_def py_take_def split: option.split)
qed

end
