(* ===== verification/Timeouts.thy ===== *)
theory Timeouts
  imports Ring_Buffers
begin

text \<open>
  \<open>context_engine/timeouts.py\<close> and the timeout-and-queue wrapper of
  \<open>context_engine/slow_call_queue.py\<close>.  The worker pool and the clock are the environment:
  what \<open>Future.result(timeout)\<close> does is a value of \<open>wait_outcome\<close>, and the two readings of
  \<open>perf_counter\<close> give an elapsed time in milliseconds.
\<close>

section \<open>with_deadline\<close>

datatype 'a wait_outcome =
    Finished 'a
  | Crashed py_exn  \<comment> \<open>the callable raised, and \<open>result\<close> re-raises\<close>
  | StillRunning    \<comment> \<open>\<open>result\<close> raises \<open>TimeoutError\<close> itself\<close>

text \<open>
  The \<open>except FutureTimeoutError\<close> clause: from Python 3.11 (\<open>requires-python\<close>) on,
  \<open>concurrent.futures.TimeoutError\<close> is the builtin \<open>TimeoutError\<close>, so the clause catches a
  \<open>TimeoutError\<close> (or the subclass defined here) that the callable raised itself as well.
\<close>

definition is_timeout_error :: "py_exn \<Rightarrow> bool" where
  "is_timeout_error e =
     (case e of Exn name message \<Rightarrow> name = ''TimeoutError'' \<or> name = ''DeadlineExceeded'')"

definition is_deadline_exceeded :: "py_exn \<Rightarrow> bool" where
  "is_deadline_exceeded e = (case e of Exn name message \<Rightarrow> name = ''DeadlineExceeded'')"

record 'a deadline_result =
  dr_value :: 'a
  dr_degraded :: bool
  dr_elapsed_ms :: rat
  dr_error :: "py_exn option"
  dr_operation :: string

datatype deadline_error = DeadlineValueError

text \<open>\<open>fmt\<close> is the message with the elapsed time formatted to one decimal.\<close>

definition with_deadline :: "'a wait_outcome \<Rightarrow> rat \<Rightarrow> int \<Rightarrow> 'a \<Rightarrow> string \<Rightarrow>
    (string \<Rightarrow> int \<Rightarrow> rat \<Rightarrow> string) \<Rightarrow> deadline_error + 'a deadline_result" where
  "with_deadline outcome elapsed timeout_ms fallback operation fmt =
     (if timeout_ms \<le> 0 then Inl DeadlineValueError
      else
        let deadline_exc = Exn ''DeadlineExceeded'' (fmt operation timeout_ms elapsed);
            degraded = (\<lambda>e. \<lparr>dr_value = fallback, dr_degraded = True, dr_elapsed_ms = elapsed,
                            dr_error = Some e, dr_operation = operation\<rparr>)
        in case outcome of
             StillRunning \<Rightarrow> Inr (degraded deadline_exc)
           | Crashed e \<Rightarrow>
               if is_timeout_error e then Inr (degraded deadline_exc) else Inr (degraded e)
           | Finished v \<Rightarrow>
               Inr \<lparr>dr_value = v, dr_degraded = False, dr_elapsed_ms = elapsed,
                    dr_error = None, dr_operation = operation\<rparr>)"

section \<open>with_deadline_and_defer\<close>

definition exn_text :: "py_exn \<Rightarrow> string" where
  "exn_text e = (case e of Exn name message \<Rightarrow> name @ '': '' @ message)"

definition with_deadline_and_defer :: "'a wait_outcome \<Rightarrow> rat \<Rightarrow> int \<Rightarrow> 'a \<Rightarrow> string \<Rightarrow>
    (string \<Rightarrow> int \<Rightarrow> rat \<Rightarrow> string) \<Rightarrow> string \<Rightarrow> dict \<Rightarrow> dict \<Rightarrow> world \<Rightarrow> slow_call_queue \<Rightarrow>
    (deadline_error, 'a deadline_result, world \<times> slow_call_queue) outcome" where
  "with_deadline_and_defer outcome elapsed timeout_ms fallback operation fmt tenant_id
       defer_payload defer_context w q =
     (case with_deadline outcome elapsed timeout_ms fallback operation fmt of
        Inl e \<Rightarrow> (Inl e, (w, q))
      | Inr result \<Rightarrow>
          if \<not> dr_degraded result then (Inr result, (w, q))
          else
            let reason = (case dr_error result of
                    None \<Rightarrow> TRANSIENT_ERROR
                  | Some e \<Rightarrow> if is_deadline_exceeded e then DEADLINE_EXCEEDED
                              else TRANSIENT_ERROR);
                detail = (case dr_error result of
                    None \<Rightarrow> operation @ '' returned degraded result without explicit error''
                  | Some e \<Rightarrow> exn_text e);
                (r, wq) = sq_defer tenant_id operation reason detail defer_payload
                            (dr_elapsed_ms result) defer_context w q
            in (Inr result, wq))"

section \<open>What they promise\<close>

text \<open>
  The guarded call never raises under a positive deadline.  Its value is the callable's
  exactly when the callable finished in time, and the fallback otherwise; the tenant's defer
  queue then gets one record of the operation with its payload, as its last entry, and is
  untouched when the call succeeded; the queues of other tenants never change.
\<close>

theorem defer_exactly_when_degraded:
  assumes "0 < timeout_ms" and "t \<noteq> []" and "0 < sq_max q"
  shows "\<exists>result w' q'.
    with_deadline_and_defer outcome elapsed timeout_ms fallback operation fmt t payload ctx w q =
      (Inr result, (w', q')) \<and>
    (dr_degraded result \<longleftrightarrow> (\<forall>v. outcome \<noteq> Finished v)) \<and>
    dr_value result = (case outcome of Finished v \<Rightarrow> v | _ \<Rightarrow> fallback) \<and>
    (if dr_degraded result
     then \<exists>d. get_list (sq_by_tenant q') t =
                keep_last (nat (sq_max q)) (get_list (sq_by_tenant q) t @ [d]) \<and>
              d \<in> set (get_list (sq_by_tenant q') t) \<and>
              dc_operation d = operation \<and> dc_payload d = payload
     else q' = q) \<and>
    (\<forall>s. s \<noteq> t \<longrightarrow> get_list (sq_by_tenant q') s = get_list (sq_by_tenant q) s)"
proof -
  have push: "get_list (sq_by_tenant (sq_push d q)) s =
      (if s = dc_tenant_id d then keep_last (nat (sq_max q)) (get_list (sq_by_tenant q) s @ [d])
       else get_list (sq_by_tenant q) s)" for d s
    using sq.rows_add [of d q s] by auto
  have last: "d \<in> set (keep_last (nat (sq_max q)) (xs @ [d]))" for d and xs :: "deferred_call list"
    using assms(3) by (simp add: keep_last_def)
  show ?thesis
    using assms(1,2)
    by (cases outcome)
       (auto simp: with_deadline_and_defer_def with_deadline_def sq_defer_def Let_def
         case_prod_beta push last)
qed

theorem defer_exactly_when_degraded_witness:
  "\<exists>result w' q'.
    with_deadline_and_defer StillRunning 251 250 (0::int) ''load'' (\<lambda>op n e. op) ''acme'' [] []
      \<lparr>uuid_of = (\<lambda>n. ''u''), uuids_drawn = 0, time_of = int, clock_reads = 0\<rparr>
      \<lparr>sq_max = 2, sq_by_tenant = Map.empty\<rparr> = (Inr result, (w', q')) \<and> dr_value result = 0"
  using defer_exactly_when_degraded [of 250 "''acme''" "\<lparr>sq_max = 2, sq_by_tenant = Map.empty\<rparr>"
      "StillRunning :: int wait_outcome" 251 0 "''load''" "\<lambda>op n e. op" "[]" "[]"
      "\<lparr>uuid_of = (\<lambda>n. ''u''), uuids_drawn = 0, time_of = int, clock_reads = 0\<rparr>"]
  by fastforce

text \<open>
  A defect: a callable that raises a \<open>TimeoutError\<close> of its own (a driver's socket timeout,
  say) is indistinguishable from a call that was cut off: the original exception is
  discarded for a \<open>DeadlineExceeded\<close>, whatever time elapsed, and the deferral is filed as
  deadline_exceeded, against the documented contract that \<open>error\<close> is the original exception.
\<close>

theorem own_timeout_reported_as_deadline:
  assumes "0 < timeout_ms"
  shows "with_deadline (Crashed (Exn ''TimeoutError'' message)) elapsed timeout_ms fallback operation fmt
       = with_deadline StillRunning elapsed timeout_ms fallback operation fmt \<and>
    with_deadline_and_defer (Crashed (Exn ''TimeoutError'' message)) elapsed timeout_ms fallback
        operation fmt t payload ctx w q =
      with_deadline_and_defer StillRunning elapsed timeout_ms fallback operation fmt t payload ctx w q \<and>
    (\<exists>result. with_deadline (Crashed (Exn ''TimeoutError'' message)) elapsed timeout_ms fallback
        operation fmt = Inr result \<and> dr_error result \<noteq> Some (Exn ''TimeoutError'' message))"
  using assms
  by (simp add: with_deadline_def with_deadline_and_defer_def is_timeout_error_def Let_def)

theorem own_timeout_reported_as_deadline_witness:
  "with_deadline (Crashed (Exn ''TimeoutError'' ''socket'')) 3 250 (0::int) ''op'' (\<lambda>op n e. op) =
   with_deadline StillRunning 3 250 0 ''op'' (\<lambda>op n e. op)"
  by (rule own_timeout_reported_as_deadline [THEN conjunct1]) simp

end
