(* ===== verification/Customers.thy ===== *)
theory Customers
  imports Contracts Py_Text
begin

text \<open>
  \<open>contracts/customers.py\<close> and \<open>context_engine/customer_repository.py\<close>: customers, their
  identities, and the index from (tenant, kind, value) to the owning customer, which is the
  join oracle of the linker.  What the linker relies on is the locale
  \<open>customer_repository\<close>; the in-memory repository is its interpretation.
\<close>

section \<open>The contract shapes\<close>

datatype identity_kind = EMAIL_ID | PHONE_ID | EXTERNAL_ID | CHAT_HANDLE_ID

record customer =
  cu_id :: string
  cu_tenant_id :: string
  cu_display_name :: "string option"
  cu_created_at :: time
  cu_updated_at :: time
  cu_metadata :: dict

definition customer_valid :: "customer \<Rightarrow> bool" where
  "customer_valid c \<longleftrightarrow>
     len_within 1 64 (cu_id c) \<and> len_within 1 64 (cu_tenant_id c) \<and> opt_max 128 (cu_display_name c)"

record customer_identity =
  ci_id :: string
  ci_tenant_id :: string
  ci_customer_id :: string
  ci_identity_kind :: identity_kind
  ci_identity_value :: string
  ci_created_at :: time

text \<open>The validator \<open>_normalize_value\<close>; \<open>None\<close> is its ValueError.\<close>

definition normalize_value :: "identity_kind \<Rightarrow> string \<Rightarrow> string option" where
  "normalize_value kind v =
     (let s = py_strip v
      in if s = [] then None
         else Some (if kind = EMAIL_ID \<or> kind = CHAT_HANDLE_ID then py_lower s else s))"

text \<open>\<open>CustomerIdentity(...)\<close>: the field bounds are checked on the value as given.\<close>

definition make_identity :: "string \<Rightarrow> string \<Rightarrow> string \<Rightarrow> identity_kind \<Rightarrow> string \<Rightarrow> time \<Rightarrow>
    customer_identity option" where
  "make_identity i tenant customer kind v t =
     (if len_within 1 64 i \<and> len_within 1 64 tenant \<and> len_within 1 64 customer \<and>
         len_within 1 256 v
      then map_option (\<lambda>n. \<lparr>ci_id = i, ci_tenant_id = tenant, ci_customer_id = customer,
             ci_identity_kind = kind, ci_identity_value = n, ci_created_at = t\<rparr>)
             (normalize_value kind v)
      else None)"

section \<open>The in-memory repository\<close>

datatype repo_error =
    IdentityCollision
  | CustomerKeyError string   \<comment> \<open>the messages are read by the HTTP layer\<close>
  | CustomerValidationError
  | LinkLookupError string
  | StoreError py_exn         \<comment> \<open>whatever else a store raises\<close>

record customer_repo =
  cr_customers :: "(string \<times> string) \<rightharpoonup> customer"
  cr_identities :: "((string \<times> string) \<times> customer_identity) list"
  cr_identity_index :: "(string \<times> identity_kind \<times> string) \<rightharpoonup> string"
  cr_world :: world

definition cr_new :: "world \<Rightarrow> customer_repo" where
  "cr_new w = \<lparr>cr_customers = Map.empty, cr_identities = [], cr_identity_index = Map.empty,
               cr_world = w\<rparr>"

definition ident_index_value :: "identity_kind \<Rightarrow> string \<Rightarrow> string" where
  "ident_index_value kind value =
     (let v = py_strip value
      in if kind = EMAIL_ID \<or> kind = CHAT_HANDLE_ID then py_lower v else v)"

definition cr_get_customer :: "string \<Rightarrow> string \<Rightarrow> customer_repo \<Rightarrow> customer option" where
  "cr_get_customer tenant customer r = cr_customers r (tenant, customer)"

definition cr_find_by_identity :: "string \<Rightarrow> identity_kind \<Rightarrow> string \<Rightarrow> customer_repo \<Rightarrow>
    customer option" where
  "cr_find_by_identity tenant kind v r =
     (case cr_identity_index r (tenant, kind, v) of
        None \<Rightarrow> None
      | Some cid \<Rightarrow> cr_customers r (tenant, cid))"

definition cr_list_identities :: "string \<Rightarrow> string \<Rightarrow> customer_repo \<Rightarrow> customer_identity list" where
  "cr_list_identities tenant customer r =
     map snd (filter (\<lambda>((t, i), ident). t = tenant \<and> ci_customer_id ident = customer)
                (cr_identities r))"

definition cr_insert_identity :: "string \<Rightarrow> string \<Rightarrow> identity_kind \<Rightarrow> string \<Rightarrow> customer_repo \<Rightarrow>
    (repo_error, customer_identity, customer_repo) outcome" where
  "cr_insert_identity tenant customer kind v r =
     (let (u, w1) = uuid4 (cr_world r);
          (t, w2) = now w1;
          r' = r\<lparr>cr_world := w2\<rparr>
      in case make_identity (''idn_'' @ take 24 u) tenant customer kind v t of
           None \<Rightarrow> (Inl CustomerValidationError, r')
         | Some ident \<Rightarrow>
             (Inr ident,
              r'\<lparr>cr_identities := AList.update (tenant, ci_id ident) ident (cr_identities r'),
                 cr_identity_index := (cr_identity_index r')
                   ((tenant, ci_identity_kind ident, ci_identity_value ident) \<mapsto> customer)\<rparr>))"

fun cr_insert_all :: "string \<Rightarrow> string \<Rightarrow> (identity_kind \<times> string) list \<Rightarrow> customer_repo \<Rightarrow>
    (repo_error, unit, customer_repo) outcome" where
  "cr_insert_all tenant customer [] r = (Inr (), r)"
| "cr_insert_all tenant customer ((kind, v) # rest) r =
     andThen (cr_insert_identity tenant customer kind v r)
       (\<lambda>_ r'. cr_insert_all tenant customer rest r')"

definition cr_create_customer :: "string \<Rightarrow> (identity_kind \<times> string) list \<Rightarrow> string option \<Rightarrow>
    customer_repo \<Rightarrow> (repo_error, customer, customer_repo) outcome" where
  "cr_create_customer tenant identities display_name r =
     (if \<exists>(kind, v) \<in> set identities.
           cr_identity_index r (tenant, kind, ident_index_value kind v) \<noteq> None
      then (Inl IdentityCollision, r)
      else
        let (u, w1) = uuid4 (cr_world r);
            (created, w2) = now w1;
            (updated, w3) = now w2;
            c = \<lparr>cu_id = ''cust_'' @ take 24 u, cu_tenant_id = tenant,
                 cu_display_name = display_name, cu_created_at = created,
                 cu_updated_at = updated, cu_metadata = []\<rparr>;
            r1 = r\<lparr>cr_world := w3\<rparr>
        in if \<not> customer_valid c then (Inl CustomerValidationError, r1)
           else andThen
             (cr_insert_all tenant (cu_id c) identities
                (r1\<lparr>cr_customers := (cr_customers r1)((tenant, cu_id c) \<mapsto> c)\<rparr>))
             (\<lambda>_ r2. (Inr c, r2)))"

definition cr_add_identity :: "string \<Rightarrow> string \<Rightarrow> identity_kind \<Rightarrow> string \<Rightarrow> customer_repo \<Rightarrow>
    (repo_error, customer_identity, customer_repo) outcome" where
  "cr_add_identity tenant customer kind v r =
     (let normalized = ident_index_value kind v;
          insert_new =
            (if cr_customers r (tenant, customer) = None then
               (Inl (CustomerKeyError (''customer '' @ py_repr_str customer @
                  '' not found in tenant '' @ py_repr_str tenant)), r)
             else cr_insert_identity tenant customer kind v r)
      in case cr_identity_index r (tenant, kind, normalized) of
           None \<Rightarrow> insert_new
         | Some existing_cid \<Rightarrow>
             if existing_cid \<noteq> customer then (Inl IdentityCollision, r)
             else case find (\<lambda>((t, i), ident). t = tenant \<and> ci_customer_id ident = customer \<and>
                               ci_identity_kind ident = kind \<and>
                               ci_identity_value ident = normalized) (cr_identities r) of
               Some (key, ident) \<Rightarrow> (Inr ident, r)
             | None \<Rightarrow> insert_new)"

definition cr_clear :: "customer_repo \<Rightarrow> customer_repo" where
  "cr_clear r = r\<lparr>cr_customers := Map.empty, cr_identities := [], cr_identity_index := Map.empty\<rparr>"

section \<open>The contract\<close>

text \<open>
  \<open>owner\<close> is the UNIQUE oracle: which customer of the tenant holds the identity.  Ownership
  is never revoked and never moves, whether an operation returns or raises.
\<close>

definition identity_ok :: "identity_kind \<Rightarrow> string \<Rightarrow> bool" where
  "identity_ok kind v \<longleftrightarrow> len_within 1 256 v \<and> py_strip v \<noteq> []"

text \<open>
  A read may raise, and a write may raise after it has written.  \<open>customer_repository\<close> is what the
  linker needs for safety; \<open>total_customer_repository\<close> adds when the operations return.
\<close>

locale customer_repository =
  fixes inv :: "'r \<Rightarrow> bool"
    and owner :: "'r \<Rightarrow> string \<Rightarrow> identity_kind \<Rightarrow> string \<Rightarrow> string option"
    and get :: "string \<Rightarrow> string \<Rightarrow> 'r \<Rightarrow> repo_error + customer option"
    and lookup :: "string \<Rightarrow> identity_kind \<Rightarrow> string \<Rightarrow> 'r \<Rightarrow> repo_error + customer option"
    and create :: "string \<Rightarrow> (identity_kind \<times> string) list \<Rightarrow> string option \<Rightarrow> 'r \<Rightarrow>
          (repo_error, customer, 'r) outcome"
    and add :: "string \<Rightarrow> string \<Rightarrow> identity_kind \<Rightarrow> string \<Rightarrow> 'r \<Rightarrow>
          (repo_error, customer_identity, 'r) outcome"
  assumes inv_create: "inv r \<Longrightarrow> opt_max 128 name \<Longrightarrow> inv (snd (create t ids name r))"
    and inv_add: "inv r \<Longrightarrow> inv (snd (add t c k v r))"
    and owner_create: "inv r \<Longrightarrow> owner r s k v = Some c \<Longrightarrow>
          owner (snd (create t ids name r)) s k v = Some c"
    and owner_add: "inv r \<Longrightarrow> owner r s k v = Some c \<Longrightarrow> owner (snd (add t d k' v' r)) s k v = Some c"
    and lookup_owner: "inv r \<Longrightarrow> ident_index_value k v = v \<Longrightarrow> lookup t k v r = Inr found \<Longrightarrow>
          map_option cu_id found = owner r t k v"
    and lookup_get: "inv r \<Longrightarrow> lookup t k v r = Inr (Some x) \<Longrightarrow> get t (cu_id x) r = Inr (Some x)"
    and get_id: "inv r \<Longrightarrow> get t c r = Inr (Some x) \<Longrightarrow> cu_id x = c"
    and get_add: "inv r \<Longrightarrow> get s c r = Inr (Some x) \<Longrightarrow>
          \<exists>y. get s c (snd (add t d k v r)) = Inr (Some y)"
    and add_owner: "inv r \<Longrightarrow> fst (add t c k v r) = Inr y \<Longrightarrow>
          owner (snd (add t c k v r)) t k (ident_index_value k v) = Some c"
    and create_owner: "inv r \<Longrightarrow> fst (create t ids name r) = Inr x \<Longrightarrow> (k, v) \<in> set ids \<Longrightarrow>
          owner (snd (create t ids name r)) t k (ident_index_value k v) = Some (cu_id x)"
    and create_get: "inv r \<Longrightarrow> fst (create t ids name r) = Inr x \<Longrightarrow>
          get t (cu_id x) (snd (create t ids name r)) = Inr (Some x)"

locale total_customer_repository = customer_repository +
  assumes get_returns: "\<exists>found. get t c r = Inr found"
    and lookup_returns: "\<exists>found. lookup t k v r = Inr found"
    and add_returns: "inv r \<Longrightarrow> get t c r = Inr (Some x) \<Longrightarrow> identity_ok k v \<Longrightarrow> len_within 1 64 t \<Longrightarrow>
          owner r t k (ident_index_value k v) \<in> {None, Some c} \<Longrightarrow> returned (add t c k v r)"
    and create_returns: "inv r \<Longrightarrow> len_within 1 64 t \<Longrightarrow> opt_max 128 name \<Longrightarrow>
          \<forall>(k, v) \<in> set ids. identity_ok k v \<and> owner r t k (ident_index_value k v) = None \<Longrightarrow>
          returned (create t ids name r)"
    and owner_add_frame: "inv r \<Longrightarrow> owner (snd (add t c k v r)) s k' v' = owner r s k' v' \<or>
          s = t \<and> k' = k \<and> v' = ident_index_value k v"
    and create_collides: "inv r \<Longrightarrow> (k, v) \<in> set ids \<Longrightarrow> owner r t k (ident_index_value k v) \<noteq> None \<Longrightarrow>
          create t ids name r = (Inl IdentityCollision, r)"

section \<open>The in-memory repository satisfies it\<close>

definition cr_owner :: "customer_repo \<Rightarrow> string \<Rightarrow> identity_kind \<Rightarrow> string \<Rightarrow> string option" where
  "cr_owner r t k v = cr_identity_index r (t, k, v)"

definition cr_inv :: "customer_repo \<Rightarrow> bool" where
  "cr_inv r \<longleftrightarrow>
     (\<forall>t c x. cr_customers r (t, c) = Some x \<longrightarrow>
        cu_id x = c \<and> cu_tenant_id x = t \<and> customer_valid x) \<and>
     (\<forall>t k v c. cr_owner r t k v = Some c \<longrightarrow> cr_customers r (t, c) \<noteq> None) \<and>
     (\<forall>(key, i) \<in> set (cr_identities r).
        key = (ci_tenant_id i, ci_id i) \<and>
        cr_owner r (ci_tenant_id i) (ci_identity_kind i) (ci_identity_value i) =
          Some (ci_customer_id i))"

lemma cr_inv_new [simp]: "cr_inv (cr_new w)"
  by (simp add: cr_inv_def cr_new_def cr_owner_def)

lemma cr_inv_clear [simp]: "cr_inv (cr_clear r)"
  by (simp add: cr_inv_def cr_clear_def cr_owner_def)

lemma normalize_value_index: "normalize_value k v = Some n \<Longrightarrow> n = ident_index_value k v"
  by (auto simp: normalize_value_def ident_index_value_def Let_def split: if_splits)

lemma make_identity_Some:
  "make_identity i t c k v s = Some x \<Longrightarrow>
   ci_id x = i \<and> ci_tenant_id x = t \<and> ci_customer_id x = c \<and> ci_identity_kind x = k \<and>
   ci_identity_value x = ident_index_value k v"
  by (auto simp: make_identity_def dest: normalize_value_index split: if_splits)

lemma set_AList_update: "set (AList.update k v xs) \<subseteq> insert (k, v) (set xs)"
  by (induction xs) auto

text \<open>Inserting one identity: what it writes, whether it raises or not.\<close>

lemma cr_insert_identity_effect:
  assumes inv: "cr_inv r" and c: "cr_customers r (t, c) \<noteq> None"
    and free: "cr_owner r t k (ident_index_value k v) \<in> {None, Some c}"
  shows "cr_inv (snd (cr_insert_identity t c k v r)) \<and>
    cr_customers (snd (cr_insert_identity t c k v r)) = cr_customers r \<and>
    (\<forall>s k' v'. cr_owner (snd (cr_insert_identity t c k v r)) s k' v' =
       (if returned (cr_insert_identity t c k v r) \<and> (s, k', v') = (t, k, ident_index_value k v)
        then Some c else cr_owner r s k' v'))"
proof -
  let ?u = "fst (uuid4 (cr_world r))" and ?w1 = "snd (uuid4 (cr_world r))"
  let ?t = "fst (now ?w1)"
  show ?thesis
  proof (cases "make_identity (''idn_'' @ take 24 ?u) t c k v ?t")
    case None
    with inv show ?thesis
      by (simp add: cr_insert_identity_def case_prod_beta Let_def cr_inv_def cr_owner_def)
  next
    case (Some x)
    note x = make_identity_Some [OF Some]
    let ?r = "snd (cr_insert_identity t c k v r)"
    have rows: "set (cr_identities ?r) \<subseteq> insert ((t, ci_id x), x) (set (cr_identities r))"
      and custs: "cr_customers ?r = cr_customers r"
      and owner: "cr_owner ?r s k' v' =
        (if (s, k', v') = (t, k, ident_index_value k v) then Some c else cr_owner r s k' v')"
      and ret: "returned (cr_insert_identity t c k v r)" for s k' v'
      using Some x set_AList_update [of "(t, ci_id x)" x "cr_identities r"]
      by (auto simp: cr_insert_identity_def case_prod_beta Let_def cr_owner_def)
    have keep: "cr_owner r s k' v' = Some d \<Longrightarrow> cr_owner ?r s k' v' = Some d" for s k' v' d
      using free owner by auto
    have "cr_inv ?r"
      unfolding cr_inv_def
    proof (intro conjI)
      show "\<forall>s d y. cr_customers ?r (s, d) = Some y \<longrightarrow>
          cu_id y = d \<and> cu_tenant_id y = s \<and> customer_valid y"
        using inv custs by (simp add: cr_inv_def)
      show "\<forall>s k' v' d. cr_owner ?r s k' v' = Some d \<longrightarrow> cr_customers ?r (s, d) \<noteq> None"
        using inv custs owner c by (auto simp: cr_inv_def)
      show "\<forall>(key, i) \<in> set (cr_identities ?r). key = (ci_tenant_id i, ci_id i) \<and>
          cr_owner ?r (ci_tenant_id i) (ci_identity_kind i) (ci_identity_value i) =
            Some (ci_customer_id i)"
      proof (clarify, intro conjI)
        fix a b i
        assume "((a, b), i) \<in> set (cr_identities ?r)"
        with rows have "((a, b), i) = ((t, ci_id x), x) \<or> ((a, b), i) \<in> set (cr_identities r)" by auto
        then have "(a, b) = (ci_tenant_id i, ci_id i) \<and>
          cr_owner ?r (ci_tenant_id i) (ci_identity_kind i) (ci_identity_value i) =
            Some (ci_customer_id i)"
        proof
          assume "((a, b), i) = ((t, ci_id x), x)"
          with x owner show ?thesis by simp
        next
          assume "((a, b), i) \<in> set (cr_identities r)"
          then have "(a, b) = (ci_tenant_id i, ci_id i) \<and>
            cr_owner r (ci_tenant_id i) (ci_identity_kind i) (ci_identity_value i) =
              Some (ci_customer_id i)"
            using inv unfolding cr_inv_def by blast
          with keep show ?thesis by blast
        qed
        then show "(a, b) = (ci_tenant_id i, ci_id i)"
          and "cr_owner ?r (ci_tenant_id i) (ci_identity_kind i) (ci_identity_value i) =
            Some (ci_customer_id i)" by auto
      qed
    qed
    with custs owner ret show ?thesis by simp
  qed
qed

lemma cr_insert_identity_returns:
  assumes "identity_ok k v" "len_within 1 64 t" "len_within 1 64 c"
  shows "returned (cr_insert_identity t c k v r)"
  using assms
  by (auto simp: cr_insert_identity_def case_prod_beta Let_def make_identity_def identity_ok_def
      normalize_value_def split: option.split)

lemma cr_insert_identity_frame:
  "cr_owner (snd (cr_insert_identity t c k v r)) s k' v' = cr_owner r s k' v' \<or>
   s = t \<and> k' = k \<and> v' = ident_index_value k v"
  by (auto simp: cr_insert_identity_def case_prod_beta Let_def cr_owner_def
      dest: make_identity_Some split: option.split)

lemma cr_insert_all_effect:
  assumes "cr_inv r" "cr_customers r (t, c) \<noteq> None"
    and "\<forall>(k, v) \<in> set ids. cr_owner r t k (ident_index_value k v) \<in> {None, Some c}"
  shows "cr_inv (snd (cr_insert_all t c ids r)) \<and>
    cr_customers (snd (cr_insert_all t c ids r)) = cr_customers r \<and>
    (\<forall>s k v d. cr_owner r s k v = Some d \<longrightarrow> cr_owner (snd (cr_insert_all t c ids r)) s k v = Some d) \<and>
    (returned (cr_insert_all t c ids r) \<longrightarrow>
      (\<forall>(k, v) \<in> set ids.
         cr_owner (snd (cr_insert_all t c ids r)) t k (ident_index_value k v) = Some c)) \<and>
    (len_within 1 64 t \<longrightarrow> len_within 1 64 c \<longrightarrow> (\<forall>(k, v) \<in> set ids. identity_ok k v) \<longrightarrow>
      returned (cr_insert_all t c ids r))"
  using assms
proof (induction ids arbitrary: r)
  case (Cons kv ids)
  obtain k v where kv: "kv = (k, v)" by (cases kv)
  let ?r = "snd (cr_insert_identity t c k v r)"
  have free: "cr_owner r t k (ident_index_value k v) \<in> {None, Some c}" using Cons.prems(3) kv by auto
  note one = cr_insert_identity_effect [OF Cons.prems(1,2) free]
  show ?case
  proof (cases "fst (cr_insert_identity t c k v r)")
    case (Inl e)
    then have step: "cr_insert_all t c (kv # ids) r = (Inl e, ?r)"
      by (cases "cr_insert_identity t c k v r") (simp add: kv)
    have "\<not> (identity_ok k v \<and> len_within 1 64 t \<and> len_within 1 64 c)"
      using cr_insert_identity_returns [of k v t c r] Inl by auto
    with one Inl show ?thesis unfolding step by (auto simp: kv)
  next
    case (Inr x)
    then have step: "cr_insert_all t c (kv # ids) r = cr_insert_all t c ids ?r"
      by (cases "cr_insert_identity t c k v r") (simp add: kv)
    have "\<forall>(k', v') \<in> set ids. cr_owner ?r t k' (ident_index_value k' v') \<in> {None, Some c}"
      using Cons.prems(3) one by auto
    from Cons.IH [OF _ _ this] one Cons.prems(2)
    have ih: "cr_inv (snd (cr_insert_all t c ids ?r)) \<and>
      cr_customers (snd (cr_insert_all t c ids ?r)) = cr_customers r \<and>
      (\<forall>s k v d. cr_owner ?r s k v = Some d \<longrightarrow> cr_owner (snd (cr_insert_all t c ids ?r)) s k v = Some d) \<and>
      (returned (cr_insert_all t c ids ?r) \<longrightarrow>
        (\<forall>(k, v) \<in> set ids.
           cr_owner (snd (cr_insert_all t c ids ?r)) t k (ident_index_value k v) = Some c)) \<and>
      (len_within 1 64 t \<longrightarrow> len_within 1 64 c \<longrightarrow> (\<forall>(k, v) \<in> set ids. identity_ok k v) \<longrightarrow>
        returned (cr_insert_all t c ids ?r))" by auto
    have own: "cr_owner ?r t k (ident_index_value k v) = Some c"
      and mono: "cr_owner r s k' v' = Some d \<Longrightarrow> cr_owner ?r s k' v' = Some d" for s k' v' d
      using one Inr free by auto
    show ?thesis unfolding step using ih own mono kv by auto
  qed
qed auto

lemma cr_insert_new_effect:
  assumes "cr_inv r" "cr_customers r = (cr_customers r0)((t, cu_id d) \<mapsto> d)"
    and "\<forall>(k, v) \<in> set ids. cr_owner r t k (ident_index_value k v) = None"
  shows "cr_inv (snd (cr_insert_all t (cu_id d) ids r))"
    and "cr_customers (snd (cr_insert_all t (cu_id d) ids r)) = cr_customers r"
    and "cr_owner r s k v = Some c \<Longrightarrow>
      cr_owner (snd (cr_insert_all t (cu_id d) ids r)) s k v = Some c"
    and "returned (cr_insert_all t (cu_id d) ids r) \<Longrightarrow> (k, v) \<in> set ids \<Longrightarrow>
      cr_owner (snd (cr_insert_all t (cu_id d) ids r)) t k (ident_index_value k v) = Some (cu_id d)"
    and "len_within 1 64 t \<Longrightarrow> len_within 1 64 (cu_id d) \<Longrightarrow> \<forall>(k, v) \<in> set ids. identity_ok k v \<Longrightarrow>
      returned (cr_insert_all t (cu_id d) ids r)"
proof -
  have free: "\<forall>(k, v) \<in> set ids. cr_owner r t k (ident_index_value k v) \<in> {None, Some (cu_id d)}"
    using assms(3) by auto
  have here: "cr_customers r (t, cu_id d) \<noteq> None" by (simp add: assms(2))
  note all = cr_insert_all_effect [OF assms(1) here free]
  show "cr_inv (snd (cr_insert_all t (cu_id d) ids r))"
    and "cr_customers (snd (cr_insert_all t (cu_id d) ids r)) = cr_customers r"
    and "cr_owner r s k v = Some c \<Longrightarrow>
      cr_owner (snd (cr_insert_all t (cu_id d) ids r)) s k v = Some c"
    and "returned (cr_insert_all t (cu_id d) ids r) \<Longrightarrow> (k, v) \<in> set ids \<Longrightarrow>
      cr_owner (snd (cr_insert_all t (cu_id d) ids r)) t k (ident_index_value k v) = Some (cu_id d)"
    and "len_within 1 64 t \<Longrightarrow> len_within 1 64 (cu_id d) \<Longrightarrow> \<forall>(k, v) \<in> set ids. identity_ok k v \<Longrightarrow>
      returned (cr_insert_all t (cu_id d) ids r)"
    using all by blast+
qed

lemma cr_create_cases:
  assumes inv: "cr_inv r"
  obtains (error) e r' where "cr_create_customer t ids name r = (Inl e, r')" "cr_inv r'"
      "cr_owner r' = cr_owner r" "cr_customers r' = cr_customers r"
      "\<not> (\<forall>(k, v) \<in> set ids. cr_owner r t k (ident_index_value k v) = None) \<or>
       \<not> len_within 1 64 t \<or> \<not> opt_max 128 name"
  | (inserted) c r1 where "cr_inv r1" "cr_owner r1 = cr_owner r"
      "cr_customers r1 = (cr_customers r)((t, cu_id c) \<mapsto> c)" "len_within 1 64 t"
      "len_within 1 64 (cu_id c)"
      "\<forall>(k, v) \<in> set ids. cr_owner r1 t k (ident_index_value k v) = None"
      "cr_create_customer t ids name r =
         andThen (cr_insert_all t (cu_id c) ids r1) (\<lambda>_ r2. (Inr c, r2))"
proof -
  let ?taken = "\<exists>(k, v) \<in> set ids. cr_identity_index r (t, k, ident_index_value k v) \<noteq> None"
  let ?u = "fst (uuid4 (cr_world r))" and ?w1 = "snd (uuid4 (cr_world r))"
  let ?w3 = "snd (now (snd (now ?w1)))"
  let ?c = "\<lparr>cu_id = ''cust_'' @ take 24 ?u, cu_tenant_id = t, cu_display_name = name,
     cu_created_at = fst (now ?w1), cu_updated_at = fst (now (snd (now ?w1))), cu_metadata = []\<rparr>"
  let ?r = "r\<lparr>cr_world := ?w3\<rparr>"
  have inv': "cr_inv ?r" using inv by (simp add: cr_inv_def cr_owner_def)
  show thesis
  proof (cases "?taken \<or> \<not> customer_valid ?c")
    case bad: True
    show thesis
    proof (cases ?taken)
      case True
      then obtain k v where "(k, v) \<in> set ids" "cr_owner r t k (ident_index_value k v) \<noteq> None"
        by (auto simp: cr_owner_def)
      then have "\<not> (\<forall>(k, v) \<in> set ids. cr_owner r t k (ident_index_value k v) = None)" by (auto intro: bexI [of _ "(k, v)"])
      with True inv show thesis
        by (intro error [of IdentityCollision r]) (simp_all add: cr_create_customer_def)
    next
      case False
      with bad have "\<not> len_within 1 64 t \<or> \<not> opt_max 128 name"
        by (auto simp: customer_valid_def)
      with False bad inv' show thesis
        by (intro error [of CustomerValidationError ?r])
           (auto simp: cr_create_customer_def case_prod_beta Let_def cr_owner_def fun_eq_iff)
    qed
  next
    case ok: False
    let ?r1 = "?r\<lparr>cr_customers := (cr_customers r)((t, cu_id ?c) \<mapsto> ?c)\<rparr>"
    have "cr_inv ?r1"
      using inv ok by (auto simp: cr_inv_def cr_owner_def)
    then show thesis
      by (rule inserted [of ?r1 ?c])
         (use ok in \<open>auto simp: cr_create_customer_def case_prod_beta Let_def cr_owner_def
            customer_valid_def fun_eq_iff\<close>)
  qed
qed

lemma cr_add_cases:
  assumes inv: "cr_inv r"
  obtains (error) e where "cr_add_identity t c k v r = (Inl e, r)"
      "cr_owner r t k (ident_index_value k v) \<notin> {None, Some c} \<or> cr_customers r (t, c) = None"
  | (existing) i where "cr_add_identity t c k v r = (Inr i, r)"
      "cr_owner r t k (ident_index_value k v) = Some c"
  | (inserted) "cr_customers r (t, c) \<noteq> None"
      "cr_owner r t k (ident_index_value k v) \<in> {None, Some c}"
      "cr_add_identity t c k v r = cr_insert_identity t c k v r"
proof (cases "cr_owner r t k (ident_index_value k v)")
  case None
  then show thesis
    by (cases "cr_customers r (t, c)")
       (auto simp: cr_add_identity_def Let_def cr_owner_def intro: error inserted)
next
  case (Some d)
  let ?find = "find (\<lambda>((s, i), ident). s = t \<and> ci_customer_id ident = c \<and>
      ci_identity_kind ident = k \<and> ci_identity_value ident = ident_index_value k v)
      (cr_identities r)"
  show thesis
  proof (cases "d = c")
    case False
    with Some show thesis
      by (intro error [of IdentityCollision]) (auto simp: cr_add_identity_def Let_def cr_owner_def)
  next
    case True
    show thesis
    proof (cases ?find)
      case None
      have cust: "cr_customers r (t, c) \<noteq> None" using inv Some True by (auto simp: cr_inv_def)
      then show thesis
        by (rule inserted)
           (use None Some True cust in \<open>auto simp: cr_add_identity_def Let_def cr_owner_def\<close>)
    next
      case (Some x)
      then show thesis
        by (intro existing [of "snd x"])
           (use \<open>cr_owner r t k (ident_index_value k v) = Some d\<close> True in
             \<open>auto simp: cr_add_identity_def Let_def cr_owner_def split: prod.splits\<close>)
    qed
  qed
qed

lemma andThen_unit: "fst (andThen q (\<lambda>_ r. (Inr c, r))) = Inr x \<longleftrightarrow> returned q \<and> x = c"
  "snd (andThen q (\<lambda>_ r. (Inr c, r))) = snd q"
  by (cases q; cases "fst q"; auto)+

lemma len_within_id: "cr_inv r \<Longrightarrow> cr_customers r (t, c) \<noteq> None \<Longrightarrow> len_within 1 64 c"
  by (auto simp: cr_inv_def customer_valid_def)

lemma indexed_customer:
  assumes "cr_inv r" "cr_identity_index r (t, k, v) = Some c"
  shows "\<exists>y. cr_customers r (t, c) = Some y \<and> cu_id y = c"
proof -
  obtain y where "cr_customers r (t, c) = Some y"
    using assms unfolding cr_inv_def cr_owner_def by blast
  moreover have "cu_id y = c" using assms(1) calculation unfolding cr_inv_def by blast
  ultimately show ?thesis by blast
qed

text \<open>The reads of this repository never raise.\<close>

abbreviation cr_get :: "string \<Rightarrow> string \<Rightarrow> customer_repo \<Rightarrow> repo_error + customer option" where
  "cr_get \<equiv> \<lambda>t c r. Inr (cr_get_customer t c r)"

abbreviation cr_find :: "string \<Rightarrow> identity_kind \<Rightarrow> string \<Rightarrow> customer_repo \<Rightarrow> repo_error + customer option" where
  "cr_find \<equiv> \<lambda>t k v r. Inr (cr_find_by_identity t k v r)"

lemma cr_inv_create: "cr_inv r \<Longrightarrow> cr_inv (snd (cr_create_customer t ids name r))"
proof -
  assume inv: "cr_inv r"
  show ?thesis
  proof (cases rule: cr_create_cases [OF inv, of t ids name, case_names error inserted])
    case (inserted c r1)
    then show ?thesis using cr_insert_new_effect [OF inserted(1,3,6)] inserted
      by (auto simp: andThen_unit)
  qed auto
qed

lemma cr_lookup_owner: "cr_inv r \<Longrightarrow> map_option cu_id (cr_find_by_identity t k v r) = cr_owner r t k v"
  using indexed_customer by (fastforce simp: cr_find_by_identity_def cr_owner_def split: option.split)

interpretation cr: total_customer_repository cr_inv cr_owner cr_get cr_find cr_create_customer
  cr_add_identity
proof unfold_locales
  fix r :: customer_repo and t s c d k k' v v' ids name x y
  assume inv: "cr_inv r"
  show "cr_inv (snd (cr_create_customer t ids name r))" by (rule cr_inv_create [OF inv])
  show "cr_inv (snd (cr_add_identity t c k v r))"
    by (cases rule: cr_add_cases [OF inv, of t c k v])
       (use inv cr_insert_identity_effect [OF inv] in auto)
  show "cr_owner (snd (cr_create_customer t ids name r)) s k v = Some c"
    if "cr_owner r s k v = Some c"
  proof (cases rule: cr_create_cases [OF inv, of t ids name, case_names error inserted])
    case (inserted d r1)
    then show ?thesis using cr_insert_new_effect [OF inserted(1,3,6)] inserted that
      by (auto simp: andThen_unit)
  qed (use that in auto)
  show "cr_owner (snd (cr_add_identity t d k' v' r)) s k v = Some c"
    if "cr_owner r s k v = Some c"
    by (cases rule: cr_add_cases [OF inv, of t d k' v'])
       (use that cr_insert_identity_effect [OF inv, of t d k' v'] in auto)
  show "map_option cu_id found = cr_owner r t k v" if "cr_find t k v r = Inr found" for found
    using that cr_lookup_owner [OF inv] by auto
  show "cr_get t (cu_id x) r = Inr (Some x)" if "cr_find t k v r = Inr (Some x)"
    using that inv by (auto simp: cr_find_by_identity_def cr_get_customer_def cr_inv_def split: option.splits)
  show "cu_id x = c" if "cr_get t c r = Inr (Some x)"
    using that inv by (auto simp: cr_get_customer_def cr_inv_def)
  show "\<exists>y. cr_get s c (snd (cr_add_identity t d k v r)) = Inr (Some y)"
    if "cr_get s c r = Inr (Some x)"
    by (cases rule: cr_add_cases [OF inv, of t d k v])
       (use that cr_insert_identity_effect [OF inv, of t d k v] in \<open>auto simp: cr_get_customer_def\<close>)
  show "cr_owner (snd (cr_add_identity t c k v r)) t k (ident_index_value k v) = Some c"
    if "fst (cr_add_identity t c k v r) = Inr y"
    by (cases rule: cr_add_cases [OF inv, of t c k v])
       (use that cr_insert_identity_effect [OF inv, of t c k v] in auto)
  show "cr_owner (snd (cr_create_customer t ids name r)) t k (ident_index_value k v) = Some (cu_id x)"
    if "fst (cr_create_customer t ids name r) = Inr x" "(k, v) \<in> set ids"
  proof (cases rule: cr_create_cases [OF inv, of t ids name, case_names error inserted])
    case (inserted d r1)
    then show ?thesis using cr_insert_new_effect [OF inserted(1,3,6)] inserted that
      by (auto simp: andThen_unit)
  qed (use that in auto)
  show "cr_get t (cu_id x) (snd (cr_create_customer t ids name r)) = Inr (Some x)"
    if "fst (cr_create_customer t ids name r) = Inr x"
  proof (cases rule: cr_create_cases [OF inv, of t ids name, case_names error inserted])
    case (inserted d r1)
    then show ?thesis using cr_insert_new_effect [OF inserted(1,3,6)] inserted that
      by (auto simp: andThen_unit cr_get_customer_def)
  qed (use that in auto)
  show "returned (cr_add_identity t c k v r)"
    if "cr_get t c r = Inr (Some x)" "identity_ok k v" "len_within 1 64 t"
      "cr_owner r t k (ident_index_value k v) \<in> {None, Some c}"
    by (cases rule: cr_add_cases [OF inv, of t c k v])
       (use that cr_insert_identity_returns len_within_id [OF inv, of t c] in
         \<open>auto simp: cr_get_customer_def\<close>)
  show "returned (cr_create_customer t ids name r)"
    if "len_within 1 64 t" "opt_max 128 name"
      "\<forall>(k, v) \<in> set ids. identity_ok k v \<and> cr_owner r t k (ident_index_value k v) = None"
  proof (cases rule: cr_create_cases [OF inv, of t ids name, case_names error inserted])
    case (error e r')
    with that show ?thesis by auto
  next
    case (inserted d r1)
    have "\<forall>(k, v) \<in> set ids. identity_ok k v" using that(3) by auto
    from cr_insert_new_effect(5) [OF inserted(1,3,6,4,5) this]
    show ?thesis unfolding inserted(7) by (simp add: andThen_unit)
  qed
  show "cr_owner (snd (cr_add_identity t c k v r)) s k' v' = cr_owner r s k' v' \<or>
      s = t \<and> k' = k \<and> v' = ident_index_value k v"
    by (cases rule: cr_add_cases [OF inv, of t c k v]) (simp_all add: cr_insert_identity_frame)
  show "cr_create_customer t ids name r = (Inl IdentityCollision, r)"
    if "(k, v) \<in> set ids" "cr_owner r t k (ident_index_value k v) \<noteq> None"
    using that by (auto simp: cr_create_customer_def cr_owner_def)
qed simp_all

end
