(* ===== verification/Ingestion.thy ===== *)
theory Ingestion
  imports Contracts
begin

text \<open>
  The inbound path of the context engine: the event contract (\<open>contracts/events.py\<close>), the
  in-memory event repository (\<open>context_engine/repository.py\<close>), the in-memory bus
  (\<open>context_engine/event_bus.py\<close>), its listener (\<open>orchestrator/event_listener.py\<close>) and the
  pipeline \<open>ingest_event\<close> (\<open>context_engine/ingestion.py\<close>).  \<open>ingest_event\<close> is a function of
  the repository's and the bus's operations, as in the code; what it needs of a repository
  is the locale \<open>event_repository\<close>.
\<close>

section \<open>The event contract\<close>

datatype channel_type = CHAT | EMAIL | SMS | VOICE | API

fun channel_value :: "channel_type \<Rightarrow> string" where
  "channel_value CHAT = ''chat''"
| "channel_value EMAIL = ''email''"
| "channel_value SMS = ''sms''"
| "channel_value VOICE = ''voice''"
| "channel_value API = ''api''"

datatype event_type =
    MESSAGE_RECEIVED | DOCUMENT_UPLOADED | STATUS_CHANGED | ANOMALY_DETECTED | SYSTEM_EVENT

fun event_type_value :: "event_type \<Rightarrow> string" where
  "event_type_value MESSAGE_RECEIVED = ''message_received''"
| "event_type_value DOCUMENT_UPLOADED = ''document_uploaded''"
| "event_type_value STATUS_CHANGED = ''status_changed''"
| "event_type_value ANOMALY_DETECTED = ''anomaly_detected''"
| "event_type_value SYSTEM_EVENT = ''system_event''"

record event =
  ev_id :: string
  ev_tenant_id :: string
  ev_customer_id :: "string option"
  ev_channel_code :: channel_type
  ev_event_type :: event_type
  ev_idempotency_key :: string
  ev_payload :: dict
  ev_received_at :: time

definition event_valid :: "event \<Rightarrow> bool" where
  "event_valid e \<longleftrightarrow>
     len_within 1 64 (ev_id e) \<and> len_within 1 64 (ev_tenant_id e) \<and>
     opt_max 64 (ev_customer_id e) \<and> len_within 1 128 (ev_idempotency_key e)"

section \<open>The event repository\<close>

record event_repo =
  er_by_id :: "(string \<times> string) \<rightharpoonup> event"
  er_by_idem :: "(string \<times> string) \<rightharpoonup> string"

definition er_new :: event_repo where
  "er_new = \<lparr>er_by_id = Map.empty, er_by_idem = Map.empty\<rparr>"

text \<open>
  \<open>self._by_id[(tenant, existing_event_id)]\<close> raises \<open>KeyError\<close> when the row is missing; the
  invariant shows that it never is.
\<close>

definition er_upsert_event :: "event \<Rightarrow> event_repo \<Rightarrow> (py_exn, event \<times> bool, event_repo) outcome" where
  "er_upsert_event e r =
     (let idem_key = (ev_tenant_id e, ev_idempotency_key e)
      in case er_by_idem r idem_key of
           Some existing_event_id \<Rightarrow>
             (case er_by_id r (ev_tenant_id e, existing_event_id) of
                None \<Rightarrow> (Inl (Exn ''KeyError'' existing_event_id), r)
              | Some stored \<Rightarrow> (Inr (stored, False), r))
         | None \<Rightarrow>
             (Inr (e, True),
              r\<lparr>er_by_id := (er_by_id r)((ev_tenant_id e, ev_id e) \<mapsto> e),
                er_by_idem := (er_by_idem r)(idem_key \<mapsto> ev_id e)\<rparr>))"

definition er_get_event_by_idempotency :: "string \<Rightarrow> string \<Rightarrow> event_repo \<Rightarrow> event option" where
  "er_get_event_by_idempotency tenant key r =
     (case er_by_idem r (tenant, key) of
        None \<Rightarrow> None
      | Some event_id \<Rightarrow> er_by_id r (tenant, event_id))"

definition er_get_event_by_id :: "string \<Rightarrow> string \<Rightarrow> event_repo \<Rightarrow> event option" where
  "er_get_event_by_id tenant event_id r = er_by_id r (tenant, event_id)"

definition er_clear :: "event_repo \<Rightarrow> event_repo" where
  "er_clear r = r\<lparr>er_by_id := Map.empty, er_by_idem := Map.empty\<rparr>"

section \<open>The bus\<close>

text \<open>
  A subscriber is named by its identity; \<open>run\<close> says what each callback does to the
  subscribers' own state and whether it raises.  (A callback that subscribes or publishes
  on the same bus while it runs is outside the model.)
\<close>

record event_bus =
  eb_published :: "(string \<times> dict) list"
  eb_subscribers :: "nat list"

definition eb_new :: event_bus where
  "eb_new = \<lparr>eb_published = [], eb_subscribers = []\<rparr>"

definition channel_for :: "string \<Rightarrow> string" where
  "channel_for tenant_id = ''events.'' @ tenant_id"

definition envelope_for :: "(time \<Rightarrow> string) \<Rightarrow> event \<Rightarrow> dict" where
  "envelope_for isoformat e =
     [(''event_id'', JStr (ev_id e)), (''tenant_id'', JStr (ev_tenant_id e)),
      (''customer_id'', case ev_customer_id e of None \<Rightarrow> JNull | Some c \<Rightarrow> JStr c),
      (''channel_code'', JStr (channel_value (ev_channel_code e))),
      (''event_type'', JStr (event_type_value (ev_event_type e))),
      (''received_at'', JStr (isoformat (ev_received_at e)))]"

type_synonym 's subscriber = "string \<Rightarrow> dict \<Rightarrow> 's \<Rightarrow> (py_exn, unit, 's) outcome"

definition eb_publish :: "(nat \<Rightarrow> 's subscriber) \<Rightarrow> string \<Rightarrow> dict \<Rightarrow> event_bus \<times> 's \<Rightarrow>
    (py_exn, unit, event_bus \<times> 's) outcome" where
  "eb_publish run channel payload bs =
     (case bs of (b, s) \<Rightarrow>
        let b' = b\<lparr>eb_published := eb_published b @ [(channel, payload)]\<rparr>;
            s' = fold (\<lambda>cb s. snd (run cb channel payload s)) (eb_subscribers b') s
        in (Inr (), (b', s')))"

definition eb_subscribe :: "nat \<Rightarrow> event_bus \<Rightarrow> event_bus" where
  "eb_subscribe cb b =
     (if cb \<in> set (eb_subscribers b) then b
      else b\<lparr>eb_subscribers := eb_subscribers b @ [cb]\<rparr>)"

definition eb_unsubscribe :: "nat \<Rightarrow> event_bus \<Rightarrow> event_bus" where
  "eb_unsubscribe cb b = b\<lparr>eb_subscribers := remove1 cb (eb_subscribers b)\<rparr>"

definition eb_clear :: "event_bus \<Rightarrow> event_bus" where
  "eb_clear b = b\<lparr>eb_published := []\<rparr>"

section \<open>The in-process listener\<close>

text \<open>
  \<open>start\<close> registers a fresh adapter once; \<open>stop\<close> removes it.  The adapter's identity is the
  \<open>fresh\<close> argument: every call of \<open>start\<close> that arms the listener makes a new closure.
\<close>

record event_listener =
  el_callback :: "nat option"

definition el_new :: event_listener where
  "el_new = \<lparr>el_callback = None\<rparr>"

definition el_start :: "nat \<Rightarrow> event_listener \<times> event_bus \<Rightarrow> event_listener \<times> event_bus" where
  "el_start fresh lb =
     (case lb of (l, b) \<Rightarrow>
        if el_callback l \<noteq> None then (l, b)
        else (l\<lparr>el_callback := Some fresh\<rparr>, eb_subscribe fresh b))"

definition el_stop :: "event_listener \<times> event_bus \<Rightarrow> event_listener \<times> event_bus" where
  "el_stop lb =
     (case lb of (l, b) \<Rightarrow>
        case el_callback l of
          None \<Rightarrow> (l, b)
        | Some cb \<Rightarrow> (l\<lparr>el_callback := None\<rparr>, eb_unsubscribe cb b))"

section \<open>Ingestion\<close>

record ingestion_request =
  ir_tenant_id :: string
  ir_customer_id :: "string option"
  ir_channel_code :: channel_type
  ir_event_type :: event_type
  ir_idempotency_key :: "string option"
  ir_payload :: dict

definition ingestion_request_valid :: "ingestion_request \<Rightarrow> bool" where
  "ingestion_request_valid r \<longleftrightarrow>
     len_within 1 64 (ir_tenant_id r) \<and> opt_max 64 (ir_customer_id r) \<and>
     (case ir_idempotency_key r of None \<Rightarrow> True | Some k \<Rightarrow> len_within 1 128 k)"

definition new_event_id :: "world \<Rightarrow> string \<times> world" where
  "new_event_id w = (let (u, w') = uuid4 w in (''evt_'' @ take 24 u, w'))"

definition build_event_from_request :: "ingestion_request \<Rightarrow> string \<Rightarrow> string option \<Rightarrow> world \<Rightarrow>
    (py_exn, event, world) outcome" where
  "build_event_from_request request idempotency_key customer_id w =
     (let (i, w1) = new_event_id w;
          (t, w2) = now w1;
          e = \<lparr>ev_id = i, ev_tenant_id = ir_tenant_id request,
               ev_customer_id = (case customer_id of None \<Rightarrow> ir_customer_id request
                                 | Some c \<Rightarrow> Some c),
               ev_channel_code = ir_channel_code request,
               ev_event_type = ir_event_type request,
               ev_idempotency_key = idempotency_key, ev_payload = ir_payload request,
               ev_received_at = t\<rparr>
      in if event_valid e then (Inr e, w2) else (Inl (Exn ''ValidationError'' ''Event''), w2))"

definition ingest_event :: "(event \<Rightarrow> 'r \<Rightarrow> (py_exn, event \<times> bool, 'r) outcome) \<Rightarrow>
    (string \<Rightarrow> dict \<Rightarrow> 'b \<Rightarrow> (py_exn, unit, 'b) outcome) \<Rightarrow> (time \<Rightarrow> string) \<Rightarrow> event \<Rightarrow>
    'r \<times> 'b \<Rightarrow> (py_exn, event \<times> bool, 'r \<times> 'b) outcome" where
  "ingest_event upsert publish isoformat e rb =
     (case rb of (r, b) \<Rightarrow>
        case upsert e r of
          (Inl exn, r') \<Rightarrow> (Inl exn, (r', b))
        | (Inr (stored, created), r') \<Rightarrow>
            if created then
              (case publish (channel_for (ev_tenant_id stored)) (envelope_for isoformat stored) b of
                 (Inl exn, b') \<Rightarrow> (Inl exn, (r', b'))
               | (Inr u, b') \<Rightarrow> (Inr (stored, created), (r', b')))
            else (Inr (stored, created), (r', b)))"

section \<open>The contract of an event repository\<close>

definition ev_key :: "event \<Rightarrow> string \<times> string" where
  "ev_key e = (ev_tenant_id e, ev_idempotency_key e)"

text \<open>
  \<open>stored\<close> is the event a key leads to.  \<open>fresh\<close> says that an event can be stored as far as the rest
  of it goes, and stays so while no event it clashes with is stored.
\<close>

locale event_repository =
  fixes inv :: "'r \<Rightarrow> bool"
    and stored :: "'r \<Rightarrow> string \<times> string \<Rightarrow> event option"
    and fresh :: "event \<Rightarrow> 'r \<Rightarrow> bool"
    and clash :: "event \<Rightarrow> event \<Rightarrow> bool"
    and upsert :: "event \<Rightarrow> 'r \<Rightarrow> (py_exn, event \<times> bool, 'r) outcome"
  assumes upsert_replay: "inv r \<Longrightarrow> stored r (ev_key e) = Some s \<Longrightarrow> fresh e r \<Longrightarrow>
        upsert e r = (Inr (s, False), r)"
    and upsert_insert: "inv r \<Longrightarrow> stored r (ev_key e) = None \<Longrightarrow> fresh e r \<Longrightarrow>
        \<exists>r'. upsert e r = (Inr (e, True), r') \<and> inv r' \<and> stored r' = (stored r)(ev_key e \<mapsto> e) \<and>
          (\<forall>x. fresh x r \<and> \<not> clash e x \<longrightarrow> fresh x r')"

text \<open>Ingesting a list of events, one after the other.\<close>

fun ingest_all :: "(event \<Rightarrow> 'r \<Rightarrow> (py_exn, event \<times> bool, 'r) outcome) \<Rightarrow>
    (string \<Rightarrow> dict \<Rightarrow> 'b \<Rightarrow> (py_exn, unit, 'b) outcome) \<Rightarrow> (time \<Rightarrow> string) \<Rightarrow> event list \<Rightarrow>
    'r \<times> 'b \<Rightarrow> (py_exn + event \<times> bool) list \<times> ('r \<times> 'b)" where
  "ingest_all upsert publish isoformat [] rb = ([], rb)"
| "ingest_all upsert publish isoformat (e # es) rb =
     (let (res, rb1) = ingest_event upsert publish isoformat e rb;
          (ress, rb2) = ingest_all upsert publish isoformat es rb1
      in (res # ress, rb2))"

text \<open>The abstract answer: the first event with the key, and whether it is this one.\<close>

fun replies :: "(string \<times> string \<rightharpoonup> event) \<Rightarrow> event list \<Rightarrow> (event \<times> bool) list" where
  "replies seen [] = []"
| "replies seen (e # es) =
     (case seen (ev_key e) of
        Some s \<Rightarrow> (s, False) # replies seen es
      | None \<Rightarrow> (e, True) # replies (seen(ev_key e \<mapsto> e)) es)"

definition announcement :: "(time \<Rightarrow> string) \<Rightarrow> event \<Rightarrow> string \<times> dict" where
  "announcement isoformat e = (channel_for (ev_tenant_id e), envelope_for isoformat e)"

locale ingestion = event_repository +
  fixes publish :: "string \<Rightarrow> dict \<Rightarrow> 'b \<Rightarrow> (py_exn, unit, 'b) outcome"
    and log :: "'b \<Rightarrow> (string \<times> dict) list"
  assumes publish_logs: "\<exists>b'. publish c d b = (Inr (), b') \<and> log b' = log b @ [(c, d)]"
begin

lemma ingest_all_replies:
  assumes "inv r" "sorted_wrt (\<lambda>a b. \<not> clash a b) es" "\<forall>e \<in> set es. fresh e r"
  shows "\<exists>r' b'. ingest_all upsert publish isoformat es (r, b) =
      (map Inr (replies (stored r) es), (r', b')) \<and> inv r' \<and>
    b' = fold (\<lambda>(c, d) b. snd (publish c d b)) (map (announcement isoformat)
      (map fst (filter snd (replies (stored r) es)))) b \<and>
    log b' = log b @ map (announcement isoformat) (map fst (filter snd (replies (stored r) es))) \<and>
    stored r' = (\<lambda>k. case stored r k of None \<Rightarrow> find (\<lambda>x. ev_key x = k) es | Some s \<Rightarrow> Some s)"
  using assms
proof (induction es arbitrary: r b)
  case (Cons e es)
  have fresh: "fresh e r" using Cons.prems(3) by simp
  show ?case
  proof (cases "stored r (ev_key e)")
    case (Some s)
    then have "(\<lambda>k. case stored r k of None \<Rightarrow> find (\<lambda>x. ev_key x = k) (e # es) | Some s \<Rightarrow> Some s) =
        (\<lambda>k. case stored r k of None \<Rightarrow> find (\<lambda>x. ev_key x = k) es | Some s \<Rightarrow> Some s)"
      by (auto simp: fun_eq_iff split: option.split)
    with Cons.IH [OF Cons.prems(1), of b] Cons.prems(2,3) Some show ?thesis
      by (auto simp: ingest_event_def upsert_replay [OF Cons.prems(1) Some fresh] simp del: find.simps)
  next
    case None
    from upsert_insert [OF Cons.prems(1) None fresh] obtain r1 where
      r1: "upsert e r = (Inr (e, True), r1)" "inv r1" "stored r1 = (stored r)(ev_key e \<mapsto> e)"
        "\<And>x. fresh x r \<Longrightarrow> \<not> clash e x \<Longrightarrow> fresh x r1"
      by blast
    obtain b1 where b1: "publish (channel_for (ev_tenant_id e)) (envelope_for isoformat e) b =
        (Inr (), b1)" "log b1 = log b @ [announcement isoformat e]"
      using publish_logs unfolding announcement_def by blast
    have "\<forall>x \<in> set es. fresh x r1" using Cons.prems(2,3) r1(4) by auto
    moreover have "(\<lambda>k. case stored r k of None \<Rightarrow> find (\<lambda>x. ev_key x = k) (e # es) | Some s \<Rightarrow> Some s) =
        (\<lambda>k. case stored r1 k of None \<Rightarrow> find (\<lambda>x. ev_key x = k) es | Some s \<Rightarrow> Some s)"
      using None r1(3) by (auto simp: fun_eq_iff split: option.split)
    ultimately show ?thesis
      using Cons.IH [OF r1(2), of b1] Cons.prems(2) None r1(1,3) b1
      by (auto simp: ingest_event_def announcement_def simp del: fun_upd_apply find.simps)
  qed
qed (auto simp: fun_eq_iff split: option.split)

end

section \<open>The in-memory repository and bus\<close>

definition er_inv :: "event_repo \<Rightarrow> bool" where
  "er_inv r \<longleftrightarrow>
     (\<forall>t k i. er_by_idem r (t, k) = Some i \<longrightarrow>
        (case er_by_id r (t, i) of
           None \<Rightarrow> False
         | Some e \<Rightarrow> ev_tenant_id e = t \<and> ev_idempotency_key e = k \<and> ev_id e = i))"

lemma er_inv_new [simp]: "er_inv er_new"
  by (simp add: er_inv_def er_new_def)

lemma er_invD:
  "er_inv r \<Longrightarrow> er_by_idem r (t, k) = Some i \<Longrightarrow>
   \<exists>e. er_by_id r (t, i) = Some e \<and> ev_tenant_id e = t \<and> ev_idempotency_key e = k \<and> ev_id e = i"
  unfolding er_inv_def by (fastforce split: option.splits)

lemma er_inv_insert:
  assumes inv: "er_inv r" and new: "er_by_id r (ev_tenant_id e, ev_id e) = None"
  shows "er_inv (r\<lparr>er_by_id := (er_by_id r)((ev_tenant_id e, ev_id e) \<mapsto> e),
     er_by_idem := (er_by_idem r)((ev_tenant_id e, ev_idempotency_key e) \<mapsto> ev_id e)\<rparr>)"
  unfolding er_inv_def
proof (intro allI impI)
  fix t k i
  let ?r = "r\<lparr>er_by_id := (er_by_id r)((ev_tenant_id e, ev_id e) \<mapsto> e),
     er_by_idem := (er_by_idem r)((ev_tenant_id e, ev_idempotency_key e) \<mapsto> ev_id e)\<rparr>"
  assume hit: "er_by_idem ?r (t, k) = Some i"
  show "case er_by_id ?r (t, i) of None \<Rightarrow> False
    | Some e \<Rightarrow> ev_tenant_id e = t \<and> ev_idempotency_key e = k \<and> ev_id e = i"
  proof (cases "(t, k) = (ev_tenant_id e, ev_idempotency_key e)")
    case True
    with hit show ?thesis by simp
  next
    case False
    with hit have "er_by_idem r (t, k) = Some i" by auto
    from er_invD [OF inv this] new show ?thesis by auto
  qed
qed

definition er_stored :: "event_repo \<Rightarrow> string \<times> string \<Rightarrow> event option" where
  "er_stored r key = er_get_event_by_idempotency (fst key) (snd key) r"

definition er_fresh :: "event \<Rightarrow> event_repo \<Rightarrow> bool" where
  "er_fresh e r \<longleftrightarrow> er_get_event_by_id (ev_tenant_id e) (ev_id e) r = None"

definition same_id :: "event \<Rightarrow> event \<Rightarrow> bool" where
  "same_id a b \<longleftrightarrow> (ev_tenant_id a, ev_id a) = (ev_tenant_id b, ev_id b)"

lemma er_insert:
  assumes inv: "er_inv r" and none: "er_stored r (ev_key e) = None" and new: "er_fresh e r"
  shows "\<exists>r'. er_upsert_event e r = (Inr (e, True), r') \<and> er_inv r' \<and>
    er_stored r' = (er_stored r)(ev_key e \<mapsto> e) \<and>
    (\<forall>t i. er_get_event_by_id t i r' =
       (if (t, i) = (ev_tenant_id e, ev_id e) then Some e else er_get_event_by_id t i r))"
proof -
  let ?r = "r\<lparr>er_by_id := (er_by_id r)((ev_tenant_id e, ev_id e) \<mapsto> e),
     er_by_idem := (er_by_idem r)((ev_tenant_id e, ev_idempotency_key e) \<mapsto> ev_id e)\<rparr>"
  have unseen: "er_by_idem r (ev_tenant_id e, ev_idempotency_key e) = None"
    using none er_invD [OF inv]
    by (fastforce simp: er_stored_def ev_key_def er_get_event_by_idempotency_def split: option.splits)
  have id_new: "er_by_id r (ev_tenant_id e, ev_id e) = None"
    using new by (simp add: er_fresh_def er_get_event_by_id_def)
  have "er_upsert_event e r = (Inr (e, True), ?r)"
    by (simp add: er_upsert_event_def unseen Let_def)
  moreover have "er_inv ?r" by (rule er_inv_insert [OF inv id_new])
  moreover have "er_stored ?r key = ((er_stored r)(ev_key e \<mapsto> e)) key" for key
  proof (cases "key = ev_key e")
    case False
    have "i \<noteq> ev_id e \<or> t \<noteq> ev_tenant_id e" if "er_by_idem r (t, k) = Some i" for t k i
      using er_invD [OF inv that] id_new by auto
    with False show ?thesis
      by (cases key) (auto simp: er_stored_def er_get_event_by_idempotency_def ev_key_def split: option.splits)
  qed (auto simp: er_stored_def er_get_event_by_idempotency_def ev_key_def)
  moreover have "er_get_event_by_id t i ?r =
      (if (t, i) = (ev_tenant_id e, ev_id e) then Some e else er_get_event_by_id t i r)" for t i
    by (auto simp: er_get_event_by_id_def)
  ultimately show ?thesis by blast
qed

interpretation er: event_repository er_inv er_stored er_fresh same_id er_upsert_event
proof unfold_locales
  fix r :: event_repo and e s
  assume inv: "er_inv r"
  show "er_stored r (ev_key e) = Some s \<Longrightarrow> er_upsert_event e r = (Inr (s, False), r)"
    by (auto simp: er_stored_def ev_key_def er_get_event_by_idempotency_def er_upsert_event_def
        split: option.splits)
  assume none: "er_stored r (ev_key e) = None" and new: "er_fresh e r"
  show "\<exists>r'. er_upsert_event e r = (Inr (e, True), r') \<and> er_inv r' \<and>
      er_stored r' = (er_stored r)(ev_key e \<mapsto> e) \<and> (\<forall>x. er_fresh x r \<and> \<not> same_id e x \<longrightarrow> er_fresh x r')"
    using er_insert [OF inv none new] by (fastforce simp: er_fresh_def same_id_def)
qed

interpretation ing: ingestion er_inv er_stored er_fresh same_id er_upsert_event
  "eb_publish run" "\<lambda>bs. eb_published (fst bs)" for run :: "nat \<Rightarrow> 's subscriber"
  by unfold_locales (auto simp: eb_publish_def Let_def)

lemma no_clash: "distinct (map (\<lambda>e. (ev_tenant_id e, ev_id e)) es) \<Longrightarrow> sorted_wrt (\<lambda>a b. \<not> same_id a b) es"
  by (induction es) (auto simp: same_id_def image_iff)

lemma er_new_facts: "er_stored er_new = (\<lambda>k. find (\<lambda>x. ev_key x = k) [])" "er_fresh e er_new"
  by (auto simp: er_stored_def er_get_event_by_idempotency_def er_fresh_def er_get_event_by_id_def er_new_def)

section \<open>Exactly-once announcement\<close>

lemma replies_prefix:
  "replies (\<lambda>k. find (\<lambda>x. ev_key x = k) pre) es =
   map (\<lambda>i. (hd (filter (\<lambda>x. ev_key x = ev_key (es ! i)) (pre @ es)),
             \<forall>x \<in> set (pre @ take i es). ev_key x \<noteq> ev_key (es ! i))) [0..<length es]"
proof (induction es arbitrary: pre)
  case (Cons e es)
  let ?f = "\<lambda>p k. find (\<lambda>x. ev_key x = k) p"
  have step: "map (\<lambda>i. (hd (filter (\<lambda>x. ev_key x = ev_key ((e # es) ! i)) (pre @ e # es)),
        \<forall>x \<in> set (pre @ take i (e # es)). ev_key x \<noteq> ev_key ((e # es) ! i))) [0..<length (e # es)] =
      (hd (filter (\<lambda>x. ev_key x = ev_key e) (pre @ e # es)), \<forall>x \<in> set pre. ev_key x \<noteq> ev_key e) #
      replies (?f (pre @ [e])) es"
    unfolding Cons.IH by (simp add: upt_conv_Cons map_Suc_upt [symmetric] del: upt_Suc)
  show ?case
  proof (cases "?f pre (ev_key e)")
    case None
    then have none: "\<forall>x \<in> set pre. ev_key x \<noteq> ev_key e" by (auto simp: find_None_iff)
    then have "filter (\<lambda>x. ev_key x = ev_key e) pre = []" by (auto simp: filter_empty_conv)
    moreover have "?f (pre @ [e]) = (?f pre)(ev_key e \<mapsto> e)"
      using none None by (auto simp: fun_eq_iff find_append split: option.splits)
    ultimately show ?thesis
      using none None by - (rule trans [OF _ step [symmetric]], simp del: fun_upd_apply)
  next
    case (Some s)
    then have "\<not> (\<forall>x \<in> set pre. ev_key x \<noteq> ev_key e)"
      using find_None_iff [of "\<lambda>x. ev_key x = ev_key e" pre] by auto
    moreover have "hd (filter (\<lambda>x. ev_key x = ev_key e) (pre @ e # es)) = s"
      using Some by (induction pre) (auto split: if_splits)
    moreover have "?f (pre @ [e]) = ?f pre"
      using Some by (auto simp: fun_eq_iff find_append split: option.splits)
    then have "replies (?f (pre @ [e])) es = replies (?f pre) es" by (rule arg_cong)
    moreover have "replies (?f pre) (e # es) = (s, False) # replies (?f pre) es"
      using Some by simp
    ultimately show ?thesis
      by - (rule trans [OF _ step [symmetric]], simp only:)
  qed
qed simp

text \<open>
  C29. Ingesting any sequence of events (with the ids the server stamps, so no two of a tenant
  share one) through the in-memory repository and bus never raises, whatever the
  subscribers do.  Each call answers with the first event that carried its tenant and
  idempotency key, marked created exactly when no earlier one did; and the bus announces
  exactly the created events, once each, in order of arrival, on their tenants' channels.
\<close>

theorem ingest_exactly_once:
  assumes "distinct (map (\<lambda>e. (ev_tenant_id e, ev_id e)) es)"
  shows "\<exists>rs r' b' s'. ingest_all er_upsert_event (eb_publish run) isoformat es (er_new, (b, s)) =
      (map Inr rs, (r', (b', s'))) \<and>
    rs = map (\<lambda>i. (hd (filter (\<lambda>x. ev_key x = ev_key (es ! i)) es),
                  \<forall>x \<in> set (take i es). ev_key x \<noteq> ev_key (es ! i))) [0..<length es] \<and>
    eb_published b' = eb_published b @ map (announcement isoformat) (map fst (filter snd rs))"
proof -
  show ?thesis
    using ing.ingest_all_replies [OF er_inv_new no_clash [OF assms], where ?b = "(b, s)" and ?run = run and
      ?isoformat = isoformat] er_new_facts(2)
    unfolding er_new_facts(1) replies_prefix by auto
qed

definition demo_ev :: "string \<Rightarrow> string \<Rightarrow> event" where
  "demo_ev i key = \<lparr>ev_id = i, ev_tenant_id = ''a'', ev_customer_id = None, ev_channel_code = SMS,
     ev_event_type = MESSAGE_RECEIVED, ev_idempotency_key = key, ev_payload = [],
     ev_received_at = 0\<rparr>"

definition demo_bug :: "nat \<Rightarrow> unit subscriber" where
  "demo_bug n c d s = (Inl (Exn ''Bug'' []), s)"

theorem ingest_exactly_once_witness:
  "fst (ingest_all er_upsert_event (eb_publish demo_bug) (\<lambda>t. ''T'')
      [demo_ev ''evt_1'' ''k'', demo_ev ''evt_2'' ''k''] (er_new, (eb_new, ()))) =
    [Inr (demo_ev ''evt_1'' ''k'', True), Inr (demo_ev ''evt_1'' ''k'', False)]"
proof -
  let ?es = "[demo_ev ''evt_1'' ''k'', demo_ev ''evt_2'' ''k'']"
  have "distinct (map (\<lambda>e. (ev_tenant_id e, ev_id e)) ?es)" by (simp add: demo_ev_def)
  from ingest_exactly_once [OF this, of demo_bug "\<lambda>t. ''T''" eb_new "()"]
  obtain rs r' b' s' where
    "ingest_all er_upsert_event (eb_publish demo_bug) (\<lambda>t. ''T'') ?es (er_new, (eb_new, ())) =
       (map Inr rs, (r', (b', s')))"
    and rs: "rs = map (\<lambda>i. (hd (filter (\<lambda>x. ev_key x = ev_key (?es ! i)) ?es),
                  \<forall>x \<in> set (take i ?es). ev_key x \<noteq> ev_key (?es ! i))) [0..<length ?es]"
    by blast
  moreover have "rs = [(demo_ev ''evt_1'' ''k'', True), (demo_ev ''evt_1'' ''k'', False)]"
    unfolding rs by (simp add: upt_rec ev_key_def demo_ev_def)
  ultimately show ?thesis by simp
qed

end
