(* ===== verification/Linking.thy ===== *)
theory Linking
  imports Customers Ingestion
begin

text \<open>
  \<open>context_engine/linking.py\<close>: the identity hints of an event payload and the resolver that
  maps an ingestion request to a customer.  The resolver is a function of the repository's
  operations, as in the code; what it guarantees is proved in the contract
  \<open>customer_repository\<close> and then read off for the in-memory repository.
\<close>

section \<open>Hints\<close>

record identity_hint =
  ih_kind :: identity_kind
  ih_value :: string

definition PAYLOAD_KEY_TO_KIND :: "(string \<times> identity_kind) list" where
  "PAYLOAD_KEY_TO_KIND =
     [(''external_id'', EXTERNAL_ID), (''customer_external_id'', EXTERNAL_ID),
      (''from_email'', EMAIL_ID), (''email'', EMAIL_ID), (''sender_email'', EMAIL_ID),
      (''from_phone'', PHONE_ID), (''phone'', PHONE_ID), (''sender_phone'', PHONE_ID),
      (''chat_handle'', CHAT_HANDLE_ID), (''user_handle'', CHAT_HANDLE_ID),
      (''username'', CHAT_HANDLE_ID)]"

definition LOOKUP_PRIORITY :: "identity_kind list" where
  "LOOKUP_PRIORITY = [EXTERNAL_ID, EMAIL_ID, PHONE_ID, CHAT_HANDLE_ID]"

definition plus :: char where
  "plus = CHR ''+''"

definition normalize_identity_value :: "identity_kind \<Rightarrow> string \<Rightarrow> string" where
  "normalize_identity_value kind raw =
     (let v = py_strip raw
      in if v = [] then v
         else if kind = PHONE_ID then
           (let leading_plus = (hd v = plus);
                kept = filter (\<lambda>c. is_digit c \<or> c = plus) v;
                digits = dropWhile (\<lambda>c. c = plus) kept
            in (if leading_plus then [plus] else []) @ digits)
         else if kind = EMAIL_ID \<or> kind = CHAT_HANDLE_ID then py_lower v
         else v)"

text \<open>The loop of \<open>extract_identity_hints\<close>; \<open>seen\<close> holds the signatures of \<open>hints\<close>.\<close>

fun collect_hints :: "dict \<Rightarrow> (string \<times> identity_kind) list \<Rightarrow> identity_hint list \<Rightarrow>
    identity_hint list" where
  "collect_hints payload [] hints = hints"
| "collect_hints payload ((key, kind) # keys) hints =
     (case dict_get payload key of
        Some (JStr raw) \<Rightarrow>
          let normalized = normalize_identity_value kind raw;
              hint = \<lparr>ih_kind = kind, ih_value = normalized\<rparr>
          in if normalized = [] \<or> hint \<in> set hints then collect_hints payload keys hints
             else collect_hints payload keys (hints @ [hint])
      | _ \<Rightarrow> collect_hints payload keys hints)"

fun priority_index :: "identity_kind \<Rightarrow> nat" where
  "priority_index EXTERNAL_ID = 0"
| "priority_index EMAIL_ID = 1"
| "priority_index PHONE_ID = 2"
| "priority_index CHAT_HANDLE_ID = 3"

definition extract_identity_hints :: "dict \<Rightarrow> identity_hint list" where
  "extract_identity_hints payload =
     sort_key (\<lambda>h. priority_index (ih_kind h)) (collect_hints payload PAYLOAD_KEY_TO_KIND [])"

fun first_name :: "dict \<Rightarrow> string list \<Rightarrow> string option" where
  "first_name payload [] = None"
| "first_name payload (key # keys) =
     (case dict_get payload key of
        Some (JStr raw) \<Rightarrow>
          let v = py_strip raw in if v \<noteq> [] then Some (take 128 v) else first_name payload keys
      | _ \<Rightarrow> first_name payload keys)"

definition extract_display_name :: "dict \<Rightarrow> string option" where
  "extract_display_name payload =
     first_name payload [''display_name'', ''customer_name'', ''from_name'', ''sender_name'']"

section \<open>The resolver\<close>

record linking_outcome =
  lo_customer_id :: string
  lo_customer_created :: bool
  lo_matched_kind :: "identity_kind option"
  lo_matched_value :: "string option"
  lo_identities_added :: "identity_hint list"

type_synonym 'r repo_get = "string \<Rightarrow> string \<Rightarrow> 'r \<Rightarrow> repo_error + customer option"
type_synonym 'r repo_lookup = "string \<Rightarrow> identity_kind \<Rightarrow> string \<Rightarrow> 'r \<Rightarrow> repo_error + customer option"
type_synonym 'r repo_add = "string \<Rightarrow> string \<Rightarrow> identity_kind \<Rightarrow> string \<Rightarrow> 'r \<Rightarrow>
  (repo_error, customer_identity, 'r) outcome"
type_synonym 'r repo_create = "string \<Rightarrow> (identity_kind \<times> string) list \<Rightarrow> string option \<Rightarrow> 'r \<Rightarrow>
  (repo_error, customer, 'r) outcome"

fun attach_new_identities :: "'r repo_lookup \<Rightarrow> 'r repo_add \<Rightarrow> string \<Rightarrow> string \<Rightarrow>
    identity_hint list \<Rightarrow> 'r \<Rightarrow> (repo_error, identity_hint list, 'r) outcome" where
  "attach_new_identities lookup add customer tenant [] r = (Inr [], r)"
| "attach_new_identities lookup add customer tenant (hint # hints) r =
     (case lookup tenant (ih_kind hint) (ih_value hint) r of
        Inl e \<Rightarrow> (Inl e, r)
      | Inr None \<Rightarrow>
          andThen (add tenant customer (ih_kind hint) (ih_value hint) r) (\<lambda>_ r1.
          andThen (attach_new_identities lookup add customer tenant hints r1) (\<lambda>added r2.
            (Inr (hint # added), r2)))
      | Inr (Some existing) \<Rightarrow>
          if cu_id existing \<noteq> customer then (Inl IdentityCollision, r)
          else attach_new_identities lookup add customer tenant hints r)"

text \<open>The two nested loops: the hints of each kind of \<open>LOOKUP_PRIORITY\<close>, in turn.\<close>

definition in_priority :: "identity_hint list \<Rightarrow> identity_hint list" where
  "in_priority hints = concat (map (\<lambda>kind. filter (\<lambda>h. ih_kind h = kind) hints) LOOKUP_PRIORITY)"

fun first_match :: "'r repo_lookup \<Rightarrow> string \<Rightarrow> identity_hint list \<Rightarrow> 'r \<Rightarrow>
    repo_error + (identity_hint \<times> customer) option" where
  "first_match lookup tenant [] r = Inr None"
| "first_match lookup tenant (hint # hints) r =
     (case lookup tenant (ih_kind hint) (ih_value hint) r of
        Inl e \<Rightarrow> Inl e
      | Inr (Some match) \<Rightarrow> Inr (Some (hint, match))
      | Inr None \<Rightarrow> first_match lookup tenant hints r)"

definition link_match :: "'r repo_lookup \<Rightarrow> 'r repo_add \<Rightarrow> string \<Rightarrow> identity_hint list \<Rightarrow>
    identity_hint \<Rightarrow> customer \<Rightarrow> 'r \<Rightarrow> (repo_error, linking_outcome, 'r) outcome" where
  \<comment> \<open>no two hints are equal, so \<open>h is not hint\<close> is \<open>h \<noteq> hint\<close>\<close>
  "link_match lookup add tenant hints hint match r =
     andThen (attach_new_identities lookup add (cu_id match) tenant
                (filter (\<lambda>h. h \<noteq> hint) hints) r) (\<lambda>added r'.
       (Inr \<lparr>lo_customer_id = cu_id match, lo_customer_created = False,
             lo_matched_kind = Some (ih_kind hint), lo_matched_value = Some (ih_value hint),
             lo_identities_added = added\<rparr>, r'))"

definition resolve_customer :: "'r repo_get \<Rightarrow> 'r repo_lookup \<Rightarrow>
    'r repo_create \<Rightarrow> 'r repo_add \<Rightarrow> ingestion_request \<Rightarrow> 'r \<Rightarrow>
    (repo_error, linking_outcome, 'r) outcome" where
  "resolve_customer get lookup create add request r =
     (let tenant = ir_tenant_id request;
          hints = extract_identity_hints (ir_payload request)
      in case ir_customer_id request of
           Some customer_id \<Rightarrow>
             (case get tenant customer_id r of
                Inl e \<Rightarrow> (Inl e, r)
              | Inr None \<Rightarrow> (Inl (LinkLookupError (''request.customer_id='' @ py_repr_str customer_id @
                          '' not found in tenant '' @ py_repr_str tenant)), r)
              | Inr (Some existing) \<Rightarrow>
                  andThen (attach_new_identities lookup add (cu_id existing) tenant hints r)
                    (\<lambda>added r'.
                       (Inr \<lparr>lo_customer_id = cu_id existing, lo_customer_created = False,
                             lo_matched_kind = None, lo_matched_value = None,
                             lo_identities_added = added\<rparr>, r')))
         | None \<Rightarrow>
             (case first_match lookup tenant (in_priority hints) r of
                Inl e \<Rightarrow> (Inl e, r)
              | Inr (Some (hint, match)) \<Rightarrow> link_match lookup add tenant hints hint match r
              | Inr None \<Rightarrow>
                  (case create tenant (map (\<lambda>h. (ih_kind h, ih_value h)) hints)
                          (extract_display_name (ir_payload request)) r of
                     (Inr customer, r') \<Rightarrow>
                       (Inr \<lparr>lo_customer_id = cu_id customer, lo_customer_created = True,
                             lo_matched_kind = None, lo_matched_value = None,
                             lo_identities_added = hints\<rparr>, r')
                   | (Inl IdentityCollision, r') \<Rightarrow>
                       (case first_match lookup tenant (in_priority hints) r' of
                          Inl e \<Rightarrow> (Inl e, r')
                        | Inr (Some (hint, match)) \<Rightarrow> link_match lookup add tenant hints hint match r'
                        | Inr None \<Rightarrow> (Inl IdentityCollision, r'))
                   | (Inl e, r') \<Rightarrow> (Inl e, r'))))"

section \<open>Facts about the hints\<close>

definition hint_normal :: "identity_hint \<Rightarrow> bool" where
  "hint_normal h \<longleftrightarrow> ih_value h \<noteq> [] \<and> ident_index_value (ih_kind h) (ih_value h) = ih_value h"

lemma not_space_phone: "is_digit c \<or> c = plus \<Longrightarrow> \<not> is_space c"
  by (auto simp: is_digit_def is_space_def plus_def)

lemma strip_no_space: "\<forall>c \<in> set s. \<not> is_space c \<Longrightarrow> py_strip s = s"
  by (rule strip_fixed) (cases "s = []"; simp)

lemma set_phone:
  "set (normalize_identity_value PHONE_ID raw) \<subseteq> {c. is_digit c \<or> c = plus}"
proof (cases "py_strip raw = []")
  case False
  then show ?thesis
    by (auto simp: normalize_identity_value_def Let_def dest!: set_dropWhileD)
qed (simp add: normalize_identity_value_def)

lemma normalize_index:
  "ident_index_value k (normalize_identity_value k raw) = normalize_identity_value k raw"
proof (cases "k = PHONE_ID")
  case True
  have "py_strip (normalize_identity_value PHONE_ID raw) = normalize_identity_value PHONE_ID raw"
    using set_phone [of raw] not_space_phone by (intro strip_no_space) blast
  then show ?thesis by (simp add: True ident_index_value_def)
next
  case False
  then show ?thesis
    by (auto simp: normalize_identity_value_def ident_index_value_def Let_def py_strip_lower)
qed

lemma collect_hints_ok:
  assumes "distinct hs" "\<forall>h \<in> set hs. hint_normal h"
  shows "distinct (collect_hints p keys hs) \<and> (\<forall>h \<in> set (collect_hints p keys hs). hint_normal h)"
  using assms
proof (induction p keys hs rule: collect_hints.induct)
  case (2 p key kind keys hs)
  let ?v = "\<lambda>raw. normalize_identity_value kind raw"
  have "hint_normal \<lparr>ih_kind = kind, ih_value = ?v raw\<rparr>" if "?v raw \<noteq> []" for raw
    using that by (simp add: hint_normal_def normalize_index)
  with 2 show ?case by (auto simp: Let_def split: option.split json.split)
qed simp

lemma extracted_hints:
  "distinct (extract_identity_hints p)" "h \<in> set (extract_identity_hints p) \<Longrightarrow> hint_normal h"
  using collect_hints_ok [of "[]" p PAYLOAD_KEY_TO_KIND] by (auto simp: extract_identity_hints_def)

lemma set_in_priority [simp]: "set (in_priority hs) = set hs"
proof -
  have "ih_kind h \<in> set LOOKUP_PRIORITY" for h
    by (cases "ih_kind h") (simp_all add: LOOKUP_PRIORITY_def)
  then show ?thesis by (auto simp: in_priority_def)
qed

text \<open>The hints come sorted, so the walk over the kinds is the walk over the hints.\<close>

lemma in_priority_sorted: "in_priority (extract_identity_hints p) = extract_identity_hints p"
proof -
  let ?f = "\<lambda>h. priority_index (ih_kind h)"
  have kinds: "(k = EXTERNAL_ID) = (priority_index k = 0)" "(k = EMAIL_ID) = (priority_index k = 1)"
    "(k = PHONE_ID) = (priority_index k = 2)" "(k = CHAT_HANDLE_ID) = (priority_index k = 3)" for k
    by (cases k; simp)+
  have "concat (map (\<lambda>i. filter (\<lambda>h. ?f h = i) hs) [0..<4]) = hs" if "sorted (map ?f hs)" for hs
    using that
  proof (induction hs)
    case (Cons h hs)
    have low: "filter (\<lambda>x. ?f x = i) hs = []" if "i < ?f h" for i
      using Cons.prems that by (fastforce simp: filter_empty_conv)
    from Cons low [of 0] low [of "Suc 0"] low [of "Suc (Suc 0)"] show ?case
      by (cases "ih_kind h") (simp_all add: upt_rec numeral_eq_Suc)
  qed (simp add: upt_rec)
  from this [of "extract_identity_hints p"] show ?thesis
    unfolding in_priority_def LOOKUP_PRIORITY_def list.map kinds
    by (simp add: upt_rec extract_identity_hints_def numeral_eq_Suc)
qed

lemma display_name_max: "opt_max 128 (extract_display_name p)"
proof -
  have "opt_max 128 (first_name p keys)" for keys
    by (induction p keys rule: first_name.induct)
       (auto simp: opt_max_def Let_def split: option.split json.split)
  then show ?thesis unfolding extract_display_name_def .
qed

section \<open>What the resolver leaves alone\<close>

text \<open>Whatever every write of the repository keeps, the resolver keeps.\<close>

lemma attach_preserves:
  assumes "\<And>t c k v r. P r \<Longrightarrow> P (snd (add t c k v r))"
  shows "P r \<Longrightarrow> P (snd (attach_new_identities lookup add c t hs r))"
proof (induction hs arbitrary: r)
  case (Cons h hs)
  obtain res r1 where one: "add t c (ih_kind h) (ih_value h) r = (res, r1)" by fastforce
  have "P r1" using assms [OF Cons.prems, of t c "ih_kind h" "ih_value h"] one by simp
  then have "P (snd (attach_new_identities lookup add c t hs r1))" by (rule Cons.IH)
  with one Cons \<open>P r1\<close> show ?case
    by (cases res; cases "attach_new_identities lookup add c t hs r1";
        cases "fst (attach_new_identities lookup add c t hs r1)") (auto split: sum.split option.split)
qed simp

lemma andThen_preserves:
  "P (snd q) \<Longrightarrow> (\<And>a s. P s \<Longrightarrow> P (snd (f a s))) \<Longrightarrow> P (snd (andThen q f))"
  by (cases q; cases "fst q") auto

lemma link_preserves:
  assumes "\<And>t c k v r. P r \<Longrightarrow> P (snd (add t c k v r))"
  shows "P r \<Longrightarrow> P (snd (link_match lookup add t hs h x r))"
  unfolding link_match_def
  by (rule andThen_preserves [where P = P], rule attach_preserves [where P = P, OF assms]) simp_all

lemma resolve_preserves:
  assumes create: "\<And>t ids name r. P r \<Longrightarrow> P (snd (create t ids name r))"
    and add: "\<And>t c k v r. P r \<Longrightarrow> P (snd (add t c k v r))" and r: "P r"
  shows "P (snd (resolve_customer get lookup create add q r))"
proof -
  note link = link_preserves [where P = P, OF add] and attach = attach_preserves [where P = P, OF add]
  obtain res r1 where C: "create (ir_tenant_id q) (map (\<lambda>h. (ih_kind h, ih_value h))
      (extract_identity_hints (ir_payload q))) (extract_display_name (ir_payload q)) r = (res, r1)" by fastforce
  then have r1: "P r1" using create [OF r] by (metis snd_conv)
  show ?thesis
    by (auto simp: resolve_customer_def Let_def C intro!: r r1 link attach andThen_preserves [where P = P]
        split: option.split sum.split repo_error.split)
qed

section \<open>The resolver over any repository\<close>

definition hint_owner :: "('r \<Rightarrow> string \<Rightarrow> identity_kind \<Rightarrow> string \<Rightarrow> string option) \<Rightarrow> 'r \<Rightarrow> string \<Rightarrow>
    identity_hint \<Rightarrow> string option" where
  "hint_owner owner r t h = owner r t (ih_kind h) (ih_value h)"

text \<open>
  \<open>keeps owner r r'\<close>: what is owned stays owned, by the same customer.  Another thread may
  act between the lookup that misses and the creation; \<open>env\<close> is what it does.
\<close>

definition keeps :: "('r \<Rightarrow> string \<Rightarrow> identity_kind \<Rightarrow> string \<Rightarrow> string option) \<Rightarrow> 'r \<Rightarrow> 'r \<Rightarrow> bool" where
  "keeps owner r r' \<longleftrightarrow> (\<forall>s k v c. owner r s k v = Some c \<longrightarrow> owner r' s k v = Some c)"

lemma keeps_refl [simp]: "keeps owner r r"
  by (simp add: keeps_def)

lemma keeps_trans: "keeps owner r r' \<Longrightarrow> keeps owner r' r'' \<Longrightarrow> keeps owner r r''"
  by (simp add: keeps_def)

lemma keeps_hint: "keeps owner r r' \<Longrightarrow> hint_owner owner r t h = Some c \<Longrightarrow> hint_owner owner r' t h = Some c"
  by (simp add: keeps_def hint_owner_def)

definition storable :: "identity_hint \<Rightarrow> bool" where
  \<comment> \<open>the value fits the column: at most 256 characters\<close>
  "storable h \<longleftrightarrow> length (ih_value h) \<le> 256"

lemma storable_ok: "hint_normal h \<Longrightarrow> storable h \<Longrightarrow> identity_ok (ih_kind h) (ih_value h)"
  by (auto simp: hint_normal_def storable_def identity_ok_def len_within_def ident_index_value_def
      Let_def Suc_le_eq split: if_splits)

context customer_repository
begin

abbreviation attach where
  "attach \<equiv> attach_new_identities lookup add"

abbreviation resolve_in where
  "resolve_in env \<equiv> resolve_customer get lookup (\<lambda>t ids name r. create t ids name (env r)) add"

definition benign :: "('r \<Rightarrow> 'r) \<Rightarrow> bool" where
  "benign env \<longleftrightarrow> (\<forall>r. inv r \<longrightarrow> inv (env r) \<and> keeps owner r (env r))"

text \<open>A read of a normalised hint raises or finds the owner.\<close>

lemma lookup_cases:
  assumes "inv r" "hint_normal h"
  obtains (error) e where "lookup t (ih_kind h) (ih_value h) r = Inl e"
  | (free) "lookup t (ih_kind h) (ih_value h) r = Inr None" "hint_owner owner r t h = None"
  | (owned) x where "lookup t (ih_kind h) (ih_value h) r = Inr (Some x)"
      "hint_owner owner r t h = Some (cu_id x)" "get t (cu_id x) r = Inr (Some x)"
proof (cases "lookup t (ih_kind h) (ih_value h) r")
  case (Inr found)
  have "map_option cu_id found = hint_owner owner r t h"
    using lookup_owner [OF assms(1) _ Inr] assms(2) by (simp add: hint_normal_def hint_owner_def)
  with Inr lookup_get [OF assms(1)] show thesis by (cases found) (auto intro: free owned)
qed (rule error)

lemma attach_effect:
  assumes "inv r" "\<forall>h \<in> set hs. hint_normal h"
  shows "inv (snd (attach c t hs r)) \<and> keeps owner r (snd (attach c t hs r)) \<and>
    ((\<exists>x. get s d r = Inr (Some x)) \<longrightarrow> (\<exists>x. get s d (snd (attach c t hs r)) = Inr (Some x))) \<and>
    (returned (attach c t hs r) \<longrightarrow> (\<forall>h \<in> set hs. hint_owner owner (snd (attach c t hs r)) t h = Some c))"
  using assms
proof (induction hs arbitrary: r)
  case (Cons h hs)
  let ?add = "add t c (ih_kind h) (ih_value h) r"
  have normal: "hint_normal h" using Cons.prems(2) by simp
  show ?case
  proof (cases rule: lookup_cases [OF Cons.prems(1) normal, of t, case_names error free owned])
    case (error e)
    with Cons.prems show ?thesis by simp
  next
    case free
    have inv1: "inv (snd ?add)" by (rule inv_add [OF Cons.prems(1)])
    have keeps1: "keeps owner r (snd ?add)" using owner_add [OF Cons.prems(1)] by (auto simp: keeps_def)
    have get1: "(\<exists>x. get s d r = Inr (Some x)) \<longrightarrow> (\<exists>x. get s d (snd ?add) = Inr (Some x))"
      using get_add [OF Cons.prems(1)] by blast
    show ?thesis
    proof (cases "fst ?add")
      case (Inl e)
      then have "attach c t (h # hs) r = (Inl e, snd ?add)"
        using free by (cases ?add) simp
      with inv1 keeps1 get1 show ?thesis by simp
    next
      case (Inr y)
      obtain res r' where rest: "attach c t hs (snd ?add) = (res, r')" by fastforce
      from Inr have all: "attach c t (h # hs) r = andThen (res, r') (\<lambda>added r2. (Inr (h # added), r2))"
        using free rest by (cases ?add) simp
      have own: "hint_owner owner (snd ?add) t h = Some c"
        using add_owner [OF Cons.prems(1) Inr] normal by (simp add: hint_normal_def hint_owner_def)
      from Cons.IH [OF inv1] Cons.prems(2) rest
      have "inv r' \<and> keeps owner (snd ?add) r' \<and>
        ((\<exists>x. get s d (snd ?add) = Inr (Some x)) \<longrightarrow> (\<exists>x. get s d r' = Inr (Some x))) \<and>
        ((\<exists>v. res = Inr v) \<longrightarrow> (\<forall>h \<in> set hs. hint_owner owner r' t h = Some c))" by simp
      with keeps1 get1 own all show ?thesis
        by (cases res) (auto intro: keeps_trans keeps_hint)
    qed
  next
    case (owned x)
    show ?thesis
    proof (cases "cu_id x = c")
      case True
      with owned Cons show ?thesis
        by (auto simp: hint_owner_def intro: keeps_hint) (metis keeps_def)
    qed (use owned Cons.prems in simp)
  qed
qed simp

lemma first_match_cases:
  assumes inv: "inv r" and "\<forall>h \<in> set hs. hint_normal h"
  obtains (error) e where "first_match lookup t hs r = Inl e"
  | (miss) "first_match lookup t hs r = Inr None" "\<forall>h \<in> set hs. hint_owner owner r t h = None"
  | (hit) h x where "first_match lookup t hs r = Inr (Some (h, x))" "h \<in> set hs"
      "find (\<lambda>h. hint_owner owner r t h \<noteq> None) hs = Some h"
      "hint_owner owner r t h = Some (cu_id x)" "get t (cu_id x) r = Inr (Some x)"
proof -
  have "(\<exists>e. first_match lookup t hs r = Inl e) \<or>
    first_match lookup t hs r = Inr None \<and> (\<forall>h \<in> set hs. hint_owner owner r t h = None) \<or>
    (\<exists>h x. first_match lookup t hs r = Inr (Some (h, x)) \<and> h \<in> set hs \<and>
      find (\<lambda>h. hint_owner owner r t h \<noteq> None) hs = Some h \<and>
      hint_owner owner r t h = Some (cu_id x) \<and> get t (cu_id x) r = Inr (Some x))"
    using assms(2)
  proof (induction hs)
    case (Cons g hs)
    then have "hint_normal g" by simp
    with Cons show ?case
      by (cases rule: lookup_cases [OF inv \<open>hint_normal g\<close>, of t, case_names error free owned]) auto
  qed simp
  then show thesis using that by blast
qed

lemma link_match_effect:
  assumes "inv r" "\<forall>h \<in> set hs. hint_normal h" "h \<in> set hs" "hint_owner owner r t h = Some (cu_id x)"
  defines "R \<equiv> link_match lookup add t hs h x r"
  shows "inv (snd R)" "keeps owner r (snd R)"
    and "fst R = Inr out \<Longrightarrow> lo_customer_id out = cu_id x \<and> \<not> lo_customer_created out \<and>
      lo_matched_kind out = Some (ih_kind h) \<and> lo_matched_value out = Some (ih_value h) \<and>
      (\<forall>g \<in> set hs. hint_owner owner (snd R) t g = Some (cu_id x))"
proof -
  let ?A = "attach (cu_id x) t (filter (\<lambda>g. g \<noteq> h) hs) r"
  have "\<forall>g \<in> set (filter (\<lambda>g. g \<noteq> h) hs). hint_normal g" using assms(2) by simp
  note A = attach_effect [OF assms(1) this, of "cu_id x" t]
  show "inv (snd R)" "keeps owner r (snd R)"
    using A by (cases ?A; cases "fst ?A"; auto simp: R_def link_match_def)+
  show "lo_customer_id out = cu_id x \<and> \<not> lo_customer_created out \<and>
      lo_matched_kind out = Some (ih_kind h) \<and> lo_matched_value out = Some (ih_value h) \<and>
      (\<forall>g \<in> set hs. hint_owner owner (snd R) t g = Some (cu_id x))" if ret: "fst R = Inr out"
  proof -
    obtain added r' where a: "?A = (Inr added, r')" "R = (Inr out, r')" "lo_customer_id out = cu_id x"
      "\<not> lo_customer_created out" "lo_matched_kind out = Some (ih_kind h)"
      "lo_matched_value out = Some (ih_value h)"
      using ret by (cases ?A; cases "fst ?A") (auto simp: R_def link_match_def)
    have "hint_owner owner r' t h = Some (cu_id x)"
      using A a(1) assms(4) by (auto intro: keeps_hint)
    moreover have "\<forall>g \<in> set hs. g \<noteq> h \<longrightarrow> hint_owner owner r' t g = Some (cu_id x)"
      using A a(1) by auto
    ultimately show ?thesis using a by auto
  qed
qed

lemma resolve_effect:
  fixes q :: ingestion_request
  assumes inv: "inv r" and env: "benign env"
  defines "hs \<equiv> extract_identity_hints (ir_payload q)" and "R \<equiv> resolve_in env q r"
  shows "inv (snd R) \<and> keeps owner r (snd R) \<and>
    (\<forall>out. fst R = Inr out \<longrightarrow>
      (\<forall>h \<in> set hs. hint_owner owner (snd R) (ir_tenant_id q) h = Some (lo_customer_id out)))"
proof -
  let ?t = "ir_tenant_id q"
  have normal: "\<forall>h \<in> set hs. hint_normal h" using extracted_hints(2) by (simp add: hs_def)
  then have ordered: "\<forall>h \<in> set (in_priority hs). hint_normal h" by simp
  have linked: ?thesis if "R = link_match lookup add ?t hs h x r1" "h \<in> set hs" "inv r1"
    "keeps owner r r1" "hint_owner owner r1 ?t h = Some (cu_id x)" for h x r1
    using link_match_effect [OF that(3) normal that(2,5)] that(1,4)
    by (auto intro: keeps_trans)
  have stopped: ?thesis if "R = (Inl e, r1)" "inv r1" "keeps owner r r1" for e r1
    using that by simp
  show ?thesis
  proof (cases "ir_customer_id q")
    case (Some c)
    show ?thesis
    proof (cases "get ?t c r")
      case (Inl e)
      with Some inv show ?thesis by (intro stopped [of e r]) (simp_all add: R_def resolve_customer_def)
    next
      case (Inr found)
      show ?thesis
      proof (cases found)
        case None
        with Some Inr inv show ?thesis by (simp add: R_def resolve_customer_def)
      next
        case x: (Some x)
        let ?A = "attach (cu_id x) ?t hs r"
        note A = attach_effect [OF inv normal, of "cu_id x" ?t]
        have "R = andThen ?A (\<lambda>added r'. (Inr \<lparr>lo_customer_id = cu_id x,
            lo_customer_created = False, lo_matched_kind = None, lo_matched_value = None,
            lo_identities_added = added\<rparr>, r'))"
          using Some Inr x by (simp add: R_def resolve_customer_def hs_def)
        with A show ?thesis by (cases ?A; cases "fst ?A") auto
      qed
    qed
  next
    case None
    show ?thesis
    proof (cases rule: first_match_cases [OF inv ordered, of ?t, case_names error miss hit])
      case (error e)
      with None inv show ?thesis
        by (intro stopped [of e r]) (simp_all add: R_def resolve_customer_def hs_def)
    next
      case (hit h x)
      then show ?thesis using None inv
        by (intro linked [of h x r]) (simp_all add: R_def resolve_customer_def hs_def)
    next
      case miss
      let ?C = "create ?t (map (\<lambda>h. (ih_kind h, ih_value h)) hs)
        (extract_display_name (ir_payload q)) (env r)"
      have e: "inv (env r)" "keeps owner r (env r)" using env inv by (simp_all add: benign_def)
      have c: "inv (snd ?C)" "keeps owner r (snd ?C)"
        using inv_create [OF e(1) display_name_max] owner_create [OF e(1)] e(2) by (auto simp: keeps_def)
      have R: "R = (case ?C of
          (Inr customer, r') \<Rightarrow> (Inr \<lparr>lo_customer_id = cu_id customer, lo_customer_created = True,
             lo_matched_kind = None, lo_matched_value = None, lo_identities_added = hs\<rparr>, r')
        | (Inl IdentityCollision, r') \<Rightarrow>
            (case first_match lookup ?t (in_priority hs) r' of
               Inl e \<Rightarrow> (Inl e, r')
             | Inr (Some (hint, match)) \<Rightarrow> link_match lookup add ?t hs hint match r'
             | Inr None \<Rightarrow> (Inl IdentityCollision, r'))
        | (Inl e, r') \<Rightarrow> (Inl e, r'))"
        using None miss by (simp add: R_def resolve_customer_def hs_def [symmetric] Let_def)
      show ?thesis
      proof (cases "fst ?C")
        case (Inr x)
        have "hint_owner owner (snd ?C) ?t h = Some (cu_id x)" if "h \<in> set hs" for h
          using create_owner [OF e(1) Inr, of "ih_kind h" "ih_value h"] that normal
          by (auto simp: hint_owner_def hint_normal_def)
        with R Inr c show ?thesis by (cases ?C) auto
      next
        case (Inl err)
        then obtain r1 where C: "?C = (Inl err, r1)" by (cases ?C) auto
        show ?thesis
        proof (cases "err = IdentityCollision")
          case False
          with R C c show ?thesis by (cases err) auto
        next
          case True
          have i1: "inv r1" using c(1) C by simp
          show ?thesis
          proof (cases rule: first_match_cases [OF i1 ordered, of ?t, case_names error miss hit])
            case (hit h x)
            with R C True c show ?thesis by (intro linked [of h x r1]) simp_all
          qed (use R C True c in simp_all)
        qed
      qed
    qed
  qed
qed

text \<open>The customer a resolve answers with exists.\<close>

lemma linked_exists:
  assumes "inv r" "\<forall>h \<in> set hs. hint_normal h" "get t (cu_id x) r = Inr (Some x)"
    and "fst (link_match lookup add t hs h x r) = Inr out"
  shows "\<exists>y. get t (lo_customer_id out) (snd (link_match lookup add t hs h x r)) = Inr (Some y)"
proof -
  let ?hs = "filter (\<lambda>g. g \<noteq> h) hs"
  have "\<forall>g \<in> set ?hs. hint_normal g" using assms(2) by simp
  from attach_effect [OF assms(1) this, of "cu_id x" t t "cu_id x"] assms(3,4) show ?thesis
    by (cases "attach (cu_id x) t ?hs r"; cases "fst (attach (cu_id x) t ?hs r)")
       (auto simp: link_match_def)
qed

lemma resolve_exists:
  fixes q :: ingestion_request
  assumes inv: "inv r" and env: "benign env" and out: "fst (resolve_in env q r) = Inr out"
  shows "\<exists>y. get (ir_tenant_id q) (lo_customer_id out) (snd (resolve_in env q r)) = Inr (Some y)"
proof -
  let ?t = "ir_tenant_id q" and ?hs = "extract_identity_hints (ir_payload q)"
  have normal: "\<forall>h \<in> set ?hs. hint_normal h" using extracted_hints(2) by simp
  then have ordered: "\<forall>h \<in> set (in_priority ?hs). hint_normal h" by simp
  show ?thesis
  proof (cases "ir_customer_id q")
    case (Some c)
    then obtain x where x: "get ?t c r = Inr (Some x)"
      using out by (cases "get ?t c r") (auto simp: resolve_customer_def Let_def split: option.splits)
    then have "get ?t (cu_id x) r = Inr (Some x)" using get_id [OF inv x] by simp
    then show ?thesis
      using out Some x attach_effect [OF inv normal, of "cu_id x" ?t ?t "cu_id x"]
      by (cases "attach (cu_id x) ?t ?hs r"; cases "fst (attach (cu_id x) ?t ?hs r)")
         (auto simp: resolve_customer_def Let_def)
  next
    case None
    show ?thesis
    proof (cases rule: first_match_cases [OF inv ordered, of ?t, case_names error miss hit])
      case (hit h x)
      then show ?thesis using None out linked_exists [OF inv normal hit(5), of h out]
        by (simp add: resolve_customer_def Let_def)
    next
      case miss
      have e: "inv (env r)" using env inv by (simp add: benign_def)
      obtain C r1 where C: "create ?t (map (\<lambda>h. (ih_kind h, ih_value h)) ?hs)
          (extract_display_name (ir_payload q)) (env r) = (C, r1)" by fastforce
      have inv1: "inv r1" using inv_create [OF e display_name_max] C by (metis snd_conv)
      show ?thesis
      proof (cases C)
        case (Inr x)
        then have "get ?t (cu_id x) r1 = Inr (Some x)" using create_get [OF e, of ?t] C by (metis fst_conv snd_conv)
        then show ?thesis using None out miss C Inr by (auto simp: resolve_customer_def Let_def)
      next
        case (Inl err)
        show ?thesis
        proof (cases rule: first_match_cases [OF inv1 ordered, of ?t, case_names error miss2 hit])
          case (hit h x)
          then show ?thesis using None out miss C Inl linked_exists [OF inv1 normal hit(5), of h out]
            by (auto simp: resolve_customer_def Let_def split: repo_error.splits)
        qed (use None out miss C Inl in \<open>auto simp: resolve_customer_def Let_def split: repo_error.splits\<close>)
      qed
    qed (use None out in \<open>simp add: resolve_customer_def Let_def\<close>)
  qed
qed

end

context total_customer_repository
begin

lemma found_cases:
  assumes "inv r" "hint_normal h"
  obtains (free) "lookup t (ih_kind h) (ih_value h) r = Inr None" "hint_owner owner r t h = None"
  | (owned) x where "lookup t (ih_kind h) (ih_value h) r = Inr (Some x)"
      "hint_owner owner r t h = Some (cu_id x)" "get t (cu_id x) r = Inr (Some x)"
  using lookup_returns [of t "ih_kind h" "ih_value h" r]
  by (cases rule: lookup_cases [OF assms, of t, case_names error free owned]) (auto intro: free owned)

lemma first_match_returns: "\<exists>m. first_match lookup t hs r = Inr m"
proof (induction hs)
  case (Cons h hs)
  obtain found where "lookup t (ih_kind h) (ih_value h) r = Inr found" using lookup_returns by blast
  with Cons show ?case by (cases found) auto
qed simp

lemma matched_cases:
  assumes "inv r" and "\<forall>h \<in> set hs. hint_normal h"
  obtains (miss) "first_match lookup t hs r = Inr None" "\<forall>h \<in> set hs. hint_owner owner r t h = None"
  | (hit) h x where "first_match lookup t hs r = Inr (Some (h, x))" "h \<in> set hs"
      "find (\<lambda>h. hint_owner owner r t h \<noteq> None) hs = Some h"
      "hint_owner owner r t h = Some (cu_id x)" "get t (cu_id x) r = Inr (Some x)"
  using first_match_returns [of t hs r]
  by (cases rule: first_match_cases [OF assms, of t, case_names error miss hit]) (auto intro: miss hit)

lemma attach_noop:
  "inv r \<Longrightarrow> \<forall>h \<in> set hs. hint_normal h \<and> hint_owner owner r t h = Some c \<Longrightarrow>
   attach c t hs r = (Inr [], r)"
proof (induction hs)
  case (Cons h hs)
  then have "hint_normal h" by simp
  with Cons show ?case
    by (cases rule: found_cases [OF Cons.prems(1) \<open>hint_normal h\<close>, of t]) auto
qed simp

lemma attach_returns:
  assumes "inv r" "get t c r = Inr (Some x)" "len_within 1 64 t"
    and "\<forall>h \<in> set hs. hint_normal h \<and> storable h \<and> hint_owner owner r t h \<in> {None, Some c}"
  shows "returned (attach c t hs r)"
  using assms
proof (induction hs arbitrary: r x)
  case (Cons h hs)
  let ?add = "add t c (ih_kind h) (ih_value h) r"
  have h: "hint_normal h" "storable h" using Cons.prems(4) by simp_all
  show ?case
  proof (cases rule: found_cases [OF Cons.prems(1) h(1), of t, case_names free owned])
    case free
    have "returned ?add"
      using h free
      by (intro add_returns [OF Cons.prems(1,2)] Cons.prems storable_ok) (simp_all add: hint_normal_def hint_owner_def)
    then obtain y r1 where add: "?add = (Inr y, r1)" by (cases ?add) auto
    have own: "hint_owner owner r1 t h = Some c"
      using add_owner [OF Cons.prems(1), of t c "ih_kind h" "ih_value h" y] add h
      by (simp add: hint_normal_def hint_owner_def)
    have "hint_owner owner r1 t g \<in> {None, Some c}" if g: "g \<in> set hs" for g
      using owner_add_frame [OF Cons.prems(1), of t c "ih_kind h" "ih_value h" t "ih_kind g" "ih_value g"]
        Cons.prems(4) g add own h by (auto simp: hint_owner_def hint_normal_def)
    moreover have "inv r1" using inv_add [OF Cons.prems(1), of t c "ih_kind h" "ih_value h"] add by simp
    moreover obtain z where "get t c r1 = Inr (Some z)"
      using get_add [OF Cons.prems(1,2), of t c "ih_kind h" "ih_value h"] add by auto
    ultimately have "returned (attach c t hs r1)"
      using Cons.prems(3,4) by (intro Cons.IH) auto
    with free add show ?thesis by (cases "attach c t hs r1") auto
  next
    case (owned y)
    with Cons show ?thesis by auto
  qed
qed simp

lemma link_match_returns:
  assumes "inv r" "len_within 1 64 t" "h \<in> set hs" "get t (cu_id x) r = Inr (Some x)"
    and "\<forall>g \<in> set hs. hint_normal g \<and> storable g \<and> hint_owner owner r t g \<in> {None, Some (cu_id x)}"
  shows "returned (link_match lookup add t hs h x r)"
proof -
  have "returned (attach (cu_id x) t (filter (\<lambda>g. g \<noteq> h) hs) r)"
    using assms by (intro attach_returns) auto
  then show ?thesis
    by (cases "attach (cu_id x) t (filter (\<lambda>g. g \<noteq> h) hs) r") (auto simp: link_match_def)
qed

text \<open>
  When the identities of the payload do not contradict each other, the resolver returns; it
  answers as if the interfering calls had all come first.
\<close>

lemma resolve_returns:
  fixes q :: ingestion_request
  assumes inv: "inv r" and env: "benign env" and anon: "ir_customer_id q = None"
    and t: "len_within 1 64 (ir_tenant_id q)"
  defines "hs \<equiv> extract_identity_hints (ir_payload q)"
  assumes fit: "\<forall>h \<in> set hs. storable h"
    and one: "\<forall>h \<in> set hs. hint_owner owner (env r) (ir_tenant_id q) h \<in> {None, Some c}"
  shows "\<exists>out. fst (resolve_in env q r) = Inr out \<and>
    (lo_customer_created out \<longleftrightarrow> (\<forall>h \<in> set hs. hint_owner owner (env r) (ir_tenant_id q) h = None)) \<and>
    (\<not> lo_customer_created out \<longrightarrow> lo_customer_id out = c)"
proof -
  let ?t = "ir_tenant_id q" and ?R = "resolve_in env q r"
  have normal: "\<forall>h \<in> set hs. hint_normal h" using extracted_hints(2) by (simp add: hs_def)
  then have ordered: "\<forall>h \<in> set (in_priority hs). hint_normal h" by simp
  have e: "inv (env r)" "keeps owner r (env r)" using env inv by (simp_all add: benign_def)
  have before: "hint_owner owner r ?t h \<in> {None, Some c}" if "h \<in> set hs" for h
    using one that keeps_hint [OF e(2), of ?t h] by (cases "hint_owner owner r ?t h") auto
  have linked: "\<exists>out. fst (link_match lookup add ?t hs h x r1) = Inr out \<and>
      \<not> lo_customer_created out \<and> lo_customer_id out = c"
    if "inv r1" "h \<in> set hs" "hint_owner owner r1 ?t h = Some (cu_id x)" "get ?t (cu_id x) r1 = Inr (Some x)"
      "\<forall>g \<in> set hs. hint_owner owner r1 ?t g \<in> {None, Some c}" for h x r1
  proof -
    have "cu_id x = c" using that(2,3,5) by auto
    moreover have "returned (link_match lookup add ?t hs h x r1)"
      using that normal fit t \<open>cu_id x = c\<close> by (intro link_match_returns) auto
    ultimately show ?thesis using link_match_effect(3) [OF that(1) normal that(2,3)] by metis
  qed
  show ?thesis
  proof (cases rule: matched_cases [OF inv ordered, of ?t, case_names miss hit])
    case (hit h x)
    then have "h \<in> set hs" by simp
    have "\<not> (\<forall>h \<in> set hs. hint_owner owner (env r) ?t h = None)"
      using keeps_hint [OF e(2) hit(4)] \<open>h \<in> set hs\<close> by auto
    moreover have "?R = link_match lookup add ?t hs h x r"
      using hit anon by (simp add: resolve_customer_def hs_def Let_def)
    ultimately show ?thesis
      using linked [OF inv \<open>h \<in> set hs\<close> hit(4,5)] before by auto
  next
    case miss
    let ?ids = "map (\<lambda>h. (ih_kind h, ih_value h)) hs"
    let ?C = "create ?t ?ids (extract_display_name (ir_payload q)) (env r)"
    have name: "opt_max 128 (extract_display_name (ir_payload q))"
      by (rule display_name_max)
    show ?thesis
    proof (cases "\<forall>h \<in> set hs. hint_owner owner (env r) ?t h = None")
      case True
      have "returned ?C"
        using True normal fit storable_ok
        by (intro create_returns [OF e(1) t name]) (auto simp: hint_owner_def hint_normal_def)
      then obtain x r1 where "?C = (Inr x, r1)" by (cases ?C) auto
      with miss anon True show ?thesis by (simp add: resolve_customer_def hs_def Let_def)
    next
      case False
      then obtain h where h: "h \<in> set hs" "hint_owner owner (env r) ?t h \<noteq> None" by blast
      have C: "?C = (Inl IdentityCollision, env r)"
        using h normal
        by (intro create_collides [OF e(1), of "ih_kind h" "ih_value h"])
           (auto simp: hint_owner_def hint_normal_def)
      show ?thesis
      proof (cases rule: matched_cases [OF e(1) ordered, of ?t, case_names miss2 hit])
        case miss2
        with h show ?thesis by auto
      next
        case (hit g x)
        have "?R = link_match lookup add ?t hs g x (env r)"
          using miss anon C hit(1) by (simp add: resolve_customer_def hs_def Let_def)
        moreover have "g \<in> set hs" using hit(2) by simp
        ultimately show ?thesis
          using linked [OF e(1) \<open>g \<in> set hs\<close> hit(4,5) one] False by auto
      qed
    qed
  qed
qed

lemma resolve_replay:
  fixes q :: ingestion_request
  assumes inv: "inv r" and env: "benign env" and out: "fst (resolve_in env q r) = Inr out"
    and known: "ir_customer_id q \<noteq> None \<or> extract_identity_hints (ir_payload q) \<noteq> []"
  shows "\<exists>out'. resolve_in env' q (snd (resolve_in env q r)) = (Inr out', snd (resolve_in env q r)) \<and>
    lo_customer_id out' = lo_customer_id out \<and> \<not> lo_customer_created out' \<and>
    lo_identities_added out' = []"
proof -
  let ?t = "ir_tenant_id q" and ?r = "snd (resolve_in env q r)"
  let ?hs = "extract_identity_hints (ir_payload q)"
  have inv': "inv ?r" and own: "\<forall>h \<in> set ?hs. hint_owner owner ?r ?t h = Some (lo_customer_id out)"
    using resolve_effect [OF inv env, of q] out by auto
  show ?thesis
  proof (cases "ir_customer_id q")
    case (Some c)
    then obtain x where x: "get ?t c r = Inr (Some x)" "cu_id x = c"
      using out get_id [OF inv, of ?t c]
      by (cases "get ?t c r") (auto simp: resolve_customer_def Let_def split: option.splits)
    obtain added r' where A: "attach c ?t ?hs r = (Inr added, r')" "?r = r'" "lo_customer_id out = c"
      using out Some x by (cases "attach c ?t ?hs r"; cases "fst (attach c ?t ?hs r)")
        (auto simp: resolve_customer_def Let_def)
    have "\<exists>y. get ?t c r' = Inr (Some y)"
      using attach_effect [OF inv, where hs = ?hs and t = ?t and c = c and s = ?t and d = c] extracted_hints(2) A(1) x(1) by auto
    then obtain y where y: "get ?t c r' = Inr (Some y)" "cu_id y = c"
      using get_id [OF inv', of ?t c] A(2) by auto
    have "attach c ?t ?hs ?r = (Inr [], ?r)"
      using own A extracted_hints(2) by (intro attach_noop [OF inv']) auto
    with Some y A show ?thesis by (simp add: resolve_customer_def Let_def)
  next
    case None
    with known have "?hs \<noteq> []" by simp
    have ordered: "\<forall>h \<in> set (in_priority ?hs). hint_normal h" using extracted_hints(2) by simp
    show ?thesis
    proof (cases rule: matched_cases [OF inv' ordered, of ?t, case_names miss hit])
      case miss
      with own \<open>?hs \<noteq> []\<close> show ?thesis by (cases ?hs) auto
    next
      case (hit h x)
      then have "cu_id x = lo_customer_id out" using own by auto
      moreover have "attach (cu_id x) ?t (filter (\<lambda>g. g \<noteq> h) ?hs) ?r = (Inr [], ?r)"
        using own calculation extracted_hints(2) by (intro attach_noop [OF inv']) auto
      ultimately show ?thesis using None hit(1)
        by (simp add: resolve_customer_def Let_def link_match_def)
    qed
  qed
qed

end

section \<open>The resolver over the in-memory repository\<close>

text \<open>
  The calls that reach the repository, and the resolver with a gap: \<open>ds\<close> are the calls of
  other threads that run between its lookup and its creation.
\<close>

abbreviation resolve_with_gap :: "(customer_repo \<Rightarrow> customer_repo) \<Rightarrow> ingestion_request \<Rightarrow> customer_repo \<Rightarrow>
    (repo_error, linking_outcome, customer_repo) outcome" where
  "resolve_with_gap env \<equiv> resolve_customer cr_get cr_find
     (\<lambda>t ids name r. cr_create_customer t ids name (env r)) cr_add_identity"

datatype repo_call =
    Resolve ingestion_request
  | CreateCustomer string "(identity_kind \<times> string) list" "string option"
  | AddIdentity string string identity_kind string

fun repo_step :: "repo_call \<Rightarrow> customer_repo \<Rightarrow> customer_repo" where
  "repo_step (Resolve q) r = snd (resolve_with_gap (\<lambda>r. r) q r)"
| "repo_step (CreateCustomer t ids name) r = snd (cr_create_customer t ids name r)"
| "repo_step (AddIdentity t c k v) r = snd (cr_add_identity t c k v r)"

abbreviation repo_run :: "repo_call list \<Rightarrow> customer_repo \<Rightarrow> customer_repo" where
  "repo_run cs r \<equiv> fold repo_step cs r"

lemma benign_id: "cr.benign (\<lambda>r. r)"
  by (simp add: cr.benign_def)

lemma repo_step_ok:
  assumes "cr_inv r"
  shows "cr_inv (repo_step c r) \<and> keeps cr_owner r (repo_step c r)"
  using cr.resolve_effect [OF assms benign_id] cr_inv_create [OF assms] cr.inv_add [OF assms]
    cr.owner_create [OF assms] cr.owner_add [OF assms]
  by (cases c) (auto simp: keeps_def)

lemma repo_run_ok: "cr_inv r \<Longrightarrow> cr_inv (repo_run cs r) \<and> keeps cr_owner r (repo_run cs r)"
proof (induction cs arbitrary: r)
  case (Cons c cs)
  from Cons.IH [of "repo_step c r"] repo_step_ok [OF Cons.prems, of c]
  show ?case by (auto intro: keeps_trans)
qed simp

lemma benign_run: "cr.benign (repo_run cs)"
  using repo_run_ok by (auto simp: cr.benign_def)

lemma reachable_repo: "cr_inv (repo_run cs (cr_new w))"
  using repo_run_ok by simp

lemma owner_found:
  assumes "cr_inv r" "hint_owner cr_owner r t h = Some c"
  shows "map_option cu_id (cr_find_by_identity t (ih_kind h) (ih_value h) r) = Some c"
  using cr_lookup_owner [OF assms(1)] assms(2) by (simp add: hint_owner_def)

lemma hint_after:
  fixes q :: ingestion_request
  assumes "fst (resolve_with_gap (repo_run ds) q (repo_run cs (cr_new w))) = Inr out"
    and "h \<in> set (extract_identity_hints (ir_payload q))"
  shows "hint_owner cr_owner (repo_run es (snd (resolve_with_gap (repo_run ds) q
    (repo_run cs (cr_new w))))) (ir_tenant_id q) h = Some (lo_customer_id out)"
proof -
  let ?R = "resolve_with_gap (repo_run ds) q (repo_run cs (cr_new w))"
  note R = cr.resolve_effect [OF reachable_repo benign_run, of ds q cs w]
  have "keeps cr_owner (snd ?R) (repo_run es (snd ?R))" using R repo_run_ok by blast
  moreover have "hint_owner cr_owner (snd ?R) (ir_tenant_id q) h = Some (lo_customer_id out)"
    using R assms by blast
  ultimately show ?thesis by (rule keeps_hint)
qed

lemma inv_after:
  "cr_inv (repo_run es (snd (resolve_with_gap (repo_run ds) q (repo_run cs (cr_new w)))))"
  using cr.resolve_effect [OF reachable_repo benign_run] repo_run_ok by blast

section \<open>Properties\<close>

definition demo_request :: "string \<Rightarrow> ingestion_request" where
  "demo_request phone = \<lparr>ir_tenant_id = ''t1'', ir_customer_id = None, ir_channel_code = SMS,
     ir_event_type = MESSAGE_RECEIVED, ir_idempotency_key = None,
     ir_payload = [(''from_phone'', JStr phone)]\<rparr>"

lemma demo_hints:
  "extract_identity_hints (ir_payload (demo_request ''+1 (555) 01'')) =
     [\<lparr>ih_kind = PHONE_ID, ih_value = ''+155501''\<rparr>]"
  "extract_identity_hints (ir_payload (demo_request ''+1 555-01'')) =
     [\<lparr>ih_kind = PHONE_ID, ih_value = ''+155501''\<rparr>]"
  by code_simp+

lemma demo_fields [simp]:
  "ir_customer_id (demo_request p) = None" "ir_tenant_id (demo_request p) = ''t1''"
  by (simp_all add: demo_request_def)

text \<open>
  Linking by construction: whenever the resolver returns, from whatever reachable state of
  the repository and whatever other threads do in its lookup-to-creation gap, every identity
  hint of the payload belongs to the customer it answered with, and no later call takes it
  away.
\<close>

theorem resolver_owns_every_hint:
  assumes "fst (resolve_with_gap (repo_run ds) q (repo_run cs (cr_new w))) = Inr out"
    and "h \<in> set (extract_identity_hints (ir_payload q))"
  shows "map_option cu_id (cr_find_by_identity (ir_tenant_id q) (ih_kind h) (ih_value h)
    (repo_run es (snd (resolve_with_gap (repo_run ds) q (repo_run cs (cr_new w)))))) =
    Some (lo_customer_id out)"
  by (rule owner_found [OF inv_after hint_after [OF assms]])

text \<open>
  C30. Two events of a tenant that share an identity resolve to the same customer: whatever
  calls came before, whatever runs between the two requests and whatever interferes with
  either of them.
\<close>

theorem shared_identity_same_customer:
  assumes "fst (resolve_with_gap (repo_run ds) q (repo_run cs (cr_new w))) = Inr out"
    and "fst (resolve_with_gap (repo_run ds') q' (repo_run es (snd (resolve_with_gap (repo_run ds) q
          (repo_run cs (cr_new w)))))) = Inr out'"
    and "ir_tenant_id q' = ir_tenant_id q"
    and "h \<in> set (extract_identity_hints (ir_payload q))"
    and "h \<in> set (extract_identity_hints (ir_payload q'))"
  shows "lo_customer_id out' = lo_customer_id out"
proof -
  let ?r = "repo_run es (snd (resolve_with_gap (repo_run ds) q (repo_run cs (cr_new w))))"
  let ?r' = "snd (resolve_with_gap (repo_run ds') q' ?r)"
  have "hint_owner cr_owner ?r (ir_tenant_id q) h = Some (lo_customer_id out)"
    by (rule hint_after [OF assms(1,4)])
  moreover have "keeps cr_owner ?r ?r'"
    and "hint_owner cr_owner ?r' (ir_tenant_id q') h = Some (lo_customer_id out')"
    using cr.resolve_effect [OF inv_after benign_run, of ds' q'] assms(2,5) by blast+
  ultimately show ?thesis using assms(3) keeps_hint [of cr_owner ?r ?r' "ir_tenant_id q" h] by simp
qed

text \<open>
  Replay is idempotent: a request that was resolved and carries a customer id or at least
  one identity resolves again to the same customer, creates nobody, links nothing new and
  leaves the repository exactly as it was.
\<close>

theorem resolver_replay_idempotent:
  assumes "fst (resolve_with_gap (repo_run ds) q (repo_run cs (cr_new w))) = Inr out"
    and "ir_customer_id q \<noteq> None \<or> extract_identity_hints (ir_payload q) \<noteq> []"
  shows "\<exists>out'. resolve_with_gap (repo_run ds') q
      (snd (resolve_with_gap (repo_run ds) q (repo_run cs (cr_new w)))) =
      (Inr out', snd (resolve_with_gap (repo_run ds) q (repo_run cs (cr_new w)))) \<and>
    lo_customer_id out' = lo_customer_id out \<and> \<not> lo_customer_created out' \<and>
    lo_identities_added out' = []"
  by (rule cr.resolve_replay [OF reachable_repo benign_run assms])

text \<open>
  The lost race converges: a request without a customer id whose identities are held, once
  the other threads' calls of the gap are in, by nobody or by one customer, returns.  It
  creates a customer exactly when nobody holds them, and answers with the holder otherwise,
  as if the interfering calls had come first.
\<close>

theorem lost_race_converges:
  assumes "ir_customer_id q = None" and "len_within 1 64 (ir_tenant_id q)"
    and "\<forall>h \<in> set (extract_identity_hints (ir_payload q)). length (ih_value h) \<le> 256 \<and>
      map_option cu_id (cr_find_by_identity (ir_tenant_id q) (ih_kind h) (ih_value h)
        (repo_run ds (repo_run cs (cr_new w)))) \<in> {None, Some c}"
  shows "\<exists>out. fst (resolve_with_gap (repo_run ds) q (repo_run cs (cr_new w))) = Inr out \<and>
    (lo_customer_created out \<longleftrightarrow> (\<forall>h \<in> set (extract_identity_hints (ir_payload q)).
       cr_find_by_identity (ir_tenant_id q) (ih_kind h) (ih_value h)
         (repo_run ds (repo_run cs (cr_new w))) = None)) \<and>
    (\<not> lo_customer_created out \<longrightarrow> lo_customer_id out = c)"
proof -
  have inv: "cr_inv (repo_run ds (repo_run cs (cr_new w)))"
    using repo_run_ok [OF reachable_repo] by blast
  have owner: "hint_owner cr_owner (repo_run ds (repo_run cs (cr_new w))) (ir_tenant_id q) h =
      map_option cu_id (cr_find_by_identity (ir_tenant_id q) (ih_kind h) (ih_value h)
        (repo_run ds (repo_run cs (cr_new w))))" for h
    using cr_lookup_owner [OF inv] by (simp add: hint_owner_def)
  show ?thesis
    using cr.resolve_returns [OF reachable_repo benign_run assms(1,2), of ds cs w c] assms(3)
    unfolding owner storable_def by simp
qed

definition demo_gap :: "repo_call list" where
  "demo_gap = [Resolve (demo_request ''+1 555-01'')]"

lemma demo_returns:
  "\<exists>out. fst (resolve_with_gap (repo_run []) (demo_request ''+1 (555) 01'') (repo_run [] (cr_new w))) = Inr out"
  using cr.resolve_returns [OF reachable_repo benign_run, of "demo_request ''+1 (555) 01''" "[]" "[]" w]
  by (auto simp: demo_hints storable_def hint_owner_def cr_new_def cr_owner_def len_within_def)

lemma demo_race_owner:
  "\<exists>c. hint_owner cr_owner (repo_run demo_gap (cr_new w)) ''t1''
     \<lparr>ih_kind = PHONE_ID, ih_value = ''+155501''\<rparr> = Some c"
proof -
  let ?q = "demo_request ''+1 555-01''"
  obtain out where "fst (resolve_with_gap (\<lambda>r. r) ?q (cr_new w)) = Inr out"
    using cr.resolve_returns [OF cr_inv_new benign_id, of ?q]
    by (auto simp: demo_hints storable_def hint_owner_def cr_new_def cr_owner_def len_within_def)
  then show ?thesis
    using cr.resolve_effect [OF cr_inv_new benign_id, of ?q] by (auto simp: demo_gap_def demo_hints)
qed

theorem resolver_owns_every_hint_witness:
  "\<exists>w c. map_option cu_id (cr_find_by_identity ''t1'' PHONE_ID ''+155501''
    (repo_run [CreateCustomer ''t1'' [] None] (snd (resolve_with_gap (repo_run []) (demo_request ''+1 (555) 01'')
      (repo_run [] (cr_new w)))))) = Some c"
  using demo_returns resolver_owns_every_hint [of "[]" "demo_request ''+1 (555) 01''" "[]" _ _
      "\<lparr>ih_kind = PHONE_ID, ih_value = ''+155501''\<rparr>" "[CreateCustomer ''t1'' [] None]"]
  by (fastforce simp: demo_hints simp del: fold_simps)

theorem shared_identity_same_customer_witness:
  "\<forall>w. \<exists>out out'. fst (resolve_with_gap (repo_run []) (demo_request ''+1 (555) 01'') (repo_run [] (cr_new w))) = Inr out \<and>
    fst (resolve_with_gap (repo_run []) (demo_request ''+1 555-01'') (repo_run [] (snd (resolve_with_gap (repo_run [])
      (demo_request ''+1 (555) 01'') (repo_run [] (cr_new w)))))) = Inr out' \<and>
    lo_customer_id out' = lo_customer_id out"
proof
  fix w
  let ?q = "demo_request ''+1 (555) 01''" and ?q' = "demo_request ''+1 555-01''"
  let ?h = "\<lparr>ih_kind = PHONE_ID, ih_value = ''+155501''\<rparr>"
  obtain out where out: "fst (resolve_with_gap (repo_run []) ?q (repo_run [] (cr_new w))) = Inr out"
    using demo_returns by blast
  let ?r = "repo_run [] (snd (resolve_with_gap (repo_run []) ?q (repo_run [] (cr_new w))))"
  have "hint_owner cr_owner ?r ''t1'' ?h = Some (lo_customer_id out)"
    using hint_after [OF out, of ?h "[]"] by (simp add: demo_hints)
  then obtain out' where out': "fst (resolve_with_gap (repo_run []) ?q' ?r) = Inr out'"
    using cr.resolve_returns [OF inv_after benign_run, of ?q' "[]" "[]" "[]" ?q "[]" w "lo_customer_id out"]
    by (auto simp: demo_hints(2) storable_def len_within_def)
  have "lo_customer_id out' = lo_customer_id out"
    by (rule shared_identity_same_customer [OF out out', of ?h]) (simp_all add: demo_hints)
  with out out' show "\<exists>out out'. fst (resolve_with_gap (repo_run []) ?q (repo_run [] (cr_new w))) = Inr out \<and>
    fst (resolve_with_gap (repo_run []) ?q' ?r) = Inr out' \<and> lo_customer_id out' = lo_customer_id out"
    by blast
qed

theorem resolver_replay_idempotent_witness:
  "\<forall>w. \<exists>out'. resolve_with_gap (repo_run demo_gap) (demo_request ''+1 (555) 01'')
      (snd (resolve_with_gap (repo_run []) (demo_request ''+1 (555) 01'') (repo_run [] (cr_new w)))) =
      (Inr out', snd (resolve_with_gap (repo_run []) (demo_request ''+1 (555) 01'') (repo_run [] (cr_new w))))"
proof
  fix w
  let ?q = "demo_request ''+1 (555) 01''"
  obtain out where out: "fst (resolve_with_gap (repo_run []) ?q (repo_run [] (cr_new w))) = Inr out"
    using demo_returns by blast
  from resolver_replay_idempotent [OF out, of demo_gap]
  show "\<exists>out'. resolve_with_gap (repo_run demo_gap) ?q
      (snd (resolve_with_gap (repo_run []) ?q (repo_run [] (cr_new w)))) =
      (Inr out', snd (resolve_with_gap (repo_run []) ?q (repo_run [] (cr_new w))))"
    by (auto simp: demo_hints)
qed

theorem lost_race_converges_witness:
  "\<forall>w. \<exists>out c. fst (resolve_with_gap (repo_run demo_gap) (demo_request ''+1 (555) 01'') (repo_run [] (cr_new w))) = Inr out \<and>
    \<not> lo_customer_created out \<and> lo_customer_id out = c"
proof
  fix w
  let ?q = "demo_request ''+1 (555) 01''"
  obtain c where c: "hint_owner cr_owner (repo_run demo_gap (repo_run [] (cr_new w))) ''t1''
     \<lparr>ih_kind = PHONE_ID, ih_value = ''+155501''\<rparr> = Some c"
    using demo_race_owner by auto
  have inv: "cr_inv (repo_run demo_gap (repo_run [] (cr_new w)))"
    using repo_run_ok [OF reachable_repo] by blast
  have found: "map_option cu_id (cr_find_by_identity ''t1'' PHONE_ID ''+155501''
      (repo_run demo_gap (repo_run [] (cr_new w)))) = Some c"
    using owner_found [OF inv c] by simp
  have "\<exists>out. fst (resolve_with_gap (repo_run demo_gap) ?q (repo_run [] (cr_new w))) = Inr out \<and>
    (lo_customer_created out \<longleftrightarrow> (\<forall>h \<in> set (extract_identity_hints (ir_payload ?q)).
       cr_find_by_identity (ir_tenant_id ?q) (ih_kind h) (ih_value h)
         (repo_run demo_gap (repo_run [] (cr_new w))) = None)) \<and>
    (\<not> lo_customer_created out \<longrightarrow> lo_customer_id out = c)"
    by (rule lost_race_converges)
       (use found in \<open>simp_all add: demo_hints(1) len_within_def del: fold_simps\<close>)
  then show "\<exists>out c. fst (resolve_with_gap (repo_run demo_gap) ?q (repo_run [] (cr_new w))) = Inr out \<and>
    \<not> lo_customer_created out \<and> lo_customer_id out = c"
    using found by (auto simp: demo_hints(1) simp del: fold_simps)
qed

text \<open>
  A defect: the phone normaliser keeps a leading plus sign even when no digit follows, so
  every such string (``+n/a'', ``+unknown'') becomes the same non-empty identity ``+'', and
  the resolver attributes unrelated people's events to one customer.
\<close>

theorem digitless_phones_are_one_identity:
  assumes "\<forall>c \<in> set s. \<not> is_digit c" and "plus \<notin> set s" and "py_strip (plus # s) = plus # s"
  shows "normalize_identity_value PHONE_ID (plus # s) = [plus] \<and>
    extract_identity_hints [(''phone'', JStr (plus # s))] =
      [\<lparr>ih_kind = PHONE_ID, ih_value = [plus]\<rparr>]"
proof -
  have "filter (\<lambda>c. is_digit c \<or> c = plus) s = []"
    using assms(1,2) by (auto simp: filter_empty_conv)
  then have "normalize_identity_value PHONE_ID (plus # s) = [plus]"
    using assms(3) by (simp add: normalize_identity_value_def Let_def)
  then show ?thesis
    by (simp add: extract_identity_hints_def PAYLOAD_KEY_TO_KIND_def Let_def)
qed

theorem digitless_phones_are_one_identity_witness:
  "extract_identity_hints [(''phone'', JStr (plus # ''n/a''))] =
   extract_identity_hints [(''phone'', JStr (plus # ''unknown''))]"
proof -
  have "extract_identity_hints [(''phone'', JStr (plus # s))] = [\<lparr>ih_kind = PHONE_ID, ih_value = [plus]\<rparr>]"
    if "s \<in> {''n/a'', ''unknown''}" for s
    by (rule digitless_phones_are_one_identity [THEN conjunct2])
       (use that in \<open>auto simp: is_digit_def plus_def is_space_def py_strip_def\<close>)
  then show ?thesis by simp
qed

end
