(* ===== verification/Json_Reader.thy ===== *)
theory Json_Reader
  imports Py_Text
begin

text \<open>
  \<open>json.loads\<close> of the Python standard library, which the planner and the policy judge run on
  what a language model returns, and \<open>str.splitlines\<close>.  What depends on the interpreter is a
  record: how it prints the float a numeral denotes, how a code point above 255 is written in
  the one-byte strings of the model, its recursion limit and its limit on the digits of an
  integer.
\<close>

section \<open>Lines\<close>

definition is_linebreak :: "char \<Rightarrow> bool" where
  "is_linebreak c \<longleftrightarrow>
     10 \<le> code c \<and> code c \<le> 13 \<or> 28 \<le> code c \<and> code c \<le> 30 \<or> code c = 133"

function lines_from :: "string \<Rightarrow> string \<Rightarrow> string list" where
  "lines_from line [] = (if line = [] then [] else [rev line])"
| "lines_from line (c # cs) =
     (if is_linebreak c
      then rev line # lines_from [] (if c = CHR 0x0D \<and> cs \<noteq> [] \<and> hd cs = CHR 0x0A then tl cs else cs)
      else lines_from (c # line) cs)"
  by pat_completeness auto
termination by (relation "measure (\<lambda>(line, s). length s)") auto

definition py_splitlines :: "string \<Rightarrow> string list" where
  "py_splitlines s = lines_from [] s"

section \<open>The reader\<close>

record py_runtime =
  float_repr :: "string \<Rightarrow> string"
  wide_char :: "nat \<Rightarrow> string"
  recursion_limit :: nat
  max_int_digits :: nat

datatype loads_error =
    JSONDecodeError
  | LoadsRecursionError
  | LoadsValueError       \<comment> \<open>too many digits for an integer\<close>
  | OutOfFuel

definition quote :: char where
  "quote = CHR 0x22"

definition backslash :: char where
  "backslash = CHR 0x5C"

definition skip_ws :: "string \<Rightarrow> string" where
  "skip_ws s = dropWhile (\<lambda>c. c \<in> set [CHR '' '', CHR 0x09, CHR 0x0A, CHR 0x0D]) s"

definition hex_value :: "char \<Rightarrow> nat option" where
  "hex_value c =
     (if is_digit c then Some (code c - 48)
      else if 97 \<le> code c \<and> code c \<le> 102 then Some (code c - 87)
      else if 65 \<le> code c \<and> code c \<le> 70 then Some (code c - 55)
      else None)"

fun hex4 :: "string \<Rightarrow> nat option" where
  "hex4 (a # b # c # d # rest) =
     (case (hex_value a, hex_value b, hex_value c, hex_value d) of
        (Some i, Some j, Some k, Some l) \<Rightarrow> Some (((i * 16 + j) * 16 + k) * 16 + l)
      | _ \<Rightarrow> None)"
| "hex4 _ = None"

definition escapes :: "(char \<times> char) list" where
  "escapes = [(quote, quote), (backslash, backslash), (CHR ''/'', CHR ''/''),
     (CHR ''b'', CHR 0x08), (CHR ''f'', CHR 0x0C), (CHR ''n'', CHR 0x0A), (CHR ''r'', CHR 0x0D),
     (CHR ''t'', CHR 0x09)]"

definition code_point :: "py_runtime \<Rightarrow> nat \<Rightarrow> string" where
  "code_point rt n = (if n < 256 then [char_of n] else wide_char rt n)"

text \<open>
  The text after an escape \<open>\\uXXXX\<close>: the code point, and how many characters it took; a high
  surrogate followed by the escape of a low one is one code point.
\<close>

definition u_escape :: "string \<Rightarrow> (nat \<times> nat) option" where
  "u_escape s =
     (case hex4 s of
        None \<Rightarrow> None
      | Some hi \<Rightarrow>
          let rest = drop 4 s
          in if 0xD800 \<le> hi \<and> hi \<le> 0xDBFF \<and> take 2 rest = [backslash, CHR ''u''] then
               (case hex4 (drop 2 rest) of
                  Some lo \<Rightarrow>
                    if 0xDC00 \<le> lo \<and> lo \<le> 0xDFFF
                    then Some (0x10000 + (hi - 0xD800) * 0x400 + (lo - 0xDC00), 10)
                    else Some (hi, 4)
                | None \<Rightarrow> Some (hi, 4))
             else Some (hi, 4))"

text \<open>The body of a string after its opening quote, and the text behind the closing one.\<close>

function scan_string :: "py_runtime \<Rightarrow> string \<Rightarrow> (string \<times> string) option" where
  "scan_string rt [] = None"
| "scan_string rt (c # cs) =
     (if c = quote then Some ([], cs)
      else if code c < 32 then None
      else if c \<noteq> backslash then map_option (\<lambda>(body, rest). (c # body, rest)) (scan_string rt cs)
      else case cs of
        [] \<Rightarrow> None
      | e # es \<Rightarrow>
          if e = CHR ''u'' then
            (case u_escape es of
               None \<Rightarrow> None
             | Some (n, k) \<Rightarrow> map_option (\<lambda>(body, rest). (code_point rt n @ body, rest))
                                (scan_string rt (drop k es)))
          else
            (case map_of escapes e of
               None \<Rightarrow> None
             | Some d \<Rightarrow> map_option (\<lambda>(body, rest). (d # body, rest)) (scan_string rt es)))"
  by pat_completeness auto
termination by (relation "measure (\<lambda>(rt, s). length s)") auto

text \<open>Numerals: an optional minus sign, digits, an optional fraction, an optional exponent.\<close>

definition digits_of :: "string \<Rightarrow> nat" where
  "digits_of ds = foldl (\<lambda>n c. 10 * n + (code c - 48)) 0 ds"

definition split_fraction :: "string \<Rightarrow> string \<times> string" where
  "split_fraction s =
     (case s of
        c # cs \<Rightarrow>
          let ds = takeWhile is_digit cs
          in if c = CHR ''.'' \<and> ds \<noteq> [] then (c # ds, drop (length ds) cs) else ([], s)
      | [] \<Rightarrow> ([], s))"

definition split_exponent :: "string \<Rightarrow> string \<times> string" where
  "split_exponent s =
     (case s of
        c # cs \<Rightarrow>
          let sign = (case cs of d # _ \<Rightarrow> if d \<in> set [CHR ''+'', CHR ''-''] then [d] else [] | [] \<Rightarrow> []);
              ds = takeWhile is_digit (drop (length sign) cs)
          in if c \<in> set [CHR ''e'', CHR ''E''] \<and> ds \<noteq> []
             then (c # sign @ ds, drop (length sign + length ds) cs) else ([], s)
      | [] \<Rightarrow> ([], s))"

definition scan_number :: "py_runtime \<Rightarrow> string \<Rightarrow> loads_error + json \<times> string" where
  "scan_number rt s =
     (let sign = (case s of c # _ \<Rightarrow> if c = CHR ''-'' then [c] else [] | [] \<Rightarrow> []);
          s1 = drop (length sign) s;
          run = takeWhile is_digit s1;
          ds = (case run of [] \<Rightarrow> [] | d # _ \<Rightarrow> if d = CHR ''0'' then [d] else run);
          s2 = drop (length ds) s1;
          (frac, s3) = split_fraction s2;
          (expo, s4) = split_exponent s3
      in if ds = [] then Inl JSONDecodeError
         else if frac \<noteq> [] \<or> expo \<noteq> [] then Inr (JFloat (float_repr rt (sign @ ds @ frac @ expo)), s4)
         else if max_int_digits rt < length ds then Inl LoadsValueError
         else Inr (JInt (if sign = [] then int (digits_of ds) else - int (digits_of ds)), s4))"

definition constants :: "(string \<times> json) list" where
  "constants = [(''null'', JNull), (''true'', JBool True), (''false'', JBool False),
     (''NaN'', JFloat ''nan''), (''Infinity'', JFloat ''inf''), (''-Infinity'', JFloat ''-inf'')]"

definition scan_scalar :: "py_runtime \<Rightarrow> string \<Rightarrow> loads_error + json \<times> string" where
  "scan_scalar rt s =
     (case find (\<lambda>(word, v). starts_with s word) constants of
        Some (word, v) \<Rightarrow> Inr (v, drop (length word) s)
      | None \<Rightarrow> scan_number rt s)"

text \<open>
  Values, the elements of a list and the members of an object.  \<open>depth\<close> is how many
  containers may still be opened; \<open>fuel\<close> bounds the calls, and \<open>json_loads\<close> gives enough.
\<close>

fun scan_value :: "py_runtime \<Rightarrow> nat \<Rightarrow> nat \<Rightarrow> string \<Rightarrow> loads_error + json \<times> string"
  and scan_list :: "py_runtime \<Rightarrow> nat \<Rightarrow> nat \<Rightarrow> json list \<Rightarrow> string \<Rightarrow> loads_error + json \<times> string"
  and scan_object :: "py_runtime \<Rightarrow> nat \<Rightarrow> nat \<Rightarrow> dict \<Rightarrow> string \<Rightarrow> loads_error + json \<times> string" where
  "scan_value rt 0 depth s = Inl OutOfFuel"
| "scan_value rt (Suc fuel) depth s =
     (case s of
        [] \<Rightarrow> Inl JSONDecodeError
      | c # cs \<Rightarrow>
          if c = quote then
            (case scan_string rt cs of None \<Rightarrow> Inl JSONDecodeError
             | Some (body, rest) \<Rightarrow> Inr (JStr body, rest))
          else if c = CHR ''['' then
            (if depth = 0 then Inl LoadsRecursionError
             else let s1 = skip_ws cs
               in if s1 \<noteq> [] \<and> hd s1 = CHR '']'' then Inr (JList [], tl s1)
                  else scan_list rt fuel (depth - 1) [] s1)
          else if c = CHR ''{'' then
            (if depth = 0 then Inl LoadsRecursionError
             else let s1 = skip_ws cs
               in if s1 \<noteq> [] \<and> hd s1 = CHR ''}'' then Inr (JObj [], tl s1)
                  else scan_object rt fuel (depth - 1) [] s1)
          else scan_scalar rt s)"
| "scan_list rt 0 depth xs s = Inl OutOfFuel"
| "scan_list rt (Suc fuel) depth xs s =
     (case scan_value rt fuel depth s of
        Inl e \<Rightarrow> Inl e
      | Inr (v, s1) \<Rightarrow>
          (case skip_ws s1 of
             [] \<Rightarrow> Inl JSONDecodeError
           | c # cs \<Rightarrow>
               if c = CHR '']'' then Inr (JList (xs @ [v]), cs)
               else if c = CHR '','' then scan_list rt fuel depth (xs @ [v]) (skip_ws cs)
               else Inl JSONDecodeError))"
| "scan_object rt 0 depth d s = Inl OutOfFuel"
| "scan_object rt (Suc fuel) depth d s =
     (case s of
        [] \<Rightarrow> Inl JSONDecodeError
      | q # qs \<Rightarrow>
          if q \<noteq> quote then Inl JSONDecodeError
          else case scan_string rt qs of
            None \<Rightarrow> Inl JSONDecodeError
          | Some (key, s1) \<Rightarrow>
              (case skip_ws s1 of
                 [] \<Rightarrow> Inl JSONDecodeError
               | colon # s2 \<Rightarrow>
                   if colon \<noteq> CHR '':'' then Inl JSONDecodeError
                   else case scan_value rt fuel depth (skip_ws s2) of
                     Inl e \<Rightarrow> Inl e
                   | Inr (v, s3) \<Rightarrow>
                       (case skip_ws s3 of
                          [] \<Rightarrow> Inl JSONDecodeError
                        | c # cs \<Rightarrow>
                            if c = CHR ''}'' then Inr (JObj (dict_set key v d), cs)
                            else if c = CHR '','' then
                              scan_object rt fuel depth (dict_set key v d) (skip_ws cs)
                            else Inl JSONDecodeError)))"

definition json_loads :: "py_runtime \<Rightarrow> string \<Rightarrow> loads_error + json" where
  "json_loads rt s =
     (case scan_value rt (2 * length s + 2) (recursion_limit rt) (skip_ws s) of
        Inl e \<Rightarrow> Inl e
      | Inr (v, rest) \<Rightarrow> if skip_ws rest = [] then Inr v else Inl JSONDecodeError)"

section \<open>The fuel suffices\<close>

lemma skip_ws_length: "length (skip_ws s) \<le> length s"
  by (simp add: skip_ws_def length_dropWhile_le)

lemma scan_string_length: "scan_string rt s = Some (body, rest) \<Longrightarrow> length rest < length s"
proof (induction rt s arbitrary: body rest rule: scan_string.induct)
  case (2 rt c cs)
  show ?case
  proof (cases "c = quote \<or> code c < 32 \<or> c \<noteq> backslash")
    case True
    with 2 show ?thesis by (fastforce split: if_splits)
  next
    case False
    then obtain e es where cs: "cs = e # es" using 2(4) by (cases cs) auto
    show ?thesis
    proof (cases "e = CHR ''u''")
      case True
      then obtain n k body' where u: "u_escape es = Some (n, k)"
        "scan_string rt (drop k es) = Some (body', rest)"
        using 2(4) False cs by (auto split: option.splits if_splits)
      have "length rest < length (drop k es)"
        using 2(2) [OF _ _ _ cs True u(1) refl u(2)] False by auto
      then show ?thesis using cs by simp
    next
      case e: False
      then obtain d body' where d: "map_of escapes e = Some d" "scan_string rt es = Some (body', rest)"
        using 2(4) False cs by (auto split: option.splits if_splits)
      have "length rest < length es" using 2(3) [OF _ _ _ cs e d(1,2)] False by auto
      then show ?thesis using cs by simp
    qed
  qed
qed simp

lemma split_fraction_length: "split_fraction s = (f, rest) \<Longrightarrow> length rest \<le> length s"
  by (auto simp: split_fraction_def Let_def split: list.splits if_splits)

lemma split_exponent_length: "split_exponent s = (f, rest) \<Longrightarrow> length rest \<le> length s"
  by (auto simp: split_exponent_def Let_def split: list.splits if_splits)

lemma scan_number_length:
  assumes "scan_number rt s = Inr (v, rest)"
  shows "length rest < length s"
proof -
  define sign where "sign = (case s of c # _ \<Rightarrow> if c = CHR ''-'' then [c] else [] | [] \<Rightarrow> [])"
  define s1 where "s1 = drop (length sign) s"
  define run where "run = takeWhile is_digit s1"
  define ds where "ds = (case run of [] \<Rightarrow> [] | d # _ \<Rightarrow> if d = CHR ''0'' then [d] else run)"
  obtain frac s3 where f: "split_fraction (drop (length ds) s1) = (frac, s3)" by fastforce
  obtain expo s4 where x: "split_exponent s3 = (expo, s4)" by fastforce
  have r: "ds \<noteq> [] \<and> rest = s4"
    using assms f x unfolding scan_number_def sign_def [symmetric] Let_def s1_def [symmetric]
      run_def [symmetric] ds_def [symmetric] by (simp split: if_splits)
  have "length ds \<le> length run" by (auto simp: ds_def split: list.split)
  moreover have "length run \<le> length s1" by (simp add: run_def length_takeWhile_le)
  ultimately have "length (drop (length ds) s1) < length s1"
    using r by (cases ds) auto
  moreover have "length s1 \<le> length s" by (simp add: s1_def)
  ultimately show ?thesis
    using split_fraction_length [OF f] split_exponent_length [OF x] r by simp
qed

lemma scan_scalar_length:
  assumes "scan_scalar rt s = Inr (v, rest)"
  shows "length rest < length s"
proof (cases "find (\<lambda>(word, v). starts_with s word) constants")
  case None
  with assms show ?thesis by (auto simp: scan_scalar_def intro: scan_number_length)
next
  case (Some wv)
  then have wv: "wv \<in> set constants" "starts_with s (fst wv)"
    by (auto simp: find_Some_iff) (metis nth_mem)
  have "fst wv \<noteq> []" using wv(1) by (auto simp: constants_def)
  moreover have "length (fst wv) \<le> length s"
    using wv(2) unfolding starts_with_def by (metis length_take min.cobounded1)
  ultimately show ?thesis using Some assms
    by (cases wv; cases s) (auto simp: scan_scalar_def)
qed

lemma scan_number_no_fuel: "scan_scalar rt s \<noteq> Inl OutOfFuel"
  by (auto simp: scan_scalar_def scan_number_def Let_def split: option.split prod.split)

lemma scan_fuel:
  shows "2 * length s < fuel \<Longrightarrow> scan_value rt fuel depth s \<noteq> Inl OutOfFuel \<and>
      (\<forall>v rest. scan_value rt fuel depth s = Inr (v, rest) \<longrightarrow> length rest < length s)"
    and "2 * length s + 1 < fuel \<Longrightarrow> scan_list rt fuel depth xs s \<noteq> Inl OutOfFuel \<and>
      (\<forall>v rest. scan_list rt fuel depth xs s = Inr (v, rest) \<longrightarrow> length rest < length s)"
    and "2 * length s + 1 < fuel \<Longrightarrow> scan_object rt fuel depth d s \<noteq> Inl OutOfFuel \<and>
      (\<forall>v rest. scan_object rt fuel depth d s = Inr (v, rest) \<longrightarrow> length rest < length s)"
proof (induction fuel arbitrary: depth s xs d)
  case (Suc fuel)
  {
    case 1
    show ?case
    proof (cases s)
      case (Cons c cs)
      let ?s1 = "skip_ws cs"
      have len: "length ?s1 \<le> length cs" by (rule skip_ws_length)
      then have "2 * length ?s1 + 1 < fuel" using 1 Cons by simp
      note inner = Suc.IH(2) [OF this] Suc.IH(3) [OF this]
      have tail: "?s1 \<noteq> [] \<Longrightarrow> length (tl ?s1) < length s" using len Cons by (cases ?s1) auto
      show ?thesis
      proof (cases "c = quote")
        case True
        then show ?thesis using Cons by (auto split: option.split dest: scan_string_length)
      next
        case False
        show ?thesis
        proof (cases "c = CHR ''['' \<or> c = CHR ''{''")
          case True
          with False inner len tail Cons show ?thesis
            by (auto simp: Let_def split: if_splits) (use order.strict_trans2 in fastforce)+
        next
          case False
          with \<open>c \<noteq> quote\<close> Cons show ?thesis
            by (simp add: scan_number_no_fuel) (use scan_scalar_length [of rt "c # cs"] in auto)
        qed
      qed
    qed simp
  next
    case 2
    then have "2 * length s < fuel" by simp
    note v = Suc.IH(1) [OF this, of depth]
    show ?case
    proof (cases "scan_value rt fuel depth s")
      case (Inr r)
      then obtain v s1 where r: "scan_value rt fuel depth s = Inr (v, s1)" by (cases r) auto
      then have s1: "length s1 < length s" using v by simp
      show ?thesis
      proof (cases "skip_ws s1")
        case (Cons c cs)
        then have "length cs < length s1" using skip_ws_length [of s1] by simp
        moreover have l: "length (skip_ws cs) \<le> length cs" by (rule skip_ws_length)
        ultimately have "2 * length (skip_ws cs) + 1 < fuel" using 2 s1 by simp
        note t = Suc.IH(2) [OF this, of depth "xs @ [v]"]
        then have "\<forall>w rest. scan_list rt fuel depth (xs @ [v]) (skip_ws cs) = Inr (w, rest) \<longrightarrow>
            length rest < length s"
          using l \<open>length cs < length s1\<close> s1 by fastforce
        with t r Cons \<open>length cs < length s1\<close> s1 show ?thesis by (simp add: less_trans)
      qed (use r in simp)
    qed (use v in simp)
  next
    case 3
    show ?case
    proof (cases "s \<noteq> [] \<and> hd s = quote")
      case True
      then obtain qs where s: "s = quote # qs" by (cases s) auto
      show ?thesis
      proof (cases "scan_string rt qs")
        case (Some ks)
        then obtain key s1 where k: "scan_string rt qs = Some (key, s1)" by (cases ks) auto
        have s1: "length s1 < length qs" using scan_string_length [OF k] .
        show ?thesis
        proof (cases "skip_ws s1")
          case (Cons colon s2)
          have s2: "length (skip_ws s2) < length s1"
            using skip_ws_length [of s1] skip_ws_length [of s2] Cons by simp
          then have "2 * length (skip_ws s2) < fuel" using 3 s s1 by simp
          note v = Suc.IH(1) [OF this, of depth]
          show ?thesis
          proof (cases "scan_value rt fuel depth (skip_ws s2)")
            case (Inr r)
            then obtain w s3 where r: "scan_value rt fuel depth (skip_ws s2) = Inr (w, s3)" by (cases r) auto
            then have s3: "length s3 < length (skip_ws s2)" using v by simp
            show ?thesis
            proof (cases "skip_ws s3")
              case c: (Cons c cs)
              then have cs: "length cs < length s3" using skip_ws_length [of s3] by simp
              moreover have l: "length (skip_ws cs) \<le> length cs" by (rule skip_ws_length)
              ultimately have "2 * length (skip_ws cs) + 1 < fuel" using 3 s s1 s2 s3 by simp
              note t = Suc.IH(3) [OF this, of depth "dict_set key w d"]
              then have "\<forall>v rest. scan_object rt fuel depth (dict_set key w d) (skip_ws cs) =
                  Inr (v, rest) \<longrightarrow> length rest < length s"
                using l cs s1 s2 s3 s by fastforce
              moreover have "length cs < length s" using cs s1 s2 s3 s by simp
              ultimately show ?thesis using t s k Cons r c by simp
            qed (use s k Cons r in simp)
          qed (use s k Cons v in simp)
        qed (use s k in simp)
      qed (use s in simp)
    qed (cases s; simp)
  }
qed simp_all

theorem json_loads_never_out_of_fuel: "json_loads rt s \<noteq> Inl OutOfFuel"
proof -
  have "2 * length (skip_ws s) < 2 * length s + 2" using skip_ws_length [of s] by simp
  from scan_fuel(1) [OF this, of rt "recursion_limit rt"] show ?thesis
    by (auto simp: json_loads_def split: sum.split)
qed

section \<open>More fuel, the same answer\<close>

lemma scan_more:
  shows "f \<le> g \<Longrightarrow> scan_value rt f depth s \<noteq> Inl OutOfFuel \<Longrightarrow>
      scan_value rt g depth s = scan_value rt f depth s"
    and "f \<le> g \<Longrightarrow> scan_list rt f depth xs s \<noteq> Inl OutOfFuel \<Longrightarrow>
      scan_list rt g depth xs s = scan_list rt f depth xs s"
    and "f \<le> g \<Longrightarrow> scan_object rt f depth d s \<noteq> Inl OutOfFuel \<Longrightarrow>
      scan_object rt g depth d s = scan_object rt f depth d s"
proof (induction f arbitrary: g depth s xs d)
  case (Suc f)
  {
    case 1
    then obtain g' where g: "g = Suc g'" "f \<le> g'" by (cases g) auto
    from 1(2) Suc.IH(2,3) [OF g(2)] show ?case
      unfolding g(1) scan_value.simps(2) by (auto simp: Let_def split: list.splits if_splits)
  next
    case 2
    then obtain g' where g: "g = Suc g'" "f \<le> g'" by (cases g) auto
    have v: "scan_value rt f depth s \<noteq> Inl OutOfFuel" using 2(2) unfolding scan_list.simps(2) by auto
    from 2(2) Suc.IH(1) [OF g(2) v] Suc.IH(2) [OF g(2)] show ?case
      unfolding g(1) scan_list.simps(2) by (auto split: sum.splits list.splits if_splits)
  next
    case 3
    then obtain g' where g: "g = Suc g'" "f \<le> g'" by (cases g) auto
    show ?case
    proof (cases s)
      case (Cons q qs)
      show ?thesis
      proof (cases "scan_string rt qs")
        case (Some ks)
        obtain key s1 where ks: "ks = (key, s1)" by (cases ks)
        show ?thesis
        proof (cases "skip_ws s1")
          case s1: (Cons colon s2)
          show ?thesis
          proof (cases "q = quote \<and> colon = CHR '':''")
            case True
            with 3(2) have v: "scan_value rt f depth (skip_ws s2) \<noteq> Inl OutOfFuel"
              unfolding scan_object.simps(2) by (auto simp: Cons Some ks s1)
            from 3(2) Suc.IH(1) [OF g(2) v] Suc.IH(3) [OF g(2)] show ?thesis
              unfolding g(1) scan_object.simps(2)
              by (auto simp: Cons Some ks s1 True split: sum.splits list.splits if_splits)
          qed (use Some ks s1 Cons in \<open>auto simp: g\<close>)
        qed (use Some ks Cons in \<open>simp add: g\<close>)
      qed (use Cons in \<open>simp add: g\<close>)
    qed (simp add: g)
  }
qed simp_all

definition loads_within :: "nat \<Rightarrow> py_runtime \<Rightarrow> string \<Rightarrow> (loads_error + json) option" where
  \<comment> \<open>the reader stopped after \<open>fuel\<close> nested calls: \<open>None\<close> when it is not done\<close>
  "loads_within fuel rt s =
     (case scan_value rt fuel (recursion_limit rt) (skip_ws s) of
        Inl e \<Rightarrow> if e = OutOfFuel then None else Some (Inl e)
      | Inr (v, rest) \<Rightarrow> Some (if skip_ws rest = [] then Inr v else Inl JSONDecodeError))"

lemma loads_within_enough:
  assumes "2 * length s + 2 \<le> fuel"
  shows "loads_within fuel rt s = Some (json_loads rt s)"
proof -
  have enough: "scan_value rt (2 * length s + 2) (recursion_limit rt) (skip_ws s) \<noteq> Inl OutOfFuel"
    using scan_fuel(1) [of "skip_ws s" "2 * length s + 2" rt "recursion_limit rt"] skip_ws_length [of s]
    by auto
  from scan_more(1) [OF assms enough] enough show ?thesis
    by (auto simp: loads_within_def json_loads_def split: sum.split prod.split)
qed

end
