(* ===== verification/Py_Regex.thy ===== *)
theory Py_Regex
  imports Py_Text
begin

text \<open>
  The part of Python's \<open>re\<close> the program uses: backtracking matching of case-insensitive
  literals, character classes, greedy bounded repetition of a class, optional groups,
  alternation, \<open>^\<close> and \<open>\b\<close>, with \<open>search\<close> and \<open>subn\<close>.  A position in the text is the
  character before it and the text from it on; a match is a list of end positions, in the
  order the backtracking engine tries them.
\<close>

section \<open>Patterns\<close>

datatype charset =
    Same char               \<comment> \<open>a literal under \<open>re.IGNORECASE\<close>\<close>
  | SpacesOr "char list"    \<comment> \<open>\<open>[\s...]\<close>\<close>
  | OneOf "char list"
  | NoneOf "char list"      \<comment> \<open>\<open>[^...]\<close>\<close>

fun in_charset :: "charset \<Rightarrow> char \<Rightarrow> bool" where
  "in_charset (Same c) d = (lower_char d = lower_char c)"
| "in_charset (SpacesOr cs) d = (is_space d \<or> d \<in> set cs)"
| "in_charset (OneOf cs) d = (d \<in> set cs)"
| "in_charset (NoneOf cs) d = (d \<notin> set cs)"

datatype rx =
    Class charset nat "nat option"  \<comment> \<open>greedy \<open>[...]{lo,hi}\<close>; no upper bound: \<open>None\<close>\<close>
  | Cat "rx list"
  | Alts "rx list"
  | Boundary                               \<comment> \<open>\<open>\b\<close>\<close>
  | Start                                  \<comment> \<open>\<open>^\<close>\<close>

type_synonym text_pos = "char option \<times> string"

definition is_word :: "char \<Rightarrow> bool" where
  \<comment> \<open>\<open>\w\<close> below 256: \<open>isalnum\<close> or the underscore\<close>
  "is_word c \<longleftrightarrow> (let n = code c in
     48 \<le> n \<and> n \<le> 57 \<or> 65 \<le> n \<and> n \<le> 90 \<or> 97 \<le> n \<and> n \<le> 122 \<or> n = 95 \<or>
     n = 170 \<or> n = 178 \<or> n = 179 \<or> n = 181 \<or> n = 185 \<or> n = 186 \<or> 188 \<le> n \<and> n \<le> 190 \<or>
     192 \<le> n \<and> n \<noteq> 215 \<and> n \<noteq> 247)"

lemma is_word_bits [code]:
  "is_word (Char b0 b1 b2 b3 b4 b5 b6 b7) =
     (if b7 then
        (if b6 then \<not> (b0 \<and> b1 \<and> b2 \<and> \<not> b3 \<and> b4)
         else b5 \<and> (if b4 then (if b3 then b2 \<and> \<not> (b1 \<and> b0) \<or> \<not> b2 \<and> (b1 = (\<not> b0))
                                else b1 \<and> \<not> b2 \<or> b2 \<and> b0 \<and> \<not> b1)
                    else b3 \<and> \<not> b2 \<and> b1 \<and> \<not> b0))
      else if b6 then
        (b0 \<or> b1 \<or> b2 \<or> b3 \<or> b4) \<and> \<not> (b4 \<and> b3 \<and> (b2 \<or> b1 \<and> b0)) \<or>
        \<not> b5 \<and> b0 \<and> b1 \<and> b2 \<and> b3 \<and> b4
      else b5 \<and> b4 \<and> \<not> (b3 \<and> (b2 \<or> b1)))"
  by (cases b0; cases b1; cases b2; cases b3; cases b4; cases b5; cases b6; cases b7)
     (simp_all add: is_word_def)

definition at_boundary :: "text_pos \<Rightarrow> bool" where
  "at_boundary pos =
     ((case fst pos of None \<Rightarrow> False | Some c \<Rightarrow> is_word c) \<noteq>
      (case snd pos of [] \<Rightarrow> False | c # cs \<Rightarrow> is_word c))"

text \<open>The greedy ends of a class: the longest run first.\<close>

fun class_ends :: "charset \<Rightarrow> nat \<Rightarrow> nat option \<Rightarrow> text_pos \<Rightarrow> text_pos list" where
  "class_ends p lo hi (prev, []) = (if lo = 0 then [(prev, [])] else [])"
| "class_ends p lo hi (prev, c # cs) =
     (if in_charset p c \<and> hi \<noteq> Some 0
      then class_ends p (lo - 1) (map_option (\<lambda>n. n - 1) hi) (Some c, cs)
      else []) @ (if lo = 0 then [(prev, c # cs)] else [])"

fun matches :: "rx \<Rightarrow> text_pos \<Rightarrow> text_pos list"
  and cat_matches :: "rx list \<Rightarrow> text_pos \<Rightarrow> text_pos list"
  and alt_matches :: "rx list \<Rightarrow> text_pos \<Rightarrow> text_pos list" where
  "matches (Class p lo hi) pos = class_ends p lo hi pos"
| "matches (Cat rs) pos = cat_matches rs pos"
| "matches (Alts rs) pos = alt_matches rs pos"
| "matches Boundary pos = (if at_boundary pos then [pos] else [])"
| "matches Start pos = (if fst pos = None then [pos] else [])"
| "cat_matches [] pos = [pos]"
| "cat_matches (r # rs) pos = concat (map (cat_matches rs) (matches r pos))"
| "alt_matches [] pos = []"
| "alt_matches (r # rs) pos = matches r pos @ alt_matches rs pos"

definition lit :: "string \<Rightarrow> rx" where
  "lit s = Cat (map (\<lambda>c. Class (Same c) 1 (Some 1)) s)"

definition words :: "string list \<Rightarrow> rx" where
  "words ws = Alts (map lit ws)"

definition optional :: "rx \<Rightarrow> rx" where
  "optional r = Alts [r, Cat []]"

abbreviation spaces :: rx where
  "spaces \<equiv> Class (SpacesOr []) 0 None"

abbreviation spaces1 :: rx where
  "spaces1 \<equiv> Class (SpacesOr []) 1 None"

section \<open>search and subn\<close>

fun search :: "rx \<Rightarrow> char option \<Rightarrow> string \<Rightarrow> bool" where
  "search r prev [] = (matches r (prev, []) \<noteq> [])"
| "search r prev (c # cs) = (matches r (prev, c # cs) \<noteq> [] \<or> search r (Some c) cs)"

text \<open>
  \<open>subn\<close> replaces the leftmost match, resumes behind it, and counts.  The patterns of the
  program consume at least one character (\<open>consumes\<close> below), so the branch for an empty
  match is never taken.
\<close>

function subn :: "rx \<Rightarrow> string \<Rightarrow> char option \<Rightarrow> string \<Rightarrow> string \<times> nat" where
  "subn r replacement prev [] = ([], 0)"
| "subn r replacement prev (c # cs) =
     (case matches r (prev, c # cs) of
        (prev', s') # _ \<Rightarrow>
          if length s' \<le> length cs
          then let (body, n) = subn r replacement prev' s' in (replacement @ body, Suc n)
          else (c # cs, 0)
      | [] \<Rightarrow> let (body, n) = subn r replacement (Some c) cs in (c # body, n))"
  by pat_completeness auto
termination by (relation "measure (\<lambda>(r, replacement, prev, s). length s)") auto

section \<open>Consumption\<close>

fun consumes :: "rx \<Rightarrow> bool" where
  "consumes (Class p lo hi) = (0 < lo)"
| "consumes (Cat rs) = list_ex consumes rs"
| "consumes (Alts rs) = list_all consumes rs"
| "consumes Boundary = False"
| "consumes Start = False"

lemma class_ends_length:
  "(prev', s') \<in> set (class_ends p lo hi (prev, s)) \<Longrightarrow> length s' + lo \<le> length s"
proof (induction s arbitrary: prev lo hi)
  case (Cons c cs)
  show ?case
  proof (cases "(prev', s') \<in> set (class_ends p (lo - 1) (map_option (\<lambda>n. n - 1) hi) (Some c, cs))")
    case True
    from Cons.IH [OF True] show ?thesis by simp
  qed (use Cons.prems in \<open>auto split: if_splits\<close>)
qed (auto split: if_splits)

lemma matches_length:
  shows "(prev', s') \<in> set (matches r pos) \<Longrightarrow>
      length s' \<le> length (snd pos) \<and> (consumes r \<longrightarrow> length s' < length (snd pos))"
    and "(prev', s') \<in> set (cat_matches rs pos) \<Longrightarrow>
      length s' \<le> length (snd pos) \<and> (list_ex consumes rs \<longrightarrow> length s' < length (snd pos))"
    and "(prev', s') \<in> set (alt_matches rs pos) \<Longrightarrow>
      length s' \<le> length (snd pos) \<and> (list_all consumes rs \<longrightarrow> length s' < length (snd pos))"
proof (induction r pos and rs pos and rs pos arbitrary: prev' s' and prev' s' and prev' s'
    rule: matches_cat_matches_alt_matches.induct)
  case (1 p lo hi pos)
  then show ?case using class_ends_length [of prev' s' p lo hi "fst pos" "snd pos"] by auto
next
  case (7 r rs pos)
  then obtain q where q: "q \<in> set (matches r pos)" "(prev', s') \<in> set (cat_matches rs q)" by auto
  obtain a b where ab: "q = (a, b)" by (cases q)
  from 7(1) [of a b] 7(2) [OF q] q ab show ?case by fastforce
qed (auto split: if_splits)

lemma search_subn:
  assumes "consumes r"
  shows "snd (subn r replacement prev s) = 0 \<longleftrightarrow> \<not> search r prev s"
    and "\<not> search r prev s \<Longrightarrow> fst (subn r replacement prev s) = s"
proof -
  have "(snd (subn r replacement prev s) = 0 \<longleftrightarrow> \<not> search r prev s) \<and>
    (\<not> search r prev s \<longrightarrow> fst (subn r replacement prev s) = s)"
  proof (induction s arbitrary: prev)
    case Nil
    have "matches r (prev, []) = []"
      using matches_length(1) [of _ _ r "(prev, [])"] assms by (cases "matches r (prev, [])") auto
    then show ?case by simp
  next
    case (Cons c cs)
    show ?case
    proof (cases "matches r (prev, c # cs)")
      case Nil
      with Cons.IH [of "Some c"] show ?thesis
        by (auto split: prod.splits)
    next
      case (Cons m ms)
      obtain a b where m: "m = (a, b)" by (cases m)
      have "length b < length (c # cs)"
        using matches_length(1) [of a b r "(prev, c # cs)"] Cons m assms by auto
      with Cons m show ?thesis
        by (auto split: prod.splits)
    qed
  qed
  then show "snd (subn r replacement prev s) = 0 \<longleftrightarrow> \<not> search r prev s"
    and "\<not> search r prev s \<Longrightarrow> fst (subn r replacement prev s) = s" by auto
qed

end
