(* ===== verification/Llm_Clients.thy ===== *)
theory Llm_Clients
  imports Py_Text
begin

text \<open>
  \<open>context_engine/llm/__init__.py\<close> and \<open>mock.py\<close>: the protocol of a language-model client, the
  deterministic mock, and the dispatcher that reads the environment.  The vendor adapters are
  network calls: a client is a record of functions, and what a vendor answers is arbitrary.
\<close>

record llm_client =
  llm_name :: string
  llm_model :: string
  llm_complete :: "string \<Rightarrow> string option \<Rightarrow> int \<Rightarrow> py_exn + string"
  llm_summarize :: "string \<Rightarrow> int \<Rightarrow> py_exn + string"

definition mock_client :: llm_client where
  "mock_client =
     \<lparr>llm_name = ''mock'', llm_model = ''mock-model'',
      llm_complete = (\<lambda>prompt system max_tokens.
        Inr (''[mock-llm] '' @ (if 0 < max_tokens then py_take max_tokens prompt else prompt))),
      llm_summarize = (\<lambda>text max_tokens. Inr (py_take 200 text @ ''...[mock-summary]''))\<rparr>"

section \<open>The dispatcher\<close>

datatype client_choice =
    UseMock
  | UseAnthropic string string              \<comment> \<open>key, model\<close>
  | UseAzure string string string string    \<comment> \<open>key, endpoint, API version, model\<close>
  | UseOpenAI string string

datatype llm_sdk = Anthropic_SDK | OpenAI_SDK

type_synonym environ = "string \<Rightarrow> string option"

definition getenv_or :: "environ \<Rightarrow> string \<Rightarrow> string \<Rightarrow> string" where
  "getenv_or env k d = (case env k of None \<Rightarrow> d | Some v \<Rightarrow> v)"

definition py_in :: "string \<Rightarrow> string \<Rightarrow> bool" where
  \<comment> \<open>\<open>needle in s\<close>\<close>
  "py_in needle s = list_ex (\<lambda>k. starts_with (drop k s) needle) [0..<Suc (length s)]"

definition is_placeholder :: "string option \<Rightarrow> bool" where
  "is_placeholder v =
     (case v of
        None \<Rightarrow> True
      | Some s \<Rightarrow> s = [] \<or>
          list_ex (\<lambda>n. py_in n s) [''REPLACE-WITH'', ''YOUR-KEY'', ''YOUR-RESOURCE'', ''YOUR-DEPLOYMENT''])"

definition or_env :: "string option \<Rightarrow> string option \<Rightarrow> string option" where
  \<comment> \<open>\<open>a or b\<close>\<close>
  "or_env a b = (case a of None \<Rightarrow> b | Some s \<Rightarrow> if s = [] then b else Some s)"

definition get_client :: "environ \<Rightarrow> (llm_sdk \<Rightarrow> bool) \<Rightarrow> client_choice" where
  "get_client env installed =
     (if py_lower (getenv_or env ''MOCK_LLM'' []) \<in> set [''true'', ''1'', ''yes''] then UseMock
      else let provider = py_lower (getenv_or env ''LLM_PROVIDER'' ''mock'') in
      if provider = ''anthropic'' then
        (let api_key = env ''ANTHROPIC_API_KEY''
         in if is_placeholder api_key \<or> \<not> installed Anthropic_SDK then UseMock
            else UseAnthropic (case api_key of None \<Rightarrow> [] | Some k \<Rightarrow> k)
                   (getenv_or env ''ANTHROPIC_MODEL'' ''claude-sonnet-4-6''))
      else if provider = ''azure'' then
        (let api_key = or_env (env ''AZURE_API_KEY'') (env ''AZURE_OPENAI_API_KEY'');
             endpoint = or_env (env ''AZURE_ENDPOINT'') (env ''AZURE_OPENAI_ENDPOINT'');
             api_version = or_env (or_env (env ''AZURE_API_VERSION'') (env ''AZURE_OPENAI_API_VERSION''))
               (Some ''2024-05-01-preview'');
             model = or_env (env ''LLM_MODEL'') (env ''AZURE_OPENAI_DEPLOYMENT'')
         in if is_placeholder api_key \<or> is_placeholder endpoint \<or> model \<in> {None, Some []} \<or>
               \<not> installed OpenAI_SDK then UseMock
            else UseAzure (case api_key of None \<Rightarrow> [] | Some k \<Rightarrow> k)
                   (case endpoint of None \<Rightarrow> [] | Some e \<Rightarrow> e)
                   (case api_version of None \<Rightarrow> [] | Some v \<Rightarrow> v)
                   (case model of None \<Rightarrow> [] | Some m \<Rightarrow> m))
      else if provider = ''openai'' then
        (let api_key = env ''OPENAI_API_KEY''
         in if is_placeholder api_key \<or> \<not> installed OpenAI_SDK then UseMock
            else UseOpenAI (case api_key of None \<Rightarrow> [] | Some k \<Rightarrow> k)
                   (getenv_or env ''OPENAI_MODEL'' ''gpt-4o-mini''))
      else UseMock)"

lemma is_placeholder_None: "is_placeholder None"
  by (simp add: is_placeholder_def)

text \<open>
  No vendor is called without credentials: the dispatcher picks the mock when it is asked
  to, and any vendor it picks has its SDK installed, a key (and, for Azure, an endpoint and a
  model) that is set and is not a template value.
\<close>

fun choice_credentials :: "client_choice \<Rightarrow> (llm_sdk \<times> string list \<times> string list) option" where
  "choice_credentials UseMock = None"
| "choice_credentials (UseAnthropic k m) = Some (Anthropic_SDK, [k], [])"
| "choice_credentials (UseAzure k e v m) = Some (OpenAI_SDK, [k, e], [m])"
| "choice_credentials (UseOpenAI k m) = Some (OpenAI_SDK, [k], [])"

theorem vendor_needs_credentials:
  "case choice_credentials (get_client env installed) of
     None \<Rightarrow> True
   | Some (sdk, secrets, names) \<Rightarrow>
       installed sdk \<and> list_all (\<lambda>s. \<not> is_placeholder (Some s)) secrets \<and> list_all (\<lambda>s. s \<noteq> []) names \<and>
       py_lower (getenv_or env ''MOCK_LLM'' []) \<notin> {''true'', ''1'', ''yes''}"
proof -
  let ?off = "py_lower (getenv_or env ''MOCK_LLM'' []) \<in> {''true'', ''1'', ''yes''}"
  let ?provider = "py_lower (getenv_or env ''LLM_PROVIDER'' ''mock'')"
  show ?thesis
  proof (cases "?off \<or> ?provider \<notin> {''anthropic'', ''azure'', ''openai''}")
    case True
    then have "get_client env installed = UseMock" by (auto simp: get_client_def Let_def)
    then show ?thesis by simp
  next
    case False
    then have on: "\<not> ?off" and p: "?provider \<in> {''anthropic'', ''azure'', ''openai''}" by auto
    consider (anthropic) "?provider = ''anthropic''" | (azure) "?provider = ''azure''"
      | (openai) "?provider = ''openai''" using p by blast
    then show ?thesis
    proof cases
      case anthropic
      then show ?thesis using on
        by (cases "is_placeholder (env ''ANTHROPIC_API_KEY'')"; cases "env ''ANTHROPIC_API_KEY''")
           (simp_all add: get_client_def Let_def is_placeholder_None)
    next
      case azure
      let ?k = "or_env (env ''AZURE_API_KEY'') (env ''AZURE_OPENAI_API_KEY'')"
      let ?e = "or_env (env ''AZURE_ENDPOINT'') (env ''AZURE_OPENAI_ENDPOINT'')"
      let ?m = "or_env (env ''LLM_MODEL'') (env ''AZURE_OPENAI_DEPLOYMENT'')"
      show ?thesis
      proof (cases "is_placeholder ?k \<or> is_placeholder ?e \<or> ?m \<in> {None, Some []} \<or> \<not> installed OpenAI_SDK")
        case True
        with azure on have "get_client env installed = UseMock" by (simp add: get_client_def Let_def)
        then show ?thesis by simp
      next
        case False
        then obtain k e m where kem: "?k = Some k" "?e = Some e" "?m = Some m"
          by (metis insertCI is_placeholder_None option.exhaust)
        with False azure on show ?thesis by (simp add: get_client_def Let_def)
      qed
    next
      case openai
      then show ?thesis using on
        by (cases "is_placeholder (env ''OPENAI_API_KEY'')"; cases "env ''OPENAI_API_KEY''")
           (simp_all add: get_client_def Let_def is_placeholder_None)
    qed
  qed
qed

end
