(* ===== verification/Planner.thy ===== *)
theory Planner
  imports Json_Reader Prompt_Injection Llm_Clients Decision_Pipeline_Spec Ring_Buffers
begin

text \<open>
  \<open>orchestrator/planner.py\<close>: from an event envelope to one action proposal, by a language model
  whose answer must parse, or by the rule table; and the listener handlers that run the
  planner and the pipeline on every envelope.  \<open>rt\<close> is the interpreter (see \<open>Json_Reader\<close>); its
  \<open>wide_char\<close> also writes the em dashes of the prompts.
\<close>

section \<open>Rule table and prompts\<close>

definition FALLBACK_RULES :: "(string \<times> action_type) list" where
  "FALLBACK_RULES =
     [(''message_received'', SEND_BORROWER_MESSAGE), (''document_uploaded'', UPDATE_STATUS),
      (''status_changed'', NOTIFY_LOAN_OFFICER), (''anomaly_detected'', NOTIFY_LOAN_OFFICER),
      (''system_event'', NO_OP)]"

definition FALLBACK_DEFAULT :: action_type where
  "FALLBACK_DEFAULT = NOTIFY_LOAN_OFFICER"

definition em_dash :: "py_runtime \<Rightarrow> string" where
  "em_dash rt = wide_char rt 0x2014"

definition PLANNER_SYSTEM_PROMPT :: "py_runtime \<Rightarrow> string" where
  \<open>PLANNER_SYSTEM_PROMPT rt = join [newline]
     [''You are the planner for a customer-service AI orchestrator. Given a'',
      ''customer event and a short customer brief, decide ONE action the system'',
      ''should propose. Output ONLY a JSON object with EXACTLY this shape '' @ em_dash rt @ '' no'',
      ''prose, no markdown fences, no preamble:'',
      '''',
      ''{"action_type": "<one of: send_borrower_message, notify_loan_officer, schedule_call, request_document, update_status, no_op>",'',
      '' "reasoning": "<one short sentence on why>",'',
      '' "payload": {"<key>": "<value>"}}'',
      '''',
      ''Rules:'',
      ''- "action_type" MUST be one of the listed values. Never invent a new one.'',
      ''- "payload" MUST be a JSON object (possibly empty `{}`). For send_borrower_message,'',
      ''  include a "message" key with the text to send. For notify_loan_officer, include'',
      ''  a "reason" key. For request_document, include a "document_type" key.'',
      ''- When in doubt, choose "notify_loan_officer" '' @ em_dash rt @ '' a human can always escalate up'',
      ''  or down from there. Never choose "no_op" unless the event is clearly a system'',
      ''  heartbeat or duplicate.'',
      ''- "reasoning" is for the audit log, not for the customer. Keep it factual and'',
      ''  one sentence.'']\<close>

record plan_request =
  plr_envelope :: dict
  plr_brief_text :: string

definition default_proposal_id :: "world \<Rightarrow> string \<times> world" where
  "default_proposal_id w = (let (u, w') = uuid4 w in (''prop_'' @ u, w'))"

definition format_user_prompt :: "py_runtime \<Rightarrow> plan_request \<Rightarrow> string option \<Rightarrow> string" where
  "format_user_prompt rt request sanitised_brief =
     (let env = plr_envelope request;
          field = (\<lambda>k. dict_get_or env k JNull);
          brief_body = (case sanitised_brief of None \<Rightarrow> plr_brief_text request | Some b \<Rightarrow> b);
          brief_block =
            (if brief_body \<noteq> [] then ''Customer brief:'' @ [newline] @ brief_body @ [newline]
             else ''Customer brief: (no brief available '' @ em_dash rt @
                  '' customer not yet linked or brief lookup failed)'' @ [newline])
      in ''Event:'' @ [newline] @
         ''  event_id: '' @ py_str (field ''event_id'') @ [newline] @
         ''  tenant_id: '' @ py_str (field ''tenant_id'') @ [newline] @
         ''  customer_id: '' @ (if truthy (field ''customer_id'') then py_str (field ''customer_id'')
                                else ''(unlinked)'') @ [newline] @
         ''  channel_code: '' @ py_str (field ''channel_code'') @ [newline] @
         ''  event_type: '' @ py_str (field ''event_type'') @ [newline] @
         ''  received_at: '' @ py_str (field ''received_at'') @ [newline] @
         [newline] @ brief_block @ [newline] @ ''Return ONE JSON object as instructed.'')"

section \<open>Parsing the answer\<close>

text \<open>One markdown fence around the answer is dropped.\<close>

definition is_fence :: "string \<Rightarrow> bool" where
  "is_fence s = starts_with s ''```''"

definition strip_fence :: "string \<Rightarrow> string" where
  "strip_fence cleaned =
     (if is_fence cleaned
      then py_strip (join [newline]
             (takeWhile (\<lambda>line. \<not> is_fence (py_strip line)) (tl (py_splitlines cleaned))))
      else cleaned)"

text \<open>
  \<open>None\<close> is a shape violation.  Only \<open>JSONDecodeError\<close> is caught; what else \<open>json.loads\<close> raises
  leaves the function.
\<close>

definition loads_exn :: "loads_error \<Rightarrow> py_exn" where
  "loads_exn e =
     (case e of
        LoadsValueError \<Rightarrow> Exn ''ValueError'' ''Exceeds the limit for integer string conversion''
      | _ \<Rightarrow> Exn ''RecursionError'' ''maximum recursion depth exceeded while decoding a JSON value'')"

definition read_answer :: "json \<Rightarrow> (action_type \<times> dict) option" where
  "read_answer obj =
     (case obj of
        JObj d \<Rightarrow>
          (case dict_get_or d ''action_type'' JNull of
             JStr action_str \<Rightarrow>
               (case action_type_of action_str of
                  None \<Rightarrow> None
                | Some action_type \<Rightarrow>
                    (case dict_get_or d ''payload'' (JObj []) of
                       JObj payload \<Rightarrow>
                         Some (action_type,
                           (case dict_get_or d ''reasoning'' JNull of
                              JStr reasoning \<Rightarrow>
                                if reasoning \<noteq> [] \<and> dict_get payload ''_planner_reasoning'' = None
                                then dict_set ''_planner_reasoning'' (JStr reasoning) payload
                                else payload
                            | _ \<Rightarrow> payload))
                     | _ \<Rightarrow> None))
           | _ \<Rightarrow> None)
      | _ \<Rightarrow> None)"

definition parse_llm_response :: "py_runtime \<Rightarrow> string \<Rightarrow> py_exn + (action_type \<times> dict) option" where
  "parse_llm_response rt raw =
     (if raw = [] then Inr None
      else case json_loads rt (strip_fence (py_strip raw)) of
        Inl JSONDecodeError \<Rightarrow> Inr None
      | Inl e \<Rightarrow> Inl (loads_exn e)
      | Inr obj \<Rightarrow> Inr (read_answer obj))"

section \<open>Proposals\<close>

text \<open>\<open>ActionProposal(...)\<close> with fields taken from the envelope: the validation of the model.\<close>

definition make_proposal :: "string \<Rightarrow> dict \<Rightarrow> action_type \<Rightarrow> proposed_by \<Rightarrow> dict \<Rightarrow> world \<Rightarrow>
    (py_exn, proposal, world) outcome" where
  "make_proposal pid env action_type by payload w =
     (let invalid = (Inl (Exn ''ValidationError'' ''ActionProposal''), w);
          (t, w') = now w
      in case (dict_get_or env ''tenant_id'' JNull, dict_get_or env ''event_id'' JNull) of
           (JStr tenant, JStr event) \<Rightarrow>
             (case (case dict_get_or env ''customer_id'' JNull of
                      JNull \<Rightarrow> Some None | JStr c \<Rightarrow> Some (Some c) | _ \<Rightarrow> None) of
                None \<Rightarrow> invalid
              | Some customer \<Rightarrow>
                  let p = \<lparr>pr_id = pid, pr_tenant_id = tenant, pr_event_id = event,
                           pr_customer_id = customer, pr_action_type = action_type,
                           pr_proposed_by = by, pr_payload = payload, pr_created_at = t\<rparr>
                  in if proposal_valid p then (Inr p, w') else invalid)
         | _ \<Rightarrow> invalid)"

definition flag_values :: "injection_flag list \<Rightarrow> json" where
  "flag_values flags = JList (map (\<lambda>f. JStr (injection_flag_value f)) flags)"

definition fallback_proposal :: "plan_request \<Rightarrow> (world \<Rightarrow> string \<times> world) \<Rightarrow> injection_flag list \<Rightarrow>
    world \<Rightarrow> (py_exn, proposal, world) outcome" where
  "fallback_proposal request proposal_id_factory injection_flags w =
     (let envelope = plr_envelope request;
          event_type = dict_get_or envelope ''event_type'' (JStr [])
      in case event_type of
           JList xs \<Rightarrow> (Inl (unhashable ''list''), w)
         | JObj d \<Rightarrow> (Inl (unhashable ''dict''), w)
         | _ \<Rightarrow>
             let rule = (case event_type of JStr s \<Rightarrow> map_of FALLBACK_RULES s | _ \<Rightarrow> None);
                 action_type = (case rule of None \<Rightarrow> FALLBACK_DEFAULT | Some a \<Rightarrow> a);
                 reason = (if rule \<noteq> None
                   then ''rule-table fallback for event_type='' @ py_repr event_type
                   else ''rule-table default (unknown event_type='' @ py_repr event_type @ '', escalating)'');
                 payload = [(''_planner_reasoning'', JStr reason)];
                 payload' = (if injection_flags \<noteq> []
                   then dict_set ''_injection_flags'' (flag_values injection_flags) payload else payload);
                 (pid, w1) = proposal_id_factory w
             in make_proposal pid envelope action_type FALLBACK payload' w1)"

definition propose_action :: "py_runtime \<Rightarrow> plan_request \<Rightarrow> llm_client \<Rightarrow> (world \<Rightarrow> string \<times> world) \<Rightarrow>
    world \<Rightarrow> (py_exn, proposal, world) outcome" where
  "propose_action rt request client proposal_id_factory w =
     (let env = plr_envelope request;
          tenant_id = dict_get_or env ''tenant_id'' JNull;
          event_id = dict_get_or env ''event_id'' JNull
      in if \<not> truthy tenant_id \<or> \<not> truthy event_id then
           (Inl (Exn ''ValueError'' (''envelope missing required fields: tenant_id='' @
              py_repr tenant_id @ '', event_id='' @ py_repr event_id)), w)
         else
           let sanitised = sanitize_for_prompt (plr_brief_text request) True;
               fallback = fallback_proposal request proposal_id_factory (st_flags sanitised) w
           in if llm_name client = ''mock'' then fallback
              else case llm_complete client (format_user_prompt rt request (Some (st_sanitized sanitised)))
                     (Some (PLANNER_SYSTEM_PROMPT rt)) 256 of
                Inl e \<Rightarrow> fallback
              | Inr raw \<Rightarrow>
                  (case parse_llm_response rt raw of
                     Inl e \<Rightarrow> (Inl e, w)
                   | Inr None \<Rightarrow> fallback
                   | Inr (Some (action_type, payload)) \<Rightarrow>
                       let payload' = (if st_flags sanitised \<noteq> []
                             then dict_set ''_injection_flags'' (flag_values (st_flags sanitised)) payload
                             else payload);
                           (pid, w1) = proposal_id_factory w
                       in make_proposal pid env action_type LLM payload' w1))"

section \<open>The listener handlers\<close>

text \<open>
  What the handlers of one process share: the diagnostic buffers and the pipeline, whose
  environment is the process's.  A handler returns the exception it lets escape.
\<close>

record orchestrator =
  os_recent :: recent_events_buffer
  os_proposals :: proposals_buffer
  os_pipeline :: pipeline

type_synonym event_handler = "dict \<Rightarrow> orchestrator \<Rightarrow> (py_exn, unit, orchestrator) outcome"

definition make_buffered_handler :: event_handler where
  "make_buffered_handler envelope s =
     (case reb_append envelope (os_recent s) of
        (r, b) \<Rightarrow> (r, s\<lparr>os_recent := b\<rparr>))"

text \<open>\<open>client\<close> is what the client factory returns or raises on this call.\<close>

definition make_planning_handler :: "py_runtime \<Rightarrow> py_exn + llm_client \<Rightarrow> (world \<Rightarrow> string \<times> world) \<Rightarrow> bool \<Rightarrow>
    event_handler" where
  "make_planning_handler rt client proposal_id_factory with_pipeline envelope s =
     (case client of
        Inl e \<Rightarrow> (Inr (), s)
      | Inr c \<Rightarrow>
          (case propose_action rt \<lparr>plr_envelope = envelope, plr_brief_text = []\<rparr> c proposal_id_factory
                  (p_world (os_pipeline s)) of
             (Inl e, w) \<Rightarrow> (Inr (), s\<lparr>os_pipeline := (os_pipeline s)\<lparr>p_world := w\<rparr>\<rparr>)
           | (Inr proposal, w) \<Rightarrow>
               let p = (os_pipeline s)\<lparr>p_world := w\<rparr>;
                   s1 = s\<lparr>os_proposals := pb_append proposal (os_proposals s), os_pipeline := p\<rparr>
               in if with_pipeline
                  then (Inr (), s1\<lparr>os_pipeline := snd (handle_proposal proposal p)\<rparr>)
                  else (Inr (), s1)))"

definition chain_handlers :: "event_handler list \<Rightarrow> event_handler" where
  "chain_handlers handlers envelope s = (Inr (), fold (\<lambda>h s. snd (h envelope s)) handlers s)"

end
