(* ===== verification/Planner_Spec.thy ===== *)
theory Planner_Spec
  imports Planner
begin

text \<open>
  What the planner guarantees: one valid proposal for every well-formed envelope, whatever
  the language model does, as long as \<open>json.loads\<close> fails only with \<open>JSONDecodeError\<close>; and what
  happens when it fails otherwise.
\<close>

section \<open>Well-formed envelopes\<close>

definition env_ok :: "dict \<Rightarrow> string \<Rightarrow> string \<Rightarrow> bool" where
  "env_ok env t e \<longleftrightarrow>
     dict_get env ''tenant_id'' = Some (JStr t) \<and> len_within 1 64 t \<and>
     dict_get env ''event_id'' = Some (JStr e) \<and> len_within 1 64 e \<and>
     (\<exists>kind. dict_get env ''event_type'' = Some (JStr kind)) \<and>
     (dict_get_or env ''customer_id'' JNull = JNull \<or>
      (\<exists>c. dict_get_or env ''customer_id'' JNull = JStr c \<and> length c \<le> 64))"

definition rule_of :: "dict \<Rightarrow> action_type" where
  "rule_of env =
     (case dict_get env ''event_type'' of
        Some (JStr kind) \<Rightarrow> (case map_of FALLBACK_RULES kind of None \<Rightarrow> FALLBACK_DEFAULT | Some a \<Rightarrow> a)
      | _ \<Rightarrow> FALLBACK_DEFAULT)"

definition env_customer :: "dict \<Rightarrow> string option" where
  "env_customer env = (case dict_get_or env ''customer_id'' JNull of JStr c \<Rightarrow> Some c | _ \<Rightarrow> None)"

lemma make_proposal_ok:
  assumes "env_ok env t e" "len_within 1 64 pid"
  shows "\<exists>p. make_proposal pid env a by payload w = (Inr p, snd (now w)) \<and> proposal_valid p \<and>
    pr_id p = pid \<and> pr_tenant_id p = t \<and> pr_event_id p = e \<and> pr_customer_id p = env_customer env \<and>
    pr_action_type p = a \<and> pr_proposed_by p = by \<and> pr_payload p = payload"
  using assms
  by (auto simp: env_ok_def make_proposal_def proposal_valid_def dict_get_or_def env_customer_def
      opt_max_def Let_def split: prod.split option.splits json.splits)

lemma default_id_ok:
  "length (uuid_of w (uuids_drawn w)) = 32 \<Longrightarrow> default_proposal_id w = (pid, w') \<Longrightarrow>
   len_within 1 64 pid \<and> w' = snd (uuid4 w)"
  by (auto simp: default_proposal_id_def len_within_def uuid4_def)

lemma fallback_ok:
  assumes "env_ok env t e" "plr_envelope request = env" "length (uuid_of w (uuids_drawn w)) = 32"
  shows "\<exists>p. fallback_proposal request default_proposal_id flags w = (Inr p, snd (now (snd (uuid4 w)))) \<and>
    proposal_valid p \<and> pr_tenant_id p = t \<and> pr_event_id p = e \<and> pr_customer_id p = env_customer env \<and>
    pr_action_type p = rule_of env \<and> pr_proposed_by p = FALLBACK \<and>
    dict_get (pr_payload p) ''_planner_reasoning'' \<noteq> None \<and>
    dict_get (pr_payload p) ''_injection_flags'' = (if flags = [] then None else Some (flag_values flags))"
proof -
  obtain kind where kind: "dict_get env ''event_type'' = Some (JStr kind)"
    using assms(1) by (auto simp: env_ok_def)
  obtain pid w' where pid: "default_proposal_id w = (pid, w')" by fastforce
  note id = default_id_ok [OF assms(3) pid]
  show ?thesis
    using make_proposal_ok [OF assms(1) conjunct1 [OF id]] id assms(2) kind pid
    by (fastforce simp: fallback_proposal_def Let_def dict_get_or_def rule_of_def)
qed

text \<open>The answer the planner acts on: what a client that is not the mock returned and parsed.\<close>

definition llm_answer :: "py_runtime \<Rightarrow> plan_request \<Rightarrow> llm_client \<Rightarrow> py_exn + (action_type \<times> dict) option" where
  "llm_answer rt request client =
     (if llm_name client = ''mock'' then Inr None
      else case llm_complete client
             (format_user_prompt rt request
                (Some (st_sanitized (sanitize_for_prompt (plr_brief_text request) True))))
             (Some (PLANNER_SYSTEM_PROMPT rt)) 256 of
        Inl e \<Rightarrow> Inr None
      | Inr raw \<Rightarrow> parse_llm_response rt raw)"

lemma propose_action_answer:
  assumes "env_ok env t e" "plr_envelope request = env"
  defines "flags \<equiv> st_flags (sanitize_for_prompt (plr_brief_text request) True)"
  shows "propose_action rt request client factory w =
    (case llm_answer rt request client of
       Inl e \<Rightarrow> (Inl e, w)
     | Inr None \<Rightarrow> fallback_proposal request factory flags w
     | Inr (Some (a, payload)) \<Rightarrow>
         (case factory w of (pid, w1) \<Rightarrow>
            make_proposal pid env a LLM
              (if flags \<noteq> [] then dict_set ''_injection_flags'' (flag_values flags) payload else payload) w1))"
proof -
  have "truthy (dict_get_or env ''tenant_id'' JNull)" "truthy (dict_get_or env ''event_id'' JNull)"
    using assms(1) by (auto simp: env_ok_def dict_get_or_def len_within_def)
  then show ?thesis
    by (simp add: propose_action_def llm_answer_def assms(2) flags_def [symmetric] Let_def
        split: sum.split option.split prod.split)
qed

lemma propose_ok:
  assumes env: "env_ok env t e" and req: "plr_envelope request = env"
    and w: "length (uuid_of w (uuids_drawn w)) = 32"
    and answer: "llm_answer rt request client = Inr ans"
  shows "\<exists>p. propose_action rt request client default_proposal_id w = (Inr p, snd (now (snd (uuid4 w)))) \<and>
    proposal_valid p \<and> pr_tenant_id p = t \<and> pr_event_id p = e \<and> pr_customer_id p = env_customer env \<and>
    (case ans of
       None \<Rightarrow> pr_proposed_by p = FALLBACK \<and> pr_action_type p = rule_of env
     | Some (a, payload) \<Rightarrow> pr_proposed_by p = LLM \<and> pr_action_type p = a) \<and>
    (st_flags (sanitize_for_prompt (plr_brief_text request) True) \<noteq> [] \<longrightarrow>
       dict_get (pr_payload p) ''_injection_flags'' =
         Some (flag_values (st_flags (sanitize_for_prompt (plr_brief_text request) True))))"
proof (cases ans)
  case None
  with fallback_ok [OF env req w, of "st_flags (sanitize_for_prompt (plr_brief_text request) True)"]
    propose_action_answer [OF env req, of rt client default_proposal_id w] answer
  show ?thesis by auto
next
  case (Some ap)
  obtain a payload where ap: "ap = (a, payload)" by (cases ap)
  obtain pid w' where pid: "default_proposal_id w = (pid, w')" by fastforce
  note id = default_id_ok [OF w pid]
  define flags where "flags = st_flags (sanitize_for_prompt (plr_brief_text request) True)"
  from make_proposal_ok [OF env conjunct1 [OF id], of a LLM
      "if flags \<noteq> [] then dict_set ''_injection_flags'' (flag_values flags) payload else payload" w'] id
    propose_action_answer [OF env req, of rt client default_proposal_id w] answer Some ap pid
  show ?thesis unfolding flags_def by (fastforce simp: update_conv)
qed

section \<open>Answers that do not parse as documented\<close>

lemma digit_facts:
  assumes "is_digit c"
  shows "\<not> is_space c" "c \<noteq> quote" "c \<noteq> CHR ''[''" "c \<noteq> CHR ''{''" "c \<noteq> CHR ''`''" "c \<noteq> CHR ''-''"
    "c \<notin> set [CHR '' '', CHR 0x09, CHR 0x0A, CHR 0x0D]" "c \<notin> set [CHR ''n'', CHR ''t'', CHR ''f'', CHR ''N'', CHR ''I'']"
  using assms by (auto simp: is_digit_def is_space_def quote_def)

lemma loads_long_integer:
  assumes "list_all is_digit ds" "ds \<noteq> []" "hd ds \<noteq> CHR ''0''" "max_int_digits rt < length ds"
  shows "json_loads rt ds = Inl LoadsValueError"
proof -
  obtain c cs where ds: "ds = c # cs" using assms(2) by (cases ds) auto
  then have c: "is_digit c" using assms(1) by simp
  note f = digit_facts [OF c]
  have run: "takeWhile is_digit (c # cs) = c # cs"
    using assms(1) ds by (simp add: takeWhile_eq_all_conv list_all_iff)
  have "find (\<lambda>(word, v). starts_with (c # cs) word) constants = None"
    using f by (auto simp: constants_def starts_with_def)
  then have "scan_scalar rt (c # cs) = Inl LoadsValueError"
    using f run assms(3,4) ds
    by (simp add: scan_scalar_def scan_number_def Let_def split_fraction_def split_exponent_def)
  then have "scan_value rt (Suc n) depth (c # cs) = Inl LoadsValueError" for n depth
    using f by simp
  moreover have "skip_ws ds = ds" using f(7) ds by (simp add: skip_ws_def)
  ultimately show ?thesis by (simp add: json_loads_def ds)
qed

lemma parse_long_integer:
  assumes "list_all is_digit ds" "ds \<noteq> []" "hd ds \<noteq> CHR ''0''" "max_int_digits rt < length ds"
  shows "parse_llm_response rt ds =
    Inl (Exn ''ValueError'' ''Exceeds the limit for integer string conversion'')"
proof -
  have "\<not> is_space c" if "c \<in> set ds" for c using assms(1) that digit_facts(1) by (auto simp: list_all_iff)
  then have "py_strip ds = ds" by (intro strip_fixed) (simp add: assms(2))
  moreover have "\<not> is_fence ds"
    using assms(1,2) digit_facts(5) by (cases ds) (auto simp: is_fence_def starts_with_def)
  ultimately show ?thesis
    using assms(2) loads_long_integer [OF assms]
    by (simp add: parse_llm_response_def strip_fence_def loads_exn_def)
qed

section \<open>Properties\<close>

text \<open>
  C40. The planner never leaves an event without a proposal: for a well-formed envelope and a
  client whose answer (if any) \<open>json.loads\<close> reads or refuses with \<open>JSONDecodeError\<close>, it returns
  one valid proposal carrying the envelope's tenant, event and customer.  The proposal is the
  model's exactly when the client answered with a well-shaped object, and then has the action
  that object names; in every other case (mock client, failed call, unparseable answer) it is
  the rule table's.  Injection flags raised by the brief are stamped on the payload either way.
\<close>

theorem planner_always_proposes:
  assumes "env_ok (plr_envelope request) t e"
    and "length (uuid_of w (uuids_drawn w)) = 32"
    and "llm_answer rt request client = Inr ans"
  shows "\<exists>p. propose_action rt request client default_proposal_id w = (Inr p, snd (now (snd (uuid4 w)))) \<and>
    proposal_valid p \<and> pr_tenant_id p = t \<and> pr_event_id p = e \<and>
    pr_customer_id p = env_customer (plr_envelope request) \<and>
    (case ans of
       None \<Rightarrow> pr_proposed_by p = FALLBACK \<and> pr_action_type p = rule_of (plr_envelope request)
     | Some (a, payload) \<Rightarrow> pr_proposed_by p = LLM \<and> pr_action_type p = a) \<and>
    (st_flags (sanitize_for_prompt (plr_brief_text request) True) \<noteq> [] \<longrightarrow>
       dict_get (pr_payload p) ''_injection_flags'' =
         Some (flag_values (st_flags (sanitize_for_prompt (plr_brief_text request) True))))"
  by (rule propose_ok [OF assms(1) refl assms(2,3)])

definition demo_runtime :: py_runtime where
  "demo_runtime = \<lparr>float_repr = (\<lambda>s. s), wide_char = (\<lambda>n. ''?''), recursion_limit = 1000,
     max_int_digits = 4300\<rparr>"

definition demo_envelope :: "string \<Rightarrow> dict" where
  "demo_envelope e = [(''event_id'', JStr e), (''tenant_id'', JStr ''t1''), (''customer_id'', JNull),
     (''channel_code'', JStr ''sms''), (''event_type'', JStr ''message_received''),
     (''received_at'', JStr ''2026-01-01T00:00:00+00:00'')]"

definition answering :: "string \<Rightarrow> llm_client" where
  "answering answer = \<lparr>llm_name = ''openai'', llm_model = ''m'', llm_complete = (\<lambda>_ _ _. Inr answer),
     llm_summarize = (\<lambda>text _. Inr text)\<rparr>"

lemma demo_env_ok: "env_ok (demo_envelope ''e1'') ''t1'' ''e1''"
  by (simp add: env_ok_def demo_envelope_def dict_get_or_def len_within_def)

definition demo_answer :: string where
  \<open>demo_answer = ''```json'' @ [newline] @
     ''{"action_type": "schedule_call", "reasoning": "asked"}'' @ [newline] @ ''```''\<close>

lemma demo_answer_parsed:
  "parse_llm_response demo_runtime demo_answer =
     Inr (Some (SCHEDULE_CALL, [(''_planner_reasoning'', JStr ''asked'')]))"
  by code_simp

theorem planner_always_proposes_witness:
  "\<exists>p w'. propose_action demo_runtime \<lparr>plr_envelope = demo_envelope ''e1'', plr_brief_text = []\<rparr>
      (answering demo_answer) default_proposal_id demo_world = (Inr p, w') \<and>
    pr_proposed_by p = LLM \<and> pr_action_type p = SCHEDULE_CALL"
proof -
  have "llm_answer demo_runtime \<lparr>plr_envelope = demo_envelope ''e1'', plr_brief_text = []\<rparr> (answering demo_answer) =
      Inr (Some (SCHEDULE_CALL, [(''_planner_reasoning'', JStr ''asked'')]))"
    by (simp add: llm_answer_def answering_def demo_answer_parsed)
  moreover have "length (uuid_of demo_world (uuids_drawn demo_world)) = 32"
    by (simp add: demo_world_def demo_uuid_def)
  ultimately show ?thesis
    using planner_always_proposes [of "\<lparr>plr_envelope = demo_envelope ''e1'', plr_brief_text = []\<rparr>" "''t1''" "''e1''"]
      demo_env_ok by fastforce
qed

text \<open>
  A defect: ``the function never raises on LLM failure'' does not hold.  \<open>json.loads\<close> raises
  a plain \<open>ValueError\<close> on an integer with more digits than the interpreter converts, which is
  not a \<open>JSONDecodeError\<close>; a model that answers with such a number makes the planner raise, the
  handler swallow the exception, and the event disappear without a proposal, an action or an
  audit row.
\<close>

theorem long_integer_loses_event:
  assumes "env_ok env t e" and "llm_name client \<noteq> ''mock''"
    and "\<forall>prompt. llm_complete client prompt (Some (PLANNER_SYSTEM_PROMPT rt)) 256 = Inr ds"
    and "list_all is_digit ds" and "ds \<noteq> []" and "hd ds \<noteq> CHR ''0''" and "max_int_digits rt < length ds"
  shows "propose_action rt \<lparr>plr_envelope = env, plr_brief_text = []\<rparr> client default_proposal_id w =
      (Inl (Exn ''ValueError'' ''Exceeds the limit for integer string conversion''), w) \<and>
    make_planning_handler rt (Inr client) default_proposal_id True env s = (Inr (), s)"
proof -
  let ?rq = "\<lparr>plr_envelope = env, plr_brief_text = []\<rparr>"
  have "llm_answer rt ?rq client =
      Inl (Exn ''ValueError'' ''Exceeds the limit for integer string conversion'')"
    using assms(2,3) parse_long_integer [OF assms(4-7)] by (simp add: llm_answer_def)
  then have "propose_action rt ?rq client default_proposal_id w =
      (Inl (Exn ''ValueError'' ''Exceeds the limit for integer string conversion''), w)" for w
    using propose_action_answer [OF assms(1), of ?rq rt client default_proposal_id w] by simp
  then show ?thesis by (simp add: make_planning_handler_def)
qed

theorem long_integer_loses_event_witness:
  "\<forall>s. make_planning_handler demo_runtime (Inr (answering (replicate 4301 CHR ''1''))) default_proposal_id True
    (demo_envelope ''e1'') s = (Inr (), s)"
proof
  fix s
  have "is_digit CHR ''1''" by (simp add: is_digit_def)
  then have "list_all is_digit (replicate 4301 CHR ''1'')" "hd (replicate 4301 CHR ''1'') \<noteq> CHR ''0''"
    by (simp_all add: list_all_iff numeral_eq_Suc)
  then show "make_planning_handler demo_runtime (Inr (answering (replicate 4301 CHR ''1'')))
      default_proposal_id True (demo_envelope ''e1'') s = (Inr (), s)"
    using long_integer_loses_event [OF demo_env_ok, of "answering (replicate 4301 CHR ''1'')"
        demo_runtime "replicate 4301 CHR ''1''" _ s]
    by (simp add: answering_def demo_runtime_def)
qed

section \<open>Termination of the parser\<close>



end
