(* ===== verification/Orchestrator.thy ===== *)
theory Orchestrator
  imports Planner_Spec
begin

text \<open>
  The orchestrator process: \<open>_compose_handler\<close> of \<open>orchestrator/api.py\<close> chains the diagnostic
  buffer and the planner with the pipeline on every envelope, while approvers vote and
  operators configure.  The theorems follow an envelope through all of it.
\<close>

section \<open>The process\<close>

definition compose_handler :: "py_runtime \<Rightarrow> py_exn + llm_client \<Rightarrow> event_handler" where
  "compose_handler rt client =
     chain_handlers [make_buffered_handler, make_planning_handler rt client default_proposal_id True]"

definition orchestrator_new :: "(action_type \<times> handler) list option \<Rightarrow> world \<Rightarrow> orchestrator" where
  "orchestrator_new ex w =
     \<lparr>os_recent = reb_new 50, os_proposals = pb_new 50, os_pipeline = make_pipeline ex w\<rparr>"

text \<open>
  What happens to a process: an envelope is delivered, with whatever client the factory
  yields at that moment, or someone calls the pipeline.
\<close>

datatype os_event =
    Deliver dict "py_exn + llm_client"
  | Call pipeline_call

fun os_step :: "py_runtime \<Rightarrow> os_event \<Rightarrow> orchestrator \<Rightarrow> orchestrator" where
  "os_step rt (Deliver envelope client) s = snd (compose_handler rt client envelope s)"
| "os_step rt (Call c) s = s\<lparr>os_pipeline := p_call c (os_pipeline s)\<rparr>"

abbreviation os_run :: "py_runtime \<Rightarrow> os_event list \<Rightarrow> orchestrator \<Rightarrow> orchestrator" where
  "os_run rt es s \<equiv> fold (os_step rt) es s"

text \<open>
  \<open>accepted\<close>: the planner's client was there and its answer, if any, was readable or refused
  as \<open>JSONDecodeError\<close>.
\<close>

definition accepted :: "py_runtime \<Rightarrow> dict \<Rightarrow> py_exn + llm_client \<Rightarrow> bool" where
  "accepted rt env client =
     (case client of
        Inl e \<Rightarrow> False
      | Inr c \<Rightarrow> (case llm_answer rt \<lparr>plr_envelope = env, plr_brief_text = []\<rparr> c of
          Inl e \<Rightarrow> False | Inr ans \<Rightarrow> True))"

text \<open>
  An envelope is \<open>addressed\<close> when a proposal can be made of its fields, and \<open>plannable\<close> with a
  client when, besides that, the planner gets as far as making one: the rule table looks the event
  type up, which raises for a list or an object.
\<close>

definition addressed :: "dict \<Rightarrow> string \<Rightarrow> string \<Rightarrow> bool" where
  "addressed env t e \<longleftrightarrow>
     dict_get env ''tenant_id'' = Some (JStr t) \<and> len_within 1 64 t \<and>
     dict_get env ''event_id'' = Some (JStr e) \<and> len_within 1 64 e \<and>
     (case dict_get_or env ''customer_id'' JNull of
        JNull \<Rightarrow> True | JStr c \<Rightarrow> length c \<le> 64 | _ \<Rightarrow> False)"

definition plannable :: "py_runtime \<Rightarrow> dict \<Rightarrow> py_exn + llm_client \<Rightarrow> bool" where
  "plannable rt env client =
     (case client of
        Inl e \<Rightarrow> False
      | Inr c \<Rightarrow> (case llm_answer rt \<lparr>plr_envelope = env, plr_brief_text = []\<rparr> c of
          Inl e \<Rightarrow> False
        | Inr None \<Rightarrow>
            (case dict_get_or env ''event_type'' (JStr []) of JList xs \<Rightarrow> False | JObj d \<Rightarrow> False | _ \<Rightarrow> True)
        | Inr (Some ans) \<Rightarrow> True))"

fun os_event_ok :: "os_event \<Rightarrow> bool" where
  "os_event_ok (Deliver env client) \<longleftrightarrow> True"
| "os_event_ok (Call c) \<longleftrightarrow> call_ok c"

fun handles :: "py_runtime \<Rightarrow> string \<Rightarrow> string \<Rightarrow> os_event \<Rightarrow> bool" where
  "handles rt t e (Deliver env client) \<longleftrightarrow> addressed env t e \<and> plannable rt env client"
| "handles rt t e (Call (HandleProposal pr)) \<longleftrightarrow> pr_tenant_id pr = t \<and> pr_event_id pr = e"
| "handles rt t e (Call c) \<longleftrightarrow> False"

lemma env_ok_addressed: "env_ok env t e \<Longrightarrow> addressed env t' e' \<longleftrightarrow> t' = t \<and> e' = e"
  by (auto simp: env_ok_def addressed_def split: json.splits)

lemma env_ok_plannable: "env_ok env t e \<Longrightarrow> plannable rt env client \<longleftrightarrow> accepted rt env client"
  by (auto simp: env_ok_def plannable_def accepted_def dict_get_or_def split: sum.split option.split)

section \<open>One step\<close>

lemma env_ok_unique: "env_ok env t e \<Longrightarrow> env_ok env t' e' \<Longrightarrow> t' = t \<and> e' = e"
  by (auto simp: env_ok_def)

text \<open>Drawing ids and reading the clock outside the pipeline.\<close>

lemma pipe_inv_world:
  assumes "pipe_inv p" "uuid_of w = uuid_of (p_world p)" "uuids_drawn (p_world p) \<le> uuids_drawn w"
  shows "pipe_inv (p\<lparr>p_world := w\<rparr>)"
proof -
  have "drawn p aid \<Longrightarrow> drawn (p\<lparr>p_world := w\<rparr>) aid" for aid
    using assms(2,3) by (auto simp: drawn_def intro: less_le_trans)
  then have "action_inv p aid \<Longrightarrow> action_inv (p\<lparr>p_world := w\<rparr>) aid" for aid
    by (auto simp: action_inv_def trail_of_def split: option.splits)
  with assms(1) show ?thesis by (auto simp: pipe_inv_def comps_inv_def dedup_inv_def)
qed

lemma make_proposal_outcome:
  assumes "len_within 1 64 pid"
  shows "case make_proposal pid env a who payload w of
      (Inl x, w') \<Rightarrow> w' = w \<and> (\<forall>t e. \<not> addressed env t e)
    | (Inr p, w') \<Rightarrow> w' = snd (now w) \<and> proposal_valid p \<and> addressed env (pr_tenant_id p) (pr_event_id p)"
  using assms
  by (auto simp: make_proposal_def addressed_def proposal_valid_def dict_get_or_def opt_max_def Let_def
      len_within_def split: prod.split option.splits json.splits if_splits)

abbreviation hashable_type :: "dict \<Rightarrow> bool" where
  "hashable_type env \<equiv>
     (case dict_get_or env ''event_type'' (JStr []) of JList xs \<Rightarrow> False | JObj d \<Rightarrow> False | _ \<Rightarrow> True)"

lemma fallback_outcome:
  assumes "length (uuid_of w (uuids_drawn w)) = 32" and "plr_envelope request = env"
  shows "case fallback_proposal request default_proposal_id flags w of
      (Inl x, w') \<Rightarrow> w' \<in> {w, snd (uuid4 w)} \<and> (hashable_type env \<longrightarrow> (\<forall>t e. \<not> addressed env t e))
    | (Inr p, w') \<Rightarrow> w' = snd (now (snd (uuid4 w))) \<and> proposal_valid p \<and>
        addressed env (pr_tenant_id p) (pr_event_id p) \<and> hashable_type env"
proof -
  obtain pid w1 where pid: "default_proposal_id w = (pid, w1)" by fastforce
  from default_id_ok [OF assms(1) this] have id: "len_within 1 64 pid" "w1 = snd (uuid4 w)" by simp_all
  show ?thesis
  proof (cases "hashable_type env")
    case True
    then obtain a payload where "fallback_proposal request default_proposal_id flags w =
        make_proposal pid env a FALLBACK payload w1"
      by (cases "dict_get_or env ''event_type'' (JStr [])") (auto simp: fallback_proposal_def assms(2) pid Let_def)
    with make_proposal_outcome [OF id(1), where env = env and a = a and who = FALLBACK and payload = payload and w = w1] True id(2) show ?thesis
      by (simp split: prod.splits sum.splits)
  next
    case False
    then show ?thesis
      by (cases "dict_get_or env ''event_type'' (JStr [])") (auto simp: fallback_proposal_def assms(2))
  qed
qed

lemma addressed_truthy:
  "addressed env t e \<Longrightarrow> truthy (dict_get_or env ''tenant_id'' JNull) \<and> truthy (dict_get_or env ''event_id'' JNull)"
  by (auto simp: addressed_def dict_get_or_def len_within_def)

lemma propose_outcome:
  fixes env :: dict
  assumes "uuids_ok 1 w"
  defines "rq \<equiv> \<lparr>plr_envelope = env, plr_brief_text = []\<rparr>"
  shows "case propose_action rt rq c default_proposal_id w of
      (Inl x, w') \<Rightarrow> w' \<in> {w, snd (uuid4 w)} \<and> (\<forall>t e. \<not> (addressed env t e \<and> plannable rt env (Inr c)))
    | (Inr p, w') \<Rightarrow> w' = snd (now (snd (uuid4 w))) \<and> proposal_valid p \<and>
        addressed env (pr_tenant_id p) (pr_event_id p) \<and> plannable rt env (Inr c)"
proof (cases "truthy (dict_get_or env ''tenant_id'' JNull) \<and> truthy (dict_get_or env ''event_id'' JNull)")
  case False
  then have "\<forall>t e. \<not> addressed env t e" using addressed_truthy by blast
  with False show ?thesis by (auto simp: propose_action_def rq_def Let_def)
next
  case True
  obtain pid w1 where pid: "default_proposal_id w = (pid, w1)" by fastforce
  have len: "length (uuid_of w (uuids_drawn w)) = 32" using assms(1) by (simp add: uuids_ok_def)
  from default_id_ok [OF this pid] have id: "len_within 1 64 pid" "w1 = snd (uuid4 w)" by simp_all
  define flags where "flags = st_flags (sanitize_for_prompt [] True)"
  have answer: "propose_action rt rq c default_proposal_id w =
      (case llm_answer rt rq c of
         Inl e \<Rightarrow> (Inl e, w)
       | Inr None \<Rightarrow> fallback_proposal rq default_proposal_id flags w
       | Inr (Some (a, payload)) \<Rightarrow> make_proposal pid env a LLM
           (if flags \<noteq> [] then dict_set ''_injection_flags'' (flag_values flags) payload else payload) w1)"
    using True by (auto simp: propose_action_def llm_answer_def rq_def flags_def pid Let_def
        split: sum.split option.split)
  show ?thesis
  proof (cases "llm_answer rt rq c")
    case (Inl e)
    then show ?thesis by (simp add: answer plannable_def rq_def [symmetric])
  next
    case (Inr ans)
    show ?thesis
    proof (cases ans)
      case None
      then have "plannable rt env (Inr c) = hashable_type env"
        using Inr by (simp add: plannable_def rq_def [symmetric])
      moreover have "plr_envelope rq = env" by (simp add: rq_def)
      ultimately show ?thesis
        using fallback_outcome [OF len, of rq env flags]
        by (auto simp: answer Inr None split: prod.splits sum.splits)
    next
      case (Some ap)
      then have p: "plannable rt env (Inr c)" using Inr by (simp add: plannable_def rq_def [symmetric])
      obtain a payload where "propose_action rt rq c default_proposal_id w = make_proposal pid env a LLM payload w1"
        using Inr Some by (cases ap) (auto simp: answer)
      with make_proposal_outcome [OF id(1), where env = env and a = a and who = LLM and payload = payload and w = w1]
        id(2) p show ?thesis by (auto split: prod.splits sum.splits)
    qed
  qed
qed

text \<open>Only \<open>handle_proposal\<close> writes the table of handled events.\<close>

lemma dedup_andThen:
  "p_dedup (snd r) = d \<Longrightarrow> (\<And>v q. r = (Inr v, q) \<Longrightarrow> p_dedup (snd (f v q)) = d) \<Longrightarrow>
   p_dedup (snd (andThen r f)) = d"
  by (cases r; cases "fst r") auto

lemma dedup_primitives [simp]:
  "p_dedup (snd (p_now p)) = p_dedup p" "p_dedup (p_put a p) = p_dedup p"
  "p_dedup (snd (p_write_audit k a b v d p)) = p_dedup p"
  by (simp_all add: p_now_def p_put_def p_write_audit_def case_prod_beta Let_def)

lemma dedup_execute [simp]: "p_dedup (snd (p_execute a p)) = p_dedup p"
  by (auto simp: p_execute_def case_prod_beta Let_def intro!: dedup_andThen
      dest: arg_cong [of _ _ "\<lambda>r. p_dedup (snd r)"] split: sum.split py_exn.split)

lemma dedup_write_audit:
  "p_write_audit k a b v d p = (x, q) \<Longrightarrow> p_dedup q = p_dedup p"
  using dedup_primitives(3) [of k a b v d p] by simp

lemma dedup_call:
  assumes "\<And>pr. c \<noteq> HandleProposal pr"
  shows "p_dedup (p_call c p) = p_dedup p"
proof (cases c)
  case (ApproveAction aid v t)
  then show ?thesis
    by (auto simp: approve_action_def case_prod_beta Let_def intro!: dedup_andThen
        dest: dedup_write_audit split: option.split sum.split)
next
  case (RejectAction aid reason v t)
  then show ?thesis
    by (auto simp: reject_action_def case_prod_beta Let_def intro!: dedup_andThen
        dest: dedup_write_audit split: option.split sum.split)
qed (use assms in simp_all)

section \<open>A run\<close>

lemma handle_dedup:
  assumes inv: "pipe_inv p" and valid: "proposal_valid pr" and w: "uuids_ok 2 (p_world p)"
  shows "p_dedup (snd (handle_proposal pr p)) (t, e) \<noteq> None \<longleftrightarrow>
    p_dedup p (t, e) \<noteq> None \<or> (t, e) = (pr_tenant_id pr, pr_event_id pr)"
proof (cases "p_dedup p (pr_tenant_id pr, pr_event_id pr)")
  case (Some ids)
  show ?thesis by (rule handle_proposal_cached [OF inv Some]) (use Some in auto)
next
  case None
  show ?thesis by (rule handle_new_inv [OF inv valid w None inv w inv w]) auto
qed

lemma handle_step_ok:
  assumes "pipe_inv p" and "proposal_valid pr" and "uuids_ok (2 + k) (p_world p)"
  shows "pipe_inv (snd (handle_proposal pr p)) \<and> uuids_ok k (p_world (snd (handle_proposal pr p))) \<and>
    (\<forall>t e. p_dedup (snd (handle_proposal pr p)) (t, e) \<noteq> None \<longleftrightarrow>
       p_dedup p (t, e) \<noteq> None \<or> pr_tenant_id pr = t \<and> pr_event_id pr = e)"
proof -
  have w: "uuids_ok 2 (p_world p)" by (rule uuids_ok_mono [OF assms(3)]) simp
  show ?thesis
    using pipe_inv_handle [OF assms(1,2) w] uuids_ok_draws [OF draws_handle assms(3)]
      handle_dedup [OF assms(1,2) w] by auto
qed

lemma os_step_ok:
  assumes inv: "pipe_inv (os_pipeline s)" and ok: "os_event_ok ev"
    and w: "uuids_ok (3 + k) (p_world (os_pipeline s))"
  shows "pipe_inv (os_pipeline (os_step rt ev s)) \<and>
    uuids_ok k (p_world (os_pipeline (os_step rt ev s))) \<and>
    (\<forall>t e. p_dedup (os_pipeline (os_step rt ev s)) (t, e) \<noteq> None \<longleftrightarrow>
       p_dedup (os_pipeline s) (t, e) \<noteq> None \<or> handles rt t e ev)"
proof (cases ev)
  case (Deliver env client)
  let ?p = "os_pipeline s"
  show ?thesis
  proof (cases client)
    case (Inl x)
    with Deliver inv w show ?thesis
      by (auto simp: compose_handler_def chain_handlers_def make_buffered_handler_def
          make_planning_handler_def plannable_def intro: uuids_ok_mono split: prod.split)
  next
    case (Inr c)
    let ?r = "propose_action rt \<lparr>plr_envelope = env, plr_brief_text = []\<rparr> c default_proposal_id (p_world ?p)"
    have w1: "uuids_ok 1 (p_world ?p)" by (rule uuids_ok_mono [OF w]) simp
    obtain res w' where r: "?r = (res, w')" by fastforce
    have step: "os_pipeline (os_step rt ev s) =
        (case res of Inl x \<Rightarrow> ?p\<lparr>p_world := w'\<rparr> | Inr pr \<Rightarrow> snd (handle_proposal pr (?p\<lparr>p_world := w'\<rparr>)))"
      using r Deliver Inr
      by (auto simp: compose_handler_def chain_handlers_def make_buffered_handler_def
          make_planning_handler_def Let_def split: prod.split sum.split)
    have w': "w' \<in> {p_world ?p, snd (uuid4 (p_world ?p)), snd (now (snd (uuid4 (p_world ?p))))}"
      using propose_outcome [OF w1, where rt = rt and env = env and c = c] r by (auto split: sum.splits)
    then have d1: "draws 1 ?p (?p\<lparr>p_world := w'\<rparr>)" by (auto simp: draws_def)
    have w2: "uuids_ok (2 + k) (p_world (?p\<lparr>p_world := w'\<rparr>))"
      by (rule uuids_ok_draws [OF d1]) (use w in \<open>simp only: add.assoc [symmetric] one_plus_numeral semiring_norm\<close>)
    have inv1: "pipe_inv (?p\<lparr>p_world := w'\<rparr>)"
      using w' by (intro pipe_inv_world [OF inv]) auto
    show ?thesis
    proof (cases res)
      case (Inl x)
      have "\<not> handles rt t e ev" for t e
        using propose_outcome [OF w1, where rt = rt and env = env and c = c] r Inl Deliver \<open>client = Inr c\<close> by auto
      with step Inl inv1 uuids_ok_mono [OF w2, of k] show ?thesis by simp
    next
      case (Inr pr)
      then have pr: "proposal_valid pr" "addressed env (pr_tenant_id pr) (pr_event_id pr)" "plannable rt env client"
        using propose_outcome [OF w1, where rt = rt and env = env and c = c] r \<open>client = Inr c\<close> by simp_all
      then have "handles rt t e ev \<longleftrightarrow> pr_tenant_id pr = t \<and> pr_event_id pr = e" for t e
        using Deliver by (auto simp: addressed_def)
      with step Inr handle_step_ok [OF inv1 pr(1) w2] show ?thesis by simp
    qed
  qed
next
  case (Call c)
  have c: "call_ok c" using ok Call by simp
  have w2: "uuids_ok 2 (p_world (os_pipeline s))" by (rule uuids_ok_mono [OF w]) simp
  show ?thesis
  proof (cases "\<exists>pr. c = HandleProposal pr")
    case True
    then obtain pr where pr: "c = HandleProposal pr" by blast
    have "uuids_ok (2 + k) (p_world (os_pipeline s))" by (rule uuids_ok_mono [OF w]) simp
    from handle_step_ok [OF inv _ this, of pr] pr c Call show ?thesis by simp
  next
    case False
    then have "\<not> handles rt t e ev" for t e using Call by (cases c) simp_all
    moreover have "uuids_ok k (p_world (p_call c (os_pipeline s)))"
      by (rule uuids_ok_draws [OF draws_call]) (use uuids_ok_mono [OF w] in simp)
    moreover have "p_dedup (p_call c (os_pipeline s)) = p_dedup (os_pipeline s)"
      by (rule dedup_call) (use False in blast)
    ultimately show ?thesis using Call pipe_inv_call [OF inv c w2] by simp
  qed
qed

lemma os_run_ok:
  assumes "pipe_inv (os_pipeline s)" "list_all os_event_ok evs"
    and "uuids_ok (3 * length evs) (p_world (os_pipeline s))"
  shows "pipe_inv (os_pipeline (os_run rt evs s)) \<and>
    (\<forall>t e. p_dedup (os_pipeline (os_run rt evs s)) (t, e) \<noteq> None \<longleftrightarrow>
       p_dedup (os_pipeline s) (t, e) \<noteq> None \<or> list_ex (handles rt t e) evs)"
  using assms
proof (induction evs arbitrary: s)
  case (Cons ev evs)
  have "uuids_ok (3 + 3 * length evs) (p_world (os_pipeline s))" using Cons.prems(3) by simp
  note step = os_step_ok [OF Cons.prems(1) _ this, of ev rt]
  with Cons.prems(2) Cons.IH [of "os_step rt ev s"] show ?case by auto
qed simp

text \<open>The actions of a tenant for an event, read off the table of handled events.\<close>

definition actions_for :: "string \<Rightarrow> string \<Rightarrow> pipeline \<Rightarrow> action list" where
  "actions_for t e p = filter (\<lambda>a. a_event_id a = e) (list_actions_for_tenant t p)"

lemma filter_map_filter:
  "filter P (List.map_filter f xs) =
   List.map_filter f (filter (\<lambda>x. case f x of None \<Rightarrow> False | Some a \<Rightarrow> P a) xs)"
  by (induction xs) (auto simp: List.map_filter_def split: option.splits)

lemma filter_eq_single: "distinct xs \<Longrightarrow> filter (\<lambda>y. y = x) xs = (if x \<in> set xs then [x] else [])"
  by (induction xs) auto

lemma actions_for_dedup:
  assumes inv: "pipe_inv p"
  shows "length (actions_for t e p) = (if p_dedup p (t, e) = None then 0 else 1)"
proof -
  let ?ids = "get_list (as_by_tenant (p_actions p)) t"
  have as: "distinct ?ids" "\<And>aid. aid \<in> set ?ids \<longleftrightarrow> (case store p aid of None \<Rightarrow> False | Some a \<Rightarrow> a_tenant_id a = t)"
    using pipe_invD(1) [OF inv] by (auto simp: comps_inv_def as_inv_def)
  have hit: "(case store p aid of None \<Rightarrow> False | Some a \<Rightarrow> a_event_id a = e) \<longleftrightarrow> p_dedup p (t, e) = Some [aid]"
    if "aid \<in> set ?ids" for aid
  proof -
    obtain a where a: "store p aid = Some a" "a_tenant_id a = t"
      using as(2) [of aid] \<open>aid \<in> set ?ids\<close> by (auto split: option.splits)
    have key: "p_dedup p (t, a_event_id a) = Some [aid]" using pipe_invD(5) [OF inv a(1)] a(2) by simp
    show ?thesis
    proof
      assume "case store p aid of None \<Rightarrow> False | Some a \<Rightarrow> a_event_id a = e"
      with a key show "p_dedup p (t, e) = Some [aid]" by simp
    next
      assume "p_dedup p (t, e) = Some [aid]"
      from pipe_invD(9) [OF inv this] a show "case store p aid of None \<Rightarrow> False | Some a \<Rightarrow> a_event_id a = e"
        by auto
    qed
  qed
  have eq: "actions_for t e p = List.map_filter (store p) (filter (\<lambda>aid. p_dedup p (t, e) = Some [aid]) ?ids)"
    unfolding actions_for_def list_actions_for_tenant_def as_list_for_tenant_def filter_map_filter
    by (rule arg_cong [where f = "List.map_filter (store p)"], rule filter_cong) (auto simp: hit)
  show ?thesis
  proof (cases "p_dedup p (t, e)")
    case None
    then show ?thesis by (simp add: eq List.map_filter_def)
  next
    case (Some ids)
    then obtain a where a: "ids = [a_id a]" "store p (a_id a) = Some a" "a_tenant_id a = t"
      using pipe_invD(9) [OF inv Some] by auto
    have "filter (\<lambda>aid. p_dedup p (t, e) = Some [aid]) ?ids = filter (\<lambda>aid. aid = a_id a) ?ids"
      by (rule filter_cong) (auto simp: Some a(1))
    also have "\<dots> = [a_id a]" using as(2) [of "a_id a"] a(2,3) by (simp add: filter_eq_single [OF as(1)])
    finally show ?thesis by (simp add: eq a(2) Some List.map_filter_def)
  qed
qed

lemma one_action_run:
  assumes "list_all os_event_ok evs" and "uuids_ok (3 * length evs) w"
  shows "length (actions_for t e (os_pipeline (os_run rt evs (orchestrator_new ex w)))) =
    (if list_ex (handles rt t e) evs then 1 else 0)"
proof -
  let ?s = "orchestrator_new ex w"
  have new: "os_pipeline ?s = make_pipeline ex w" by (simp add: orchestrator_new_def)
  have "pipe_inv (os_pipeline (os_run rt evs ?s)) \<and>
    (\<forall>t e. p_dedup (os_pipeline (os_run rt evs ?s)) (t, e) \<noteq> None \<longleftrightarrow>
       p_dedup (os_pipeline ?s) (t, e) \<noteq> None \<or> list_ex (handles rt t e) evs)"
    by (rule os_run_ok) (use assms pipe_inv_new in \<open>simp_all add: new, simp_all add: make_pipeline_def\<close>)
  note run = this
  have "p_dedup (os_pipeline ?s) (t, e) = None" by (simp add: new make_pipeline_def)
  with run have "p_dedup (os_pipeline (os_run rt evs ?s)) (t, e) = None \<longleftrightarrow> \<not> list_ex (handles rt t e) evs"
    by blast
  with actions_for_dedup [OF conjunct1 [OF run], of t e] show ?thesis by simp
qed

section \<open>Properties\<close>

text \<open>
  C2. End to end through the orchestrator process: whatever envelopes are delivered, well formed
  or not, in whatever order and however often, with whatever language model behind the planner,
  and whatever approvers, operators and in-process callers do in between (their names have at most
  128 characters, their proposals satisfy their contract), every tenant and event ends with exactly
  one action if a proposal was made for it: by a caller, or by the planner, which makes one exactly
  of an envelope whose ids and customer satisfy the contract of a proposal, when there is a client,
  its answer does not escape the parser, and the rule table, if it is asked, can look the event
  type up.  Otherwise it ends with none.
\<close>

theorem one_action_per_event:
  assumes "list_all os_event_ok evs" and "uuids_ok (3 * length evs) w"
  shows "length (actions_for t e (os_pipeline (os_run rt evs (orchestrator_new ex w)))) =
    (if list_ex (handles rt t e) evs then 1 else 0)"
  by (rule one_action_run [OF assms])

definition demo_events :: "os_event list" where
  "demo_events =
     [Deliver (demo_envelope ''e1'') (Inr (answering demo_answer)),
      Call (SetPolicies ''t1'' [(''*'', JStr ''auto'')]),
      Deliver (demo_envelope ''e1'') (Inr mock_client),
      Deliver [(''tenant_id'', JStr ''t1''), (''event_id'', JInt 2)] (Inr mock_client),
      Deliver (demo_envelope ''e2'') (Inl (Exn ''ImportError'' ''x''))]"

theorem one_action_per_event_witness:
  "length (actions_for ''t1'' ''e1'' (os_pipeline (os_run demo_runtime demo_events (orchestrator_new None demo_world)))) = 1
   \<and> length (actions_for ''t1'' ''e2'' (os_pipeline (os_run demo_runtime demo_events (orchestrator_new None demo_world)))) = 0"
proof -
  have ok: "list_all os_event_ok demo_events" by (simp add: demo_events_def)
  have w: "uuids_ok (3 * length demo_events) demo_world"
    by (rule demo_uuids_ok) (simp add: demo_events_def)
  have "plannable demo_runtime (demo_envelope ''e1'') (Inr (answering demo_answer))"
    by (simp add: plannable_def llm_answer_def answering_def demo_answer_parsed)
  then have h1: "list_ex (handles demo_runtime ''t1'' ''e1'') demo_events"
    by (simp add: demo_events_def env_ok_addressed [OF demo_env_ok])
  have h2: "\<not> list_ex (handles demo_runtime ''t1'' ''e2'') demo_events"
    by (simp add: demo_events_def env_ok_addressed [OF demo_env_ok] plannable_def)
       (simp add: addressed_def)
  show ?thesis
    using one_action_per_event [OF ok w, of "''t1''" "''e1''" demo_runtime None]
      one_action_per_event [OF ok w, of "''t1''" "''e2''" demo_runtime None] h1 h2 by simp
qed

end
