(* ===== verification/System.thy ===== *)
theory System
  imports Orchestrator Ingestion
begin

text \<open>
  Both services in one process, as the end-to-end scenario wires them: the context engine
  ingests events into its repository and announces them on the in-memory bus; the
  orchestrator's listener is subscribed to the bus and runs the composed handler on every
  announcement.
\<close>

definition subscribed :: "py_runtime \<Rightarrow> (dict \<Rightarrow> py_exn + llm_client) \<Rightarrow> nat \<Rightarrow>
    (nat \<Rightarrow> orchestrator subscriber) \<Rightarrow> event_bus \<Rightarrow> bool" where
  \<comment> \<open>the listener's callback \<open>cb\<close> is the only subscriber; \<open>client\<close> is what the client factory
      yields while it handles an envelope\<close>
  "subscribed rt client cb run b \<longleftrightarrow>
     eb_subscribers b = [cb] \<and>
     (\<forall>channel payload. run cb channel payload = compose_handler rt (client payload) payload)"

lemma envelope_env_ok:
  assumes "event_valid e"
  shows "env_ok (envelope_for isoformat e) (ev_tenant_id e) (ev_id e)"
  using assms
  by (auto simp: env_ok_def envelope_for_def event_valid_def dict_get_or_def opt_max_def
      split: option.split)

lemma publish_all:
  assumes "subscribed rt client cb run b"
  shows "snd (fold (\<lambda>(c, d) bs. snd (eb_publish run c d bs)) (map (announcement isoformat) es) (b, s)) =
    os_run rt (map (\<lambda>e. Deliver (envelope_for isoformat e) (client (envelope_for isoformat e))) es) s"
  using assms
proof (induction es arbitrary: b s)
  case (Cons e es)
  let ?env = "envelope_for isoformat e"
  have pub: "snd (eb_publish run (channel_for (ev_tenant_id e)) ?env (b, s)) =
      (b\<lparr>eb_published := eb_published b @ [(channel_for (ev_tenant_id e), ?env)]\<rparr>,
       snd (compose_handler rt (client ?env) ?env s))"
    using Cons.prems by (simp add: eb_publish_def subscribed_def Let_def)
  have "subscribed rt client cb run (b\<lparr>eb_published := eb_published b @ [(channel_for (ev_tenant_id e), ?env)]\<rparr>)"
    using Cons.prems by (simp add: subscribed_def)
  from Cons.IH [OF this] show ?case by (simp add: announcement_def pub)
qed simp

text \<open>The events the repository accepts are the first of their keys.\<close>

definition firsts :: "event list \<Rightarrow> event list" where
  "firsts es = map (\<lambda>i. es ! i) (filter (\<lambda>i. \<forall>x \<in> set (take i es). ev_key x \<noteq> ev_key (es ! i)) [0..<length es])"

lemma firsts_replies:
  "map fst (filter snd (map (\<lambda>i. (hd (filter (\<lambda>x. ev_key x = ev_key (es ! i)) es),
     \<forall>x \<in> set (take i es). ev_key x \<noteq> ev_key (es ! i))) [0..<length es])) = firsts es"
proof -
  have "hd (filter (\<lambda>x. ev_key x = ev_key (es ! i)) es) = es ! i"
    if "i < length es" "\<forall>x \<in> set (take i es). ev_key x \<noteq> ev_key (es ! i)" for i
  proof -
    have "es = take i es @ es ! i # drop (Suc i) es" using that(1) by (rule id_take_nth_drop)
    then have "filter (\<lambda>x. ev_key x = ev_key (es ! i)) es =
        filter (\<lambda>x. ev_key x = ev_key (es ! i)) (take i es @ es ! i # drop (Suc i) es)" by simp
    also have "\<dots> = es ! i # filter (\<lambda>x. ev_key x = ev_key (es ! i)) (drop (Suc i) es)"
      using that(2) by (simp add: filter_empty_conv)
    finally show ?thesis by simp
  qed
  then show ?thesis
    by (simp add: firsts_def filter_map comp_def)
qed

lemma ingest_run:
  assumes "distinct (map (\<lambda>e. (ev_tenant_id e, ev_id e)) es)" and "subscribed rt client cb run b"
  obtains rs r' b' where
    "ingest_all er_upsert_event (eb_publish run) isoformat es (er_new, (b, s)) =
       (map Inr rs, (r', (b', os_run rt (map (\<lambda>e. Deliver (envelope_for isoformat e)
          (client (envelope_for isoformat e))) (firsts es)) s)))"
proof -
  from ing.ingest_all_replies [OF er_inv_new no_clash [OF assms(1)], where ?b = "(b, s)" and ?run = run and
      ?isoformat = isoformat]
  obtain r' bs where r: "ingest_all er_upsert_event (eb_publish run) isoformat es (er_new, (b, s)) =
      (map Inr (map (\<lambda>i. (hd (filter (\<lambda>x. ev_key x = ev_key (es ! i)) es),
         \<forall>x \<in> set (take i es). ev_key x \<noteq> ev_key (es ! i))) [0..<length es]), (r', bs))"
    "bs = fold (\<lambda>(c, d) bs. snd (eb_publish run c d bs)) (map (announcement isoformat) (firsts es)) (b, s)"
    using er_new_facts(2) unfolding er_new_facts(1) replies_prefix append_Nil firsts_replies by blast
  have bs: "bs = (fst bs, os_run rt (map (\<lambda>e. Deliver (envelope_for isoformat e)
      (client (envelope_for isoformat e))) (firsts es)) s)"
    using r(2) publish_all [OF assms(2), of isoformat "firsts es" s] by (simp add: prod_eq_iff)
  show thesis by (rule that, rule trans [OF r(1)]) (subst bs, rule refl)
qed

lemma set_firsts:
  "x \<in> set (firsts es) \<longleftrightarrow> find (\<lambda>y. ev_key y = ev_key x) es = Some x"
proof -
  have "(\<forall>y \<in> set (take i es). ev_key y \<noteq> ev_key (es ! i)) \<longleftrightarrow> (\<forall>j < i. ev_key (es ! j) \<noteq> ev_key (es ! i))"
    if "i < length es" for i
    using that by (simp add: all_set_conv_all_nth)
  then show ?thesis by (auto simp: firsts_def find_Some_iff)
qed

lemma length_firsts: "length (firsts es) \<le> length es"
  using length_filter_le [of _ "[0..<length es]"] by (simp add: firsts_def)

lemma filter_find: "find P xs = Some y \<Longrightarrow> \<exists>rest. filter P xs = y # rest"
  by (induction xs) (auto split: if_splits)

section \<open>The property\<close>

text \<open>
  C1. Duplicate webhooks act once, across both services: ingest any valid events with distinct
  ids, with any repetitions of a tenant's idempotency key, through the repository and the bus into
  the orchestrator.  Every call answers, and the events that carry one key of one tenant end with
  exactly one action between them when the planner accepts the announcement of the first of them
  (its client is there, and the answer does not escape the parser), and with none when it does not:
  a later event of the key never acts.
\<close>

theorem duplicate_events_one_action:
  assumes "distinct (map (\<lambda>e. (ev_tenant_id e, ev_id e)) es)" and "\<forall>e \<in> set es. event_valid e"
    and "subscribed rt client cb run b" and "uuids_ok (3 * length es) w"
  shows "\<exists>rs r' b' s'. ingest_all er_upsert_event (eb_publish run) isoformat es
      (er_new, (b, orchestrator_new ex w)) = (map Inr rs, (r', (b', s'))) \<and>
    (\<forall>e \<in> set es.
       let same = filter (\<lambda>x. ev_key x = ev_key e) es; announced = envelope_for isoformat (hd same)
       in map (\<lambda>x. length (actions_for (ev_tenant_id x) (ev_id x) (os_pipeline s'))) same =
          (if accepted rt announced (client announced) then 1 else 0) # replicate (length same - 1) 0)"
proof -
  let ?env = "envelope_for isoformat"
  let ?evs = "map (\<lambda>e. Deliver (?env e) (client (?env e))) (firsts es)"
  let ?s = "os_run rt ?evs (orchestrator_new ex w)"
  let ?acc = "\<lambda>x. accepted rt (?env x) (client (?env x))"
  have sub: "x \<in> set es" if "x \<in> set (firsts es)" for x
    using that by (auto simp: set_firsts find_Some_iff)
  have ok: "list_all os_event_ok ?evs" by (simp add: list_all_iff)
  have w: "uuids_ok (3 * length ?evs) w" by (rule uuids_ok_mono [OF assms(4)]) (simp add: length_firsts)
  have handled: "handles rt t i (Deliver (?env f) (client (?env f))) \<longleftrightarrow> t = ev_tenant_id f \<and> i = ev_id f \<and> ?acc f"
    if "f \<in> set es" for f t i
    using env_ok_addressed [OF envelope_env_ok] env_ok_plannable [OF envelope_env_ok] assms(2) that by simp
  have inj: "f = x" if "f \<in> set es" "x \<in> set es" "ev_tenant_id f = ev_tenant_id x" "ev_id f = ev_id x" for f x
    using assms(1) that by (auto simp: distinct_map inj_on_def)
  have count: "length (actions_for (ev_tenant_id x) (ev_id x) (os_pipeline ?s)) =
      (if x \<in> set (firsts es) \<and> ?acc x then 1 else 0)" if x: "x \<in> set es" for x
  proof -
    have "list_ex (handles rt (ev_tenant_id x) (ev_id x)) ?evs \<longleftrightarrow>
        (\<exists>f \<in> set (firsts es). ev_tenant_id x = ev_tenant_id f \<and> ev_id x = ev_id f \<and> ?acc f)"
      using handled [OF sub] by (auto simp: list_ex_iff simp del: handles.simps)
    also have "\<dots> \<longleftrightarrow> x \<in> set (firsts es) \<and> ?acc x" using inj sub x by metis
    finally show ?thesis using one_action_run [OF ok w, of "ev_tenant_id x" "ev_id x" rt ex] by simp
  qed
  have one: "map (\<lambda>x. length (actions_for (ev_tenant_id x) (ev_id x) (os_pipeline ?s))) same =
      (if accepted rt (?env (hd same)) (client (?env (hd same))) then 1 else 0) # replicate (length same - 1) 0"
    if e: "e \<in> set es" and same: "same = filter (\<lambda>x. ev_key x = ev_key e) es" for e same
  proof -
    obtain f where f: "find (\<lambda>x. ev_key x = ev_key e) es = Some f"
      using e by (metis (mono_tags, lifting) find_None_iff option.exhaust)
    then have key: "ev_key f = ev_key e" and fes: "f \<in> set es" by (auto simp: find_Some_iff)
    obtain rest where rest: "same = f # rest"
      using filter_find [OF f] same by blast
    have "distinct es" using assms(1) by (simp add: distinct_map)
    then have "distinct (f # rest)" unfolding rest [symmetric] same by (rule distinct_filter)
    moreover have "x \<in> set es \<and> ev_key x = ev_key e" if "x \<in> set rest" for x
    proof -
      have "x \<in> set same" using that rest by simp
      then show ?thesis by (simp add: same)
    qed
    ultimately have "\<forall>x \<in> set rest. x \<in> set es \<and> x \<notin> set (firsts es)"
      using f by (auto simp: set_firsts)
    then have "map (\<lambda>x. length (actions_for (ev_tenant_id x) (ev_id x) (os_pipeline ?s))) rest =
        map (\<lambda>x. 0) rest" using count by (intro map_cong) auto
    moreover have "f \<in> set (firsts es)" using f key by (simp add: set_firsts)
    ultimately show ?thesis using rest count [OF fes] by (simp add: map_replicate_const)
  qed
  show ?thesis
    by (rule ingest_run [OF assms(1,3), of isoformat "orchestrator_new ex w"]) (use one in \<open>auto simp: Let_def\<close>)
qed

definition demo_bus :: event_bus where
  "demo_bus = eb_new\<lparr>eb_subscribers := [0]\<rparr>"

definition demo_isoformat :: "time \<Rightarrow> string" where
  "demo_isoformat t = ''2026-01-01T00:00:00+00:00''"

definition demo_listener :: "nat \<Rightarrow> orchestrator subscriber" where
  "demo_listener cb channel payload = compose_handler demo_runtime (Inr (answering demo_answer)) payload"

theorem duplicate_events_one_action_witness:
  "\<exists>rs r' b' s'. ingest_all er_upsert_event (eb_publish demo_listener) demo_isoformat
      [demo_ev ''e1'' ''k'', demo_ev ''e2'' ''k'', demo_ev ''e3'' ''other'']
      (er_new, (demo_bus, orchestrator_new None demo_world)) = (map Inr rs, (r', (b', s'))) \<and>
    length (actions_for ''a'' ''e1'' (os_pipeline s')) + length (actions_for ''a'' ''e2'' (os_pipeline s')) = 1 \<and>
    length (actions_for ''a'' ''e3'' (os_pipeline s')) = 1"
proof -
  let ?es = "[demo_ev ''e1'' ''k'', demo_ev ''e2'' ''k'', demo_ev ''e3'' ''other'']"
  have acc: "accepted demo_runtime env (Inr (answering demo_answer))" for env
    by (simp add: accepted_def llm_answer_def answering_def demo_answer_parsed)
  have d: "distinct (map (\<lambda>e. (ev_tenant_id e, ev_id e)) ?es)" by (simp add: demo_ev_def)
  have v: "\<forall>e \<in> set ?es. event_valid e"
    by (simp add: demo_ev_def event_valid_def len_within_def opt_max_def)
  have s: "subscribed demo_runtime (\<lambda>_. Inr (answering demo_answer)) 0 demo_listener demo_bus"
    by (simp add: subscribed_def demo_bus_def demo_listener_def)
  have w: "uuids_ok (3 * length ?es) demo_world" by (rule demo_uuids_ok) simp
  obtain rs r' b' s' where run: "ingest_all er_upsert_event (eb_publish demo_listener) demo_isoformat ?es
      (er_new, (demo_bus, orchestrator_new None demo_world)) = (map Inr rs, (r', (b', s')))"
    and one: "\<forall>e \<in> set ?es.
       let same = filter (\<lambda>x. ev_key x = ev_key e) ?es; announced = envelope_for demo_isoformat (hd same)
       in map (\<lambda>x. length (actions_for (ev_tenant_id x) (ev_id x) (os_pipeline s'))) same =
          (if accepted demo_runtime announced (Inr (answering demo_answer)) then 1 else 0) # replicate (length same - 1) 0"
    using duplicate_events_one_action [OF d v s w, where isoformat = demo_isoformat and ex = None] by blast
  show ?thesis
    by (intro exI conjI, rule run) (use one acc in \<open>simp_all add: demo_ev_def ev_key_def Let_def\<close>)
qed

end
