(* ===== verification/Floats.thy ===== *)
theory Floats
  imports Py_Text "HOL-Library.Multiset"
begin

text \<open>
  Floating-point numbers and dates.  A \<open>float\<close> of Python is a value of the type \<open>'f\<close>, and the
  record \<open>'f floats\<close> holds the operations the program applies to it; the definitions that compute
  with floats take the record as their first argument.  \<open>fl_ok\<close> states what IEEE-754 arithmetic
  promises of results within range: the exact result, rounded by a monotone function with a
  relative error of at most 2^-53 that leaves the integers up to 2^53 alone.

  A \<open>datetime\<close> is its instant in microseconds since the epoch, rendered in UTC.
\<close>

section \<open>The operations\<close>

record 'f floats =
  fl_lit :: "rat \<Rightarrow> 'f"                    \<comment> \<open>the literal nearest to a rational\<close>
  fl_add :: "'f \<Rightarrow> 'f \<Rightarrow> 'f"
  fl_mul :: "'f \<Rightarrow> 'f \<Rightarrow> 'f"
  fl_div :: "'f \<Rightarrow> 'f \<Rightarrow> 'f"
  fl_sqrt :: "'f \<Rightarrow> 'f"
  fl_pow :: "'f \<Rightarrow> 'f \<Rightarrow> 'f"
  fl_less :: "'f \<Rightarrow> 'f \<Rightarrow> bool"
  fl_eq :: "'f \<Rightarrow> 'f \<Rightarrow> bool"
  fl_quot :: "int \<Rightarrow> int \<Rightarrow> 'f"              \<comment> \<open>true division of integers\<close>
  fl_round6 :: "'f \<Rightarrow> 'f"                  \<comment> \<open>\<open>round(x, 6)\<close>\<close>
  fl_repr :: "'f \<Rightarrow> string"
  fl_read :: "string \<Rightarrow> 'f"                \<comment> \<open>\<open>float(s)\<close> on what \<open>repr\<close> writes\<close>

text \<open>The value of a float and the rounding; what is not finite has no place here.\<close>

definition fl_ok :: "'f floats \<Rightarrow> ('f \<Rightarrow> real) \<Rightarrow> (real \<Rightarrow> real) \<Rightarrow> bool" where
  "fl_ok F v rnd \<longleftrightarrow>
     mono rnd \<and> (\<forall>x. \<bar>rnd x - x\<bar> \<le> \<bar>x\<bar> / 2 ^ 53) \<and>
     (\<forall>i. \<bar>i\<bar> \<le> 2 ^ 53 \<longrightarrow> rnd (of_int i) = of_int i) \<and>
     (\<forall>q. v (fl_lit F q) = rnd (of_rat q)) \<and>
     (\<forall>x y. v (fl_add F x y) = rnd (v x + v y)) \<and>
     (\<forall>x y. v (fl_mul F x y) = rnd (v x * v y)) \<and>
     (\<forall>x y. v y \<noteq> 0 \<longrightarrow> v (fl_div F x y) = rnd (v x / v y)) \<and>
     (\<forall>x. 0 \<le> v x \<longrightarrow> v (fl_sqrt F x) = rnd (sqrt (v x))) \<and>
     (\<forall>x y. fl_less F x y \<longleftrightarrow> v x < v y) \<and>
     (\<forall>x y. fl_eq F x y \<longleftrightarrow> v x = v y) \<and>
     (\<forall>i j. j \<noteq> 0 \<longrightarrow> v (fl_quot F i j) = rnd (of_int i / of_int j))"

lemma fl_okD:
  assumes "fl_ok F v rnd"
  shows "v (fl_lit F q) = rnd (of_rat q)" "v (fl_add F x y) = rnd (v x + v y)"
    "v (fl_mul F x y) = rnd (v x * v y)" "v y \<noteq> 0 \<Longrightarrow> v (fl_div F x y) = rnd (v x / v y)"
    "0 \<le> v x \<Longrightarrow> v (fl_sqrt F x) = rnd (sqrt (v x))" "fl_less F x y \<longleftrightarrow> v x < v y"
    "fl_eq F x y \<longleftrightarrow> v x = v y" "j \<noteq> 0 \<Longrightarrow> v (fl_quot F i j) = rnd (of_int i / of_int j)"
    "a \<le> b \<Longrightarrow> rnd a \<le> rnd b" "\<bar>k\<bar> \<le> 2 ^ 53 \<Longrightarrow> rnd (of_int k) = of_int k"
    "\<bar>rnd a - a\<bar> \<le> \<bar>a\<bar> / 2 ^ 53"
  using assms by (auto simp: fl_ok_def mono_def)

text \<open>A rounded value stays between the integers the exact value lies between.\<close>

lemma rnd_le: "fl_ok F v rnd \<Longrightarrow> \<bar>k\<bar> \<le> 2 ^ 53 \<Longrightarrow> a \<le> of_int k \<Longrightarrow> rnd a \<le> of_int k"
  using fl_okD(9) [of F v rnd a "of_int k"] fl_okD(10) [of F v rnd k] by simp

lemma rnd_ge: "fl_ok F v rnd \<Longrightarrow> \<bar>k\<bar> \<le> 2 ^ 53 \<Longrightarrow> of_int k \<le> a \<Longrightarrow> of_int k \<le> rnd a"
  using fl_okD(9) [of F v rnd "of_int k" a] fl_okD(10) [of F v rnd k] by simp

lemma fl_lit_int: "fl_ok F v rnd \<Longrightarrow> \<bar>k\<bar> \<le> 2 ^ 53 \<Longrightarrow> v (fl_lit F (of_int k)) = of_int k"
  by (simp add: fl_okD(1,10))

text \<open>Exact arithmetic is one instance: floats without rounding.\<close>

definition exact_floats :: "real floats" where
  "exact_floats =
     \<lparr>fl_lit = of_rat, fl_add = (+), fl_mul = (*), fl_div = (/), fl_sqrt = sqrt, fl_pow = (powr),
      fl_less = (<), fl_eq = (=), fl_quot = (\<lambda>i j. of_int i / of_int j), fl_round6 = (\<lambda>x. x),
      fl_repr = (\<lambda>x. ''0.5''), fl_read = (\<lambda>s. 0.5)\<rparr>"

lemma exact_floats_ok: "fl_ok exact_floats (\<lambda>x. x) (\<lambda>x. x)"
  by (simp add: fl_ok_def exact_floats_def mono_def)

section \<open>Stable sorting, largest first\<close>

text \<open>
  \<open>xs.sort(key=key, reverse=True)\<close>: the sort of Python is stable, also with \<open>reverse=True\<close>.
\<close>

fun insert_desc :: "('k \<Rightarrow> 'k \<Rightarrow> bool) \<Rightarrow> ('a \<Rightarrow> 'k) \<Rightarrow> 'a \<Rightarrow> 'a list \<Rightarrow> 'a list" where
  "insert_desc lt key x [] = [x]"
| "insert_desc lt key x (y # ys) =
     (if lt (key x) (key y) then y # insert_desc lt key x ys else x # y # ys)"

definition sort_desc :: "('k \<Rightarrow> 'k \<Rightarrow> bool) \<Rightarrow> ('a \<Rightarrow> 'k) \<Rightarrow> 'a list \<Rightarrow> 'a list" where
  "sort_desc lt key xs = foldr (insert_desc lt key) xs []"

definition desc :: "('k \<Rightarrow> 'k \<Rightarrow> bool) \<Rightarrow> ('a \<Rightarrow> 'k) \<Rightarrow> 'a list \<Rightarrow> bool" where
  "desc lt key xs \<longleftrightarrow> sorted_wrt (\<lambda>x y. \<not> lt (key x) (key y)) xs"

lemma mset_insert_desc [simp]: "mset (insert_desc lt key x xs) = add_mset x (mset xs)"
  by (induction xs) auto

lemma set_insert_desc [simp]: "set (insert_desc lt key x xs) = insert x (set xs)"
  by (induction xs) auto

lemma mset_sort_desc [simp]: "mset (sort_desc lt key xs) = mset xs"
  by (induction xs) (simp_all add: sort_desc_def)

lemma set_sort_desc [simp]: "set (sort_desc lt key xs) = set xs"
  using mset_sort_desc by (metis set_mset_mset)

lemma length_sort_desc [simp]: "length (sort_desc lt key xs) = length xs"
  using mset_sort_desc by (metis size_mset)

lemma sort_desc_Nil [simp]: "sort_desc lt key [] = []"
  by (simp add: sort_desc_def)

lemma sort_desc_Cons: "sort_desc lt key (x # xs) = insert_desc lt key x (sort_desc lt key xs)"
  by (simp add: sort_desc_def)

text \<open>A comparison by a numeric value: what is inserted lands at its place.\<close>

lemma desc_insert:
  fixes v :: "'k \<Rightarrow> 'v::linorder"
  assumes "\<And>a b. lt a b \<longleftrightarrow> v a < v b"
  shows "desc lt key xs \<Longrightarrow> desc lt key (insert_desc lt key x xs)"
  by (induction xs) (auto simp: desc_def assms)

lemma desc_sort:
  fixes v :: "'k \<Rightarrow> 'v::linorder"
  assumes "\<And>a b. lt a b \<longleftrightarrow> v a < v b"
  shows "desc lt key (sort_desc lt key xs)"
  by (induction xs) (simp_all add: sort_desc_Cons desc_insert [OF assms], simp add: desc_def)

lemma sort_desc_id: "desc lt key xs \<Longrightarrow> sort_desc lt key xs = xs"
proof (induction xs)
  case (Cons x xs)
  then have "sort_desc lt key xs = xs" by (simp add: desc_def)
  with Cons.prems show ?case by (cases xs) (simp_all add: sort_desc_Cons desc_def)
qed simp

text \<open>Where everything in front has a larger key, sorting the whole sorts the two parts.\<close>

lemma insert_desc_front:
  assumes "\<forall>y \<in> set ys. \<not> lt (key x) (key y)"
  shows "insert_desc lt key x (xs @ ys) = insert_desc lt key x xs @ ys"
  using assms by (induction xs) (cases ys; simp)+

lemma sort_desc_append:
  assumes "\<forall>x \<in> set xs. \<forall>y \<in> set ys. \<not> lt (key x) (key y)"
  shows "sort_desc lt key (xs @ ys) = sort_desc lt key xs @ sort_desc lt key ys"
  using assms by (induction xs) (simp_all add: sort_desc_Cons insert_desc_front)

lemma sort_desc_cong:
  assumes "\<And>x y. x \<in> set xs \<Longrightarrow> y \<in> set xs \<Longrightarrow> lt (key x) (key y) \<longleftrightarrow> lt' (key' x) (key' y)"
  shows "sort_desc lt key xs = sort_desc lt' key' xs"
  using assms
proof (induction xs)
  case (Cons x xs)
  have "insert_desc lt key x ys = insert_desc lt' key' x ys" if "set ys \<subseteq> set xs" for ys
    using that Cons.prems by (induction ys) auto
  with Cons show ?case by (simp add: sort_desc_Cons)
qed simp

lemma map_insert_desc: "map f (insert_desc lt (\<lambda>x. key (f x)) x xs) = insert_desc lt key (f x) (map f xs)"
  by (induction xs) auto

lemma sort_desc_map: "sort_desc lt key (map f xs) = map f (sort_desc lt (\<lambda>x. key (f x)) xs)"
  by (induction xs) (simp_all add: sort_desc_Cons map_insert_desc)

section \<open>Dates\<close>

text \<open>The proleptic Gregorian calendar: year, month and day of a day number since 1970-01-01.\<close>

definition civil :: "int \<Rightarrow> int \<times> int \<times> int" where
  "civil days =
     (let z = days + 719468;
          era = z div 146097;
          doe = z mod 146097;
          yoe = (doe - doe div 1460 + doe div 36524 - doe div 146096) div 365;
          doy = doe - (365 * yoe + yoe div 4 - yoe div 100);
          mp = (5 * doy + 2) div 153;
          d = doy - (153 * mp + 2) div 5 + 1;
          m = (if mp < 10 then mp + 3 else mp - 9);
          y = yoe + era * 400
      in (if m \<le> 2 then y + 1 else y, m, d))"

definition pad :: "nat \<Rightarrow> int \<Rightarrow> string" where
  "pad n i = (let s = dec_int i in replicate (n - length s) CHR ''0'' @ s)"

definition day_usecs :: int where "day_usecs = 86400000000"

text \<open>\<open>t.strftime("%Y-%m-%d %H:%M")\<close>\<close>

definition minute_stamp :: "time \<Rightarrow> string" where
  "minute_stamp t =
     (case civil (t div day_usecs) of (y, m, d) \<Rightarrow>
        let secs = t mod day_usecs div 1000000
        in pad 4 y @ ''-'' @ pad 2 m @ ''-'' @ pad 2 d @ '' '' @
           pad 2 (secs div 3600) @ '':'' @ pad 2 (secs mod 3600 div 60))"

text \<open>\<open>t.isoformat()\<close> of an aware \<open>datetime\<close> in UTC: microseconds only when there are any.\<close>

definition iso_stamp :: "time \<Rightarrow> string" where
  "iso_stamp t =
     (case civil (t div day_usecs) of (y, m, d) \<Rightarrow>
        let secs = t mod day_usecs div 1000000; us = t mod 1000000
        in pad 4 y @ ''-'' @ pad 2 m @ ''-'' @ pad 2 d @ ''T'' @
           pad 2 (secs div 3600) @ '':'' @ pad 2 (secs mod 3600 div 60) @ '':'' @ pad 2 (secs mod 60) @
           (if us = 0 then [] else ''.'' @ pad 6 us) @ ''+00:00'')"

text \<open>\<open>t.timestamp()\<close>\<close>

definition fl_timestamp :: "'f floats \<Rightarrow> time \<Rightarrow> 'f" where
  "fl_timestamp F t = fl_quot F t 1000000"

end
