(* ===== verification/Briefs.thy ===== *)
theory Briefs
  imports Floats Contracts
begin

text \<open>
  \<open>contracts/briefs.py\<close> and \<open>context_engine/brief_assembly.py\<close>: segments of a customer's history,
  and the packer that fits them into a token budget.
\<close>

section \<open>Contracts\<close>

datatype retrieval_strategy = RECENCY | SEMANTIC | SUMMARIZED | HYBRID

datatype segment_source = RECENT_MESSAGE | SEMANTIC_MATCH | SUMMARY | PRIOR_ACTION

record 'f brief_segment =
  sg_source :: segment_source
  sg_body :: string
  sg_token_estimate :: int
  sg_priority :: 'f
  sg_metadata :: dict

definition segment_valid :: "'f brief_segment \<Rightarrow> bool" where
  "segment_valid s \<longleftrightarrow> sg_body s \<noteq> [] \<and> 0 \<le> sg_token_estimate s"

record 'f brief =
  br_id :: string
  br_tenant_id :: string
  br_customer_id :: string
  br_query_hash :: string
  br_token_budget :: int
  br_token_count :: int
  br_strategy :: retrieval_strategy
  br_body :: string
  br_segments :: "'f brief_segment list"
  br_created_at :: time
  br_expires_at :: "time option"

definition brief_valid :: "'f brief \<Rightarrow> bool" where
  "brief_valid b \<longleftrightarrow>
     len_within 1 64 (br_id b) \<and> len_within 1 64 (br_tenant_id b) \<and> len_within 1 64 (br_customer_id b) \<and>
     len_within 1 128 (br_query_hash b) \<and> 0 < br_token_budget b \<and> 0 \<le> br_token_count b \<and>
     list_all segment_valid (br_segments b) \<and> br_token_count b \<le> br_token_budget b"

section \<open>The packer\<close>

definition estimate_tokens :: "string \<Rightarrow> int" where
  "estimate_tokens s = int (length s) div 4"

definition NEWLINE_TOKEN_COST :: int where
  "NEWLINE_TOKEN_COST = 1"

definition nl :: string where
  "nl = [CHR 0x0A]"

definition pack_step :: "int \<Rightarrow> 'f brief_segment \<Rightarrow> string list \<times> int \<Rightarrow> string list \<times> int" where
  "pack_step token_budget seg state =
     (case state of (parts, used_tokens) \<Rightarrow>
        let cost = sg_token_estimate seg + NEWLINE_TOKEN_COST
        in if token_budget < used_tokens + cost then (parts, used_tokens)
           else (parts @ [sg_body seg], used_tokens + cost))"

function trim :: "int \<Rightarrow> string list \<Rightarrow> string" where
  "trim token_budget parts =
     (let brief = join nl parts
      in if token_budget < estimate_tokens brief \<and> parts \<noteq> [] then trim token_budget (butlast parts)
         else brief)"
  by pat_completeness auto
termination
  by (relation "measure (\<lambda>(b, parts). length parts)") auto

declare trim.simps [simp del]

definition pack_header :: "int \<Rightarrow> string option \<Rightarrow> string list \<times> int" where
  "pack_header token_budget header =
     (case header of
        None \<Rightarrow> ([], 0)
      | Some h \<Rightarrow>
          if h = [] then ([], 0)
          else let header_cost = estimate_tokens h + NEWLINE_TOKEN_COST
               in if header_cost \<le> token_budget then ([h], header_cost) else ([], 0))"

definition pack_segments :: "'f brief_segment list \<Rightarrow> int \<Rightarrow> string option \<Rightarrow> py_exn + string" where
  "pack_segments segments token_budget header =
     (if token_budget \<le> 0
      then Inl (Exn ''ValueError'' (''token_budget must be positive, got '' @ dec_int token_budget))
      else Inr (trim token_budget
        (fst (fold (pack_step token_budget) segments (pack_header token_budget header)))))"

section \<open>The budget\<close>

lemma estimate_mono: "length s \<le> length t \<Longrightarrow> estimate_tokens s \<le> estimate_tokens t"
  by (simp add: estimate_tokens_def zdiv_mono1)

lemma estimate_nonneg [simp]: "0 \<le> estimate_tokens s"
  by (simp add: estimate_tokens_def)

lemma estimate_empty [simp]: "estimate_tokens [] = 0"
  by (simp add: estimate_tokens_def)

lemma trim_fits: "0 \<le> b \<Longrightarrow> estimate_tokens (trim b parts) \<le> b"
proof (induction b parts rule: trim.induct)
  case (1 b parts)
  then show ?case
    by (subst trim.simps) (auto simp: Let_def not_less)
qed

lemma trim_id: "estimate_tokens (join nl parts) \<le> b \<Longrightarrow> trim b parts = join nl parts"
  by (subst trim.simps) (simp add: Let_def)

definition costs :: "string list \<Rightarrow> int" where
  "costs parts = sum_list (map (\<lambda>p. estimate_tokens p + NEWLINE_TOKEN_COST) parts)"

lemma costs_simps [simp]:
  "costs [] = 0" "costs (p # ps) = estimate_tokens p + 1 + costs ps" "costs (ps @ qs) = costs ps + costs qs"
  by (simp_all add: costs_def NEWLINE_TOKEN_COST_def)

text \<open>One token per newline pays for the fractions of a token the parts round off.\<close>

lemma length_join_costs: "int (length (join nl parts)) + 1 \<le> 4 * costs parts" if "parts \<noteq> []"
  using that
proof (induction parts rule: induct_list012)
  case (2 p)
  then show ?case by (simp add: estimate_tokens_def)
next
  case (3 p q ps)
  have "int (length p) \<le> 4 * (int (length p) div 4) + 3" by presburger
  with 3 show ?case by (simp add: nl_def estimate_tokens_def)
qed simp

lemma estimate_join: "estimate_tokens (join nl parts) \<le> costs parts"
proof (cases "parts = []")
  case False
  from length_join_costs [OF this] show ?thesis
    by (simp add: estimate_tokens_def)
qed simp

section \<open>What is packed\<close>

definition honest :: "'f brief_segment \<Rightarrow> bool" where
  "honest s \<longleftrightarrow> sg_token_estimate s = estimate_tokens (sg_body s)"

definition seg_cost :: "'f brief_segment \<Rightarrow> int" where
  "seg_cost s = estimate_tokens (sg_body s) + NEWLINE_TOKEN_COST"

text \<open>
  \<open>greedy_choice\<close>: \<open>keep\<close> holds of the segments that still fit after those kept before them.
\<close>

definition spent :: "'f brief_segment list \<Rightarrow> (nat \<Rightarrow> bool) \<Rightarrow> nat \<Rightarrow> int" where
  "spent segs keep n = sum_list (map (\<lambda>j. seg_cost (segs ! j)) (filter keep [0..<n]))"

definition greedy_choice :: "int \<Rightarrow> int \<Rightarrow> 'f brief_segment list \<Rightarrow> (nat \<Rightarrow> bool) \<Rightarrow> bool" where
  "greedy_choice used budget segs keep \<longleftrightarrow>
     (\<forall>i < length segs. keep i \<longleftrightarrow> used + spent segs keep i + seg_cost (segs ! i) \<le> budget)"

definition kept :: "'f brief_segment list \<Rightarrow> (nat \<Rightarrow> bool) \<Rightarrow> string list" where
  "kept segs keep = map (\<lambda>i. sg_body (segs ! i)) (filter keep [0..<length segs])"

lemma spent_simps [simp]:
  "spent segs keep 0 = 0"
  "spent segs keep (Suc n) = spent segs keep n + (if keep n then seg_cost (segs ! n) else 0)"
  by (simp_all add: spent_def)

lemma spent_snoc: "n \<le> length segs \<Longrightarrow> spent (segs @ [s]) (keep(length segs := b)) n = spent segs keep n"
  by (induction n) (auto simp: nth_append)

lemma seg_cost_nonneg [simp]: "0 \<le> seg_cost s"
  by (simp add: seg_cost_def NEWLINE_TOKEN_COST_def)

lemma spent_mono: "i \<le> j \<Longrightarrow> spent segs keep i \<le> spent segs keep j"
  by (induction j) (auto simp: le_Suc_eq intro: order_trans)

lemma kept_snoc:
  "kept (segs @ [s]) (keep(length segs := b)) = kept segs keep @ (if b then [sg_body s] else [])"
proof -
  have "filter (keep(length segs := b)) [0..<length segs] = filter keep [0..<length segs]"
    by (rule filter_cong) auto
  then show ?thesis by (simp add: kept_def nth_append)
qed

lemma pack_loop:
  assumes "list_all honest segs"
  shows "\<exists>keep. greedy_choice used budget segs keep \<and>
    fold (pack_step budget) segs (parts, used) = (parts @ kept segs keep, used + spent segs keep (length segs))"
  using assms
proof (induction segs rule: rev_induct)
  case Nil
  show ?case by (simp add: greedy_choice_def kept_def)
next
  case (snoc s segs)
  then obtain keep where k: "greedy_choice used budget segs keep"
    "fold (pack_step budget) segs (parts, used) = (parts @ kept segs keep, used + spent segs keep (length segs))"
    by auto
  define total where "total = used + spent segs keep (length segs)"
  let ?b = "total + seg_cost s \<le> budget"
  let ?keep = "keep(length segs := ?b)"
  have "greedy_choice used budget (segs @ [s]) ?keep"
    unfolding greedy_choice_def
  proof (intro allI impI)
    fix i assume "i < length (segs @ [s])"
    then have "i < length segs \<or> i = length segs" by auto
    then show "?keep i \<longleftrightarrow> used + spent (segs @ [s]) ?keep i + seg_cost ((segs @ [s]) ! i) \<le> budget"
      using k(1) by (auto simp: spent_snoc nth_append total_def greedy_choice_def)
  qed
  moreover have "fold (pack_step budget) (segs @ [s]) (parts, used) =
      (parts @ kept (segs @ [s]) ?keep, used + spent (segs @ [s]) ?keep (length (segs @ [s])))"
    using snoc.prems unfolding fold_append comp_apply k(2) total_def [symmetric]
    by (simp add: pack_step_def honest_def seg_cost_def [symmetric] kept_snoc spent_snoc total_def)
  ultimately show ?case by blast
qed

lemma costs_kept: "costs (kept segs keep) = spent segs keep (length segs)"
  by (simp add: costs_def kept_def seg_cost_def spent_def comp_def)

lemma greedy_fits:
  assumes "greedy_choice used budget segs keep" and "used \<le> budget"
  shows "used + costs (kept segs keep) \<le> budget"
proof -
  have "n \<le> length segs \<Longrightarrow> used + spent segs keep n \<le> budget" for n
    by (induction n) (use assms in \<open>simp_all add: greedy_choice_def add.assoc\<close>)
  then show ?thesis by (simp add: costs_kept)
qed

lemma header_cost: "snd (pack_header b h) = costs (fst (pack_header b h))"
  "0 \<le> b \<Longrightarrow> snd (pack_header b h) \<le> b"
  by (cases h; simp add: pack_header_def NEWLINE_TOKEN_COST_def Let_def)+

section \<open>Properties\<close>

text \<open>
  A brief never exceeds its budget, whatever the segments claim to cost: the packer raises
  exactly for a budget that is not positive, and otherwise returns a text of at most
  \<open>token_budget\<close> estimated tokens, so a \<open>Brief\<close> row built from it satisfies its contract.
\<close>

theorem brief_within_budget:
  "(case pack_segments segments token_budget header of
      Inl e \<Rightarrow> token_budget \<le> 0
    | Inr text \<Rightarrow> 0 < token_budget \<and> 0 \<le> estimate_tokens text \<and> estimate_tokens text \<le> token_budget)"
  by (simp add: pack_segments_def trim_fits)

text \<open>
  C38. The packer is greedy in the caller's order and skips what does not fit (the docstring of
  \<open>BriefSegment\<close> has it sort by priority and stop at the first segment that would exceed the budget;
  the packer's own docstring says what it does).  With segments that carry the estimate of their body,
  as every retrieval strategy builds them, and a positive budget, the brief is the header (when it
  fits) and exactly those segments that still fit after the ones kept before them, joined by newlines;
  the final trimming never removes anything, and no segment that was dropped would have fitted into
  what is left of the budget.
\<close>

theorem brief_is_greedy:
  assumes "list_all honest segments" and "0 < token_budget"
  shows "\<exists>keep. greedy_choice (costs (fst (pack_header token_budget header))) token_budget segments keep \<and>
    pack_segments segments token_budget header =
      Inr (join nl (fst (pack_header token_budget header) @ kept segments keep)) \<and>
    (\<forall>i < length segments. \<not> keep i \<longrightarrow>
       token_budget < costs (fst (pack_header token_budget header) @ kept segments keep) + seg_cost (segments ! i))"
proof -
  obtain parts used where h: "pack_header token_budget header = (parts, used)" by fastforce
  then have used: "used = costs parts" "used \<le> token_budget"
    using header_cost [of token_budget header] assms(2) by auto
  from pack_loop [OF assms(1), of used token_budget parts] obtain keep where
    k: "greedy_choice used token_budget segments keep"
       "fst (fold (pack_step token_budget) segments (parts, used)) = parts @ kept segments keep"
    by auto
  have fits: "costs (parts @ kept segments keep) \<le> token_budget"
    using greedy_fits [OF k(1) used(2)] used(1) by simp
  then have "pack_segments segments token_budget header = Inr (join nl (parts @ kept segments keep))"
    using assms(2) k(2) h estimate_join [of "parts @ kept segments keep"]
    by (simp add: pack_segments_def trim_id)
  moreover have "token_budget < costs (parts @ kept segments keep) + seg_cost (segments ! i)"
    if "i < length segments" "\<not> keep i" for i
  proof -
    have "token_budget < used + spent segments keep i + seg_cost (segments ! i)"
      using k(1) that by (auto simp: greedy_choice_def not_le [symmetric])
    also have "spent segments keep i \<le> spent segments keep (length segments)"
      using that(1) by (intro spent_mono) simp
    finally show ?thesis using used(1) by (simp add: costs_kept)
  qed
  ultimately show ?thesis using k(1) used(1) h by auto
qed

definition demo_segment :: "string \<Rightarrow> real brief_segment" where
  "demo_segment body = \<lparr>sg_source = RECENT_MESSAGE, sg_body = body,
     sg_token_estimate = estimate_tokens body, sg_priority = 0, sg_metadata = []\<rparr>"

theorem brief_is_greedy_witness:
  "\<exists>keep. keep 0 \<and> \<not> keep 1 \<and> keep 2 \<and>
    pack_segments [demo_segment ''hello'', demo_segment (replicate 40 CHR ''x''), demo_segment ''bye''] 4 (Some ''hi'') =
      Inr (join nl ([''hi''] @ kept [demo_segment ''hello'', demo_segment (replicate 40 CHR ''x''), demo_segment ''bye''] keep))"
proof -
  let ?segs = "[demo_segment ''hello'', demo_segment (replicate 40 CHR ''x''), demo_segment ''bye'']"
  have "list_all honest ?segs" by (simp add: demo_segment_def honest_def)
  from brief_is_greedy [OF this, of 4 "Some ''hi''"] obtain keep where
    g: "greedy_choice 1 4 ?segs keep" "pack_segments ?segs 4 (Some ''hi'') = Inr (join nl ([''hi''] @ kept ?segs keep))"
    by (auto simp: pack_header_def estimate_tokens_def NEWLINE_TOKEN_COST_def)
  have c: "seg_cost (?segs ! 0) = 2" "seg_cost (?segs ! 1) = 11" "seg_cost (?segs ! 2) = 1"
    by (simp_all add: demo_segment_def seg_cost_def estimate_tokens_def NEWLINE_TOKEN_COST_def)
  have fits: "keep i \<longleftrightarrow>
      1 + spent ?segs keep i + seg_cost (?segs ! i) \<le> 4"
    if "i < 3" for i
    using g(1) that unfolding greedy_choice_def by simp
  have "keep 0" using fits [of 0] c(1) by simp
  moreover from this have "\<not> keep 1" using fits [of 1] c(1,2) by simp
  moreover from calculation have "keep 2" using fits [of 2] c by (simp add: numeral_2_eq_2)
  ultimately show ?thesis using g(2) by blast
qed

end
