(* ===== verification/Retrieval.thy ===== *)
theory Retrieval
  imports Briefs Llm_Clients
begin

text \<open>
  The retrieval strategies of \<open>context_engine/retrieval\<close>: recency, the hashed bag-of-words
  embedding with cosine similarity, the summary of the cold tail, the hybrid of the three and
  the re-ranker.  Each turns a history of messages and actions into segments for the packer.
  A history is made of aware timestamps, and the clients are the ones the factory yields.
\<close>

unbundle bit_operations_syntax

section \<open>Histories and their rendering (\<open>recency.py\<close>)\<close>

record message_like =
  ml_channel :: string
  ml_sender :: string
  ml_content :: string
  ml_timestamp :: time
  ml_metadata :: dict

record action_like =
  al_action_type :: string
  al_details :: dict
  al_timestamp :: time

definition str_list :: "json list \<Rightarrow> string" where
  "str_list xs = join '', '' (map py_str xs)"

definition format_message_segment :: "message_like \<Rightarrow> string" where
  "format_message_segment msg =
     (let meta = ml_metadata msg;
          line = ''['' @ ml_channel msg @ ''] '' @ minute_stamp (ml_timestamp msg) @ '' '' @
            ml_sender msg @ '': '' @ ml_content msg;
          extras =
            (case dict_get meta ''subject'' of None \<Rightarrow> [] | Some s \<Rightarrow> [''subject='' @ py_repr s]) @
            (case dict_get meta ''attachments'' of
               None \<Rightarrow> []
             | Some (JList xs) \<Rightarrow> [''attachments=['' @ str_list xs @ '']'']
             | Some atts \<Rightarrow> [''attachments='' @ py_repr atts])
      in if extras = [] then line else line @ '' ('' @ join ''; '' extras @ '')'')"

definition format_action_segment :: "action_like \<Rightarrow> string" where
  "format_action_segment act =
     (let line = ''[action] '' @ minute_stamp (al_timestamp act) @ '' '' @ al_action_type act;
          parts = map (\<lambda>(k, v). k @ ''='' @ (case v of JList xs \<Rightarrow> str_list xs | _ \<Rightarrow> py_str v)) (al_details act)
      in if al_details act = [] then line else line @ '' ('' @ join ''; '' parts @ '')'')"

definition segment :: "segment_source \<Rightarrow> string \<Rightarrow> 'f \<Rightarrow> dict \<Rightarrow> 'f brief_segment" where
  "segment src body priority metadata =
     \<lparr>sg_source = src, sg_body = body, sg_token_estimate = estimate_tokens body,
      sg_priority = priority, sg_metadata = metadata\<rparr>"

definition sort_segments :: "'f floats \<Rightarrow> 'f brief_segment list \<Rightarrow> 'f brief_segment list" where
  "sort_segments F = sort_desc (fl_less F) sg_priority"

definition action_metadata :: "action_like \<Rightarrow> dict" where
  "action_metadata act = [(''action_type'', JStr (al_action_type act))]"

definition message_metadata :: "message_like \<Rightarrow> dict" where
  "message_metadata msg = [(''channel'', JStr (ml_channel msg)), (''sender'', JStr (ml_sender msg))]"

definition recency_segments :: "'f floats \<Rightarrow> message_like list \<Rightarrow> action_like list \<Rightarrow> 'f brief_segment list" where
  "recency_segments F messages actions =
     sort_segments F
       (map (\<lambda>act. segment PRIOR_ACTION (format_action_segment act)
            (fl_add F (fl_timestamp F (al_timestamp act)) (fl_lit F 1)) (action_metadata act)) actions @
        map (\<lambda>msg. segment RECENT_MESSAGE (format_message_segment msg)
            (fl_timestamp F (ml_timestamp msg)) (message_metadata msg)) messages)"

section \<open>Embedding and similarity (\<open>semantic.py\<close>)\<close>

definition EMBED_DIM :: int where "EMBED_DIM = 4096"
definition MIN_TOKEN_LEN :: nat where "MIN_TOKEN_LEN = 2"
definition FNV_OFFSET :: int where "FNV_OFFSET = 0x811C9DC5"
definition FNV_PRIME :: int where "FNV_PRIME = 0x01000193"

definition is_az09 :: "char \<Rightarrow> bool" where
  "is_az09 c \<longleftrightarrow> is_lower_az c \<or> is_digit c"

text \<open>\<open>re.split(r"[^a-z0-9]+", s)\<close>\<close>

function split_az09 :: "string \<Rightarrow> string list" where
  "split_az09 s =
     (let w = takeWhile is_az09 s; rest = dropWhile is_az09 s
      in if rest = [] then [w] else w # split_az09 (dropWhile (\<lambda>c. \<not> is_az09 c) rest))"
  by pat_completeness auto
termination
proof (relation "measure length")
  fix s w rest :: string
  assume "rest = dropWhile is_az09 s" "rest \<noteq> []"
  then obtain c cs where "rest = c # cs" "\<not> is_az09 c"
    by (metis hd_dropWhile list.collapse)
  moreover have "length rest \<le> length s"
    using \<open>rest = dropWhile is_az09 s\<close> by (simp add: length_dropWhile_le)
  ultimately have "length (dropWhile (\<lambda>c. \<not> is_az09 c) rest) < length s"
    using length_dropWhile_le [of "\<lambda>c. \<not> is_az09 c" cs] by simp
  then show "(dropWhile (\<lambda>c. \<not> is_az09 c) rest, s) \<in> measure length" by simp
qed simp

declare split_az09.simps [simp del]

definition tokenize :: "string \<Rightarrow> string list" where
  "tokenize text =
     (if text = [] then [] else filter (\<lambda>t. MIN_TOKEN_LEN \<le> length t) (split_az09 (py_lower text)))"

definition utf8 :: "string \<Rightarrow> int list" where
  "utf8 s = concat (map (\<lambda>c.
     let n = of_char c in if n < 128 then [n] else [192 + n div 64, 128 + n mod 64]) s)"

definition fnv1a32 :: "string \<Rightarrow> int" where
  "fnv1a32 token = fold (\<lambda>ch h. ((h XOR ch) * FNV_PRIME) AND 0xFFFFFFFF) (utf8 token) FNV_OFFSET"

type_synonym 'f embedding = "(int \<times> 'f) list"

definition embed :: "'f floats \<Rightarrow> string \<Rightarrow> 'f embedding" where
  "embed F text =
     fold (\<lambda>tok vec.
        let bucket = fnv1a32 tok mod EMBED_DIM;
            old = (case map_of vec bucket of None \<Rightarrow> fl_lit F 0 | Some x \<Rightarrow> x)
        in AList.update bucket (fl_add F old (fl_lit F 1)) vec) (tokenize text) []"

definition fl_sum_squares :: "'f floats \<Rightarrow> 'f embedding \<Rightarrow> 'f" where
  "fl_sum_squares F a = fold (\<lambda>(k, x) s. fl_add F s (fl_mul F x x)) a (fl_lit F 0)"

definition dot_product :: "'f floats \<Rightarrow> 'f embedding \<Rightarrow> 'f embedding \<Rightarrow> 'f" where
  "dot_product F a b =
     fold (\<lambda>(k, va) dot. case map_of b k of None \<Rightarrow> dot | Some vb \<Rightarrow> fl_add F dot (fl_mul F va vb))
       a (fl_lit F 0)"

definition cosine :: "'f floats \<Rightarrow> 'f embedding \<Rightarrow> 'f embedding \<Rightarrow> 'f" where
  "cosine F a b =
     (if a = [] \<or> b = [] then fl_lit F 0
      else let (a, b) = (if length b < length a then (b, a) else (a, b));
               dot = dot_product F a b;
               norm_a = fl_sqrt F (fl_sum_squares F a);
               norm_b = fl_sqrt F (fl_sum_squares F b)
           in if fl_eq F norm_a (fl_lit F 0) \<or> fl_eq F norm_b (fl_lit F 0) then fl_lit F 0
              else fl_div F dot (fl_mul F norm_a norm_b))"

definition action_text :: "action_like \<Rightarrow> string" where
  "action_text act =
     py_strip (al_action_type act @ '' '' @ join '' '' (map (\<lambda>(k, v). k @ '' '' @ py_str v) (al_details act)))"

text \<open>The score with the timestamp as a tie-break.\<close>

definition semantic_priority :: "'f floats \<Rightarrow> 'f \<Rightarrow> time \<Rightarrow> 'f" where
  "semantic_priority F score t = fl_add F score (fl_mul F (fl_timestamp F t) (fl_lit F (1 / 10 ^ 12)))"

definition similarity :: "'f floats \<Rightarrow> 'f \<Rightarrow> json" where
  "similarity F score = JFloat (fl_repr F (fl_round6 F score))"

definition semantic_segments :: "'f floats \<Rightarrow> string \<Rightarrow> message_like list \<Rightarrow> action_like list \<Rightarrow>
    'f brief_segment list" where
  "semantic_segments F query messages actions =
     (let query_vec = embed F query in
      sort_segments F
       (map (\<lambda>msg. let score = cosine F query_vec (embed F (ml_content msg)) in
            segment SEMANTIC_MATCH (format_message_segment msg) (semantic_priority F score (ml_timestamp msg))
              (message_metadata msg @ [(''similarity'', similarity F score),
                 (''timestamp'', JStr (iso_stamp (ml_timestamp msg)))])) messages @
        map (\<lambda>act. let score = cosine F query_vec (embed F (action_text act)) in
            segment PRIOR_ACTION (format_action_segment act) (semantic_priority F score (al_timestamp act))
              (action_metadata act @ [(''similarity'', similarity F score),
                 (''timestamp'', JStr (iso_stamp (al_timestamp act)))])) actions))"

section \<open>The summary of old messages (\<open>summarized.py\<close>)\<close>

definition DEFAULT_RECENT_WINDOW :: int where "DEFAULT_RECENT_WINDOW = 5"

definition priority_summary :: "'f floats \<Rightarrow> 'f" where
  "priority_summary F = fl_lit F (10 ^ 18)"

definition action_band :: "'f floats \<Rightarrow> time \<Rightarrow> 'f" where
  "action_band F t = fl_add F (fl_lit F (10 ^ 12)) (fl_timestamp F t)"

definition flatten_for_summary :: "message_like list \<Rightarrow> string" where
  "flatten_for_summary messages =
     join nl (map (\<lambda>msg. ''['' @ ml_channel msg @ ''] '' @ minute_stamp (ml_timestamp msg) @ '' '' @
       ml_sender msg @ '': '' @ ml_content msg) messages)"

definition summary_for_window :: "'f floats \<Rightarrow> message_like list \<Rightarrow> llm_client \<Rightarrow> int \<Rightarrow>
    py_exn + 'f brief_segment option" where
  "summary_for_window F cold_messages client max_tokens =
     (if cold_messages = [] then Inr None
      else case llm_summarize client (flatten_for_summary cold_messages) max_tokens of
        Inl e \<Rightarrow> Inl e
      | Inr summary_text \<Rightarrow>
          if summary_text = [] then Inr None
          else Inr (Some (segment SUMMARY (''[summary] '' @ summary_text) (priority_summary F)
            [(''n_messages_summarized'', JInt (int (length cold_messages))),
             (''llm_provider'', JStr (llm_name client)), (''llm_model'', JStr (llm_model client))])))"

definition newest_first :: "message_like list \<Rightarrow> message_like list" where
  "newest_first = sort_desc (<) ml_timestamp"

definition opt_list :: "'a option \<Rightarrow> 'a list" where
  "opt_list x = (case x of None \<Rightarrow> [] | Some y \<Rightarrow> [y])"

definition summarized_segments :: "'f floats \<Rightarrow> message_like list \<Rightarrow> action_like list \<Rightarrow> int \<Rightarrow>
    py_exn + llm_client \<Rightarrow> int \<Rightarrow> py_exn + 'f brief_segment list" where
  "summarized_segments F messages actions recent_window client summary_max_tokens =
     (if messages = [] \<and> actions = [] then Inr []
      else
        let msg_list = newest_first messages;
            warm = py_take recent_window msg_list;
            cold = py_drop recent_window msg_list
        in case client of
             Inl e \<Rightarrow> Inl e
           | Inr c \<Rightarrow>
               (case summary_for_window F cold c summary_max_tokens of
                  Inl e \<Rightarrow> Inl e
                | Inr summary_seg \<Rightarrow>
                    Inr (sort_segments F
                      (opt_list summary_seg @
                       map (\<lambda>act. segment PRIOR_ACTION (format_action_segment act)
                         (action_band F (al_timestamp act)) (action_metadata act)) actions @
                       map (\<lambda>msg. segment RECENT_MESSAGE (format_message_segment msg)
                         (fl_timestamp F (ml_timestamp msg)) (message_metadata msg)) warm))))"

section \<open>The hybrid (\<open>hybrid.py\<close>)\<close>

definition DEFAULT_WARM_CUTOFF_HOURS :: int where "DEFAULT_WARM_CUTOFF_HOURS = 24"
definition DEFAULT_COLD_CUTOFF_HOURS :: int where "DEFAULT_COLD_CUTOFF_HOURS = 72"

definition warm_band :: "'f floats \<Rightarrow> time \<Rightarrow> 'f" where
  "warm_band F t = fl_add F (fl_lit F (10 ^ 6)) (fl_timestamp F t)"

definition hours :: "int \<Rightarrow> time" where
  "hours h = h * 3600000000"

definition partition_messages :: "message_like list \<Rightarrow> time \<Rightarrow> time \<Rightarrow>
    message_like list \<times> message_like list \<times> message_like list" where
  "partition_messages messages warm_cutoff cold_cutoff =
     (newest_first (filter (\<lambda>m. warm_cutoff \<le> ml_timestamp m) messages),
      newest_first (filter (\<lambda>m. cold_cutoff \<le> ml_timestamp m \<and> ml_timestamp m < warm_cutoff) messages),
      newest_first (filter (\<lambda>m. ml_timestamp m < warm_cutoff \<and> ml_timestamp m < cold_cutoff) messages))"

definition build_summary_segment :: "'f floats \<Rightarrow> message_like list \<Rightarrow> llm_client \<Rightarrow> int \<Rightarrow>
    py_exn + 'f brief_segment option" where
  "build_summary_segment F cold_messages client max_tokens =
     (if cold_messages = [] then Inr None
      else case llm_summarize client (flatten_for_summary cold_messages) max_tokens of
        Inl e \<Rightarrow> Inl e
      | Inr summary_text \<Rightarrow>
          if summary_text = [] then Inr None
          else Inr (Some (segment SUMMARY (''[summary] '' @ summary_text) (priority_summary F)
            [(''n_messages_summarized'', JInt (int (length cold_messages))),
             (''llm_provider'', JStr (llm_name client)), (''llm_model'', JStr (llm_model client)),
             (''tier'', JStr ''cold'')])))"

definition hybrid_action :: "'f floats \<Rightarrow> action_like \<Rightarrow> 'f brief_segment" where
  "hybrid_action F act = segment PRIOR_ACTION (format_action_segment act)
     (action_band F (al_timestamp act)) (action_metadata act @ [(''tier'', JStr ''action'')])"

definition hybrid_warm :: "'f floats \<Rightarrow> message_like \<Rightarrow> 'f brief_segment" where
  "hybrid_warm F msg = segment RECENT_MESSAGE (format_message_segment msg)
     (warm_band F (ml_timestamp msg)) (message_metadata msg @ [(''tier'', JStr ''warm'')])"

definition hybrid_mid :: "'f floats \<Rightarrow> 'f embedding \<Rightarrow> message_like \<Rightarrow> 'f brief_segment" where
  "hybrid_mid F query_vec msg =
     (let score = cosine F query_vec (embed F (ml_content msg)) in
      segment SEMANTIC_MATCH (format_message_segment msg) (semantic_priority F score (ml_timestamp msg))
        (message_metadata msg @ [(''similarity'', similarity F score), (''tier'', JStr ''mid'')]))"

definition hybrid_segments :: "'f floats \<Rightarrow> string \<Rightarrow> message_like list \<Rightarrow> action_like list \<Rightarrow> int \<Rightarrow> int \<Rightarrow>
    py_exn + llm_client \<Rightarrow> int \<Rightarrow> py_exn + 'f brief_segment list" where
  "hybrid_segments F query messages actions warm_cutoff_hours cold_cutoff_hours client summary_max_tokens =
     (if cold_cutoff_hours \<le> warm_cutoff_hours then
        Inl (Exn ''ValueError'' (''cold_cutoff_hours ('' @ dec_int cold_cutoff_hours @
          '') must be > warm_cutoff_hours ('' @ dec_int warm_cutoff_hours @ '')''))
      else if messages = [] \<and> actions = [] then Inr []
      else
        let reference = Max (set (map ml_timestamp messages @ map al_timestamp actions));
            (warm, mid, cold) = partition_messages messages
              (reference - hours warm_cutoff_hours) (reference - hours cold_cutoff_hours)
        in case client of
             Inl e \<Rightarrow> Inl e
           | Inr c \<Rightarrow>
               (case build_summary_segment F cold c summary_max_tokens of
                  Inl e \<Rightarrow> Inl e
                | Inr summary_seg \<Rightarrow>
                    Inr (sort_segments F
                      (opt_list summary_seg @ map (hybrid_action F) actions @
                       map (hybrid_warm F) warm @ map (hybrid_mid F (embed F query)) mid))))"

section \<open>The re-ranker (\<open>rerank.py\<close>)\<close>

definition DEFAULT_TOP_K :: int where "DEFAULT_TOP_K = 30"

definition bigrams :: "string list \<Rightarrow> (string \<times> string) list" where
  "bigrams tokens = zip tokens (tl tokens)"

definition jaccard :: "'f floats \<Rightarrow> 'a list \<Rightarrow> 'a list \<Rightarrow> 'f" where
  \<comment> \<open>of the sets of elements\<close>
  "jaccard F a b =
     (if a = [] \<and> b = [] then fl_lit F 0
      else fl_quot F (int (card (set a \<inter> set b))) (int (card (set a \<union> set b))))"

definition recency_score :: "'f floats \<Rightarrow> time \<Rightarrow> time \<Rightarrow> 'f" where
  "recency_score F seg_timestamp ref_now =
     (let age = fl_div F (fl_quot F (ref_now - seg_timestamp) 1000000) (fl_lit F 86400);
          age_days = (if fl_less F (fl_lit F 0) age then age else fl_lit F 0)
      in fl_pow F (fl_lit F (1 / 2)) (fl_div F age_days (fl_lit F 30)))"

definition pairwise_score :: "'f floats \<Rightarrow> 'f \<Rightarrow> string list \<Rightarrow> string \<Rightarrow> time \<Rightarrow> time \<Rightarrow> 'f" where
  "pairwise_score F cosine_carry query_tokens seg_text seg_timestamp ref_now =
     (let seg_tokens = tokenize seg_text;
          jacc = jaccard F query_tokens seg_tokens;
          bigram_overlap = jaccard F (bigrams query_tokens) (bigrams seg_tokens);
          recency = recency_score F seg_timestamp ref_now
      in fl_add F (fl_add F (fl_add F (fl_mul F (fl_lit F 1) cosine_carry)
           (fl_mul F (fl_lit F (7 / 10)) bigram_overlap)) (fl_mul F (fl_lit F (2 / 5)) jacc))
           (fl_mul F (fl_lit F (1 / 5)) recency))"

text \<open>
  \<open>fromiso\<close> is \<open>datetime.fromisoformat\<close>, \<open>None\<close> its \<open>ValueError\<close>.  The metadata the re-ranker
  reads is what \<^const>\<open>semantic_segments\<close> wrote.
\<close>

definition seg_timestamp_from_metadata :: "(string \<Rightarrow> time option) \<Rightarrow> dict \<Rightarrow> time \<Rightarrow> time" where
  "seg_timestamp_from_metadata fromiso metadata fallback =
     (case dict_get metadata ''timestamp'' of
        Some (JStr s) \<Rightarrow> (case fromiso s of None \<Rightarrow> fallback | Some t \<Rightarrow> t)
      | _ \<Rightarrow> fallback)"

definition carried_similarity :: "'f floats \<Rightarrow> dict \<Rightarrow> 'f" where
  "carried_similarity F metadata =
     (case dict_get metadata ''similarity'' of Some (JFloat r) \<Rightarrow> fl_read F r | _ \<Rightarrow> fl_lit F 0)"

definition rescore :: "'f floats \<Rightarrow> (string \<Rightarrow> time option) \<Rightarrow> string list \<Rightarrow> time \<Rightarrow>
    'f brief_segment \<Rightarrow> 'f brief_segment" where
  "rescore F fromiso query_tokens ref_now seg =
     (let new_score = pairwise_score F (carried_similarity F (sg_metadata seg)) query_tokens (sg_body seg)
            (seg_timestamp_from_metadata fromiso (sg_metadata seg) ref_now) ref_now
      in seg\<lparr>sg_priority := new_score,
             sg_metadata := dict_set ''rerank_stage'' (JStr ''head'')
               (dict_set ''rerank_score'' (similarity F new_score) (sg_metadata seg))\<rparr>)"

definition rerank_segments :: "'f floats \<Rightarrow> (string \<Rightarrow> time option) \<Rightarrow> string \<Rightarrow> message_like list \<Rightarrow>
    action_like list \<Rightarrow> int \<Rightarrow> time \<Rightarrow> 'f brief_segment list" where
  "rerank_segments F fromiso query messages actions top_k ref_now =
     (let semantic_out = semantic_segments F query messages actions
      in if semantic_out = [] \<or> py_strip query = [] then semantic_out
         else
           let effective_k = min top_k (int (length semantic_out));
               head = py_take effective_k semantic_out;
               tail = py_drop effective_k semantic_out
           in sort_segments F (map (rescore F fromiso (tokenize query) ref_now) head) @
              map (\<lambda>seg. seg\<lparr>sg_metadata := dict_set ''rerank_stage'' (JStr ''tail'') (sg_metadata seg)\<rparr>) tail)"

end
