(* ===== verification/Similarity.thy ===== *)
theory Similarity
  imports Retrieval
begin

text \<open>
  The similarity of two texts: the counts of the embedding and their sums are computed without
  rounding, so only the two roots, their product and the quotient round.
\<close>

section \<open>Exact sums\<close>

lemma rnd_nat: "fl_ok F v rnd \<Longrightarrow> x \<in> \<nat> \<Longrightarrow> x \<le> 2 ^ 53 \<Longrightarrow> rnd x = x"
  using fl_okD(10) [of F v rnd "int (nat \<lfloor>x\<rfloor>)"] by (auto elim!: Nats_cases)

lemma fold_exact:
  fixes v :: "'f \<Rightarrow> real" and w :: "'p \<Rightarrow> real"
  assumes "\<And>p s. p \<in> set xs \<Longrightarrow> v s \<in> \<nat> \<Longrightarrow> v s + w p \<le> 2 ^ 53 \<Longrightarrow> v (step p s) = v s + w p"
    and "\<And>p. p \<in> set xs \<Longrightarrow> w p \<in> \<nat>"
    and "v s \<in> \<nat>" and "v s + sum_list (map w xs) \<le> 2 ^ 53"
  shows "v (fold step xs s) = v s + sum_list (map w xs)"
  using assms
proof (induction xs arbitrary: s)
  case (Cons p xs)
  have nonneg: "0 \<le> sum_list (map w xs)"
    using Cons.prems(2) by (intro sum_list_nonneg) (auto simp: Nats_altdef2)
  then have one: "v (step p s) = v s + w p" using Cons.prems by simp
  have "v (fold step xs (step p s)) = v (step p s) + sum_list (map w xs)"
    using Cons.prems one by (intro Cons.IH) auto
  with one show ?case by simp
qed simp

section \<open>Embeddings are counts\<close>

definition counts :: "('f \<Rightarrow> real) \<Rightarrow> 'f embedding \<Rightarrow> real \<Rightarrow> bool" where
  "counts v vec n \<longleftrightarrow> distinct (map fst vec) \<and> (\<forall>(k, x) \<in> set vec. v x \<in> \<nat> \<and> 1 \<le> v x) \<and>
     sum_list (map (\<lambda>(k, x). v x) vec) = n"

lemma sum_update:
  "sum_list (map (\<lambda>(k, x). v x :: real) (AList.update k y vec)) =
   sum_list (map (\<lambda>(k, x). v x) vec) + v y - (case map_of vec k of None \<Rightarrow> 0 | Some x \<Rightarrow> v x)"
  by (induction vec) auto

lemma counts_ge: "counts v vec n \<Longrightarrow> (k, x) \<in> set vec \<Longrightarrow> 1 \<le> v x \<and> v x \<in> \<nat>"
  unfolding counts_def by auto

lemma sum_ge_member:
  assumes "\<forall>(k, x) \<in> set vec. 1 \<le> (v x :: real)"
  shows "0 \<le> sum_list (map (\<lambda>(k, x). v x) vec)"
    and "(k, x) \<in> set vec \<Longrightarrow> v x \<le> sum_list (map (\<lambda>(k, x). v x) vec)"
  using assms by (induction vec) auto

lemma counts_nonneg: "counts v vec n \<Longrightarrow> 0 \<le> n"
  using sum_ge_member(1) [of vec v] unfolding counts_def by fastforce

lemma counts_le: "counts v vec n \<Longrightarrow> (k, x) \<in> set vec \<Longrightarrow> v x \<le> n"
  using sum_ge_member(2) [of vec v k x] unfolding counts_def by fastforce

lemma counts_add:
  assumes F: "fl_ok F v rnd" and c: "counts v vec n" and n: "n + 1 \<le> 2 ^ 53"
  shows "counts v (AList.update k
    (fl_add F (case map_of vec k of None \<Rightarrow> fl_lit F 0 | Some x \<Rightarrow> x) (fl_lit F 1)) vec) (n + 1)"
proof -
  let ?old = "case map_of vec k of None \<Rightarrow> fl_lit F 0 | Some x \<Rightarrow> x"
  let ?new = "fl_add F ?old (fl_lit F 1)"
  have lits: "v (fl_lit F 0) = 0" "v (fl_lit F 1) = 1"
    using fl_lit_int [OF F, of 0] fl_lit_int [OF F, of 1] by simp_all
  have old: "v ?old = (case map_of vec k of None \<Rightarrow> 0 | Some x \<Rightarrow> v x)" "v ?old \<in> \<nat>" "v ?old \<le> n"
    using c counts_nonneg [OF c] counts_le [OF c] lits
    by (auto simp: counts_def split: option.split dest!: map_of_SomeD)
  have new: "v ?new = v ?old + 1"
    using rnd_nat [OF F, of "v ?old + 1"] old n lits by (simp add: fl_okD(2) [OF F])
  have "\<forall>(j, x) \<in> set (AList.update k ?new vec). x = ?new \<or> (\<exists>i. (i, x) \<in> set vec)"
    by (induction vec) auto
  then have "\<forall>(j, x) \<in> set (AList.update k ?new vec). v x \<in> \<nat> \<and> 1 \<le> v x"
    using c new old(2) by (auto simp: counts_def elim!: Nats_cases)
  moreover have "sum_list (map (\<lambda>(k, x). v x) (AList.update k ?new vec)) = n + 1"
    using c new old(1) by (simp add: counts_def sum_update)
  ultimately show ?thesis using c by (simp add: counts_def distinct_update)
qed

definition bucket :: "string \<Rightarrow> int" where
  "bucket tok = fnv1a32 tok mod EMBED_DIM"

lemma embed_fold:
  assumes F: "fl_ok F v rnd" and "counts v vec n" and "n + real (length toks) \<le> 2 ^ 53"
  shows "counts v (fold (\<lambda>tok vec. AList.update (bucket tok)
      (fl_add F (case map_of vec (bucket tok) of None \<Rightarrow> fl_lit F 0 | Some x \<Rightarrow> x) (fl_lit F 1)) vec) toks vec)
      (n + real (length toks))"
  using assms(2,3)
proof (induction toks arbitrary: vec n)
  case (Cons t toks)
  from Cons.IH [OF counts_add [OF F Cons.prems(1)], of "bucket t"] Cons.prems(2) show ?case
    by (simp add: algebra_simps)
qed simp

lemma keys_update: "fst ` set (AList.update k y vec) = insert k (fst ` set vec)"
  by (induction vec) auto

lemma embed_keys:
  "fst ` set (fold (\<lambda>tok vec. AList.update (bucket tok) (f tok vec) vec) toks vec) =
   fst ` set vec \<union> bucket ` set toks"
  by (induction toks arbitrary: vec) (auto simp: keys_update)

lemma embed_unfold:
  "embed F msg = fold (\<lambda>tok vec. AList.update (bucket tok)
     (fl_add F (case map_of vec (bucket tok) of None \<Rightarrow> fl_lit F 0 | Some x \<Rightarrow> x) (fl_lit F 1)) vec)
     (tokenize msg) []"
  by (simp add: embed_def bucket_def Let_def)

lemma split_length: "sum_list (map length (split_az09 s)) \<le> length s"
proof (induction s rule: split_az09.induct)
  case (1 s)
  have "length (takeWhile is_az09 s) + length (dropWhile is_az09 s) = length s"
    by (metis length_append takeWhile_dropWhile_id)
  moreover have "length (dropWhile (\<lambda>c. \<not> is_az09 c) (dropWhile is_az09 s)) \<le> length (dropWhile is_az09 s)"
    by (rule length_dropWhile_le)
  ultimately show ?case
    using 1 [OF refl refl] by (subst split_az09.simps) (auto simp: Let_def simp del: dropWhile_eq_Nil_conv)
qed

lemma filter_long: "length (filter (\<lambda>t. 2 \<le> length t) ts) \<le> sum_list (map length ts)"
  by (induction ts) auto

lemma tokens_le: "length (tokenize msg) \<le> length msg"
  using filter_long [of "split_az09 (py_lower msg)"] split_length [of "py_lower msg"]
  by (simp add: tokenize_def MIN_TOKEN_LEN_def)

lemma embed_counts:
  assumes "fl_ok F v rnd" and "length msg \<le> 2 ^ 26"
  shows "counts v (embed F msg) (real (length (tokenize msg)))"
  using embed_fold [OF assms(1), of "[]" 0 "tokenize msg"] tokens_le [of msg] assms(2)
  by (simp add: embed_unfold counts_def)

section \<open>Norms and products\<close>

definition sumsq :: "('f \<Rightarrow> real) \<Rightarrow> 'f embedding \<Rightarrow> real" where
  "sumsq v a = sum_list (map (\<lambda>(k, x). (v x)\<^sup>2) a)"

definition weight :: "('f \<Rightarrow> real) \<Rightarrow> 'f embedding \<Rightarrow> int \<Rightarrow> real" where
  "weight v b k = (case map_of b k of None \<Rightarrow> 0 | Some y \<Rightarrow> v y)"

definition dot :: "('f \<Rightarrow> real) \<Rightarrow> 'f embedding \<Rightarrow> 'f embedding \<Rightarrow> real" where
  "dot v a b = sum_list (map (\<lambda>(k, x). v x * weight v b k) a)"

lemma sum_bound:
  assumes "\<forall>(k, x) \<in> set a. 0 \<le> v x \<and> f (k, x) \<le> m * v x"
  shows "sum_list (map f a) \<le> m * sum_list (map (\<lambda>(k, x). v x :: real) a)"
  using assms by (induction a) (auto simp: algebra_simps intro: add_mono)

lemma counts_sq:
  assumes "counts v a n"
  shows "sumsq v a \<le> n * n"
proof -
  have "\<forall>(k, x) \<in> set a. 0 \<le> v x \<and> (v x)\<^sup>2 \<le> n * v x"
    using counts_le [OF assms] assms by (fastforce simp: counts_def power2_eq_square intro: mult_right_mono)
  then have "sumsq v a \<le> n * sum_list (map (\<lambda>(k, x). v x) a)"
    unfolding sumsq_def by (intro sum_bound) auto
  with assms show ?thesis by (simp add: counts_def)
qed

lemma weight_le: "counts v b n \<Longrightarrow> 0 \<le> weight v b k \<and> weight v b k \<le> n \<and> weight v b k \<in> \<nat>"
  using counts_le [of v b n k] counts_nonneg [of v b n]
  by (auto simp: weight_def counts_def split: option.split dest!: map_of_SomeD)

lemma counts_dot:
  assumes "counts v a n" "counts v b m"
  shows "dot v a b \<le> m * n"
proof -
  have "\<forall>(k, x) \<in> set a. 0 \<le> v x \<and> v x * weight v b k \<le> m * v x"
    using weight_le [OF assms(2)] assms(1)
    by (fastforce simp: counts_def mult.commute intro: mult_right_mono)
  then have "dot v a b \<le> m * sum_list (map (\<lambda>(k, x). v x) a)"
    unfolding dot_def by (intro sum_bound) auto
  with assms show ?thesis by (simp add: counts_def)
qed

lemma fl_sum_squares_exact:
  assumes F: "fl_ok F v rnd" and c: "counts v a n" and n: "n * n \<le> 2 ^ 53"
  shows "v (fl_sum_squares F a) = sumsq v a"
proof -
  have zero: "v (fl_lit F 0) = 0" using fl_lit_int [OF F, of 0] by simp
  have sq: "v (fl_mul F x x) = (v x)\<^sup>2" "(v x)\<^sup>2 \<in> \<nat>" if "(k, x) \<in> set a" for k x
  proof -
    have "v x \<in> \<nat>" using c that by (auto simp: counts_def)
    then show sq: "(v x)\<^sup>2 \<in> \<nat>" by (simp add: power2_eq_square)
    have "(v x)\<^sup>2 \<le> n * n"
      using counts_le [OF c that] c that unfolding power2_eq_square
      by (intro mult_mono) (auto simp: counts_def)
    with sq n show "v (fl_mul F x x) = (v x)\<^sup>2"
      by (simp add: fl_okD(3) [OF F] rnd_nat [OF F] power2_eq_square)
  qed
  have "v (fold (\<lambda>(k, x) s. fl_add F s (fl_mul F x x)) a (fl_lit F 0)) = v (fl_lit F 0) + sum_list (map (\<lambda>(k, x). (v x)\<^sup>2) a)"
  proof (rule fold_exact)
    fix p s assume p: "p \<in> set a" and s: "v s \<in> \<nat>" "v s + (case p of (k, x) \<Rightarrow> (v x)\<^sup>2) \<le> 2 ^ 53"
    obtain k x where [simp]: "p = (k, x)" by (cases p)
    show "v ((case p of (k, x) \<Rightarrow> \<lambda>s. fl_add F s (fl_mul F x x)) s) = v s + (case p of (k, x) \<Rightarrow> (v x)\<^sup>2)"
      using s sq [of k x] p by (simp add: fl_okD(2) [OF F] rnd_nat [OF F])
  next
    show "v (fl_lit F 0) + sum_list (map (\<lambda>(k, x). (v x)\<^sup>2) a) \<le> 2 ^ 53"
      using counts_sq [OF c] n by (simp add: zero sumsq_def)
  qed (use sq zero in auto)
  then show ?thesis by (simp add: fl_sum_squares_def zero sumsq_def)
qed

lemma dot_product_exact:
  assumes F: "fl_ok F v rnd" and a: "counts v a n" and b: "counts v b m" and n: "m * n \<le> 2 ^ 53"
  shows "v (dot_product F a b) = dot v a b"
proof -
  let ?step = "\<lambda>(k, va) dot. case map_of b k of None \<Rightarrow> dot | Some vb \<Rightarrow> fl_add F dot (fl_mul F va vb)"
  let ?w = "\<lambda>(k, x). v x * weight v b k"
  have zero: "v (fl_lit F 0) = 0" using fl_lit_int [OF F, of 0] by simp
  have w: "?w (k, x) \<in> \<nat>" "?w (k, x) \<le> 2 ^ 53" if "(k, x) \<in> set a" for k x
  proof -
    have "v x \<in> \<nat>" "v x \<le> n" using a that counts_le [OF a that] by (auto simp: counts_def)
    moreover have "v x * weight v b k \<le> n * m"
      using calculation weight_le [OF b, of k] counts_nonneg [OF a] by (intro mult_mono) auto
    ultimately show "?w (k, x) \<in> \<nat>" "?w (k, x) \<le> 2 ^ 53"
      using weight_le [OF b, of k] n by (auto simp: mult.commute)
  qed
  have "v (fold ?step a (fl_lit F 0)) = v (fl_lit F 0) + sum_list (map ?w a)"
  proof (rule fold_exact)
    fix p s assume p: "p \<in> set a" and s: "v s \<in> \<nat>" "v s + ?w p \<le> 2 ^ 53"
    obtain k x where [simp]: "p = (k, x)" by (cases p)
    show "v (?step p s) = v s + ?w p"
    proof (cases "map_of b k")
      case None
      then show ?thesis by (simp add: weight_def)
    next
      case (Some y)
      then have "weight v b k = v y" by (simp add: weight_def)
      then show ?thesis
        using s w [of k x] p Some by (simp add: fl_okD(2,3) [OF F] rnd_nat [OF F])
    qed
  next
    show "v (fl_lit F 0) + sum_list (map ?w a) \<le> 2 ^ 53"
      using counts_dot [OF a b] n by (simp add: zero dot_def)
  qed (use w zero in auto)
  then show ?thesis by (simp add: dot_product_def zero dot_def)
qed

section \<open>The Cauchy-Schwarz inequality\<close>

lemma cs_step:
  fixes D A B a b :: real
  assumes "D \<le> sqrt A * sqrt B" "0 \<le> A" "0 \<le> B"
  shows "D + a * b \<le> sqrt (A + a\<^sup>2) * sqrt (B + b\<^sup>2)"
proof -
  have "0 \<le> (sqrt A * b - sqrt B * a)\<^sup>2" by simp
  then have "2 * (sqrt A * sqrt B) * (a * b) \<le> A * b\<^sup>2 + B * a\<^sup>2"
    using assms(2,3) by (simp add: power2_diff power_mult_distrib algebra_simps)
  then have "(sqrt A * sqrt B + a * b)\<^sup>2 \<le> (A + a\<^sup>2) * (B + b\<^sup>2)"
    using assms(2,3) by (simp add: power2_sum power_mult_distrib algebra_simps)
  then have "sqrt A * sqrt B + a * b \<le> sqrt ((A + a\<^sup>2) * (B + b\<^sup>2))"
    by (rule real_le_rsqrt)
  with assms(1) show ?thesis by (simp add: real_sqrt_mult)
qed

lemma cauchy_schwarz:
  fixes f g :: "'p \<Rightarrow> real"
  shows "sum_list (map (\<lambda>p. f p * g p) xs) \<le>
    sqrt (sum_list (map (\<lambda>p. (f p)\<^sup>2) xs)) * sqrt (sum_list (map (\<lambda>p. (g p)\<^sup>2) xs))"
proof (induction xs)
  case (Cons p xs)
  have "0 \<le> sum_list (map (\<lambda>p. (h p)\<^sup>2) xs)" for h :: "'p \<Rightarrow> real" by (intro sum_list_nonneg) auto
  from cs_step [OF Cons.IH this this, of "f p" "g p"] show ?case by (simp add: add.commute)
qed simp

lemma weight_outside: "k \<notin> fst ` set b \<Longrightarrow> weight v b k = 0"
  using map_of_eq_None_iff [of b k] by (simp add: weight_def)

text \<open>The other vector's weights on the keys of this one are part of its own squares.\<close>

lemma sumsq_weights:
  assumes "distinct (map fst a)" "distinct (map fst b)"
  shows "sum_list (map (\<lambda>(k, x). (weight v b k)\<^sup>2) a) \<le> sumsq v b"
proof -
  have "sum_list (map (\<lambda>(k, x). (weight v b k)\<^sup>2) a) = sum_list (map (\<lambda>k. (weight v b k)\<^sup>2) (map fst a))"
    by (simp add: comp_def case_prod_unfold)
  also have "\<dots> = (\<Sum>k \<in> fst ` set a. (weight v b k)\<^sup>2)"
    using sum_list_distinct_conv_sum_set [OF assms(1), of "\<lambda>k. (weight v b k)\<^sup>2"] by simp
  also have "\<dots> = (\<Sum>k \<in> fst ` set a \<inter> fst ` set b. (weight v b k)\<^sup>2)"
    by (rule sum.mono_neutral_right) (auto simp: weight_outside)
  also have "\<dots> \<le> (\<Sum>k \<in> fst ` set b. (weight v b k)\<^sup>2)"
    by (rule sum_mono2) auto
  also have "\<dots> = sum_list (map (\<lambda>k. (weight v b k)\<^sup>2) (map fst b))"
    using sum_list_distinct_conv_sum_set [OF assms(2), of "\<lambda>k. (weight v b k)\<^sup>2"] by simp
  also have "\<dots> = sumsq v b"
    unfolding sumsq_def map_map comp_def
    by (rule arg_cong [of _ _ sum_list], rule map_cong)
       (auto simp: weight_def assms(2))
  finally show ?thesis .
qed

lemma dot_le: 
  assumes "distinct (map fst a)" "distinct (map fst b)"
  shows "dot v a b \<le> sqrt (sumsq v a) * sqrt (sumsq v b)"
proof -
  have "dot v a b \<le> sqrt (sumsq v a) * sqrt (sum_list (map (\<lambda>(k, x). (weight v b k)\<^sup>2) a))"
    using cauchy_schwarz [of "\<lambda>(k, x). v x" "\<lambda>(k, x). weight v b k" a]
    by (simp add: dot_def sumsq_def case_prod_unfold)
  also have "\<dots> \<le> sqrt (sumsq v a) * sqrt (sumsq v b)"
    using sumsq_weights [OF assms] by (intro mult_left_mono) (auto simp: sumsq_def intro!: sum_list_nonneg)
  finally show ?thesis .
qed

lemma sumsq_ge_1: "counts v a n \<Longrightarrow> a \<noteq> [] \<Longrightarrow> 1 \<le> sumsq v a"
proof (cases a)
  case (Cons p ps)
  assume c: "counts v a n"
  obtain k x where p: "p = (k, x)" by (cases p)
  have "1 \<le> (v x)\<^sup>2" using counts_ge [OF c, of k x] Cons p by simp
  moreover have "0 \<le> sum_list (map (\<lambda>(k, x). (v x)\<^sup>2) ps)" by (intro sum_list_nonneg) auto
  ultimately show ?thesis by (simp add: sumsq_def Cons p)
qed simp

lemma dot_pos_iff:
  assumes "counts v a n" "counts v b m"
  shows "0 \<le> dot v a b \<and> (0 < dot v a b \<longleftrightarrow> fst ` set a \<inter> fst ` set b \<noteq> {})"
proof -
  have each: "0 \<le> v x * weight v b k \<and> (0 < v x * weight v b k \<longleftrightarrow> k \<in> fst ` set b)"
    if "(k, x) \<in> set a" for k x
  proof (cases "map_of b k")
    case None
    then have "k \<notin> fst ` set b" by (simp add: map_of_eq_None_iff)
    then show ?thesis by (simp add: weight_outside)
  next
    case (Some y)
    then have "1 \<le> v y" "k \<in> fst ` set b"
      using counts_ge [OF assms(2)] by (force dest: map_of_SomeD)+
    with Some counts_ge [OF assms(1) that] show ?thesis by (auto simp: weight_def)
  qed
  have "(\<forall>p \<in> set a. 0 \<le> f p) \<Longrightarrow> 0 \<le> sum_list (map f a) \<and> (0 < sum_list (map f a) \<longleftrightarrow> (\<exists>p \<in> set a. 0 < f p))"
    for f :: "_ \<Rightarrow> real"
    by (induction a) auto
  moreover have "\<forall>p \<in> set a. 0 \<le> (\<lambda>(k, x). v x * weight v b k) p" using each by auto
  ultimately have "0 \<le> dot v a b \<and> (0 < dot v a b \<longleftrightarrow> (\<exists>p \<in> set a. 0 < (\<lambda>(k, x). v x * weight v b k) p))"
    unfolding dot_def by blast
  moreover have "(\<exists>p \<in> set a. 0 < (\<lambda>(k, x). v x * weight v b k) p) \<longleftrightarrow> (\<exists>p \<in> set a. fst p \<in> fst ` set b)"
  proof (rule bex_cong [OF refl])
    fix p assume "p \<in> set a"
    then show "0 < (\<lambda>(k, x). v x * weight v b k) p \<longleftrightarrow> fst p \<in> fst ` set b"
      using each [of "fst p" "snd p"] by (simp add: case_prod_unfold)
  qed
  ultimately show ?thesis by auto
qed

section \<open>Rounding\<close>

lemma rnd_rel:
  assumes "fl_ok F v rnd" "0 \<le> x"
  shows "x * (1 - 1 / 2 ^ 53) \<le> rnd x" "rnd x \<le> x * (1 + 1 / 2 ^ 53)"
proof -
  have "\<bar>rnd x - x\<bar> \<le> x * (1 / 2 ^ 53)" using fl_okD(11) [OF assms(1), of x] assms(2) by simp
  then have "rnd x - x \<le> x * (1 / 2 ^ 53)" "x - rnd x \<le> x * (1 / 2 ^ 53)"
    by (auto simp only: abs_le_iff minus_diff_eq)
  then show "x * (1 - 1 / 2 ^ 53) \<le> rnd x" "rnd x \<le> x * (1 + 1 / 2 ^ 53)"
    by (simp_all only: right_diff_distrib distrib_left mult_1_right)
qed

lemma cosine_round:
  assumes F: "fl_ok F v rnd" and A: "1 \<le> A" and B: "1 \<le> B" and D: "0 \<le> D" "D \<le> sqrt A * sqrt B"
  defines "P \<equiv> rnd (rnd (sqrt A) * rnd (sqrt B))"
  shows "0 < P" "0 \<le> rnd (D / P)" "rnd (D / P) \<le> 1 + 1 / 2 ^ 50" "0 < rnd (D / P) \<longleftrightarrow> 0 < D"
proof -
  obtain e :: real where e: "e = 1 / 2 ^ 53" by blast
  have e01: "0 < 1 - e" "0 < 1 + e" by (simp_all add: e)
  have rel: "x * (1 - e) \<le> rnd x" "rnd x \<le> x * (1 + e)" if "0 \<le> x" for x
    using rnd_rel [OF F that] by (simp_all only: e)
  have s: "1 \<le> sqrt A" "1 \<le> sqrt B" using A B by simp_all
  then have s0: "0 < sqrt A" "0 < sqrt B" by linarith+
  let ?a = "sqrt A * (1 - e)" and ?b = "sqrt B * (1 - e)"
  have ab: "0 < ?a" "0 < ?b" using s0 e01 by simp_all
  have r: "?a \<le> rnd (sqrt A)" "?b \<le> rnd (sqrt B)" using rel(1) s0 by simp_all
  have prod: "?a * ?b \<le> rnd (sqrt A) * rnd (sqrt B)"
    using r ab by (intro mult_mono) linarith+
  have nonneg: "0 \<le> rnd (sqrt A) * rnd (sqrt B)"
    using prod mult_pos_pos [OF ab] by linarith
  have "?a * ?b * (1 - e) \<le> rnd (sqrt A) * rnd (sqrt B) * (1 - e)"
    using prod e01 by (intro mult_right_mono) auto
  also have "\<dots> \<le> P" using rel(1) [OF nonneg] by (simp only: P_def)
  finally have P: "sqrt A * sqrt B * (1 - e) ^ 3 \<le> P" by (simp add: power3_eq_cube mult.commute mult.left_commute)
  have pos: "0 < sqrt A * sqrt B * (1 - e) ^ 3" using s0 e01 by simp
  with P show P0: "0 < P" by linarith
  have q: "0 \<le> D / P" using D(1) P0 by simp
  have "0 \<le> D / P * (1 - e)" using mult_nonneg_nonneg [OF q, of "1 - e"] e01 by simp
  with rel(1) [OF q] show "0 \<le> rnd (D / P)" by linarith
  have "D / P \<le> sqrt A * sqrt B / (sqrt A * sqrt B * (1 - e) ^ 3)"
    using D P pos by (intro frac_le) auto
  also have "\<dots> = 1 / (1 - e) ^ 3" using s0 by simp
  finally have "D / P * (1 + e) \<le> 1 / (1 - e) ^ 3 * (1 + e)"
    using e01 by (intro mult_right_mono) auto
  with rel(2) [OF q] have "rnd (D / P) \<le> 1 / (1 - e) ^ 3 * (1 + e)" by linarith
  also have "\<dots> \<le> 1 + 1 / 2 ^ 50" by (simp add: e power3_eq_cube)
  finally show "rnd (D / P) \<le> 1 + 1 / 2 ^ 50" .
  show "0 < rnd (D / P) \<longleftrightarrow> 0 < D"
  proof
    assume "0 < rnd (D / P)"
    then have "0 < D / P * (1 + e)" using rel(2) [OF q] by linarith
    then show "0 < D" using P0 e01 D(1) by (auto simp: zero_less_mult_iff zero_less_divide_iff)
  next
    assume "0 < D"
    then have "0 < D / P * (1 - e)" using P0 e01 by simp
    then show "0 < rnd (D / P)" using rel(1) [OF q] by linarith
  qed
qed

section \<open>The similarity\<close>

lemma dot_sym:
  assumes "distinct (map fst a)" "distinct (map fst b)"
  shows "dot v a b = dot v b a"
proof -
  have sum: "dot v a b = (\<Sum>k \<in> fst ` set a \<inter> fst ` set b. weight v a k * weight v b k)"
    if "distinct (map fst a)" for a b
  proof -
    have "dot v a b = sum_list (map (\<lambda>k. weight v a k * weight v b k) (map fst a))"
      unfolding dot_def map_map comp_def
      by (rule arg_cong [of _ _ sum_list], rule map_cong) (auto simp: weight_def that)
    also have "\<dots> = (\<Sum>k \<in> fst ` set a. weight v a k * weight v b k)"
      using sum_list_distinct_conv_sum_set [OF that, of "\<lambda>k. weight v a k * weight v b k"] by simp
    also have "\<dots> = (\<Sum>k \<in> fst ` set a \<inter> fst ` set b. weight v a k * weight v b k)"
      by (rule sum.mono_neutral_right) (auto simp: weight_outside)
    finally show ?thesis .
  qed
  show ?thesis by (simp add: sum [OF assms(1)] sum [OF assms(2)] Int_commute mult.commute)
qed

lemma cosine_value:
  assumes F: "fl_ok F v rnd" and a: "counts v a n" and b: "counts v b m"
    and n: "n \<le> 2 ^ 26" and m: "m \<le> 2 ^ 26"
  shows "0 \<le> v (cosine F a b) \<and> v (cosine F a b) \<le> 1 + 1 / 2 ^ 50 \<and>
    (0 < v (cosine F a b) \<longleftrightarrow> fst ` set a \<inter> fst ` set b \<noteq> {})"
proof (cases "a = [] \<or> b = []")
  case True
  then show ?thesis using fl_lit_int [OF F, of 0] by (auto simp: cosine_def)
next
  case False
  have zero: "v (fl_lit F 0) = 0" using fl_lit_int [OF F, of 0] by simp
  have core: "0 \<le> v (cosine_div a b) \<and> v (cosine_div a b) \<le> 1 + 1 / 2 ^ 50 \<and>
      (0 < v (cosine_div a b) \<longleftrightarrow> fst ` set a \<inter> fst ` set b \<noteq> {}) \<and>
      v (fl_sqrt F (fl_sum_squares F a)) \<noteq> 0 \<and> v (fl_sqrt F (fl_sum_squares F b)) \<noteq> 0"
    if "counts v a n" "counts v b m" "n \<le> 2 ^ 26" "m \<le> 2 ^ 26" "a \<noteq> []" "b \<noteq> []"
      and cd: "cosine_div = (\<lambda>a b. fl_div F (dot_product F a b)
        (fl_mul F (fl_sqrt F (fl_sum_squares F a)) (fl_sqrt F (fl_sum_squares F b))))"
    for a b n m cosine_div
  proof -
    have nm: "0 \<le> n" "0 \<le> m" using counts_nonneg that(1,2) by blast+
    have sq: "n * n \<le> 2 ^ 53" "m * m \<le> 2 ^ 53" "m * n \<le> 2 ^ 53"
      using mult_mono [OF that(3) that(3)] mult_mono [OF that(4) that(4)] mult_mono [OF that(4) that(3)] nm by simp_all
    have A: "1 \<le> sumsq v a" "1 \<le> sumsq v b" using sumsq_ge_1 that by blast+
    have root: "v (fl_sqrt F (fl_sum_squares F a)) = rnd (sqrt (sumsq v a))"
      "v (fl_sqrt F (fl_sum_squares F b)) = rnd (sqrt (sumsq v b))"
      using A fl_sum_squares_exact [OF F that(1) sq(1)] fl_sum_squares_exact [OF F that(2) sq(2)]
      by (simp_all add: fl_okD(5) [OF F])
    have d: "0 \<le> dot v a b" "dot v a b \<le> sqrt (sumsq v a) * sqrt (sumsq v b)"
      using dot_pos_iff [OF that(1,2)] dot_le [of a b v] that(1,2) by (auto simp: counts_def)
    note r = cosine_round [OF F A d]
    have "v (cosine_div a b) = rnd (dot v a b / rnd (rnd (sqrt (sumsq v a)) * rnd (sqrt (sumsq v b))))"
      using r(1) by (simp add: cd fl_okD(4) [OF F] fl_okD(3) [OF F] root dot_product_exact [OF F that(1,2) sq(3)])
    moreover have "1 \<le> rnd (sqrt (sumsq v a))" "1 \<le> rnd (sqrt (sumsq v b))"
      using rnd_ge [OF F, of 1] A by simp_all
    ultimately show ?thesis using r dot_pos_iff [OF that(1,2)] root by auto
  qed
  show ?thesis
    using False core [OF a b n m _ _ refl] core [OF b a m n _ _ refl]
    by (auto simp: cosine_def Let_def fl_okD(7) [OF F] zero Int_commute)
qed

section \<open>Properties\<close>

text \<open>
  The similarity of two texts is a number between 0 and 1, up to 2^-50 of rounding, and it is
  positive exactly when some token of one falls into the bucket of some token of the other: no
  shared bucket is never a match for a positive threshold.
\<close>

theorem similarity_bounds:
  assumes "fl_ok F v rnd" and "length s \<le> 2 ^ 26" and "length t \<le> 2 ^ 26"
  shows "0 \<le> v (cosine F (embed F s) (embed F t)) \<and>
    v (cosine F (embed F s) (embed F t)) \<le> 1 + 1 / 2 ^ 50 \<and>
    (0 < v (cosine F (embed F s) (embed F t)) \<longleftrightarrow>
       (\<exists>x \<in> set (tokenize s). \<exists>y \<in> set (tokenize t). fnv1a32 x mod EMBED_DIM = fnv1a32 y mod EMBED_DIM))"
proof -
  have len: "real (length (tokenize u)) \<le> 2 ^ 26" if "length u \<le> 2 ^ 26" for u
    using tokens_le [of u] that by simp
  have "fst ` set (embed F s) \<inter> fst ` set (embed F t) \<noteq> {} \<longleftrightarrow>
      (\<exists>x \<in> set (tokenize s). \<exists>y \<in> set (tokenize t). bucket x = bucket y)"
    by (auto simp: embed_unfold embed_keys)
  with cosine_value [OF assms(1) embed_counts [OF assms(1,2)] embed_counts [OF assms(1,3)]] len assms(2,3)
  show ?thesis by (simp add: bucket_def)
qed

theorem similarity_bounds_witness:
  "0 < cosine exact_floats (embed exact_floats ''the mortgage'') (embed exact_floats ''Mortgage rate'') \<and>
   cosine exact_floats (embed exact_floats ''the mortgage'') (embed exact_floats ''Mortgage rate'') \<le> 1 + 1 / 2 ^ 50"
proof -
  have "tokenize ''the mortgage'' = [''the'', ''mortgage'']" "tokenize ''Mortgage rate'' = [''mortgage'', ''rate'']"
    by code_simp+
  then show ?thesis
    using similarity_bounds [OF exact_floats_ok, of "''the mortgage''" "''Mortgage rate''"] by simp
qed

end
