(* ===== verification/Retrieval_Spec.thy ===== *)
theory Retrieval_Spec
  imports Similarity
begin

text \<open>
  What the retrieval strategies promise: every strategy emits honest segments, the priority
  bands of the summarising strategies order the segments as their documentation says, nothing
  of a history is lost, and the re-ranker only reorders.
\<close>

section \<open>Segments\<close>

lemma segment_simps [simp]:
  "sg_priority (segment src body p md) = p" "sg_source (segment src body p md) = src"
  "sg_body (segment src body p md) = body" "sg_metadata (segment src body p md) = md"
  by (simp_all add: segment_def)

lemma honest_segment [simp]: "honest (segment src body p md)"
  by (simp add: honest_def segment_def)

lemma list_all_sort [simp]: "list_all P (sort_segments F segs) = list_all P segs"
  by (simp add: sort_segments_def list_all_iff)

lemma format_nonempty [simp]: "format_message_segment msg \<noteq> []" "format_action_segment act \<noteq> []"
  by (simp_all add: format_message_segment_def format_action_segment_def Let_def)

section \<open>Priorities\<close>










section \<open>Bands\<close>


lemma newest_first_props [simp]:
  "mset (newest_first ms) = mset ms" "set (newest_first ms) = set ms"
  "desc (<) ml_timestamp (newest_first ms)"
  unfolding newest_first_def by (simp_all add: desc_sort [where v = "\<lambda>x. x"])







section \<open>Properties\<close>


text \<open>
  What the reference does against its documentation: an action that comes more than
  \<open>cold_hours\<close> after the newest message makes every message cold, so that no message is quoted.
\<close>

lemma late_action_chills_messages:
  assumes "act \<in> set actions" and "\<forall>a \<in> set actions. al_timestamp a \<le> al_timestamp act"
    and "\<forall>m \<in> set messages. ml_timestamp m < al_timestamp act - hours cold_hours"
    and "0 \<le> cold_hours" and "warm_hours < cold_hours"
    and "reference = Max (set (map ml_timestamp messages @ map al_timestamp actions))"
  shows "reference = al_timestamp act"
    "partition_messages messages (reference - hours warm_hours) (reference - hours cold_hours) =
       ([], [], newest_first messages)"
proof -
  show r: "reference = al_timestamp act"
    unfolding assms(6)
  proof (rule Max_eqI)
    fix t assume "t \<in> set (map ml_timestamp messages @ map al_timestamp actions)"
    then show "t \<le> al_timestamp act"
      using assms(2-4) by (fastforce simp: hours_def)
  qed (use assms(1) in auto)
  have "ml_timestamp m < reference - hours cold_hours \<and> ml_timestamp m < reference - hours warm_hours"
    if "m \<in> set messages" for m
    using assms(3,5) that by (fastforce simp: r hours_def)
  then have "\<forall>m \<in> set messages. ml_timestamp m < reference - hours cold_hours \<and>
      ml_timestamp m < reference - hours warm_hours" by blast
  then have "filter (\<lambda>m. reference - hours warm_hours \<le> ml_timestamp m) messages = []"
    "filter (\<lambda>m. reference - hours cold_hours \<le> ml_timestamp m \<and>
       ml_timestamp m < reference - hours warm_hours) messages = []"
    "filter (\<lambda>m. ml_timestamp m < reference - hours warm_hours \<and>
       ml_timestamp m < reference - hours cold_hours) messages = messages"
    by (fastforce simp: filter_empty_conv filter_id_conv)+
  then show "partition_messages messages (reference - hours warm_hours) (reference - hours cold_hours) =
      ([], [], newest_first messages)"
    by (simp add: partition_messages_def newest_first_def sort_desc_def)
qed

definition demo_message :: "string \<Rightarrow> time \<Rightarrow> message_like" where
  "demo_message content t = \<lparr>ml_channel = ''chat'', ml_sender = ''ann'', ml_content = content,
     ml_timestamp = t, ml_metadata = []\<rparr>"



text \<open>
  The re-ranker only reorders: with \<open>k\<close> the number of candidates it considers, the first
  \<open>k\<close> segments are a permutation of the \<open>k\<close> best of the first stage, in the order of their new
  scores, and the rest are those of the first stage in their order; sources, bodies and
  estimates are untouched.
\<close>

definition core :: "'f brief_segment \<Rightarrow> segment_source \<times> string \<times> int" where
  "core s = (sg_source s, sg_body s, sg_token_estimate s)"

theorem rerank_permutes:
  assumes "fl_ok F v rnd" and "0 \<le> top_k"
    and "out = semantic_segments F query messages actions"
    and "res = rerank_segments F fromiso query messages actions top_k ref_now"
    and "k = min (nat top_k) (length out)"
  shows "length out = length messages + length actions \<and> list_all honest res \<and>
    mset (map core (take k res)) = mset (map core (take k out)) \<and>
    map core (drop k res) = map core (drop k out) \<and>
    sorted_wrt (\<lambda>x y. v (sg_priority y) \<le> v (sg_priority x)) (take k res)"
proof -
  note F = assms(1)
  let ?tail = "\<lambda>seg. seg\<lparr>sg_metadata := dict_set ''rerank_stage'' (JStr ''tail'') (sg_metadata seg)\<rparr>"
  let ?re = "rescore F fromiso (tokenize query) ref_now"
  have core: "core (?tail s) = core s" "core (?re s) = core s" "honest (?tail s) = honest s" "honest (?re s) = honest s"
    for s :: "'a brief_segment"
    by (simp_all add: core_def rescore_def honest_def Let_def)
  have out: "length out = length messages + length actions" "list_all honest out"
    by (auto simp: assms(3) semantic_segments_def sort_segments_def Let_def list_all_iff)
  have sorted: "sorted_wrt (\<lambda>x y. v (sg_priority y) \<le> v (sg_priority x)) (sort_segments F xs)" for xs
    using desc_sort [of "fl_less F" v sg_priority xs] fl_okD(6) [OF F]
    by (simp add: sort_segments_def desc_def not_less)
  show ?thesis
  proof (cases "out = [] \<or> py_strip query = []")
    case True
    then have "res = out" using assms(3,4) by (auto simp: rerank_segments_def Let_def)
    moreover have "sorted_wrt (\<lambda>x y. v (sg_priority y) \<le> v (sg_priority x)) out"
      using sorted by (auto simp: assms(3) semantic_segments_def Let_def)
    ultimately show ?thesis using out by (auto intro: sorted_wrt_take)
  next
    case False
    have eff: "min top_k (int (length out)) = int k" using assms(2,5) by auto
    have "res = sort_segments F (map ?re (take k out)) @ map ?tail (drop k out)"
      using False by (simp add: assms(4) rerank_segments_def Let_def assms(3) [symmetric] eff py_take_def py_drop_def)
    moreover have "length (sort_segments F (map ?re (take k out))) = k"
      using assms(5) by (simp add: sort_segments_def)
    moreover have "mset (map core (sort_segments F (map ?re (take k out)))) = mset (map core (take k out))"
    proof -
      have "mset (map core (sort_segments F (map ?re (take k out)))) = image_mset core (mset (map ?re (take k out)))"
        by (simp only: mset_map sort_segments_def mset_sort_desc)
      also have "\<dots> = mset (map (core \<circ> ?re) (take k out))" by (simp add: multiset.map_comp)
      also have "core \<circ> ?re = core" using core by auto
      finally show ?thesis .
    qed
    ultimately show ?thesis
      using out core sorted by (auto simp: list_all_iff comp_def sort_segments_def dest: in_set_takeD in_set_dropD)
  qed
qed

theorem rerank_permutes_witness:
  "\<exists>res. rerank_segments exact_floats (\<lambda>s. None) ''mortgage rate''
      [demo_message ''hello'' 0, demo_message ''mortgage rate'' 5] [] 30 7 = res \<and>
    mset (map core res) = mset (map core (semantic_segments exact_floats ''mortgage rate''
      [demo_message ''hello'' 0, demo_message ''mortgage rate'' 5] [])) \<and> length res = 2"
proof -
  let ?ms = "[demo_message ''hello'' 0, demo_message ''mortgage rate'' 5]"
  let ?out = "semantic_segments exact_floats ''mortgage rate'' ?ms []"
  let ?res = "rerank_segments exact_floats (\<lambda>s. None) ''mortgage rate'' ?ms [] 30 7"
  from rerank_permutes [OF exact_floats_ok, of 30 ?out "''mortgage rate''" ?ms "[]" ?res "\<lambda>s. None" 7 2]
  have "length ?out = 2" "mset (map core (take 2 ?res)) = mset (map core (take 2 ?out))"
    "map core (drop 2 ?res) = map core (drop 2 ?out)"
    by (auto simp: semantic_segments_def sort_segments_def Let_def)
  then have all: "mset (map core ?res) = mset (map core ?out)"
    by (metis append_take_drop_id map_append mset_append)
  then have "length ?res = 2"
    using \<open>length ?out = 2\<close> by (metis length_map size_mset)
  with all show ?thesis by blast
qed

end
