(* ===== verification/Semantic_Cache.thy ===== *)
theory Semantic_Cache
  imports Retrieval
begin

text \<open>
  \<open>context_engine/llm/semantic_cache.py\<close>: responses of the language model, kept per tenant in
  least-recently-used order and found by their prompt or by a prompt whose embedding is close.
\<close>

section \<open>State\<close>

definition INPUT_USD_PER_MTOK :: "'f floats \<Rightarrow> 'f" where
  "INPUT_USD_PER_MTOK F = fl_lit F 3"

definition OUTPUT_USD_PER_MTOK :: "'f floats \<Rightarrow> 'f" where
  "OUTPUT_USD_PER_MTOK F = fl_lit F 15"

definition DEFAULT_THRESHOLD :: "'f floats \<Rightarrow> 'f" where
  "DEFAULT_THRESHOLD F = fl_lit F (95 / 100)"

definition DEFAULT_MAX_ENTRIES :: int where
  "DEFAULT_MAX_ENTRIES = 1024"

definition EXACT_SIM :: "'f floats \<Rightarrow> 'f" where
  \<comment> \<open>\<open>1.0 - 1e-9\<close>, written as a sum\<close>
  "EXACT_SIM F = fl_add F (fl_lit F 1) (fl_lit F (- 1 / 10 ^ 9))"

record 'f cache_entry =
  ce_key_text :: string
  ce_embedding :: "'f embedding"
  ce_response :: string
  ce_input_tokens :: int
  ce_output_tokens :: int
  ce_hits :: int

record 'f cache_result =
  res_hit :: bool
  res_response :: "string option"
  res_similarity :: 'f
  res_kind :: string

record 'f cache_stats =
  st_lookups :: int
  st_hits :: int
  st_misses :: int
  st_exact_hits :: int
  st_near_hits :: int
  st_stores :: int
  st_evictions :: int
  st_input_tokens_saved :: int
  st_output_tokens_saved :: int
  st_cost_saved_usd :: 'f

definition stats_new :: "'f floats \<Rightarrow> 'f cache_stats" where
  "stats_new F = \<lparr>st_lookups = 0, st_hits = 0, st_misses = 0, st_exact_hits = 0, st_near_hits = 0,
     st_stores = 0, st_evictions = 0, st_input_tokens_saved = 0, st_output_tokens_saved = 0,
     st_cost_saved_usd = fl_lit F 0\<rparr>"

definition hit_rate :: "'f floats \<Rightarrow> 'f cache_stats \<Rightarrow> 'f" where
  "hit_rate F st = (if st_lookups st \<noteq> 0 then fl_quot F (st_hits st) (st_lookups st) else fl_lit F 0)"

definition stats_snapshot :: "'f floats \<Rightarrow> 'f cache_stats \<Rightarrow> dict" where
  "stats_snapshot F st =
     [(''lookups'', JInt (st_lookups st)), (''hits'', JInt (st_hits st)), (''misses'', JInt (st_misses st)),
      (''exact_hits'', JInt (st_exact_hits st)), (''near_hits'', JInt (st_near_hits st)),
      (''stores'', JInt (st_stores st)), (''evictions'', JInt (st_evictions st)),
      (''hit_rate'', JFloat (fl_repr F (fl_round6 F (hit_rate F st)))),
      (''input_tokens_saved'', JInt (st_input_tokens_saved st)),
      (''output_tokens_saved'', JInt (st_output_tokens_saved st)),
      (''cost_saved_usd'', JFloat (fl_repr F (fl_round6 F (st_cost_saved_usd st))))]"

type_synonym 'f namespace = "(nat \<times> 'f cache_entry) list"   \<comment> \<open>\<open>OrderedDict\<close>, least recent first\<close>

record 'f semantic_cache =
  sc_threshold :: 'f
  sc_max_entries :: int
  sc_input_usd :: 'f
  sc_output_usd :: 'f
  sc_store :: "(string \<times> 'f namespace) list"
  sc_exact :: "(string \<times> (string \<times> nat) list) list"
  sc_next_id :: nat
  sc_stats :: "'f cache_stats"

definition sc_new :: "'f floats \<Rightarrow> 'f \<Rightarrow> int \<Rightarrow> 'f \<Rightarrow> 'f \<Rightarrow> py_exn + 'f semantic_cache" where
  "sc_new F threshold max_entries input_usd output_usd =
     (if \<not> (fl_less F (fl_lit F 0) threshold \<and> \<not> fl_less F (fl_lit F 1) threshold)
      then Inl (Exn ''ValueError'' (''threshold must be in (0, 1], got '' @ fl_repr F threshold))
      else if max_entries \<le> 0
      then Inl (Exn ''ValueError'' (''max_entries must be positive, got '' @ dec_int max_entries))
      else Inr \<lparr>sc_threshold = threshold, sc_max_entries = max_entries, sc_input_usd = input_usd,
        sc_output_usd = output_usd, sc_store = [], sc_exact = [], sc_next_id = 0, sc_stats = stats_new F\<rparr>)"

definition ns_of :: "'f semantic_cache \<Rightarrow> string \<Rightarrow> 'f namespace" where
  "ns_of c tenant = (case map_of (sc_store c) tenant of None \<Rightarrow> [] | Some ns \<Rightarrow> ns)"

definition index_of :: "'f semantic_cache \<Rightarrow> string \<Rightarrow> (string \<times> nat) list" where
  "index_of c tenant = (case map_of (sc_exact c) tenant of None \<Rightarrow> [] | Some ix \<Rightarrow> ix)"

abbreviation set_ns :: "string \<Rightarrow> 'f namespace \<Rightarrow> 'f semantic_cache \<Rightarrow> 'f semantic_cache" where
  "set_ns tenant ns c \<equiv> c\<lparr>sc_store := AList.update tenant ns (sc_store c)\<rparr>"

abbreviation set_index :: "string \<Rightarrow> (string \<times> nat) list \<Rightarrow> 'f semantic_cache \<Rightarrow> 'f semantic_cache" where
  "set_index tenant ix c \<equiv> c\<lparr>sc_exact := AList.update tenant ix (sc_exact c)\<rparr>"

abbreviation set_stats :: "'f cache_stats \<Rightarrow> 'f semantic_cache \<Rightarrow> 'f semantic_cache" where
  "set_stats st c \<equiv> c\<lparr>sc_stats := st\<rparr>"

section \<open>Lookup\<close>

definition entry_cost :: "'f floats \<Rightarrow> 'f semantic_cache \<Rightarrow> 'f cache_entry \<Rightarrow> 'f" where
  "entry_cost F c e =
     fl_add F (fl_mul F (fl_quot F (ce_input_tokens e) 1000000) (sc_input_usd c))
       (fl_mul F (fl_quot F (ce_output_tokens e) 1000000) (sc_output_usd c))"

definition record_hit :: "'f floats \<Rightarrow> string \<Rightarrow> nat \<Rightarrow> 'f \<Rightarrow> string \<Rightarrow> 'f semantic_cache \<Rightarrow>
    (py_exn, 'f cache_result, 'f semantic_cache) outcome" where
  "record_hit F tenant eid sim kind c =
     (let ns = ns_of c tenant in
      case map_of ns eid of
        None \<Rightarrow> (Inl (Exn ''KeyError'' (dec_nat eid)), c)
      | Some entry \<Rightarrow>
          let touched = entry\<lparr>ce_hits := ce_hits entry + 1\<rparr>;
              st = sc_stats c;
              st1 = st\<lparr>st_hits := st_hits st + 1,
                st_exact_hits := st_exact_hits st + (if kind = ''exact'' then 1 else 0),
                st_near_hits := st_near_hits st + (if kind = ''exact'' then 0 else 1),
                st_input_tokens_saved := st_input_tokens_saved st + ce_input_tokens entry,
                st_output_tokens_saved := st_output_tokens_saved st + ce_output_tokens entry,
                st_cost_saved_usd := fl_add F (st_cost_saved_usd st) (entry_cost F c entry)\<rparr>
          in (Inr \<lparr>res_hit = True, res_response = Some (ce_response entry), res_similarity = sim,
                res_kind = kind\<rparr>,
              set_stats st1 (set_ns tenant (AList.delete eid ns @ [(eid, touched)]) c)))"

fun nearest :: "'f floats \<Rightarrow> 'f embedding \<Rightarrow> 'f namespace \<Rightarrow> nat option \<Rightarrow> 'f \<Rightarrow> nat option \<times> 'f" where
  "nearest F query_vec [] best_id best_sim = (best_id, best_sim)"
| "nearest F query_vec ((eid, entry) # ns) best_id best_sim =
     (let sim = cosine F query_vec (ce_embedding entry)
      in if fl_less F best_sim sim then nearest F query_vec ns (Some eid) sim
         else nearest F query_vec ns best_id best_sim)"

definition miss :: "'f \<Rightarrow> 'f cache_result" where
  "miss sim = \<lparr>res_hit = False, res_response = None, res_similarity = sim, res_kind = ''miss''\<rparr>"

definition count_miss :: "'f semantic_cache \<Rightarrow> 'f semantic_cache" where
  "count_miss c = set_stats ((sc_stats c)\<lparr>st_misses := st_misses (sc_stats c) + 1\<rparr>) c"

definition sc_lookup :: "'f floats \<Rightarrow> string \<Rightarrow> string \<Rightarrow> 'f semantic_cache \<Rightarrow>
    (py_exn, 'f cache_result, 'f semantic_cache) outcome" where
  "sc_lookup F tenant key_text c0 =
     (let c = set_stats ((sc_stats c0)\<lparr>st_lookups := st_lookups (sc_stats c0) + 1\<rparr>) c0;
          ns = ns_of c tenant
      in if ns = [] then (Inr (miss (fl_lit F 0)), count_miss c)
         else case map_of (index_of c tenant) key_text of
           Some exact_eid \<Rightarrow> record_hit F tenant exact_eid (fl_lit F 1) ''exact'' c
         | None \<Rightarrow>
             (case nearest F (embed F key_text) ns None (fl_lit F 0) of
                (None, best_sim) \<Rightarrow> (Inr (miss best_sim), count_miss c)
              | (Some best_id, best_sim) \<Rightarrow>
                  if \<not> fl_less F best_sim (sc_threshold c)
                  then record_hit F tenant best_id best_sim
                    (if \<not> fl_less F best_sim (EXACT_SIM F) then ''exact'' else ''near'') c
                  else (Inr (miss best_sim), count_miss c)))"

section \<open>Store\<close>

text \<open>The loop of \<open>_evict_if_needed\<close>: what is left of the namespace and of the index, and how many went.\<close>

fun evict :: "int \<Rightarrow> 'f namespace \<Rightarrow> (string \<times> nat) list \<Rightarrow> 'f namespace \<times> (string \<times> nat) list \<times> int" where
  "evict max_entries [] ix = ([], ix, 0)"
| "evict max_entries ((eid, evicted) # ns) ix =
     (if max_entries < int (length ((eid, evicted) # ns))
      then let ix' = (if map_of ix (ce_key_text evicted) = Some eid
                      then AList.delete (ce_key_text evicted) ix else ix);
               (ns1, ix1, k) = evict max_entries ns ix'
           in (ns1, ix1, k + 1)
      else ((eid, evicted) # ns, ix, 0))"

definition evict_if_needed :: "string \<Rightarrow> 'f semantic_cache \<Rightarrow> 'f semantic_cache" where
  "evict_if_needed tenant c =
     (case evict (sc_max_entries c) (ns_of c tenant) (index_of c tenant) of
        (ns, ix, k) \<Rightarrow>
          set_stats ((sc_stats c)\<lparr>st_evictions := st_evictions (sc_stats c) + k\<rparr>)
            (set_index tenant ix (set_ns tenant ns c)))"

definition count_store :: "'f semantic_cache \<Rightarrow> 'f semantic_cache" where
  "count_store c = set_stats ((sc_stats c)\<lparr>st_stores := st_stores (sc_stats c) + 1\<rparr>) c"

definition sc_put :: "'f floats \<Rightarrow> string \<Rightarrow> string \<Rightarrow> string \<Rightarrow> 'f semantic_cache \<Rightarrow>
    (py_exn, unit, 'f semantic_cache) outcome" where
  "sc_put F tenant key_text response c0 =
     (let c = set_index tenant (index_of c0 tenant) (set_ns tenant (ns_of c0 tenant) c0);
          ns = ns_of c tenant;
          ix = index_of c tenant
      in case map_of ix key_text of
           Some eid \<Rightarrow>
             (case map_of ns eid of
                None \<Rightarrow> (Inl (Exn ''KeyError'' (dec_nat eid)), c)
              | Some entry \<Rightarrow>
                  let refreshed = entry\<lparr>ce_response := response, ce_output_tokens := estimate_tokens response\<rparr>
                  in (Inr (), count_store (set_ns tenant (AList.delete eid ns @ [(eid, refreshed)]) c)))
         | None \<Rightarrow>
             let eid = sc_next_id c;
                 entry = \<lparr>ce_key_text = key_text, ce_embedding = embed F key_text, ce_response = response,
                   ce_input_tokens = estimate_tokens key_text, ce_output_tokens = estimate_tokens response,
                   ce_hits = 0\<rparr>
             in (Inr (), evict_if_needed tenant (count_store
                  (set_index tenant (AList.update key_text eid ix)
                    (set_ns tenant (AList.delete eid ns @ [(eid, entry)]) (c\<lparr>sc_next_id := eid + 1\<rparr>))))))"

definition entry_count :: "string option \<Rightarrow> 'f semantic_cache \<Rightarrow> int" where
  "entry_count tenant c =
     (case tenant of
        Some t \<Rightarrow> int (length (ns_of c t))
      | None \<Rightarrow> sum_list (map (\<lambda>(t, ns). int (length ns)) (sc_store c)))"

definition sc_clear :: "'f floats \<Rightarrow> 'f semantic_cache \<Rightarrow> 'f semantic_cache" where
  "sc_clear F c = c\<lparr>sc_store := [], sc_exact := [], sc_next_id := 0, sc_stats := stats_new F\<rparr>"

section \<open>The caching client\<close>

record caching_client =
  cc_inner :: llm_client
  cc_tenant_id :: string
  cc_name :: string
  cc_model :: string

definition cc_new :: "llm_client \<Rightarrow> string \<Rightarrow> caching_client" where
  "cc_new inner tenant = \<lparr>cc_inner = inner, cc_tenant_id = tenant, cc_name = ''cached:'' @ llm_name inner,
     cc_model = llm_model inner\<rparr>"

definition cc_complete :: "'f floats \<Rightarrow> caching_client \<Rightarrow> string \<Rightarrow> string option \<Rightarrow> int \<Rightarrow>
    'f semantic_cache \<Rightarrow> (py_exn, string, 'f semantic_cache) outcome" where
  "cc_complete F cl prompt system max_tokens c =
     andThen (sc_lookup F (cc_tenant_id cl) prompt c) (\<lambda>result c1.
       case (res_hit result, res_response result) of
         (True, Some response) \<Rightarrow> (Inr response, c1)
       | _ \<Rightarrow>
           (case llm_complete (cc_inner cl) prompt system max_tokens of
              Inl e \<Rightarrow> (Inl e, c1)
            | Inr response \<Rightarrow>
                andThen (sc_put F (cc_tenant_id cl) prompt response c1) (\<lambda>_ c2. (Inr response, c2))))"

definition cc_summarize :: "caching_client \<Rightarrow> string \<Rightarrow> int \<Rightarrow> py_exn + string" where
  "cc_summarize cl msg max_tokens = llm_summarize (cc_inner cl) msg max_tokens"

end
