(* ===== verification/Semantic_Cache_Spec.thy ===== *)
theory Semantic_Cache_Spec
  imports Semantic_Cache
begin

text \<open>
  The semantic cache against its specification: per tenant a list of entries with distinct
  keys, least recently used first, without ids, index or counters.  Everything the cache
  answers to a tenant is read off the tenant's own list.
\<close>

section \<open>The specification\<close>

fun best :: "'f floats \<Rightarrow> 'f embedding \<Rightarrow> 'f cache_entry list \<Rightarrow> 'f cache_entry option \<Rightarrow> 'f \<Rightarrow>
    'f cache_entry option \<times> 'f" where
  "best F q [] b s = (b, s)"
| "best F q (e # es) b s =
     (let sim = cosine F q (ce_embedding e) in if fl_less F s sim then best F q es (Some e) sim else best F q es b s)"

definition without :: "string \<Rightarrow> 'f cache_entry list \<Rightarrow> 'f cache_entry list" where
  "without key es = filter (\<lambda>e. ce_key_text e \<noteq> key) es"

definition with_key :: "string \<Rightarrow> 'f cache_entry list \<Rightarrow> 'f cache_entry option" where
  "with_key key es = find (\<lambda>e. ce_key_text e = key) es"

definition touch :: "'f cache_entry \<Rightarrow> 'f \<Rightarrow> string \<Rightarrow> 'f cache_entry list \<Rightarrow> 'f cache_result \<times> 'f cache_entry list" where
  "touch e sim kind es =
     (\<lparr>res_hit = True, res_response = Some (ce_response e), res_similarity = sim, res_kind = kind\<rparr>,
      without (ce_key_text e) es @ [e\<lparr>ce_hits := ce_hits e + 1\<rparr>])"

definition lru_lookup :: "'f floats \<Rightarrow> 'f \<Rightarrow> string \<Rightarrow> 'f cache_entry list \<Rightarrow> 'f cache_result \<times> 'f cache_entry list" where
  "lru_lookup F threshold key es =
     (case with_key key es of
        Some e \<Rightarrow> touch e (fl_lit F 1) ''exact'' es
      | None \<Rightarrow>
          (case best F (embed F key) es None (fl_lit F 0) of
             (None, sim) \<Rightarrow> (miss sim, es)
           | (Some e, sim) \<Rightarrow>
               if \<not> fl_less F sim threshold
               then touch e sim (if \<not> fl_less F sim (EXACT_SIM F) then ''exact'' else ''near'') es
               else (miss sim, es)))"

definition new_entry :: "'f floats \<Rightarrow> string \<Rightarrow> string \<Rightarrow> 'f cache_entry" where
  "new_entry F key response =
     \<lparr>ce_key_text = key, ce_embedding = embed F key, ce_response = response,
      ce_input_tokens = estimate_tokens key, ce_output_tokens = estimate_tokens response, ce_hits = 0\<rparr>"

definition lru_put :: "'f floats \<Rightarrow> int \<Rightarrow> string \<Rightarrow> string \<Rightarrow> 'f cache_entry list \<Rightarrow> 'f cache_entry list" where
  "lru_put F max_entries key response es =
     (case with_key key es of
        Some e \<Rightarrow> without key es @
          [e\<lparr>ce_response := response, ce_output_tokens := estimate_tokens response\<rparr>]
      | None \<Rightarrow> keep_last (nat max_entries) (es @ [new_entry F key response]))"

section \<open>The invariant\<close>

definition ns_ok :: "'f floats \<Rightarrow> 'f namespace \<Rightarrow> (string \<times> nat) list \<Rightarrow> nat \<Rightarrow> bool" where
  "ns_ok F ns ix next \<longleftrightarrow>
     distinct (map fst ns) \<and> (\<forall>(i, e) \<in> set ns. i < next \<and> ce_embedding e = embed F (ce_key_text e)) \<and>
     distinct (map (\<lambda>(i, e). ce_key_text e) ns) \<and>
     (\<forall>k i. map_of ix k = Some i \<longleftrightarrow> (\<exists>e. (i, e) \<in> set ns \<and> ce_key_text e = k))"

definition cache_inv :: "'f floats \<Rightarrow> 'f semantic_cache \<Rightarrow> bool" where
  "cache_inv F c \<longleftrightarrow> 0 < sc_max_entries c \<and>
     (\<forall>t. ns_ok F (ns_of c t) (index_of c t) (sc_next_id c) \<and> int (length (ns_of c t)) \<le> sc_max_entries c)"

lemma cache_invD:
  assumes "cache_inv F c"
  shows "ns_ok F (ns_of c t) (index_of c t) (sc_next_id c)" "int (length (ns_of c t)) \<le> sc_max_entries c"
    "0 < sc_max_entries c"
  using assms by (auto simp: cache_inv_def)

abbreviation entries :: "'f semantic_cache \<Rightarrow> string \<Rightarrow> 'f cache_entry list" where
  "entries c t \<equiv> map snd (ns_of c t)"

lemma ns_of_set [simp]:
  "ns_of (c\<lparr>sc_store := AList.update t ns (sc_store d)\<rparr>) t' = (if t' = t then ns else ns_of d t')"
  "ns_of (c\<lparr>sc_exact := x\<rparr>) t' = ns_of c t'" "index_of (c\<lparr>sc_store := y\<rparr>) t' = index_of c t'"
  "index_of (c\<lparr>sc_exact := AList.update t ix (sc_exact d)\<rparr>) t' = (if t' = t then ix else index_of d t')"
  by (simp_all add: ns_of_def index_of_def update_conv)

lemma ns_of_other [simp]:
  "ns_of (c\<lparr>sc_stats := st\<rparr>) t = ns_of c t" "ns_of (c\<lparr>sc_next_id := n\<rparr>) t = ns_of c t"
  "index_of (c\<lparr>sc_stats := st\<rparr>) t = index_of c t" "index_of (c\<lparr>sc_next_id := n\<rparr>) t = index_of c t"
  by (simp_all add: ns_of_def index_of_def)

lemma ns_okD:
  assumes "ns_ok F ns ix n"
  shows "(i, e) \<in> set ns \<Longrightarrow> map_of ix (ce_key_text e) = Some i"
    "(i, e) \<in> set ns \<Longrightarrow> map_of ns i = Some e"
    "map_of ix k = Some i \<Longrightarrow> \<exists>e. (i, e) \<in> set ns \<and> ce_key_text e = k"
    "(i, e) \<in> set ns \<Longrightarrow> i < n \<and> ce_embedding e = embed F (ce_key_text e)"
  using assms unfolding ns_ok_def by (blast, simp, blast, blast)

lemma ns_unique:
  assumes "ns_ok F ns ix n" "(i, e) \<in> set ns" "(j, x) \<in> set ns"
  shows "j = i \<longleftrightarrow> ce_key_text x = ce_key_text e" "j = i \<Longrightarrow> x = e"
  using ns_okD(1,2) [OF assms(1,2)] ns_okD(1,2) [OF assms(1,3)] by auto

lemma delete_without:
  assumes "ns_ok F ns ix n" "(i, e) \<in> set ns"
  shows "map snd (AList.delete i ns) = without (ce_key_text e) (map snd ns)"
proof -
  have "AList.delete i ns = filter (\<lambda>(j, x). ce_key_text x \<noteq> ce_key_text e) ns"
    unfolding AList.delete_eq
    by (rule filter_cong [OF refl]) (use ns_unique(1) [OF assms] in auto)
  then show ?thesis by (simp add: without_def filter_map comp_def case_prod_unfold)
qed

lemma delete_fresh: "ns_ok F ns ix n \<Longrightarrow> AList.delete n ns = ns"
  unfolding AList.delete_eq by (auto simp: filter_id_conv dest: ns_okD(4))

text \<open>The index finds the entry of a key.\<close>

lemma index_with_key:
  assumes "ns_ok F ns ix n"
  shows "with_key k (map snd ns) = (case map_of ix k of None \<Rightarrow> None | Some i \<Rightarrow> map_of ns i)"
proof (cases "with_key k (map snd ns)")
  case None
  then have "\<forall>(i, e) \<in> set ns. ce_key_text e \<noteq> k" by (auto simp: with_key_def find_None_iff)
  then have "map_of ix k = None" using ns_okD(3) [OF assms, of k] by (cases "map_of ix k") auto
  with None show ?thesis by simp
next
  case (Some e)
  then have "e \<in> set (map snd ns)" "ce_key_text e = k"
    by (auto simp: with_key_def find_Some_iff intro: nth_mem)
  then obtain i where "(i, e) \<in> set ns" by auto
  with ns_okD(1,2) [OF assms this] \<open>ce_key_text e = k\<close> Some show ?thesis by simp
qed

text \<open>Moving an entry to the end and changing what is not its key keeps the namespace in order.\<close>

lemma ns_ok_move:
  assumes "ns_ok F ns ix n" "(i, e) \<in> set ns"
    and "ce_key_text e' = ce_key_text e" "ce_embedding e' = ce_embedding e"
  shows "ns_ok F (AList.delete i ns @ [(i, e')]) ix n"
proof -
  have keys: "ce_key_text e \<notin> ce_key_text ` set (map snd (AList.delete i ns))"
    unfolding delete_without [OF assms(1,2)] by (auto simp: without_def)
  have mem: "(j, x) \<in> set (AList.delete i ns) \<longleftrightarrow> (j, x) \<in> set ns \<and> j \<noteq> i" for j x
    by (auto simp: AList.delete_eq)
  have "distinct (map (\<lambda>(i, e). ce_key_text e) (AList.delete i ns))"
    using assms(1) by (auto simp: ns_ok_def AList.delete_eq intro: distinct_map_filter)
  moreover have "map_of ix k = Some j \<longleftrightarrow> (\<exists>x. (j, x) \<in> set (AList.delete i ns @ [(i, e')]) \<and> ce_key_text x = k)" for k j
  proof
    assume "map_of ix k = Some j"
    then obtain x where x: "(j, x) \<in> set ns" "ce_key_text x = k" using ns_okD(3) [OF assms(1)] by blast
    show "\<exists>x. (j, x) \<in> set (AList.delete i ns @ [(i, e')]) \<and> ce_key_text x = k"
    proof (cases "j = i")
      case True
      then show ?thesis using ns_unique(2) [OF assms(1,2) x(1)] x(2) assms(3) by auto
    next
      case False
      with x show ?thesis by (auto simp: mem)
    qed
  next
    assume "\<exists>x. (j, x) \<in> set (AList.delete i ns @ [(i, e')]) \<and> ce_key_text x = k"
    then show "map_of ix k = Some j"
      using ns_okD(1) [OF assms(1)] assms(2,3) by (auto simp: mem)
  qed
  ultimately show ?thesis
    using assms keys by (auto simp: ns_ok_def mem distinct_delete image_iff)
qed

lemma ns_ok_next: "ns_ok F ns ix n \<Longrightarrow> n \<le> m \<Longrightarrow> ns_ok F ns ix m"
  by (fastforce simp: ns_ok_def)

section \<open>Lookup\<close>

lemma nearest_best:
  "\<exists>r s. nearest F q ns (map_option fst b) s0 = (map_option fst r, s) \<and>
     best F q (map snd ns) (map_option snd b) s0 = (map_option snd r, s) \<and>
     (r = b \<or> (\<exists>p \<in> set ns. r = Some p))"
proof (induction ns arbitrary: b s0)
  case (Cons p ns)
  obtain i e where p: "p = (i, e)" by (cases p)
  let ?sim = "cosine F q (ce_embedding e)"
  show ?case
    using Cons.IH [of "Some p" ?sim] Cons.IH [of b s0] by (auto simp: p Let_def)
qed simp

lemma record_hit_refines:
  assumes inv: "cache_inv F c" and e: "(i, e) \<in> set (ns_of c t)"
  shows "\<exists>c'. record_hit F t i sim kind c = (Inr (fst (touch e sim kind (entries c t))), c') \<and>
    cache_inv F c' \<and> entries c' t = snd (touch e sim kind (entries c t)) \<and>
    (\<forall>t'. t' \<noteq> t \<longrightarrow> ns_of c' t' = ns_of c t') \<and>
    sc_threshold c' = sc_threshold c \<and> sc_max_entries c' = sc_max_entries c"
proof -
  let ?e = "e\<lparr>ce_hits := ce_hits e + 1\<rparr>"
  note ok = cache_invD(1) [OF inv, of t]
  have m: "map_of (ns_of c t) i = Some e" using ok e by (simp add: ns_ok_def)
  have move: "ns_ok F (AList.delete i (ns_of c t) @ [(i, ?e)]) (index_of c t) (sc_next_id c)"
    by (rule ns_ok_move [OF ok e]) simp_all
  have len: "int (length (AList.delete i (ns_of c t) @ [(i, ?e)])) \<le> sc_max_entries c"
    using cache_invD(2) [OF inv, of t] length_filter_less [OF e, of "\<lambda>(k', _). i \<noteq> k'"]
    by (simp add: AList.delete_eq)
  show ?thesis
    using inv move len delete_without [OF ok e]
    by (auto simp: record_hit_def m touch_def Let_def cache_inv_def)
qed

lemma lookup_refines:
  assumes inv: "cache_inv F c"
  shows "\<exists>c'. sc_lookup F t key c = (Inr (fst (lru_lookup F (sc_threshold c) key (entries c t))), c') \<and>
    cache_inv F c' \<and> entries c' t = snd (lru_lookup F (sc_threshold c) key (entries c t)) \<and>
    (\<forall>t'. t' \<noteq> t \<longrightarrow> ns_of c' t' = ns_of c t') \<and>
    sc_threshold c' = sc_threshold c \<and> sc_max_entries c' = sc_max_entries c"
proof -
  define d where "d = set_stats ((sc_stats c)\<lparr>st_lookups := st_lookups (sc_stats c) + 1\<rparr>) c"
  have d: "cache_inv F d" "ns_of d t = ns_of c t" "index_of d t = index_of c t" "sc_threshold d = sc_threshold c"
    "sc_max_entries d = sc_max_entries c" for t
    using inv by (simp_all add: d_def cache_inv_def)
  have miss: "cache_inv F (count_miss d)" "ns_of (count_miss d) t = ns_of c t"
    "sc_threshold (count_miss d) = sc_threshold c" "sc_max_entries (count_miss d) = sc_max_entries c" for t
    using d by (simp_all add: count_miss_def cache_inv_def)
  note ok = cache_invD(1) [OF inv, of t]
  note hit = record_hit_refines [OF d(1), unfolded d(2,4,5), of _ _ t]
  show ?thesis
  proof (cases "ns_of c t = []")
    case True
    then show ?thesis
      using miss by (simp add: sc_lookup_def d_def [symmetric] d(2) lru_lookup_def with_key_def Let_def)
  next
    case False
    show ?thesis
    proof (cases "map_of (index_of c t) key")
      case (Some i)
      then obtain e where e: "(i, e) \<in> set (ns_of c t)" using ok by (auto simp: ns_ok_def)
      then have "with_key key (entries c t) = Some e"
        using Some index_with_key [OF ok, of key] ok by (simp add: ns_ok_def)
      then show ?thesis
        using hit [OF e, of "fl_lit F 1" "''exact''"] False Some
        by (simp add: sc_lookup_def d_def [symmetric] d(2,3) lru_lookup_def Let_def)
    next
      case None
      have w: "with_key key (entries c t) = None" using None index_with_key [OF ok, of key] by simp
      obtain r s where r: "nearest F (embed F key) (ns_of c t) None (fl_lit F 0) = (map_option fst r, s)"
        "best F (embed F key) (entries c t) None (fl_lit F 0) = (map_option snd r, s)"
        "r = None \<or> (\<exists>p \<in> set (ns_of c t). r = Some p)"
        using nearest_best [of F "embed F key" "ns_of c t" None "fl_lit F 0"] by auto
      show ?thesis
      proof (cases r)
        case None
        with r False \<open>map_of (index_of c t) key = None\<close> w miss show ?thesis
          by (simp add: sc_lookup_def d_def [symmetric] d(2,3) lru_lookup_def Let_def)
      next
        case (Some p)
        obtain i e where p: "p = (i, e)" by (cases p)
        have e: "(i, e) \<in> set (ns_of c t)" using r(3) Some p by auto
        show ?thesis
          using r Some p False None w miss hit [OF e, of s]
          by (simp add: sc_lookup_def d_def [symmetric] d(2,3,4) lru_lookup_def Let_def split del: if_split)
             (auto split: if_split)
      qed
    qed
  qed
qed

section \<open>Store\<close>

lemma ns_ok_tl:
  assumes "ns_ok F ((i, e) # ns) ix n"
  shows "ns_ok F ns (AList.delete (ce_key_text e) ix) n"
proof -
  have "map_of (AList.delete (ce_key_text e) ix) k = Some j \<longleftrightarrow> (\<exists>x. (j, x) \<in> set ns \<and> ce_key_text x = k)" for k j
  proof (cases "k = ce_key_text e")
    case True
    have "ce_key_text x \<noteq> ce_key_text e" if x: "(j, x) \<in> set ns" for j x
    proof -
      have "(i, e) \<in> set ((i, e) # ns)" "(j, x) \<in> set ((i, e) # ns)" using x by simp_all
      moreover have "j \<noteq> i" using assms x unfolding ns_ok_def by force
      ultimately show ?thesis using ns_unique(1) [OF assms] by blast
    qed
    with True show ?thesis by (auto simp: delete_conv)
  next
    case False
    have "map_of ix k = Some j \<longleftrightarrow> (\<exists>x. (j, x) \<in> set ((i, e) # ns) \<and> ce_key_text x = k)"
      using ns_okD(1,3) [OF assms] by blast
    with False show ?thesis by (auto simp: delete_conv)
  qed
  with assms show ?thesis by (simp add: ns_ok_def)
qed

lemma map_keep_last: "map f (keep_last n xs) = keep_last n (map f xs)"
  by (simp add: keep_last_def drop_map)

lemma evict_keeps_last:
  "ns_ok F ns ix n \<Longrightarrow> 0 < m \<Longrightarrow> \<exists>ns' ix' k. evict m ns ix = (ns', ix', k) \<and> ns_ok F ns' ix' n \<and>
    ns' = keep_last (nat m) ns"
proof (induction m ns ix rule: evict.induct)
  case (2 m i e ns ix)
  show ?case
  proof (cases "m < int (length ((i, e) # ns))")
    case True
    have "map_of ix (ce_key_text e) = Some i" by (rule ns_okD(1) [OF "2.prems"(1)]) simp
    with 2 True ns_ok_tl [OF "2.prems"(1)] obtain ns' ix' k where
      r: "evict m ns (AList.delete (ce_key_text e) ix) = (ns', ix', k)" "ns_ok F ns' ix' n" "ns' = keep_last (nat m) ns"
      by auto
    have "keep_last (nat m) ((i, e) # ns) = keep_last (nat m) ns"
      using True "2.prems"(2) by (simp add: keep_last_def Suc_diff_le nat_le_iff)
    with r True \<open>map_of ix (ce_key_text e) = Some i\<close> show ?thesis by simp
  next
    case False
    with "2.prems" show ?thesis by simp
  qed
qed simp

lemma ns_ok_new:
  assumes ok: "ns_ok F ns ix n" and key: "map_of ix key = None"
    and e: "ce_key_text e = key" "ce_embedding e = embed F key"
  shows "ns_ok F (ns @ [(n, e)]) (AList.update key n ix) (n + 1)"
proof -
  have fresh: "n \<notin> fst ` set ns" using ok by (auto simp: ns_ok_def)
  have ne: "ce_key_text x \<noteq> key" if "(j, x) \<in> set ns" for j x
    using ns_okD(1) [OF ok that] key by auto
  then have "key \<notin> (\<lambda>(i, e). ce_key_text e) ` set ns" by auto
  moreover have "map_of (AList.update key n ix) k = Some j \<longleftrightarrow>
      (\<exists>x. (j, x) \<in> set (ns @ [(n, e)]) \<and> ce_key_text x = k)" for k j
  proof (cases "k = key")
    case True
    then show ?thesis using ne e(1) by (auto simp: update_conv)
  next
    case False
    have "map_of ix k = Some j \<longleftrightarrow> (\<exists>x. (j, x) \<in> set ns \<and> ce_key_text x = k)"
      using ns_okD(1,3) [OF ok] by blast
    with False e(1) show ?thesis by (auto simp: update_conv)
  qed
  ultimately show ?thesis using ok fresh e by (auto simp: ns_ok_def)
qed

lemma put_refines:
  assumes inv: "cache_inv F c"
  shows "\<exists>c'. sc_put F t key response c = (Inr (), c') \<and> cache_inv F c' \<and>
    entries c' t = lru_put F (sc_max_entries c) key response (entries c t) \<and>
    (\<forall>t'. t' \<noteq> t \<longrightarrow> ns_of c' t' = ns_of c t') \<and>
    sc_threshold c' = sc_threshold c \<and> sc_max_entries c' = sc_max_entries c"
proof -
  let ?d = "set_index t (index_of c t) (set_ns t (ns_of c t) c)"
  note ok = cache_invD(1) [OF inv, of t]
  have d: "ns_of ?d t' = ns_of c t'" "index_of ?d t' = index_of c t'" for t' by simp_all
  show ?thesis
  proof (cases "map_of (index_of c t) key")
    case (Some i)
    then obtain e where e: "(i, e) \<in> set (ns_of c t)" "ce_key_text e = key" using ns_okD(3) [OF ok] by blast
    let ?e = "e\<lparr>ce_response := response, ce_output_tokens := estimate_tokens response\<rparr>"
    have m: "map_of (ns_of c t) i = Some e" by (rule ns_okD(2) [OF ok e(1)])
    have w: "with_key key (entries c t) = Some e" using index_with_key [OF ok, of key] Some m by simp
    have move: "ns_ok F (AList.delete i (ns_of c t) @ [(i, ?e)]) (index_of c t) (sc_next_id c)"
      by (rule ns_ok_move [OF ok e(1)]) simp_all
    have len: "int (length (AList.delete i (ns_of c t) @ [(i, ?e)])) \<le> sc_max_entries c"
      using cache_invD(2) [OF inv, of t] length_filter_less [OF e(1), of "\<lambda>(k', _). i \<noteq> k'"]
      by (simp add: AList.delete_eq)
    show ?thesis
      using inv move len delete_without [OF ok e(1)] w e(2)
      by (auto simp: sc_put_def d Some m lru_put_def Let_def count_store_def cache_inv_def)
  next
    case None
    have w: "with_key key (entries c t) = None" using index_with_key [OF ok, of key] None by simp
    let ?e = "new_entry F key response"
    have new: "ns_ok F (ns_of c t @ [(sc_next_id c, ?e)]) (AList.update key (sc_next_id c) (index_of c t)) (sc_next_id c + 1)"
      by (rule ns_ok_new [OF ok None]) (simp_all add: new_entry_def)
    from evict_keeps_last [OF new cache_invD(3) [OF inv]] obtain ns' ix' k where
      ev: "evict (sc_max_entries c) (ns_of c t @ [(sc_next_id c, ?e)]) (AList.update key (sc_next_id c) (index_of c t)) =
        (ns', ix', k)" "ns_ok F ns' ix' (sc_next_id c + 1)"
        "ns' = keep_last (nat (sc_max_entries c)) (ns_of c t @ [(sc_next_id c, ?e)])" by blast
    have others: "ns_ok F (ns_of c t') (index_of c t') (sc_next_id c + 1)" for t'
      by (rule ns_ok_next [OF cache_invD(1) [OF inv]]) simp
    have len: "int (length ns') \<le> sc_max_entries c" using cache_invD(3) [OF inv] by (simp add: ev(3))
    have "map snd ns' = lru_put F (sc_max_entries c) key response (entries c t)"
      by (simp add: ev(3) map_keep_last lru_put_def w)
    then show ?thesis
      using inv others len ev(1,2)
      by (auto simp: sc_put_def d None Let_def count_store_def evict_if_needed_def cache_inv_def
        delete_fresh [OF ok] new_entry_def [symmetric])
  qed
qed

lemma cache_inv_new:
  assumes "sc_new F threshold max_entries a b = Inr c"
  shows "cache_inv F c" "ns_of c t = []" "sc_threshold c = threshold" "sc_max_entries c = max_entries"
  using assms by (auto simp: sc_new_def cache_inv_def ns_ok_def ns_of_def index_of_def split: if_splits)

section \<open>Sequences of calls\<close>

text \<open>The answers are the results of the lookups and whatever a call raises.\<close>

datatype cache_call = Lookup string string | Put string string string | ClearCache

fun cache_step :: "'f floats \<Rightarrow> cache_call \<Rightarrow> 'f semantic_cache \<Rightarrow>
    (string \<times> (py_exn + 'f cache_result)) list \<times> 'f semantic_cache" where
  "cache_step F (Lookup t k) c = (case sc_lookup F t k c of (r, c') \<Rightarrow> ([(t, r)], c'))"
| "cache_step F (Put t k r) c =
     (case sc_put F t k r c of (Inl e, c') \<Rightarrow> ([(t, Inl e)], c') | (Inr u, c') \<Rightarrow> ([], c'))"
| "cache_step F ClearCache c = ([], sc_clear F c)"

fun cache_run :: "'f floats \<Rightarrow> cache_call list \<Rightarrow> 'f semantic_cache \<Rightarrow>
    (string \<times> (py_exn + 'f cache_result)) list \<times> 'f semantic_cache" where
  "cache_run F [] c = ([], c)"
| "cache_run F (call # calls) c =
     (case cache_step F call c of (rs, c1) \<Rightarrow> case cache_run F calls c1 of (rs', c2) \<Rightarrow> (rs @ rs', c2))"

text \<open>What one tenant sees of the calls, by the specification.\<close>

fun lru_step :: "'f floats \<Rightarrow> 'f \<Rightarrow> int \<Rightarrow> string \<Rightarrow> cache_call \<Rightarrow> 'f cache_entry list \<Rightarrow>
    'f cache_result list \<times> 'f cache_entry list" where
  "lru_step F th m tenant (Lookup t k) es =
     (if t = tenant then (case lru_lookup F th k es of (r, es') \<Rightarrow> ([r], es')) else ([], es))"
| "lru_step F th m tenant (Put t k r) es = ([], if t = tenant then lru_put F m k r es else es)"
| "lru_step F th m tenant ClearCache es = ([], [])"

fun lru_run :: "'f floats \<Rightarrow> 'f \<Rightarrow> int \<Rightarrow> string \<Rightarrow> cache_call list \<Rightarrow> 'f cache_entry list \<Rightarrow>
    'f cache_result list \<times> 'f cache_entry list" where
  "lru_run F th m tenant [] es = ([], es)"
| "lru_run F th m tenant (call # calls) es =
     (case lru_step F th m tenant call es of (rs, es1) \<Rightarrow>
        case lru_run F th m tenant calls es1 of (rs', es2) \<Rightarrow> (rs @ rs', es2))"

definition answers_to :: "string \<Rightarrow> (string \<times> 'r) list \<Rightarrow> 'r list" where
  "answers_to tenant rs = map snd (filter (\<lambda>(t, r). t = tenant) rs)"

lemma step_refines:
  assumes inv: "cache_inv F c"
  shows "cache_inv F (snd (cache_step F call c)) \<and>
    answers_to tenant (fst (cache_step F call c)) =
      map Inr (fst (lru_step F (sc_threshold c) (sc_max_entries c) tenant call (entries c tenant))) \<and>
    entries (snd (cache_step F call c)) tenant =
      snd (lru_step F (sc_threshold c) (sc_max_entries c) tenant call (entries c tenant)) \<and>
    sc_threshold (snd (cache_step F call c)) = sc_threshold c \<and>
    sc_max_entries (snd (cache_step F call c)) = sc_max_entries c"
proof (cases call)
  case (Lookup t k)
  with lookup_refines [OF inv, of t k] show ?thesis
    by (cases "t = tenant") (auto simp: answers_to_def split: prod.split)
next
  case (Put t k r)
  with put_refines [OF inv, of t k r] show ?thesis
    by (cases "t = tenant") (auto simp: answers_to_def)
next
  case ClearCache
  with cache_invD(3) [OF inv] show ?thesis
    by (simp add: answers_to_def sc_clear_def cache_inv_def ns_of_def index_of_def ns_ok_def)
qed

lemma run_refines:
  assumes "cache_inv F c"
  shows "cache_inv F (snd (cache_run F calls c)) \<and>
    answers_to tenant (fst (cache_run F calls c)) =
      map Inr (fst (lru_run F (sc_threshold c) (sc_max_entries c) tenant calls (entries c tenant))) \<and>
    entries (snd (cache_run F calls c)) tenant =
      snd (lru_run F (sc_threshold c) (sc_max_entries c) tenant calls (entries c tenant)) \<and>
    sc_threshold (snd (cache_run F calls c)) = sc_threshold c \<and>
    sc_max_entries (snd (cache_run F calls c)) = sc_max_entries c"
  using assms
proof (induction calls arbitrary: c)
  case (Cons call calls)
  let ?c = "snd (cache_step F call c)"
  note s = step_refines [OF Cons.prems, of call tenant]
  with Cons.IH [of ?c] have "cache_inv F ?c" by blast
  from Cons.IH [OF this] s show ?case
    by (auto simp: answers_to_def split: prod.split)
qed (simp add: answers_to_def)

section \<open>Where answers come from\<close>

text \<open>The response last stored for a key of a tenant since the cache was cleared.\<close>

fun last_put :: "string \<Rightarrow> cache_call list \<Rightarrow> string \<Rightarrow> string option" where
  "last_put tenant [] key = None"
| "last_put tenant (Put t k r # calls) key =
     (case last_put tenant calls key of
        Some r' \<Rightarrow> Some r'
      | None \<Rightarrow> if t = tenant \<and> k = key \<and> ClearCache \<notin> set calls then Some r else None)"
| "last_put tenant (call # calls) key = last_put tenant calls key"

lemma last_put_snoc:
  "last_put tenant (calls @ [Put t k r]) key =
     (if t = tenant \<and> k = key then Some r else last_put tenant calls key)"
  "last_put tenant (calls @ [Lookup t k]) key = last_put tenant calls key"
  "last_put tenant (calls @ [ClearCache]) key = None"
  by (induction tenant calls key rule: last_put.induct) (auto split: option.split)

lemma lru_run_snoc:
  "snd (lru_run F th m tenant (calls @ [call]) es) =
     snd (lru_step F th m tenant call (snd (lru_run F th m tenant calls es)))"
  by (induction calls arbitrary: es) (simp_all add: case_prod_unfold)

text \<open>Every entry of the list holds the last response stored under its key.\<close>

definition current :: "(string \<Rightarrow> string option) \<Rightarrow> 'f floats \<Rightarrow> 'f cache_entry list \<Rightarrow> bool" where
  "current lp F es \<longleftrightarrow> (\<forall>e \<in> set es. lp (ce_key_text e) = Some (ce_response e) \<and>
     ce_embedding e = embed F (ce_key_text e))"

lemma with_key_Some: "with_key k es = Some e \<Longrightarrow> e \<in> set es \<and> ce_key_text e = k"
  by (auto simp: with_key_def find_Some_iff)

lemma best_member: "best F q es b s = (Some e, sim) \<Longrightarrow>
    e \<in> set es \<and> sim = cosine F q (ce_embedding e) \<or> b = Some e \<and> sim = s"
  by (induction F q es b s rule: best.induct) (auto simp: Let_def split: if_splits)

lemma touch_current: "current lp F es \<Longrightarrow> e \<in> set es \<Longrightarrow> current lp F (snd (touch e sim kind es))"
  by (auto simp: current_def touch_def without_def)

lemma lookup_current: "current lp F es \<Longrightarrow> current lp F (snd (lru_lookup F th k es))"
  by (auto simp: lru_lookup_def dest: with_key_Some best_member
      intro: touch_current split: option.splits prod.splits if_splits)

lemma put_current:
  assumes "current lp F es" and "\<forall>key. lp' key = (if key = k then Some r else lp key)"
  shows "current lp' F (lru_put F m k r es)"
proof (cases "with_key k es")
  case None
  then have "\<forall>e \<in> set es. ce_key_text e \<noteq> k" by (simp add: with_key_def find_None_iff)
  have "e \<in> set es \<or> e = new_entry F k r" if "e \<in> set (lru_put F m k r es)" for e
    using that None set_keep_last [of "nat m" "es @ [new_entry F k r]"] by (auto simp: lru_put_def)
  with assms \<open>\<forall>e \<in> set es. ce_key_text e \<noteq> k\<close> show ?thesis
    unfolding current_def by (fastforce simp: new_entry_def)
next
  case (Some e)
  with assms with_key_Some [OF Some] show ?thesis
    by (auto simp: current_def lru_put_def without_def)
qed

lemma run_current: "current (last_put tenant calls) F (snd (lru_run F th m tenant calls []))"
proof (induction calls rule: rev_induct)
  case (snoc call calls)
  let ?es = "snd (lru_run F th m tenant calls [])"
  show ?case
  proof (cases call)
    case (Lookup t k)
    then show ?thesis
      using snoc lookup_current [OF snoc, of th k]
      by (auto simp: lru_run_snoc last_put_snoc(2) [abs_def] current_def split: prod.split)
  next
    case (Put t k r)
    have "current (last_put tenant (calls @ [Put t k r])) F (lru_put F m k r ?es)" if "t = tenant"
      by (rule put_current [OF snoc]) (use that in \<open>auto simp: last_put_snoc\<close>)
    with Put snoc show ?thesis
      by (auto simp: lru_run_snoc last_put_snoc(1) [abs_def] current_def)
  next
    case ClearCache
    then show ?thesis by (simp add: lru_run_snoc current_def)
  qed
qed (simp add: current_def)

section \<open>Properties\<close>

text \<open>
  C36. The semantic cache implements a least-recently-used list per tenant: after any calls,
  by any tenants, in any order, no call raises, neither a lookup nor a store, and what a tenant's
  lookups were answered is what its own list answers to its own calls, so no other tenant's prompts,
  responses or load have any influence on it; and no tenant ever holds more than \<open>max_entries\<close>
  entries.  The list is scanned from its least recently used end, so that entry wins a tie of
  similarities, not the one inserted first, as the comment in \<open>lookup\<close> has it.
\<close>

theorem cache_refines_lru:
  assumes "sc_new F threshold max_entries input_usd output_usd = Inr c"
  shows "answers_to tenant (fst (cache_run F calls c)) =
      map Inr (fst (lru_run F threshold max_entries tenant calls [])) \<and>
    entries (snd (cache_run F calls c)) tenant = snd (lru_run F threshold max_entries tenant calls []) \<and>
    entry_count (Some tenant) (snd (cache_run F calls c)) \<le> max_entries"
proof -
  note new = cache_inv_new [OF assms]
  from run_refines [OF new(1), of calls tenant] new(2-4) show ?thesis
    using cache_invD(2) [of F "snd (cache_run F calls c)" tenant] by (simp add: entry_count_def)
qed

text \<open>
  The comment and the code part after a touch: of two entries with the same embedding, the one
  inserted first loses the tie once it has been looked up.
\<close>

lemma map_results: "map (map_sum f g) (map Inr xs) = map Inr (map g xs)"
  by simp

lemma touched_entry_loses_tie:
  assumes new: "sc_new F threshold max_entries input_usd output_usd = Inr c" and "2 \<le> max_entries"
    and keys: "k1 \<noteq> k2" "q \<noteq> k1" "q \<noteq> k2" "embed F k1 = embed F q" "embed F k2 = embed F q"
    and sim: "sim = cosine F (embed F q) (embed F q)" "fl_less F (fl_lit F 0) sim" "\<not> fl_less F sim sim"
      "\<not> fl_less F sim threshold"
  shows "map (map_sum id res_response)
      (answers_to t (fst (cache_run F [Put t k1 r1, Put t k2 r2, Lookup t k1, Lookup t q] c))) =
    [Inr (Some r1), Inr (Some r2)]"
proof -
  have room: "nat max_entries = Suc (Suc (nat (max_entries - 2)))" using assms(2) by simp
  have "map res_response (fst (lru_run F threshold max_entries t
      [Put t k1 r1, Put t k2 r2, Lookup t k1, Lookup t q] [])) = [Some r1, Some r2]"
    using keys keys(2,3) [symmetric] sim
    by (simp add: lru_put_def lru_lookup_def with_key_def new_entry_def touch_def without_def keep_last_def room Let_def)
  then show ?thesis
    using run_refines [OF cache_inv_new(1) [OF new], of "[Put t k1 r1, Put t k2 r2, Lookup t k1, Lookup t q]" t]
      cache_inv_new(2-4) [OF new]
    by (simp add: map_results del: cache_run.simps lru_run.simps list.map_comp map_map)
qed

definition demo_cache_calls :: "cache_call list" where
  "demo_cache_calls = [Put ''a'' ''hi'' ''hello'', Lookup ''b'' ''hi'', Lookup ''a'' ''hi'']"

theorem cache_refines_lru_witness:
  "\<exists>c. sc_new exact_floats (9 / 10) 2 3 15 = Inr c \<and>
    answers_to ''b'' (fst (cache_run exact_floats demo_cache_calls c)) = [Inr (miss 0)] \<and>
    map (map_sum id res_response) (answers_to ''a'' (fst (cache_run exact_floats demo_cache_calls c))) =
      [Inr (Some ''hello'')]"
proof -
  obtain c where c: "sc_new exact_floats (9 / 10) 2 3 15 = Inr c"
    by (simp add: sc_new_def exact_floats_def)
  have b: "fst (lru_run exact_floats (9 / 10) 2 ''b'' demo_cache_calls []) = [miss 0]"
    by (simp add: demo_cache_calls_def lru_lookup_def with_key_def exact_floats_def)
  have a: "map res_response (fst (lru_run exact_floats (9 / 10) 2 ''a'' demo_cache_calls [])) = [Some ''hello'']"
    by (simp add: demo_cache_calls_def lru_lookup_def lru_put_def with_key_def new_entry_def touch_def
        exact_floats_def keep_last_def)
  show ?thesis
    using c a b cache_refines_lru [OF c, of "''a''" demo_cache_calls] cache_refines_lru [OF c, of "''b''" demo_cache_calls]
    by (auto simp: comp_def)
qed

text \<open>
  C37. A cached answer is never stale and never foreign: whatever ran before, a hit returns the
  response the same tenant stored last under some key (since the cache was cleared), and that key
  is the prompt itself or its embedding reaches the threshold.
\<close>

theorem cache_hits_are_current:
  assumes "sc_new F threshold max_entries input_usd output_usd = Inr c"
    and "sc_lookup F tenant key (snd (cache_run F calls c)) = (Inr res, c')" and "res_hit res"
  shows "\<exists>key' r. last_put tenant calls key' = Some r \<and> res_response res = Some r \<and>
    (key' = key \<or> \<not> fl_less F (cosine F (embed F key) (embed F key')) threshold)"
proof -
  note new = cache_inv_new [OF assms(1)]
  let ?es = "snd (lru_run F threshold max_entries tenant calls [])"
  have run: "cache_inv F (snd (cache_run F calls c))" "entries (snd (cache_run F calls c)) tenant = ?es"
    "sc_threshold (snd (cache_run F calls c)) = threshold"
    using run_refines [OF new(1), of calls tenant] new(2-4) by simp_all
  have res: "res = fst (lru_lookup F threshold key ?es)"
    using lookup_refines [OF run(1), of tenant key] assms(2) run(2,3) by auto
  have cur: "current (last_put tenant calls) F ?es" by (rule run_current)
  show ?thesis
  proof (cases "with_key key ?es")
    case (Some e)
    with cur with_key_Some [OF Some] res show ?thesis
      by (auto simp: lru_lookup_def touch_def current_def)
  next
    case None
    then obtain e sim where e: "best F (embed F key) ?es None (fl_lit F 0) = (Some e, sim)"
      "\<not> fl_less F sim threshold" "res_response res = Some (ce_response e)"
      using res assms(3) by (auto simp: lru_lookup_def miss_def touch_def split: option.splits prod.splits if_splits)
    from best_member [OF e(1)] have "e \<in> set ?es" "sim = cosine F (embed F key) (ce_embedding e)" by auto
    with cur e show ?thesis by (auto simp: current_def)
  qed
qed

theorem cache_hits_are_current_witness:
  "\<exists>c res c'. sc_lookup exact_floats ''a'' ''hi'' (snd (cache_run exact_floats
      [Put ''a'' ''hi'' ''one'', Put ''b'' ''hi'' ''two'', Put ''a'' ''hi'' ''three''] c)) = (Inr res, c') \<and>
    res_response res = Some ''three''"
proof -
  let ?calls = "[Put ''a'' ''hi'' ''one'', Put ''b'' ''hi'' ''two'', Put ''a'' ''hi'' ''three'']"
  obtain c where c: "sc_new exact_floats (9 / 10) 2 3 15 = Inr c"
    by (simp add: sc_new_def exact_floats_def)
  note new = cache_inv_new [OF c]
  let ?c = "snd (cache_run exact_floats ?calls c)"
  have run: "cache_inv exact_floats ?c" "entries ?c ''a'' = snd (lru_run exact_floats (9 / 10) 2 ''a'' ?calls [])"
    "sc_threshold ?c = 9 / 10"
    using run_refines [OF new(1), of ?calls "''a''"] new(2-4) by simp_all
  let ?res = "fst (lru_lookup exact_floats (9 / 10) ''hi'' (snd (lru_run exact_floats (9 / 10) 2 ''a'' ?calls [])))"
  from lookup_refines [OF run(1), of "''a''" "''hi''", unfolded run(2,3)] obtain c' where
    l: "sc_lookup exact_floats ''a'' ''hi'' ?c = (Inr ?res, c')" by blast
  have hit: "res_hit ?res"
    by (simp add: lru_lookup_def lru_put_def with_key_def new_entry_def touch_def without_def keep_last_def)
  from cache_hits_are_current [OF c l hit] obtain key' r where
    "last_put ''a'' ?calls key' = Some r" "res_response ?res = Some r" by blast
  then have "res_response ?res = Some ''three''" by (simp split: if_splits)
  with l show ?thesis by blast
qed

text \<open>
  The key of the caching client is the prompt alone: once a completion has been answered,
  asking the same prompt again returns that answer without consulting the model, whatever the
  system prompt and token limit of the second request are, and so does a client of the same
  tenant over another model.
\<close>

lemma put_then_lookup:
  assumes "0 < m" "with_key k es = None"
  shows "with_key k (lru_put F m k r es) = Some (new_entry F k r)"
proof -
  have "lru_put F m k r es = drop (length (es @ [new_entry F k r]) - nat m) es @ [new_entry F k r]"
    using assms by (simp add: lru_put_def keep_last_def)
  moreover have "find (\<lambda>e. ce_key_text e = k) (drop n es) = None" for n
    using assms(2) by (auto simp: with_key_def find_None_iff dest: in_set_dropD)
  ultimately show ?thesis by (simp add: with_key_def find_append new_entry_def)
qed

theorem repeated_prompt_is_cached:
  assumes "sc_new F threshold max_entries input_usd output_usd = Inr c0"
    and "c = snd (cache_run F calls c0)"
    and "sc_lookup F (cc_tenant_id cl) prompt c = (Inr res, c')" and "\<not> res_hit res"
    and "llm_complete (cc_inner cl) prompt system max_tokens = Inr answer"
    and "cc_tenant_id cl' = cc_tenant_id cl"
  shows "\<exists>c1 c2. cc_complete F cl prompt system max_tokens c = (Inr answer, c1) \<and>
    cc_complete F cl' prompt system' max_tokens' c1 = (Inr answer, c2)"
proof -
  let ?t = "cc_tenant_id cl"
  have inv: "cache_inv F c" using run_refines [OF cache_inv_new(1) [OF assms(1)]] by (simp add: assms(2))
  from lookup_refines [OF inv, of ?t prompt] assms(3) have l: "cache_inv F c'"
    "res = fst (lru_lookup F (sc_threshold c) prompt (entries c ?t))"
    "entries c' ?t = snd (lru_lookup F (sc_threshold c) prompt (entries c ?t))"
    by auto
  have none: "with_key prompt (entries c' ?t) = None"
    using assms(4) l(2,3) by (auto simp: lru_lookup_def touch_def split: option.splits prod.splits if_splits)
  from put_refines [OF l(1), of ?t prompt answer] obtain c1 where p: "sc_put F ?t prompt answer c' = (Inr (), c1)"
    "cache_inv F c1" "entries c1 ?t = lru_put F (sc_max_entries c') prompt answer (entries c' ?t)" by blast
  have first: "cc_complete F cl prompt system max_tokens c = (Inr answer, c1)"
    using assms(3,4,5) p(1) by (simp add: cc_complete_def)
  have "with_key prompt (entries c1 ?t) = Some (new_entry F prompt answer)"
    unfolding p(3) by (rule put_then_lookup [OF cache_invD(3) [OF l(1)] none])
  then have "fst (lru_lookup F (sc_threshold c1) prompt (entries c1 ?t)) =
      \<lparr>res_hit = True, res_response = Some answer, res_similarity = fl_lit F 1, res_kind = ''exact''\<rparr>"
    by (simp add: lru_lookup_def touch_def new_entry_def)
  with lookup_refines [OF p(2), of ?t prompt] have
    "\<exists>c2. cc_complete F cl' prompt system' max_tokens' c1 = (Inr answer, c2)"
    by (auto simp: cc_complete_def assms(6))
  with first show ?thesis by blast
qed

theorem repeated_prompt_is_cached_witness:
  "\<exists>c c1 c2. sc_new exact_floats (9 / 10) 2 3 15 = Inr c \<and>
    cc_complete exact_floats (cc_new mock_client ''a'') ''hi'' None 512 c = (Inr ''[mock-llm] hi'', c1) \<and>
    cc_complete exact_floats (cc_new mock_client ''a'') ''hi'' (Some ''be brief'') 1 c1 = (Inr ''[mock-llm] hi'', c2)"
proof -
  obtain c where c: "sc_new exact_floats (9 / 10) 2 3 15 = Inr c"
    by (simp add: sc_new_def exact_floats_def)
  have run: "c = snd (cache_run exact_floats [] c)" by simp
  note new = cache_inv_new [OF c]
  from lookup_refines [OF new(1), of "''a''" "''hi''", unfolded new(2,3)] obtain c' where
    l: "sc_lookup exact_floats ''a'' ''hi'' c = (Inr (miss 0), c')"
    by (auto simp: lru_lookup_def with_key_def exact_floats_def)
  have "llm_complete (cc_inner (cc_new mock_client ''a'')) ''hi'' None 512 = Inr ''[mock-llm] hi''"
    by (simp add: cc_new_def mock_client_def py_take_def)
  from repeated_prompt_is_cached [OF c run _ _ this refl, of "miss 0" c'] l show ?thesis
    using c by (auto simp: miss_def cc_new_def)
qed

end
