(* ===== verification/Observability.thy ===== *)
theory Observability
  imports Llm_Clients Prelude
begin

text \<open>
  \<open>contracts/observability.py\<close> and \<open>contracts/build_info.py\<close>: the choice of the tracing mode, the
  span around a block, and the self-description of a running image.  A span is what the
  program writes into it; exporting is the SDK's.
\<close>

section \<open>The tracing mode\<close>

record otel =
  otel_api :: bool  \<comment> \<open>the API package is installed\<close>
  otel_sdk :: bool  \<comment> \<open>the SDK and the OTLP exporter are\<close>

definition env_strip :: "environ \<Rightarrow> string \<Rightarrow> string" where
  "env_strip env k = py_strip (getenv_or env k [])"

definition service_name_from_env :: "environ \<Rightarrow> string \<Rightarrow> string" where
  "service_name_from_env env default_name =
     (let n = env_strip env ''OTEL_SERVICE_NAME'' in if n \<noteq> [] then n else default_name)"

text \<open>
  The state is \<open>_active_mode\<close> and the tracer providers installed, each by the service name and
  endpoint of its exporter; the answer is the mode.
\<close>

definition setup_tracing :: "otel \<Rightarrow> environ \<Rightarrow> string \<Rightarrow> string option \<times> (string \<times> string) list \<Rightarrow>
    string \<times> (string option \<times> (string \<times> string) list)" where
  "setup_tracing pkg env service_name st =
     (case st of (active_mode, providers) \<Rightarrow>
        if \<not> otel_api pkg then (''unavailable'', (Some ''unavailable'', providers))
        else case active_mode of
          Some m \<Rightarrow> (m, st)
        | None \<Rightarrow>
            let endpoint = env_strip env ''OTEL_EXPORTER_OTLP_ENDPOINT'';
                resolved_service = service_name_from_env env service_name
            in if endpoint = [] then (''noop'', (Some ''noop'', providers))
               else if \<not> otel_sdk pkg then (''noop'', (Some ''noop'', providers))
               else (''otlp'', (Some ''otlp'', providers @ [(resolved_service, endpoint)])))"

definition reset_for_tests :: "string option \<times> (string \<times> string) list \<Rightarrow>
    string option \<times> (string \<times> string) list" where
  "reset_for_tests st = (None, snd st)"

text \<open>Setting up again changes nothing and answers the same, whatever the environment is by then.\<close>

lemma setup_tracing_idempotent:
  "setup_tracing pkg env' name' (snd (setup_tracing pkg env name st)) =
   (fst (setup_tracing pkg env name st), snd (setup_tracing pkg env name st))"
  by (auto simp: setup_tracing_def Let_def split: prod.split option.split)

section \<open>Spans\<close>

record span =
  sp_name :: string
  sp_attributes :: dict
  sp_error :: "string option"  \<comment> \<open>the description of status ERROR\<close>

text \<open>
  The span around a block.  \<open>body\<close> gets the handle, \<open>None\<close> for the stub that swallows what is
  written to it, and returns or raises; what the tracer sees is the second component.
\<close>

definition trace_span :: "bool \<Rightarrow> string \<Rightarrow> string option \<Rightarrow> (string \<times> json option) list \<Rightarrow>
    (span option \<Rightarrow> (py_exn + 'a) \<times> span option) \<Rightarrow> (py_exn + 'a) \<times> span option" where
  "trace_span api name tenant_id attributes body =
     (if \<not> api then (fst (body None), None)
      else
        let span_attrs = (case tenant_id of None \<Rightarrow> []
                          | Some t \<Rightarrow> [(''pennycore.tenant_id'', JStr t)]);
            span_attrs = fold (\<lambda>(key, v) d. case v of None \<Rightarrow> d | Some x \<Rightarrow> dict_set key x d)
                           attributes span_attrs
        in case body (Some \<lparr>sp_name = name, sp_attributes = span_attrs, sp_error = None\<rparr>) of
             (Inr r, sp) \<Rightarrow> (Inr r, sp)
           | (Inl (Exn type msg), sp) \<Rightarrow>
               (Inl (Exn type msg),
                map_option (\<lambda>s. s\<lparr>sp_attributes := dict_set ''error.type'' (JStr type) (sp_attributes s),
                                  sp_error := Some msg\<rparr>) sp))"

text \<open>
  Observation does not act: a block whose result does not depend on the handle gives the same
  result with tracing, without it and outside any span.
\<close>

lemma trace_span_transparent:
  assumes "\<And>sp. fst (body sp) = r"
  shows "fst (trace_span api name tenant_id attributes body) = r"
proof -
  have "body sp = (x, y) \<Longrightarrow> x = r" for sp x y using assms [of sp] by simp
  with assms show ?thesis
    by (auto simp: trace_span_def Let_def split: prod.split sum.split py_exn.split)
qed

section \<open>The build\<close>

definition build_info :: "environ \<Rightarrow> string option \<Rightarrow> dict" where
  "build_info env tracing_mode =
     (let field = (\<lambda>k. let v = env_strip env k in if v \<noteq> [] then v else ''unknown'');
          sha = field ''PENNYCORE_GIT_SHA'';
          built = field ''PENNYCORE_BUILD_DATE'';
          version = field ''PENNYCORE_IMAGE_VERSION'';
          is_prod = list_all (\<lambda>v. v \<noteq> ''unknown'') [sha, built, version]
      in [(''git_sha'', JStr sha), (''build_date'', JStr built), (''image_version'', JStr version),
          (''mode'', JStr (if is_prod then ''prod'' else ''dev'')),
          (''tracing_mode'', case tracing_mode of None \<Rightarrow> JNull | Some m \<Rightarrow> JStr m)])"

lemma build_info_prod:
  "dict_get (build_info env m) ''mode'' = Some (JStr ''prod'') \<longleftrightarrow>
   (\<forall>k \<in> set [''PENNYCORE_GIT_SHA'', ''PENNYCORE_BUILD_DATE'', ''PENNYCORE_IMAGE_VERSION''].
      env_strip env k \<notin> {[], ''unknown''})"
  by (auto simp: build_info_def Let_def)

end
