(* ===== verification/Context_Api.thy ===== *)
theory Context_Api
  imports Linking Timeouts Prompt_Injection Json_Reader Floats Observability
begin

text \<open>
  The HTTP surface of the context engine, \<open>context_engine/api.py\<close>, over the in-memory stores:
  the ingestion front door \<open>POST /events\<close>, the 422 handler that quarantines what cannot be
  parsed, the operator views and the probes.  A route is a function on the objects the
  dependency wiring hands it; it answers with a status code and a body, or raises
  \<open>HTTPException\<close>, or lets another exception escape, which the server answers with 500.
\<close>

section \<open>Answers\<close>

datatype http_exn =
    HTTPException int string
  | Uncaught py_exn

type_synonym response = "int \<times> dict"

text \<open>What the client gets: the framework renders an exception that left the route.\<close>

definition http_answer :: "http_exn + response \<Rightarrow> response" where
  "http_answer r =
     (case r of
        Inr resp \<Rightarrow> resp
      | Inl (HTTPException status detail) \<Rightarrow> (status, [(''detail'', JStr detail)])
      | Inl (Uncaught e) \<Rightarrow> (500, [(''detail'', JStr ''Internal Server Error'')]))"

section \<open>The objects behind the routes\<close>

record 's context_engine =
  ce_events :: event_repo
  ce_customers :: customer_repo
  ce_bus :: "event_bus \<times> 's"
  ce_quarantine :: quarantine_buffer
  ce_deferred :: slow_call_queue
  ce_world :: world

text \<open>\<open>_build_default_repos\<close> and \<open>_build_default_bus\<close> without \<open>DATABASE_URL\<close> and \<open>REDIS_URL\<close>.\<close>

definition context_engine_new :: "quarantine_buffer \<Rightarrow> slow_call_queue \<Rightarrow> event_bus \<times> 's \<Rightarrow> world \<Rightarrow>
    's context_engine" where
  "context_engine_new q d bs w =
     \<lparr>ce_events = er_new, ce_customers = cr_new w, ce_bus = bs, ce_quarantine = q,
      ce_deferred = d, ce_world = w\<rparr>"

fun payload_strings :: "json \<Rightarrow> string list" where
  "payload_strings (JStr s) = [s]"
| "payload_strings (JObj d) = concat (map (\<lambda>(k, v). payload_strings v) d)"
| "payload_strings (JList xs) = concat (map payload_strings xs)"
| "payload_strings _ = []"

section \<open>Quarantine\<close>

fun quarantine_reason_value :: "quarantine_reason \<Rightarrow> string" where
  "quarantine_reason_value VALIDATION_FAILED = ''validation_failed''"
| "quarantine_reason_value MISSING_IDEMPOTENCY_KEY = ''missing_idempotency_key''"
| "quarantine_reason_value IDEMPOTENCY_KEY_MISMATCH = ''idempotency_key_mismatch''"
| "quarantine_reason_value UNKNOWN_CUSTOMER = ''unknown_customer''"
| "quarantine_reason_value OVERSIZED_PAYLOAD = ''oversized_payload''"
| "quarantine_reason_value INJECTION_SUSPECTED = ''injection_suspected''"
| "quarantine_reason_value OTHER = ''other''"

definition ce_quarantine_event :: "string \<Rightarrow> quarantine_reason \<Rightarrow> string \<Rightarrow> dict \<Rightarrow> dict \<Rightarrow>
    's context_engine \<Rightarrow> (http_exn, unit, 's context_engine) outcome" where
  \<comment> \<open>\<open>quarantine.quarantine(...)\<close> in a route\<close>
  "ce_quarantine_event tenant reason detail raw context s =
     (case qb_quarantine tenant reason detail raw context (ce_world s) (ce_quarantine s) of
        (Inl e, (w, q)) \<Rightarrow>
          (Inl (Uncaught (Exn ''ValueError'' ''tenant_id'')), s\<lparr>ce_world := w, ce_quarantine := q\<rparr>)
      | (Inr entry, (w, q)) \<Rightarrow> (Inr (), s\<lparr>ce_world := w, ce_quarantine := q\<rparr>))"

definition json_opt :: "string option \<Rightarrow> json" where
  "json_opt so = (case so of None \<Rightarrow> JNull | Some s \<Rightarrow> JStr s)"

definition request_dump :: "ingestion_request \<Rightarrow> dict" where
  \<comment> \<open>\<open>request.model_dump(mode="json")\<close>\<close>
  "request_dump r =
     [(''tenant_id'', JStr (ir_tenant_id r)), (''customer_id'', json_opt (ir_customer_id r)),
      (''channel_code'', JStr (channel_value (ir_channel_code r))),
      (''event_type'', JStr (event_type_value (ir_event_type r))),
      (''idempotency_key'', json_opt (ir_idempotency_key r)),
      (''payload'', JObj (ir_payload r))]"

text \<open>
  The handler of \<open>RequestValidationError\<close>.  \<open>body\<close> is what \<open>request.json()\<close> returns, \<open>None\<close> when it
  raises; \<open>errors\<close> is the framework's list of errors as JSON.
\<close>

definition recover_tenant :: "json option \<Rightarrow> string" where
  "recover_tenant body =
     (case body of
        Some (JObj d) \<Rightarrow>
          (case dict_get d ''tenant_id'' of
             Some (JStr candidate) \<Rightarrow> if candidate = [] then ''_unparseable_'' else candidate
           | _ \<Rightarrow> ''_unparseable_'')
      | _ \<Rightarrow> ''_unparseable_'')"

definition validation_quarantine_handler :: "string \<Rightarrow> string \<Rightarrow> json option \<Rightarrow> json list \<Rightarrow>
    's context_engine \<Rightarrow> response \<times> 's context_engine" where
  "validation_quarantine_handler path verb body errors s =
     (let raw = (case body of
                   Some (JObj d) \<Rightarrow> d
                 | Some v \<Rightarrow> [(''_non_dict_body'', JStr (take 500 (py_str v)))]
                 | None \<Rightarrow> [(''_non_dict_body'', JStr (take 500 (py_str JNull)))]);
          s' = snd (ce_quarantine_event (recover_tenant body) VALIDATION_FAILED
                 (''Pydantic validation failed: '' @ dec_nat (length errors) @ '' error(s)'')
                 raw [(''path'', JStr path), (''method'', JStr verb)] s)
      in ((422, [(''detail'', JList errors)]), s'))"

section \<open>POST /events\<close>

text \<open>
  \<open>IngestionRequest\<close> read from a JSON body: the fields and no others, each of its type and
  within its bounds.
\<close>

definition channel_of :: "string \<Rightarrow> channel_type option" where
  "channel_of s = find (\<lambda>c. channel_value c = s) [CHAT, EMAIL, SMS, VOICE, API]"

definition event_type_of :: "string \<Rightarrow> event_type option" where
  "event_type_of s = find (\<lambda>e. event_type_value e = s)
     [MESSAGE_RECEIVED, DOCUMENT_UPLOADED, STATUS_CHANGED, ANOMALY_DETECTED, SYSTEM_EVENT]"

fun str_field :: "json option \<Rightarrow> string option" where
  "str_field (Some (JStr s)) = Some s"
| "str_field _ = None"

fun opt_str_field :: "json option \<Rightarrow> string option option" where
  "opt_str_field None = Some None"
| "opt_str_field (Some JNull) = Some None"
| "opt_str_field (Some (JStr s)) = Some (Some s)"
| "opt_str_field _ = None"

fun dict_field :: "json option \<Rightarrow> dict option" where
  "dict_field None = Some []"
| "dict_field (Some (JObj d)) = Some d"
| "dict_field _ = None"

definition REQUEST_FIELDS :: "string list" where
  "REQUEST_FIELDS = [''tenant_id'', ''customer_id'', ''channel_code'', ''event_type'',
     ''idempotency_key'', ''payload'']"

definition parse_ingestion_request :: "json \<Rightarrow> ingestion_request option" where
  "parse_ingestion_request body =
     (case body of
        JObj d \<Rightarrow>
          if \<not> list_all (\<lambda>(k, v). k \<in> set REQUEST_FIELDS) d then None
          else (case (str_field (dict_get d ''tenant_id''), opt_str_field (dict_get d ''customer_id''),
                      Option.bind (str_field (dict_get d ''channel_code'')) channel_of,
                      Option.bind (str_field (dict_get d ''event_type'')) event_type_of,
                      opt_str_field (dict_get d ''idempotency_key''),
                      dict_field (dict_get d ''payload'')) of
                  (Some t, Some c, Some ch, Some et, Some key, Some payload) \<Rightarrow>
                    let r = \<lparr>ir_tenant_id = t, ir_customer_id = c, ir_channel_code = ch,
                             ir_event_type = et, ir_idempotency_key = key, ir_payload = payload\<rparr>
                    in if ingestion_request_valid r then Some r else None
                | _ \<Rightarrow> None)
      | _ \<Rightarrow> None)"

text \<open>An exception of the resolver: \<open>KeyError\<close> is a \<open>LookupError\<close>, and shows its message quoted.\<close>

definition lookup_error :: "repo_error \<Rightarrow> string option" where
  "lookup_error e =
     (case e of
        LinkLookupError msg \<Rightarrow> Some msg
      | CustomerKeyError msg \<Rightarrow> Some (py_repr_str msg)
      | _ \<Rightarrow> None)"

definition repo_exn :: "repo_error \<Rightarrow> py_exn" where
  "repo_exn e =
     (case e of
        IdentityCollision \<Rightarrow> Exn ''IdentityCollision'' []
      | CustomerValidationError \<Rightarrow> Exn ''ValidationError'' ''CustomerIdentity''
      | CustomerKeyError msg \<Rightarrow> Exn ''KeyError'' msg
      | LinkLookupError msg \<Rightarrow> Exn ''LookupError'' msg
      | StoreError exn \<Rightarrow> exn)"

definition ce_resolve :: "ingestion_request \<Rightarrow> 's context_engine \<Rightarrow>
    (repo_error, linking_outcome, 's context_engine) outcome" where
  \<comment> \<open>\<open>resolve_customer\<close>; the repository draws its ids from the supply of the service\<close>
  "ce_resolve request s =
     (let (res, r) = resolve_customer cr_get cr_find cr_create_customer
                       cr_add_identity request ((ce_customers s)\<lparr>cr_world := ce_world s\<rparr>)
      in (res, s\<lparr>ce_customers := r\<lparr>cr_world := cr_world (ce_customers s)\<rparr>, ce_world := cr_world r\<rparr>))"

definition ce_ingest :: "(nat \<Rightarrow> 's subscriber) \<Rightarrow> event \<Rightarrow> 's context_engine \<Rightarrow>
    (http_exn, event \<times> bool, 's context_engine) outcome" where
  "ce_ingest run e s =
     (case ingest_event er_upsert_event (eb_publish run) iso_stamp e (ce_events s, ce_bus s) of
        (Inl exn, (r, b)) \<Rightarrow> (Inl (Uncaught exn), s\<lparr>ce_events := r, ce_bus := b\<rparr>)
      | (Inr res, (r, b)) \<Rightarrow> (Inr res, s\<lparr>ce_events := r, ce_bus := b\<rparr>))"

definition identity_kind_value :: "identity_kind \<Rightarrow> string" where
  "identity_kind_value k =
     (case k of EMAIL_ID \<Rightarrow> ''email'' | PHONE_ID \<Rightarrow> ''phone'' | EXTERNAL_ID \<Rightarrow> ''external_id''
      | CHAT_HANDLE_ID \<Rightarrow> ''chat_handle'')"

definition event_view :: "event \<Rightarrow> bool \<Rightarrow> json \<Rightarrow> bool \<Rightarrow> dict" where
  \<comment> \<open>the body of a 200 or 202\<close>
  "event_view e customer_created matched created =
     [(''event_id'', JStr (ev_id e)), (''tenant_id'', JStr (ev_tenant_id e)),
      (''customer_id'', json_opt (ev_customer_id e)),
      (''customer_created'', JBool customer_created), (''matched_identity'', matched),
      (''channel_code'', JStr (channel_value (ev_channel_code e))),
      (''event_type'', JStr (event_type_value (ev_event_type e))),
      (''idempotency_key'', JStr (ev_idempotency_key e)),
      (''received_at'', JStr (iso_stamp (ev_received_at e))),
      (''created'', JBool created), (''deduped'', JBool (\<not> created))]"

definition matched_identity :: "linking_outcome \<Rightarrow> bool \<Rightarrow> json" where
  "matched_identity link created =
     (case lo_matched_kind link of
        Some k \<Rightarrow> if created then JObj [(''kind'', JStr (identity_kind_value k)),
                                       (''value'', json_opt (lo_matched_value link))]
                  else JNull
      | None \<Rightarrow> JNull)"

text \<open>From the replay check on; \<open>idem\<close> is the key the request and the header agreed on.\<close>

definition ce_create_event :: "(nat \<Rightarrow> 's subscriber) \<Rightarrow> ingestion_request \<Rightarrow> string \<Rightarrow>
    linking_outcome \<Rightarrow> 's context_engine \<Rightarrow> (http_exn, response, 's context_engine) outcome" where
  "ce_create_event run request idem link s =
     (case build_event_from_request request idem (Some (lo_customer_id link)) (ce_world s) of
        (Inl exn, w) \<Rightarrow> (Inl (Uncaught exn), s\<lparr>ce_world := w\<rparr>)
      | (Inr e, w) \<Rightarrow>
          andThen (ce_ingest run e (s\<lparr>ce_world := w\<rparr>)) (\<lambda>(stored, created) s'.
            (Inr (if created then 202 else 200,
                  event_view stored (if created then lo_customer_created link else False)
                    (matched_identity link created) created), s')))"

definition ce_accept :: "(nat \<Rightarrow> 's subscriber) \<Rightarrow> ingestion_request \<Rightarrow> string \<Rightarrow>
    's context_engine \<Rightarrow> (http_exn, response, 's context_engine) outcome" where
  "ce_accept run request idem s =
     (case er_get_event_by_idempotency (ir_tenant_id request) idem (ce_events s) of
        Some existing \<Rightarrow> (Inr (200, event_view existing False JNull False), s)
      | None \<Rightarrow>
          (case ce_resolve request s of
             (Inl e, s1) \<Rightarrow>
               (case lookup_error e of
                  None \<Rightarrow> (Inl (Uncaught (repo_exn e)), s1)
                | Some detail \<Rightarrow>
                    andThen (ce_quarantine_event (ir_tenant_id request) UNKNOWN_CUSTOMER detail
                               (request_dump request) [(''idempotency_key'', JStr idem)] s1)
                      (\<lambda>_ s2. (Inl (HTTPException 404 detail), s2)))
           | (Inr link, s1) \<Rightarrow> ce_create_event run request idem link s1))"

definition ce_flag_injection :: "py_runtime \<Rightarrow> ingestion_request \<Rightarrow> string \<Rightarrow>
    's context_engine \<Rightarrow> (http_exn, unit, 's context_engine) outcome" where
  "ce_flag_injection rt request idem s =
     (if has_injection_markers (payload_strings (JObj (ir_payload request))) then
        ce_quarantine_event (ir_tenant_id request) INJECTION_SUSPECTED
          (''payload contains injection-marker text; planner will sanitise before LLM call '' @
           ''(this entry is for visibility only '' @ wide_char rt 0x2014 @
           '' event still ingested)'')
          (request_dump request)
          [(''idempotency_key'', JStr idem), (''blocking'', JBool False)] s
      else (Inr (), s))"

definition post_event :: "py_runtime \<Rightarrow> (nat \<Rightarrow> 's subscriber) \<Rightarrow> ingestion_request \<Rightarrow>
    string option \<Rightarrow> 's context_engine \<Rightarrow> (http_exn, response, 's context_engine) outcome" where
  "post_event rt run request x_idempotency_key s =
     (let header = (case x_idempotency_key of None \<Rightarrow> [] | Some k \<Rightarrow> k);
          body = (case ir_idempotency_key request of None \<Rightarrow> [] | Some k \<Rightarrow> k);
          idem = (if header \<noteq> [] then header else body)
      in if idem = [] then
           andThen (ce_quarantine_event (ir_tenant_id request) MISSING_IDEMPOTENCY_KEY
                      ''POST /events with neither X-Idempotency-Key nor body idempotency_key''
                      (request_dump request) [] s)
             (\<lambda>_ s1. (Inl (HTTPException 400
                (''idempotency_key required: supply via X-Idempotency-Key '' @
                 ''header or `idempotency_key` field in the request body'')), s1))
         else if header \<noteq> [] \<and> body \<noteq> [] \<and> header \<noteq> body then
           andThen (ce_quarantine_event (ir_tenant_id request) IDEMPOTENCY_KEY_MISMATCH
                      (''X-Idempotency-Key='' @ py_repr_str header @ '' disagrees with '' @
                       ''body idempotency_key='' @ py_repr_str body)
                      (request_dump request)
                      [(''header_key'', JStr header), (''body_key'', JStr body)] s)
             (\<lambda>_ s1. (Inl (HTTPException 400
                ''X-Idempotency-Key header and body idempotency_key disagree''), s1))
         else andThen (ce_flag_injection rt request idem s) (\<lambda>_ s1. ce_accept run request idem s1))"

text \<open>The request as it comes in; \<open>errors\<close> stands for the framework's error report.\<close>

definition http_post_event :: "py_runtime \<Rightarrow> (nat \<Rightarrow> 's subscriber) \<Rightarrow> (json option \<Rightarrow> json list) \<Rightarrow>
    json option \<Rightarrow> string option \<Rightarrow> 's context_engine \<Rightarrow> response \<times> 's context_engine" where
  "http_post_event rt run errors body x_idempotency_key s =
     (case Option.bind body parse_ingestion_request of
        None \<Rightarrow> validation_quarantine_handler ''/events'' ''POST'' body (errors body) s
      | Some request \<Rightarrow>
          let (r, s') = post_event rt run request x_idempotency_key s in (http_answer r, s'))"

section \<open>The views and the probes\<close>

definition deferred_view :: "(rat \<Rightarrow> string) \<Rightarrow> deferred_call \<Rightarrow> json" where
  "deferred_view frepr e = JObj
     [(''id'', JStr (dc_id e)), (''operation'', JStr (dc_operation e)),
      (''reason'', JStr (case dc_reason e of DEADLINE_EXCEEDED \<Rightarrow> ''deadline_exceeded''
         | TRANSIENT_ERROR \<Rightarrow> ''transient_error'' | EXPLICIT_DEFER \<Rightarrow> ''explicit_defer'')),
      (''detail'', JStr (dc_detail e)), (''deferred_at'', JStr (iso_stamp (dc_deferred_at e))),
      (''elapsed_ms'', JFloat (frepr (dc_elapsed_ms e))),
      (''payload'', JObj (dc_payload e)), (''context'', JObj (dc_context e))]"

definition deferred_pending :: "(rat \<Rightarrow> string) \<Rightarrow> string \<Rightarrow> int \<Rightarrow> slow_call_queue \<Rightarrow>
    http_exn + response" where
  "deferred_pending frepr tenant_id limit queue =
     (if tenant_id = [] then Inl (HTTPException 400 ''tenant_id query parameter required'')
      else if limit < 1 \<or> 500 < limit then
        Inl (HTTPException 400 ''limit must be between 1 and 500'')
      else
        let entries = sq_pending tenant_id limit queue
        in Inr (200, [(''tenant_id'', JStr tenant_id), (''count'', JInt (int (length entries))),
                      (''entries'', JList (map (deferred_view frepr) entries))]))"

definition quarantine_view :: "quarantined_event \<Rightarrow> json" where
  "quarantine_view e = JObj
     [(''id'', JStr (qe_id e)), (''reason'', JStr (quarantine_reason_value (qe_reason e))),
      (''detail'', JStr (qe_detail e)),
      (''quarantined_at'', JStr (iso_stamp (qe_quarantined_at e))),
      (''raw_payload'', JObj (qe_raw_payload e)), (''context'', JObj (qe_context e))]"

definition quarantine_recent :: "string \<Rightarrow> int \<Rightarrow> quarantine_buffer \<Rightarrow> http_exn + response" where
  "quarantine_recent tenant_id limit buffer =
     (if tenant_id = [] then Inl (HTTPException 400 ''tenant_id query parameter required'')
      else if limit < 1 \<or> 200 < limit then
        Inl (HTTPException 400 ''limit must be between 1 and 200'')
      else
        let entries = qb_recent tenant_id limit buffer
        in Inr (200, [(''tenant_id'', JStr tenant_id), (''count'', JInt (int (length entries))),
                      (''entries'', JList (map quarantine_view entries))]))"

definition llm_mode :: "environ \<Rightarrow> (llm_sdk \<Rightarrow> bool) \<Rightarrow> string" where
  \<comment> \<open>\<open>get_client().name\<close>\<close>
  "llm_mode env installed =
     (case get_client env installed of UseMock \<Rightarrow> ''mock'' | UseAnthropic k m \<Rightarrow> ''anthropic''
      | UseAzure k e v m \<Rightarrow> ''azure'' | UseOpenAI k m \<Rightarrow> ''openai'')"

definition ce_root :: "environ \<Rightarrow> (llm_sdk \<Rightarrow> bool) \<Rightarrow> string \<Rightarrow> string \<Rightarrow> dict" where
  "ce_root env installed datastore_mode bus_mode =
     [(''service'', JStr ''context-engine''), (''version'', JStr ''0.2.0''),
      (''llm_mode'', JStr (llm_mode env installed)), (''status'', JStr ''mvp''),
      (''phase'', JStr ''2-mvp-build''),
      (''datastore_mode'', JStr datastore_mode), (''bus_mode'', JStr bus_mode)]"

definition ce_info :: "environ \<Rightarrow> string option \<Rightarrow> dict" where
  "ce_info env tracing_mode = (''service'', JStr ''context-engine'') # build_info env tracing_mode"

definition healthz :: dict where
  "healthz = [(''status'', JStr ''ok'')]"

text \<open>\<open>probe\<close> is what \<open>repo.count()\<close> does: \<open>None\<close> when it returns, else what it raises.\<close>

definition ce_readyz :: "string \<Rightarrow> py_exn option \<Rightarrow> response" where
  "ce_readyz datastore_mode probe =
     (if datastore_mode = ''memory'' then
        (200, [(''status'', JStr ''ready''), (''datastores_probed'', JBool False),
               (''datastore_mode'', JStr ''memory'')])
      else case probe of
        Some exc \<Rightarrow>
          (503, [(''status'', JStr ''not_ready''), (''datastores_probed'', JBool True),
                 (''datastore_mode'', JStr datastore_mode), (''error'', JStr (exn_text exc))])
      | None \<Rightarrow>
          (200, [(''status'', JStr ''ready''), (''datastores_probed'', JBool True),
                 (''datastore_mode'', JStr datastore_mode)]))"

end
