(* ===== verification/Context_Api_Spec.thy ===== *)
theory Context_Api_Spec
  imports Context_Api
begin

text \<open>
  What the front door of the context engine promises: a characterisation of \<open>POST /events\<close> by its
  branches, the invariant of the service, and the properties of any sequence of requests.
\<close>

section \<open>Supplies\<close>

definition world_adv :: "world \<Rightarrow> world \<Rightarrow> bool" where
  \<comment> \<open>the supply of \<open>w'\<close> is that of \<open>w\<close>, some draws later\<close>
  "world_adv w w' \<longleftrightarrow> uuid_of w' = uuid_of w \<and> uuids_drawn w \<le> uuids_drawn w'"

lemma world_adv_refl [simp]: "world_adv w w"
  by (simp add: world_adv_def)

lemma world_adv_trans [trans]: "world_adv w w' \<Longrightarrow> world_adv w' w'' \<Longrightarrow> world_adv w w''"
  by (simp add: world_adv_def)

lemma world_adv_now [simp]: "world_adv w (snd (now w))"
  by (simp add: world_adv_def)

lemma world_adv_uuid4 [simp]: "world_adv w (snd (uuid4 w))"
  by (simp add: world_adv_def)

lemma adv_insert: "world_adv (cr_world r) (cr_world (snd (cr_insert_identity t c k v r)))"
  by (auto simp: cr_insert_identity_def uuid4_def now_def Let_def world_adv_def split: option.splits)

lemma adv_insert_all: "world_adv (cr_world r) (cr_world (snd (cr_insert_all t c ids r)))"
proof (induction t c ids r rule: cr_insert_all.induct)
  case (2 t c k v rest r)
  obtain res r1 where one: "cr_insert_identity t c k v r = (res, r1)" by fastforce
  then have "world_adv (cr_world r) (cr_world r1)" using adv_insert [of r t c k v] by simp
  with one 2 show ?case by (cases res) (auto intro: world_adv_trans)
qed simp

lemma adv_andThen:
  assumes "world_adv w (cr_world (snd r))" "\<And>a s. world_adv (cr_world s) (cr_world (snd (f a s)))"
  shows "world_adv w (cr_world (snd (andThen r f)))"
  using assms by (cases r; cases "fst r") (auto intro: world_adv_trans)

lemma adv_create: "world_adv (cr_world r) (cr_world (snd (cr_create_customer t ids name r)))"
proof -
  have insert: "world_adv (cr_world r) (cr_world r') \<Longrightarrow>
      world_adv (cr_world r) (cr_world (snd (cr_insert_all t c ids r')))" for c r'
    by (rule world_adv_trans [OF _ adv_insert_all])
  show ?thesis
    by (auto simp: cr_create_customer_def uuid4_def now_def Let_def intro!: adv_andThen insert)
       (simp_all add: world_adv_def)
qed

lemma adv_add: "world_adv (cr_world r) (cr_world (snd (cr_add_identity t c k v r)))"
  using adv_insert [of r t c k v] by (auto simp: cr_add_identity_def Let_def split: option.splits)

abbreviation cr_resolve :: "ingestion_request \<Rightarrow> customer_repo \<Rightarrow>
    (repo_error, linking_outcome, customer_repo) outcome" where
  "cr_resolve \<equiv> resolve_customer cr_get cr_find cr_create_customer cr_add_identity"

lemma adv_resolve: "world_adv (cr_world r) (cr_world (snd (cr_resolve q r)))"
  by (rule resolve_preserves [where P = "\<lambda>s. world_adv (cr_world r) (cr_world s)"])
     (auto intro: world_adv_trans adv_create adv_add)

section \<open>When the resolver raises a lookup error\<close>

lemma create_lookup_error: "fst (cr_create_customer t ids name r) = Inl e \<Longrightarrow> lookup_error e = None"
proof -
  have insert: "fst (cr_insert_all t c ids r) = Inl e \<Longrightarrow> lookup_error e = None" for c r
  proof (induction t c ids r rule: cr_insert_all.induct)
    case (2 t c k v rest r)
    then show ?case
      by (cases "cr_insert_identity t c k v r"; cases "fst (cr_insert_identity t c k v r)")
         (auto simp: cr_insert_identity_def Let_def lookup_error_def case_prod_beta split: option.splits)
  qed simp
  have "fst (andThen (cr_insert_all t c ids r') (\<lambda>_ r2. (Inr x, r2))) = Inl e \<Longrightarrow> lookup_error e = None"
    for c r' and x :: customer
    using insert [of c r'] by (cases "cr_insert_all t c ids r'"; cases "fst (cr_insert_all t c ids r')") auto
  then show "fst (cr_create_customer t ids name r) = Inl e \<Longrightarrow> lookup_error e = None"
    by (auto simp: cr_create_customer_def Let_def case_prod_beta split: if_splits)
       (auto simp: lookup_error_def)
qed

lemma add_lookup_error:
  "cr_get_customer t c r \<noteq> None \<Longrightarrow> fst (cr_add_identity t c k v r) = Inl e \<Longrightarrow> lookup_error e = None"
  by (auto simp: cr_add_identity_def cr_insert_identity_def cr_get_customer_def Let_def case_prod_beta
      lookup_error_def split: option.splits if_splits)

lemma attach_lookup_error:
  assumes "cr_inv r" "cr_get_customer t c r \<noteq> None"
    and "fst (attach_new_identities cr_find cr_add_identity c t hs r) = Inl e"
  shows "lookup_error e = None"
  using assms
proof (induction hs arbitrary: r)
  case (Cons h hs)
  let ?rest = "attach_new_identities cr_find cr_add_identity c t hs"
  obtain res r1 where one: "cr_add_identity t c (ih_kind h) (ih_value h) r = (res, r1)" by fastforce
  have r1: "cr_inv r1" "cr_get_customer t c r1 \<noteq> None"
    using cr.inv_add [OF Cons.prems(1), of t c "ih_kind h" "ih_value h"]
      cr.get_add [OF Cons.prems(1), of t c _ t c "ih_kind h" "ih_value h"] Cons.prems(2) one by auto
  show ?case
  proof (cases "cr_find_by_identity t (ih_kind h) (ih_value h) r")
    case None
    show ?thesis
    proof (cases res)
      case (Inl e')
      with None one Cons.prems add_lookup_error [of t c r "ih_kind h" "ih_value h"] show ?thesis by auto
    next
      case (Inr y)
      with None one Cons.prems(3) have "fst (?rest r1) = Inl e"
        by (cases "?rest r1"; cases "fst (?rest r1)") auto
      then show ?thesis by (rule Cons.IH [OF r1])
    qed
  next
    case (Some x)
    with Cons show ?thesis by (auto simp: lookup_error_def split: if_splits)
  qed
qed simp

lemma link_lookup_error:
  assumes "cr_inv r" "cr_get_customer t (cu_id x) r \<noteq> None"
    and "fst (link_match cr_find cr_add_identity t hs h x r) = Inl e"
  shows "lookup_error e = None"
proof (rule attach_lookup_error [OF assms(1,2)])
  let ?A = "attach_new_identities cr_find cr_add_identity (cu_id x) t (filter (\<lambda>g. g \<noteq> h) hs) r"
  show "fst ?A = Inl e" using assms(3) by (cases ?A; cases "fst ?A") (auto simp: link_match_def)
qed

text \<open>\<open>LookupError\<close> means an explicit customer the tenant does not have, and nothing was touched.\<close>

lemma resolve_lookup_error:
  assumes inv: "cr_inv r" and err: "fst (cr_resolve q r) = Inl e" "lookup_error e = Some d"
  shows "snd (cr_resolve q r) = r \<and>
    (\<exists>c. ir_customer_id q = Some c \<and> cr_get_customer (ir_tenant_id q) c r = None)"
proof (cases "ir_customer_id q")
  case (Some c)
  let ?A = "attach_new_identities cr_find cr_add_identity"
  show ?thesis
  proof (cases "cr_get_customer (ir_tenant_id q) c r")
    case (Some x)
    let ?B = "?A (cu_id x) (ir_tenant_id q) (extract_identity_hints (ir_payload q)) r"
    have "fst ?B = Inl e"
      using err(1) Some \<open>ir_customer_id q = Some c\<close>
      by (cases ?B; cases "fst ?B") (auto simp: resolve_customer_def Let_def)
    moreover have "cu_id x = c" using cr.get_id [OF inv, of "ir_tenant_id q" c x] Some by simp
    ultimately show ?thesis
      using attach_lookup_error [OF inv, of "ir_tenant_id q" "cu_id x"] Some err(2) by fastforce
  qed (simp add: Some resolve_customer_def Let_def)
next
  case None
  let ?hs = "extract_identity_hints (ir_payload q)" and ?t = "ir_tenant_id q"
  let ?link = "link_match cr_find cr_add_identity ?t ?hs"
  let ?create = "cr_create_customer ?t (map (\<lambda>h. (ih_kind h, ih_value h)) ?hs)
     (extract_display_name (ir_payload q)) r"
  have ordered: "\<forall>h \<in> set (in_priority ?hs). hint_normal h" using extracted_hints(2) by simp
  have linked: False if "cr_inv s" "first_match cr_find ?t (in_priority ?hs) s = Inr (Some (h, x))"
    "fst (?link h x s) = Inl e" for s h x
  proof (cases rule: cr.matched_cases [OF that(1) ordered, of ?t, case_names miss hit])
    case (hit g y)
    with that(2) have "cr_get_customer ?t (cu_id x) s \<noteq> None" by simp
    with link_lookup_error [OF that(1)] that(3) err(2) show False by fastforce
  qed (use that(2) in simp)
  show ?thesis
  proof (cases rule: cr.matched_cases [OF inv ordered, of ?t, case_names miss hit])
    case (hit h x)
    then have "fst (?link h x r) = Inl e"
      using err(1) None by (simp add: resolve_customer_def Let_def)
    with linked [OF inv hit(1)] show ?thesis by blast
  next
    case miss
    obtain res r1 where C: "?create = (res, r1)" by fastforce
    have inv1: "cr_inv r1" using cr_inv_create [OF inv] C by (metis snd_conv)
    have "False" if "res = Inl e"
      using create_lookup_error [of ?t "map (\<lambda>h. (ih_kind h, ih_value h)) ?hs"
          "extract_display_name (ir_payload q)" r e] that C err(2) by simp
    moreover have "False" if "res = Inl IdentityCollision"
      using cr.first_match_returns [of ?t "in_priority ?hs" r1] err miss None C that linked [OF inv1]
      by (auto simp: resolve_customer_def Let_def lookup_error_def split: option.splits)
    ultimately show ?thesis
      using err(1) miss None C
      by (auto simp: resolve_customer_def Let_def split: sum.splits repo_error.splits)
  qed
qed

section \<open>What a request leaves alone\<close>

text \<open>The key a request is made under: the header's, else the body's; \<open>None\<close> when both or none.\<close>

definition request_key :: "ingestion_request \<Rightarrow> string option \<Rightarrow> string option" where
  "request_key q h =
     (let header = (case h of None \<Rightarrow> [] | Some k \<Rightarrow> k);
          body = (case ir_idempotency_key q of None \<Rightarrow> [] | Some k \<Rightarrow> k)
      in if header = [] then (if body = [] then None else Some body)
         else if body \<noteq> [] \<and> header \<noteq> body then None else Some header)"

definition only_quarantines :: "'s context_engine \<Rightarrow> 's context_engine \<Rightarrow> bool" where
  "only_quarantines s s' \<longleftrightarrow>
     (\<exists>w q. s' = s\<lparr>ce_world := w, ce_quarantine := q\<rparr> \<and> world_adv (ce_world s) w)"

text \<open>The rows a step added to the triage buffer, all of one tenant.\<close>

definition quarantined :: "string \<Rightarrow> quarantine_reason list \<Rightarrow> quarantine_buffer \<Rightarrow> quarantine_buffer \<Rightarrow> bool" where
  "quarantined t reasons b b' \<longleftrightarrow>
     (\<exists>es. b' = fold qb_push es b \<and> map qe_reason es = reasons \<and> (\<forall>e \<in> set es. qe_tenant_id e = t))"

lemma quarantined_Nil [simp]: "quarantined t [] b b"
  by (simp add: quarantined_def)

lemma quarantined_append:
  assumes "quarantined t rs b b'" "quarantined t rs' b' b''"
  shows "quarantined t (rs @ rs') b b''"
proof -
  from assms obtain es es' where "b' = fold qb_push es b" "map qe_reason es = rs"
    "\<forall>e \<in> set es. qe_tenant_id e = t" "b'' = fold qb_push es' b'" "map qe_reason es' = rs'"
    "\<forall>e \<in> set es'. qe_tenant_id e = t"
    by (auto simp: quarantined_def)
  then show ?thesis unfolding quarantined_def by (intro exI [of _ "es @ es'"]) auto
qed

lemma quarantine_event_effect:
  assumes "t \<noteq> []"
  shows "\<exists>s'. ce_quarantine_event t reason detail raw ctx s = (Inr (), s') \<and>
    only_quarantines s s' \<and> quarantined t [reason] (ce_quarantine s) (ce_quarantine s')"
proof -
  let ?w = "snd (now (snd (uuid4 (ce_world s))))"
  let ?e = "\<lparr>qe_id = ''q_'' @ take 24 (fst (uuid4 (ce_world s))), qe_tenant_id = t,
     qe_reason = reason, qe_detail = detail, qe_raw_payload = raw,
     qe_quarantined_at = fst (now (snd (uuid4 (ce_world s)))), qe_context = ctx\<rparr>"
  let ?q = "qb_push ?e (ce_quarantine s)"
  have "ce_quarantine_event t reason detail raw ctx s =
      (Inr (), s\<lparr>ce_world := ?w, ce_quarantine := ?q\<rparr>)"
    using assms by (simp add: ce_quarantine_event_def qb_quarantine_def case_prod_beta Let_def)
  moreover have "only_quarantines s (s\<lparr>ce_world := ?w, ce_quarantine := ?q\<rparr>)"
    unfolding only_quarantines_def by (intro exI conjI, rule refl) (simp add: world_adv_def)
  moreover have "quarantined t [reason] (ce_quarantine s) ?q"
    unfolding quarantined_def by (intro exI [of _ "[?e]"]) simp
  ultimately show ?thesis by auto
qed

lemma only_quarantines_refl [simp]: "only_quarantines s s"
proof -
  have "s = s\<lparr>ce_world := ce_world s, ce_quarantine := ce_quarantine s\<rparr>" by simp
  then show ?thesis unfolding only_quarantines_def using world_adv_refl by blast
qed

lemma only_quarantines_trans:
  assumes "only_quarantines s s'" "only_quarantines s' s''"
  shows "only_quarantines s s''"
proof -
  from assms(1) obtain w q where 1: "s' = s\<lparr>ce_world := w, ce_quarantine := q\<rparr>" "world_adv (ce_world s) w"
    by (auto simp: only_quarantines_def)
  from assms(2) obtain w' q' where 2: "s'' = s'\<lparr>ce_world := w', ce_quarantine := q'\<rparr>"
    "world_adv (ce_world s') w'"
    by (auto simp: only_quarantines_def)
  from 1 2 show ?thesis
    unfolding only_quarantines_def by (intro exI [of _ w'] exI [of _ q']) (auto intro: world_adv_trans)
qed

lemma only_quarantines_fields:
  "only_quarantines s s' \<Longrightarrow> ce_events s' = ce_events s \<and> ce_customers s' = ce_customers s \<and>
   ce_bus s' = ce_bus s \<and> ce_deferred s' = ce_deferred s \<and> world_adv (ce_world s) (ce_world s')"
  by (auto simp: only_quarantines_def)

text \<open>The rows before the ingestion proper: the injection flag, when the payload shows markers.\<close>

definition flags_of :: "ingestion_request \<Rightarrow> quarantine_reason list" where
  "flags_of q = (if has_injection_markers (payload_strings (JObj (ir_payload q)))
                 then [INJECTION_SUSPECTED] else [])"

lemma flag_effect:
  assumes "ir_tenant_id q \<noteq> []"
  shows "\<exists>s'. ce_flag_injection rt q k s = (Inr (), s') \<and> only_quarantines s s' \<and>
    quarantined (ir_tenant_id q) (flags_of q) (ce_quarantine s) (ce_quarantine s')"
proof (cases "has_injection_markers (payload_strings (JObj (ir_payload q)))")
  case True
  show ?thesis
    unfolding ce_flag_injection_def flags_of_def if_P [OF True] by (rule quarantine_event_effect [OF assms])
next
  case False
  show ?thesis unfolding ce_flag_injection_def flags_of_def if_not_P [OF False] by simp
qed

text \<open>\<open>POST /events\<close> without an agreed key, and with one.\<close>

definition key_defect :: "ingestion_request \<Rightarrow> quarantine_reason" where
  "key_defect q = (if ir_idempotency_key q \<in> {None, Some []} then MISSING_IDEMPOTENCY_KEY
                   else IDEMPOTENCY_KEY_MISMATCH)"

lemma post_without_key:
  assumes "ir_tenant_id q \<noteq> []" "request_key q h = None"
  shows "\<exists>d s'. post_event rt run q h s = (Inl (HTTPException 400 d), s') \<and> only_quarantines s s' \<and>
    quarantined (ir_tenant_id q) [key_defect q] (ce_quarantine s) (ce_quarantine s')"
proof -
  let ?header = "case h of None \<Rightarrow> [] | Some k \<Rightarrow> k"
  let ?body = "case ir_idempotency_key q of None \<Rightarrow> [] | Some k \<Rightarrow> k"
  show ?thesis
  proof (cases "?body = []")
    case True
    with assms(2) have "?header = []" by (auto simp: request_key_def Let_def split: if_splits)
    moreover have "key_defect q = MISSING_IDEMPOTENCY_KEY"
      using True by (auto simp: key_defect_def split: option.splits)
    moreover obtain s' where "ce_quarantine_event (ir_tenant_id q) MISSING_IDEMPOTENCY_KEY
        ''POST /events with neither X-Idempotency-Key nor body idempotency_key'' (request_dump q) [] s =
        (Inr (), s')" "only_quarantines s s'"
      "quarantined (ir_tenant_id q) [MISSING_IDEMPOTENCY_KEY] (ce_quarantine s) (ce_quarantine s')"
      using quarantine_event_effect [OF assms(1)] by metis
    ultimately show ?thesis using True by (simp add: post_event_def Let_def)
  next
    case False
    from False assms(2) have "?header \<noteq> []" "?header \<noteq> ?body"
      by (auto simp: request_key_def Let_def split: if_splits)
    moreover have "key_defect q = IDEMPOTENCY_KEY_MISMATCH"
      using False by (auto simp: key_defect_def split: option.splits)
    moreover obtain s' where "ce_quarantine_event (ir_tenant_id q) IDEMPOTENCY_KEY_MISMATCH
        (''X-Idempotency-Key='' @ py_repr_str ?header @ '' disagrees with '' @
                       ''body idempotency_key='' @ py_repr_str ?body) (request_dump q)
        [(''header_key'', JStr ?header), (''body_key'', JStr ?body)] s = (Inr (), s')" "only_quarantines s s'"
      "quarantined (ir_tenant_id q) [IDEMPOTENCY_KEY_MISMATCH] (ce_quarantine s) (ce_quarantine s')"
      using quarantine_event_effect [OF assms(1)] by metis
    ultimately show ?thesis using False by (simp add: post_event_def Let_def)
  qed
qed

lemma post_with_key:
  assumes "ir_tenant_id q \<noteq> []" "request_key q h = Some k"
  shows "\<exists>s1. post_event rt run q h s = ce_accept run q k s1 \<and> only_quarantines s s1 \<and>
    quarantined (ir_tenant_id q) (flags_of q) (ce_quarantine s) (ce_quarantine s1)"
proof -
  let ?header = "case h of None \<Rightarrow> [] | Some k \<Rightarrow> k"
  let ?body = "case ir_idempotency_key q of None \<Rightarrow> [] | Some k \<Rightarrow> k"
  have key: "(if ?header \<noteq> [] then ?header else ?body) = k" and "k \<noteq> []"
    and agree: "(?header \<noteq> [] \<and> ?body \<noteq> [] \<and> ?header \<noteq> ?body) = False"
    using assms(2) by (auto simp: request_key_def Let_def split: if_splits)
  from this(2) have "post_event rt run q h s =
      andThen (ce_flag_injection rt q k s) (\<lambda>_ s1. ce_accept run q k s1)"
    by (simp only: post_event_def Let_def key agree if_False)
  moreover from flag_effect [OF assms(1)] obtain s1 where "ce_flag_injection rt q k s = (Inr (), s1)"
    "only_quarantines s s1" "quarantined (ir_tenant_id q) (flags_of q) (ce_quarantine s) (ce_quarantine s1)"
    by metis
  ultimately show ?thesis by (metis andThen_simps(1))
qed

section \<open>The ingestion proper\<close>

lemma cr_world_irrelevant [simp]:
  "cr_inv (r\<lparr>cr_world := w\<rparr>) = cr_inv r"
  "cr_owner (r\<lparr>cr_world := w\<rparr>) = cr_owner r"
  "cr_get_customer t c (r\<lparr>cr_world := w\<rparr>) = cr_get_customer t c r"
  "cr_find_by_identity t k v (r\<lparr>cr_world := w\<rparr>) = cr_find_by_identity t k v r"
  by (simp_all add: cr_inv_def cr_owner_def cr_get_customer_def cr_find_by_identity_def fun_eq_iff
      split: option.split)

abbreviation resolve_now :: "ingestion_request \<Rightarrow> 's context_engine \<Rightarrow>
    (repo_error, linking_outcome, customer_repo) outcome" where
  "resolve_now q s \<equiv> cr_resolve q ((ce_customers s)\<lparr>cr_world := ce_world s\<rparr>)"

lemma ce_resolve_effect:
  assumes "cr_inv (ce_customers s)"
  shows "\<exists>r w. ce_resolve q s = (fst (resolve_now q s), s\<lparr>ce_customers := r, ce_world := w\<rparr>) \<and>
    cr_inv r \<and> keeps cr_owner (ce_customers s) r \<and> world_adv (ce_world s) w \<and>
    (\<forall>link. fst (resolve_now q s) = Inr link \<longrightarrow>
      (\<forall>h \<in> set (extract_identity_hints (ir_payload q)).
         hint_owner cr_owner r (ir_tenant_id q) h = Some (lo_customer_id link)))"
proof -
  let ?r = "(ce_customers s)\<lparr>cr_world := ce_world s\<rparr>"
  have inv: "cr_inv ?r" using assms by simp
  show ?thesis
    using cr.resolve_effect [OF inv benign_id, of q] adv_resolve [of ?r q]
    by (intro exI [of _ "(snd (resolve_now q s))\<lparr>cr_world := cr_world (ce_customers s)\<rparr>"]
          exI [of _ "cr_world (snd (resolve_now q s))"])
       (simp add: ce_resolve_def case_prod_beta Let_def keeps_def hint_owner_def)
qed

text \<open>The customer a resolve answers with is one of the tenant's.\<close>

lemma resolved_exists:
  assumes inv: "cr_inv r" and res: "fst (cr_resolve q r) = Inr link"
  shows "cr_get_customer (ir_tenant_id q) (lo_customer_id link) (snd (cr_resolve q r)) \<noteq> None"
  using cr.resolve_exists [OF inv benign_id res] by auto

section \<open>The invariant of the service\<close>

text \<open>
  The stores are consistent, customers are well formed and every event id was cut from an id
  drawn before.
\<close>

definition ce_inv :: "'s context_engine \<Rightarrow> bool" where
  "ce_inv s \<longleftrightarrow>
     er_inv (ce_events s) \<and> cr_inv (ce_customers s) \<and>
     (\<forall>t i. er_by_id (ce_events s) (t, i) \<noteq> None \<longrightarrow>
        (\<exists>n < uuids_drawn (ce_world s). i = ''evt_'' @ take 24 (uuid_of (ce_world s) n)))"

definition distinct_draws :: "world \<Rightarrow> bool" where
  \<comment> \<open>the ids drawn so far differ in the part the program keeps\<close>
  "distinct_draws w \<longleftrightarrow> inj_on (\<lambda>n. take 24 (uuid_of w n)) {..<uuids_drawn w}"

lemma distinct_draws_earlier: "distinct_draws w' \<Longrightarrow> world_adv w w' \<Longrightarrow> distinct_draws w"
  unfolding distinct_draws_def world_adv_def by (auto intro: inj_on_subset)

lemma ce_inv_new [simp]: "ce_inv (context_engine_new q d bs w)"
  by (simp add: ce_inv_def context_engine_new_def) (simp add: er_new_def)

lemma ce_inv_step:
  assumes "ce_inv s" "ce_events s' = ce_events s" "cr_inv (ce_customers s')"
    "world_adv (ce_world s) (ce_world s')"
  shows "ce_inv s'"
  using assms unfolding ce_inv_def world_adv_def by (metis order.strict_trans2)

lemma ce_inv_quarantines: "ce_inv s \<Longrightarrow> only_quarantines s s' \<Longrightarrow> ce_inv s'"
  by (rule ce_inv_step [of s s']) (auto dest!: only_quarantines_fields simp: ce_inv_def)

text \<open>The event a request becomes.\<close>

definition new_event :: "ingestion_request \<Rightarrow> string \<Rightarrow> string \<Rightarrow> world \<Rightarrow> event" where
  "new_event q k c w =
     \<lparr>ev_id = ''evt_'' @ take 24 (uuid_of w (uuids_drawn w)), ev_tenant_id = ir_tenant_id q,
      ev_customer_id = Some c, ev_channel_code = ir_channel_code q,
      ev_event_type = ir_event_type q, ev_idempotency_key = k, ev_payload = ir_payload q,
      ev_received_at = time_of w (clock_reads w)\<rparr>"

lemma build_event:
  assumes "ingestion_request_valid q" "length c \<le> 64"
  shows "\<exists>w'. build_event_from_request q k (Some c) w =
      (if len_within 1 128 k then Inr (new_event q k c w) else Inl (Exn ''ValidationError'' ''Event''), w') \<and>
    uuid_of w' = uuid_of w \<and> uuids_drawn w' = Suc (uuids_drawn w)"
proof -
  have "min n 24 \<le> (60::nat)" for n by simp
  then have "event_valid (new_event q k c w) = len_within 1 128 k"
    using assms by (simp add: event_valid_def new_event_def ingestion_request_valid_def len_within_def
        opt_max_def)
  then show ?thesis
    by (simp add: build_event_from_request_def new_event_id_def uuid4_def now_def new_event_def Let_def)
qed

lemma ingest_new:
  assumes "er_inv (ce_events s)" "er_get_event_by_idempotency (ev_tenant_id e) (ev_idempotency_key e) (ce_events s) = None"
    and "er_get_event_by_id (ev_tenant_id e) (ev_id e) (ce_events s) = None"
  shows "\<exists>r b. ce_ingest run e s = (Inr (e, True), s\<lparr>ce_events := r, ce_bus := b\<rparr>) \<and> er_inv r \<and>
    (\<forall>t k. er_get_event_by_idempotency t k r =
       (if (t, k) = ev_key e then Some e else er_get_event_by_idempotency t k (ce_events s))) \<and>
    (\<forall>t i. er_get_event_by_id t i r =
       (if (t, i) = (ev_tenant_id e, ev_id e) then Some e else er_get_event_by_id t i (ce_events s))) \<and>
    b = snd (eb_publish run (channel_for (ev_tenant_id e)) (envelope_for iso_stamp e) (ce_bus s))"
proof -
  have "er_stored (ce_events s) (ev_key e) = None" "er_fresh e (ce_events s)"
    using assms(2,3) by (simp_all add: er_stored_def ev_key_def er_fresh_def)
  from er_insert [OF assms(1) this] obtain r where r: "er_upsert_event e (ce_events s) = (Inr (e, True), r)"
    "er_inv r" "er_stored r = (er_stored (ce_events s))(ev_key e \<mapsto> e)"
    "\<forall>t i. er_get_event_by_id t i r =
       (if (t, i) = (ev_tenant_id e, ev_id e) then Some e else er_get_event_by_id t i (ce_events s))"
    by blast
  have keys: "\<forall>t k. er_get_event_by_idempotency t k r =
       (if (t, k) = ev_key e then Some e else er_get_event_by_idempotency t k (ce_events s))"
    using r(3) by (auto simp: er_stored_def fun_eq_iff split: if_splits)
  have "\<exists>b. eb_publish run (channel_for (ev_tenant_id e)) (envelope_for iso_stamp e)
      (ce_bus s) = (Inr (), b)"
    by (cases "ce_bus s") (simp add: eb_publish_def Let_def)
  then obtain b where b: "eb_publish run (channel_for (ev_tenant_id e)) (envelope_for iso_stamp e)
      (ce_bus s) = (Inr (), b)" ..
  with r(1) have "ce_ingest run e s = (Inr (e, True), s\<lparr>ce_events := r, ce_bus := b\<rparr>)"
    by (simp add: ce_ingest_def ingest_event_def)
  with r keys b show ?thesis by (intro exI [of _ r] exI [of _ b]) simp
qed

section \<open>POST /events by its branches\<close>

lemma len_within_nonempty: "ingestion_request_valid q \<Longrightarrow> ir_tenant_id q \<noteq> []"
  by (auto simp: ingestion_request_valid_def len_within_def)

lemma customer_id_fits: "cr_inv r \<Longrightarrow> cr_get_customer t c r \<noteq> None \<Longrightarrow> length c \<le> 64"
  using len_within_id [of r t c] by (simp add: cr_get_customer_def len_within_def)

text \<open>What \<open>ce_accept\<close> does when the key is new and the resolver answered.\<close>

lemma accept_new:
  fixes s :: "'s context_engine"
  assumes inv: "ce_inv s" and valid: "ingestion_request_valid q"
    and new: "er_get_event_by_idempotency (ir_tenant_id q) k (ce_events s) = None"
    and link: "fst (resolve_now q s) = Inr link"
    and draws: "distinct_draws (ce_world (snd (ce_accept run q k s)))"
  shows "\<exists>r w. ce_resolve q s = (Inr link, s\<lparr>ce_customers := r, ce_world := w\<rparr>) \<and> cr_inv r \<and>
    cr_get_customer (ir_tenant_id q) (lo_customer_id link) r \<noteq> None \<and>
    (\<forall>h \<in> set (extract_identity_hints (ir_payload q)).
       hint_owner cr_owner r (ir_tenant_id q) h = Some (lo_customer_id link)) \<and>
    keeps cr_owner (ce_customers s) r \<and> ce_inv (snd (ce_accept run q k s)) \<and>
    world_adv (ce_world s) (ce_world (snd (ce_accept run q k s))) \<and>
    ce_customers (snd (ce_accept run q k s)) = r \<and>
    ce_quarantine (snd (ce_accept run q k s)) = ce_quarantine s \<and>
    (if len_within 1 128 k then
       let e = new_event q k (lo_customer_id link) w; s' = snd (ce_accept run q k s)
       in fst (ce_accept run q k s) =
            Inr (202, event_view e (lo_customer_created link) (matched_identity link True) True) \<and>
          (\<forall>t j. er_get_event_by_idempotency t j (ce_events s') =
             (if (t, j) = (ir_tenant_id q, k) then Some e
              else er_get_event_by_idempotency t j (ce_events s))) \<and>
          ce_bus s' = snd (eb_publish run (channel_for (ir_tenant_id q)) (envelope_for iso_stamp e) (ce_bus s))
     else fst (ce_accept run q k s) = Inl (Uncaught (Exn ''ValidationError'' ''Event'')) \<and>
       ce_events (snd (ce_accept run q k s)) = ce_events s \<and> ce_bus (snd (ce_accept run q k s)) = ce_bus s)"
proof -
  have crinv: "cr_inv (ce_customers s)" and erinv: "er_inv (ce_events s)" using inv by (auto simp: ce_inv_def)
  from ce_resolve_effect [OF crinv, of q] link obtain r w where
    rw: "ce_resolve q s = (Inr link, s\<lparr>ce_customers := r, ce_world := w\<rparr>)" "cr_inv r"
      "keeps cr_owner (ce_customers s) r" "world_adv (ce_world s) w"
      "\<forall>h \<in> set (extract_identity_hints (ir_payload q)).
         hint_owner cr_owner r (ir_tenant_id q) h = Some (lo_customer_id link)"
    by auto
  have "r = (snd (resolve_now q s))\<lparr>cr_world := cr_world (ce_customers s)\<rparr>"
    using rw(1) by (auto simp: ce_resolve_def case_prod_beta Let_def dest: arg_cong [of _ _ ce_customers])
  then have get: "cr_get_customer (ir_tenant_id q) (lo_customer_id link) r \<noteq> None"
    using resolved_exists [OF _ link] crinv by simp
  let ?c = "lo_customer_id link" and ?s1 = "s\<lparr>ce_customers := r, ce_world := w\<rparr>"
  from build_event [OF valid customer_id_fits [OF rw(2) get], of k w] obtain w' where
    w': "build_event_from_request q k (Some ?c) w =
      (if len_within 1 128 k then Inr (new_event q k ?c w) else Inl (Exn ''ValidationError'' ''Event''), w')"
      "uuid_of w' = uuid_of w" "uuids_drawn w' = Suc (uuids_drawn w)" by blast
  have adv: "world_adv w w'" using w' by (simp add: world_adv_def)
  then have adv': "world_adv (ce_world s) w'" by (rule world_adv_trans [OF rw(4)])
  have acc: "ce_accept run q k s = ce_create_event run q k link ?s1"
    using new rw(1) by (simp add: ce_accept_def)
  show ?thesis
  proof (cases "len_within 1 128 k")
    case False
    then have res: "ce_accept run q k s = (Inl (Uncaught (Exn ''ValidationError'' ''Event'')), ?s1\<lparr>ce_world := w'\<rparr>)"
      using acc w'(1) [unfolded if_not_P [OF False]] by (simp add: ce_create_event_def)
    moreover have "ce_inv (?s1\<lparr>ce_world := w'\<rparr>)"
      by (rule ce_inv_step [OF inv]) (use rw(2) adv' in simp_all)
    ultimately show ?thesis using False rw get adv' by (intro exI [of _ r] exI [of _ w]) simp
  next
    case True
    let ?e = "new_event q k ?c w" and ?s2 = "s\<lparr>ce_customers := r, ce_world := w'\<rparr>"
    have es: "ce_events ?s2 = ce_events s" "ce_bus ?s2 = ce_bus s" by simp_all
    have e [simp]: "ev_tenant_id ?e = ir_tenant_id q" "ev_idempotency_key ?e = k"
      "ev_id ?e = ''evt_'' @ take 24 (uuid_of w (uuids_drawn w))"
      by (simp_all add: new_event_def)
    have ingest: "er_get_event_by_id (ir_tenant_id q) (ev_id ?e) (ce_events s) = None \<Longrightarrow>
      \<exists>er b. ce_ingest run ?e ?s2 = (Inr (?e, True), ?s2\<lparr>ce_events := er, ce_bus := b\<rparr>) \<and> er_inv er \<and>
        (\<forall>t j. er_get_event_by_idempotency t j er =
           (if (t, j) = (ir_tenant_id q, k) then Some ?e else er_get_event_by_idempotency t j (ce_events s))) \<and>
        (\<forall>t i. er_get_event_by_id t i er =
           (if (t, i) = (ir_tenant_id q, ev_id ?e) then Some ?e else er_get_event_by_id t i (ce_events s))) \<and>
        b = snd (eb_publish run (channel_for (ir_tenant_id q)) (envelope_for iso_stamp ?e) (ce_bus s))"
      using ingest_new [of ?s2 ?e run] erinv new unfolding es ev_key_def e by blast
    have world: "ce_world (snd (ce_accept run q k s)) = w'"
      using acc w'(1) True
      by (cases "ce_ingest run ?e ?s2"; cases "fst (ce_ingest run ?e ?s2)")
         (auto simp: ce_create_event_def ce_ingest_def split: prod.splits sum.splits)
    have fresh: "er_get_event_by_id (ir_tenant_id q) (ev_id ?e) (ce_events s) = None"
    proof (rule ccontr)
      assume "er_get_event_by_id (ir_tenant_id q) (ev_id ?e) (ce_events s) \<noteq> None"
      then obtain n where n: "n < uuids_drawn (ce_world s)"
        "ev_id ?e = ''evt_'' @ take 24 (uuid_of (ce_world s) n)"
        using inv unfolding ce_inv_def er_get_event_by_id_def by blast
      moreover have "inj_on (\<lambda>n. take 24 (uuid_of w' n)) {..<uuids_drawn w'}"
        using draws world by (simp add: distinct_draws_def)
      ultimately have "n = uuids_drawn w"
        using rw(4) w'(2,3) by (auto simp: world_adv_def inj_on_def)
      with n(1) rw(4) show False by (simp add: world_adv_def)
    qed
    from ingest [OF fresh] obtain er b where I: "ce_ingest run ?e ?s2 = (Inr (?e, True), ?s2\<lparr>ce_events := er, ce_bus := b\<rparr>)"
      "er_inv er" "\<forall>t j. er_get_event_by_idempotency t j er =
           (if (t, j) = (ir_tenant_id q, k) then Some ?e else er_get_event_by_idempotency t j (ce_events s))"
      "\<forall>t i. er_get_event_by_id t i er =
           (if (t, i) = (ir_tenant_id q, ev_id ?e) then Some ?e else er_get_event_by_id t i (ce_events s))"
      "b = snd (eb_publish run (channel_for (ir_tenant_id q)) (envelope_for iso_stamp ?e) (ce_bus s))"
      by blast
    have res: "ce_accept run q k s =
        (Inr (202, event_view ?e (lo_customer_created link) (matched_identity link True) True),
         ?s2\<lparr>ce_events := er, ce_bus := b\<rparr>)"
      using acc w'(1) True I(1) by (simp add: ce_create_event_def)
    have ids: "\<exists>n < uuids_drawn w'. i = ''evt_'' @ take 24 (uuid_of w' n)"
      if "er_by_id er (t, i) \<noteq> None" for t i
    proof (cases "(t, i) = (ir_tenant_id q, ev_id ?e)")
      case True
      then show ?thesis using w'(2,3) by (intro exI [of _ "uuids_drawn w"]) simp
    next
      case False
      have "er_by_id (ce_events s) (t, i) \<noteq> None"
        using that I(4) [rule_format, of t i, unfolded if_not_P [OF False]]
        by (simp add: er_get_event_by_id_def)
      then obtain n where "n < uuids_drawn (ce_world s)" "i = ''evt_'' @ take 24 (uuid_of (ce_world s) n)"
        using inv unfolding ce_inv_def by blast
      then show ?thesis using adv' by (intro exI [of _ n]) (simp add: world_adv_def)
    qed
    have "ce_inv (?s2\<lparr>ce_events := er, ce_bus := b\<rparr>)"
      using I(2) rw(2) ids by (simp add: ce_inv_def)
    with res True rw get adv' I(3,5) show ?thesis by (intro exI [of _ r] exI [of _ w]) (simp add: Let_def)
  qed
qed

lemma request_key_nonempty: "request_key q h = Some k \<Longrightarrow> k \<noteq> []"
  by (auto simp: request_key_def Let_def split: if_splits)

lemma lookup_error_of_unknown:
  assumes "cr_get_customer (ir_tenant_id q) c r = None" "ir_customer_id q = Some c"
  shows "\<exists>d. cr_resolve q r = (Inl (LinkLookupError d), r)"
  using assms by (simp add: resolve_customer_def Let_def)

lemma accept_unknown:
  fixes s :: "'s context_engine"
  assumes inv: "ce_inv s" and t: "ir_tenant_id q \<noteq> []"
    and new: "er_get_event_by_idempotency (ir_tenant_id q) k (ce_events s) = None"
    and err: "fst (resolve_now q s) = Inl e" "lookup_error e = Some d"
  shows "\<exists>s'. ce_accept run q k s = (Inl (HTTPException 404 d), s') \<and> only_quarantines s s' \<and>
    quarantined (ir_tenant_id q) [UNKNOWN_CUSTOMER] (ce_quarantine s) (ce_quarantine s')"
proof -
  have "cr_inv ((ce_customers s)\<lparr>cr_world := ce_world s\<rparr>)" using inv by (simp add: ce_inv_def)
  from resolve_lookup_error [OF this err] have "ce_resolve q s = (Inl e, s)"
    using err(1) by (simp add: ce_resolve_def case_prod_beta Let_def)
  moreover obtain s' where "ce_quarantine_event (ir_tenant_id q) UNKNOWN_CUSTOMER d (request_dump q)
      [(''idempotency_key'', JStr k)] s = (Inr (), s')" "only_quarantines s s'"
    "quarantined (ir_tenant_id q) [UNKNOWN_CUSTOMER] (ce_quarantine s) (ce_quarantine s')"
    using quarantine_event_effect [OF t] by metis
  ultimately show ?thesis using new err(2) by (simp add: ce_accept_def)
qed

lemma accept_raises:
  fixes s :: "'s context_engine"
  assumes inv: "ce_inv s"
    and new: "er_get_event_by_idempotency (ir_tenant_id q) k (ce_events s) = None"
    and err: "fst (resolve_now q s) = Inl e" "lookup_error e = None"
  shows "\<exists>r w. ce_accept run q k s = (Inl (Uncaught (repo_exn e)), s\<lparr>ce_customers := r, ce_world := w\<rparr>) \<and>
    cr_inv r \<and> keeps cr_owner (ce_customers s) r \<and> world_adv (ce_world s) w"
proof -
  from inv have "cr_inv (ce_customers s)" by (simp add: ce_inv_def)
  from ce_resolve_effect [OF this, of q] obtain r w where
    "ce_resolve q s = (Inl e, s\<lparr>ce_customers := r, ce_world := w\<rparr>)" "cr_inv r"
    "keeps cr_owner (ce_customers s) r" "world_adv (ce_world s) w"
    using err(1) by auto
  with new err(2) show ?thesis
    by (intro exI [of _ r] exI [of _ w]) (simp add: ce_accept_def)
qed

lemma post_cases:
  fixes s :: "'s context_engine" and rt :: py_runtime and run :: "nat \<Rightarrow> 's subscriber"
    and q :: ingestion_request and h :: "string option"
  defines "P \<equiv> post_event rt run q h s"
  assumes inv: "ce_inv s" and valid: "ingestion_request_valid q"
    and draws: "distinct_draws (ce_world (snd P))"
  obtains (no_key) d where "request_key q h = None" "fst P = Inl (HTTPException 400 d)"
      "only_quarantines s (snd P)"
      "quarantined (ir_tenant_id q) [key_defect q] (ce_quarantine s) (ce_quarantine (snd P))"
  | (replay) k e where "request_key q h = Some k"
      "er_get_event_by_idempotency (ir_tenant_id q) k (ce_events s) = Some e"
      "fst P = Inr (200, event_view e False JNull False)"
      "only_quarantines s (snd P)"
      "quarantined (ir_tenant_id q) (flags_of q) (ce_quarantine s) (ce_quarantine (snd P))"
  | (unknown) k c d where "request_key q h = Some k"
      "er_get_event_by_idempotency (ir_tenant_id q) k (ce_events s) = None"
      "ir_customer_id q = Some c" "cr_get_customer (ir_tenant_id q) c (ce_customers s) = None"
      "fst P = Inl (HTTPException 404 d)" "only_quarantines s (snd P)"
      "quarantined (ir_tenant_id q) (flags_of q @ [UNKNOWN_CUSTOMER]) (ce_quarantine s)
         (ce_quarantine (snd P))"
  | (failed) k exn where "request_key q h = Some k"
      "er_get_event_by_idempotency (ir_tenant_id q) k (ce_events s) = None"
      "fst P = Inl (Uncaught exn)"
      "128 < length k \<or> (\<exists>w e. fst (cr_resolve q ((ce_customers s)\<lparr>cr_world := w\<rparr>)) = Inl e \<and> lookup_error e = None)"
      "ce_events (snd P) = ce_events s" "ce_bus (snd P) = ce_bus s"
      "cr_inv (ce_customers (snd P))" "keeps cr_owner (ce_customers s) (ce_customers (snd P))"
      "world_adv (ce_world s) (ce_world (snd P))"
      "quarantined (ir_tenant_id q) (flags_of q) (ce_quarantine s) (ce_quarantine (snd P))"
  | (created) k link e where "request_key q h = Some k" "len_within 1 128 k"
      "er_get_event_by_idempotency (ir_tenant_id q) k (ce_events s) = None"
      "ev_tenant_id e = ir_tenant_id q" "ev_idempotency_key e = k"
      "ev_customer_id e = Some (lo_customer_id link)" "ev_payload e = ir_payload q"
      "fst P = Inr (202, event_view e (lo_customer_created link) (matched_identity link True) True)"
      "\<forall>t j. er_get_event_by_idempotency t j (ce_events (snd P)) =
         (if (t, j) = (ir_tenant_id q, k) then Some e else er_get_event_by_idempotency t j (ce_events s))"
      "ce_bus (snd P) =
         snd (eb_publish run (channel_for (ir_tenant_id q)) (envelope_for iso_stamp e) (ce_bus s))"
      "cr_get_customer (ir_tenant_id q) (lo_customer_id link) (ce_customers (snd P)) \<noteq> None"
      "\<forall>g \<in> set (extract_identity_hints (ir_payload q)).
         hint_owner cr_owner (ce_customers (snd P)) (ir_tenant_id q) g = Some (lo_customer_id link)"
      "ce_inv (snd P)" "keeps cr_owner (ce_customers s) (ce_customers (snd P))"
      "world_adv (ce_world s) (ce_world (snd P))"
      "quarantined (ir_tenant_id q) (flags_of q) (ce_quarantine s) (ce_quarantine (snd P))"
proof -
  let ?t = "ir_tenant_id q"
  have t: "?t \<noteq> []" by (rule len_within_nonempty [OF valid])
  show thesis
  proof (cases "request_key q h")
    case None
    with post_without_key [OF t, of h rt run s] no_key show thesis unfolding P_def by fastforce
  next
    case (Some k)
    from post_with_key [OF t Some, of rt run s] obtain s1 where P: "P = ce_accept run q k s1"
      and q1: "only_quarantines s s1" "quarantined ?t (flags_of q) (ce_quarantine s) (ce_quarantine s1)"
      unfolding P_def by blast
    note f1 = only_quarantines_fields [OF q1(1)]
    have inv1: "ce_inv s1" by (rule ce_inv_quarantines [OF inv q1(1)])
    show thesis
    proof (cases "er_get_event_by_idempotency ?t k (ce_events s)")
      case (Some e)
      with f1 have "P = (Inr (200, event_view e False JNull False), s1)"
        unfolding P by (simp add: ce_accept_def)
      with \<open>request_key q h = Some k\<close> Some q1 show thesis by (intro replay) simp_all
    next
      case new: None
      then have new1: "er_get_event_by_idempotency ?t k (ce_events s1) = None" using f1 by simp
      show thesis
      proof (cases "fst (resolve_now q s1)")
        case (Inl e)
        show thesis
        proof (cases "lookup_error e")
          case (Some d)
          have "cr_inv ((ce_customers s1)\<lparr>cr_world := ce_world s1\<rparr>)" using inv1 by (simp add: ce_inv_def)
          from resolve_lookup_error [OF this Inl Some] f1 obtain c where
            c: "ir_customer_id q = Some c" "cr_get_customer ?t c (ce_customers s) = None" by auto
          from accept_unknown [OF inv1 t new1 Inl Some, of run] obtain s' where
            s': "P = (Inl (HTTPException 404 d), s')" "only_quarantines s1 s'"
              "quarantined ?t [UNKNOWN_CUSTOMER] (ce_quarantine s1) (ce_quarantine s')"
            unfolding P by blast
          with \<open>request_key q h = Some k\<close> new c show thesis
            by (intro unknown) (auto intro: only_quarantines_trans [OF q1(1)] quarantined_append [OF q1(2)])
        next
          case None
          from accept_raises [OF inv1 new1 Inl None, of run] obtain r w where
            r: "P = (Inl (Uncaught (repo_exn e)), s1\<lparr>ce_customers := r, ce_world := w\<rparr>)"
              "cr_inv r" "keeps cr_owner (ce_customers s1) r" "world_adv (ce_world s1) w"
            unfolding P by blast
          have "\<exists>w e. fst (cr_resolve q ((ce_customers s)\<lparr>cr_world := w\<rparr>)) = Inl e \<and> lookup_error e = None"
            using Inl None f1 by auto
          moreover have "world_adv (ce_world s) w" using f1 r(4) by (blast intro: world_adv_trans)
          ultimately show thesis
            using \<open>request_key q h = Some k\<close> new r f1 q1(2) by (intro failed) auto
        qed
      next
        case (Inr link)
        note A = accept_new [OF inv1 valid new1 Inr, of run]
        from A draws P obtain r w where rw: "cr_inv r"
          "cr_get_customer ?t (lo_customer_id link) r \<noteq> None"
          "\<forall>g \<in> set (extract_identity_hints (ir_payload q)). hint_owner cr_owner r ?t g = Some (lo_customer_id link)"
          "keeps cr_owner (ce_customers s1) r" "ce_inv (snd P)"
          "world_adv (ce_world s1) (ce_world (snd P))" "ce_customers (snd P) = r"
          "ce_quarantine (snd P) = ce_quarantine s1"
          "if len_within 1 128 k then
             let e = new_event q k (lo_customer_id link) w; s' = snd P
             in fst P =
                  Inr (202, event_view e (lo_customer_created link) (matched_identity link True) True) \<and>
                (\<forall>t j. er_get_event_by_idempotency t j (ce_events s') =
                   (if (t, j) = (?t, k) then Some e
                    else er_get_event_by_idempotency t j (ce_events s1))) \<and>
                ce_bus s' = snd (eb_publish run (channel_for ?t) (envelope_for iso_stamp e) (ce_bus s1))
           else fst P = Inl (Uncaught (Exn ''ValidationError'' ''Event'')) \<and>
             ce_events (snd P) = ce_events s1 \<and> ce_bus (snd P) = ce_bus s1"
          by auto
        have adv: "world_adv (ce_world s) (ce_world (snd P))"
          using f1 rw(6) by (blast intro: world_adv_trans)
        show thesis
        proof (cases "len_within 1 128 k")
          case True
          with rw(9) f1 show thesis
            using \<open>request_key q h = Some k\<close> new rw(2-5,7,8) q1(2) adv
            by (intro created [of k "new_event q k (lo_customer_id link) w" link])
               (simp_all add: Let_def new_event_def)
        next
          case False
          then have "128 < length k"
            using request_key_nonempty [OF \<open>request_key q h = Some k\<close>] by (auto simp: len_within_def Suc_le_eq)
          with False rw f1 show thesis
            using \<open>request_key q h = Some k\<close> new q1(2) adv by (intro failed) auto
        qed
      qed
    qed
  qed
qed

section \<open>Sequences of requests\<close>

text \<open>Raw requests, a body and an \<open>X-Idempotency-Key\<close> header each, one after the other.\<close>

abbreviation http_post :: "py_runtime \<Rightarrow> (nat \<Rightarrow> 's subscriber) \<Rightarrow> (json option \<Rightarrow> json list) \<Rightarrow>
    json option \<times> string option \<Rightarrow> 's context_engine \<Rightarrow> 's context_engine" where
  "http_post rt run errors p s \<equiv> snd (http_post_event rt run errors (fst p) (snd p) s)"

abbreviation http_posts :: "py_runtime \<Rightarrow> (nat \<Rightarrow> 's subscriber) \<Rightarrow> (json option \<Rightarrow> json list) \<Rightarrow>
    (json option \<times> string option) list \<Rightarrow> 's context_engine \<Rightarrow> 's context_engine" where
  "http_posts rt run errors ps s \<equiv> fold (http_post rt run errors) ps s"

abbreviation ce_adv :: "'s context_engine \<Rightarrow> 's context_engine \<Rightarrow> bool" where
  "ce_adv s s' \<equiv> world_adv (ce_world s) (ce_world s')"

lemma ce_adv_andThen:
  assumes "world_adv w (ce_world (snd r))" "\<And>a s. ce_adv s (snd (f a s))"
  shows "world_adv w (ce_world (snd (andThen r f)))"
  using assms by (cases r; cases "fst r") (auto intro: world_adv_trans)

lemma ce_adv_quarantine: "ce_adv s (snd (ce_quarantine_event t reason detail raw ctx s))"
  by (auto simp: ce_quarantine_event_def qb_quarantine_def world_adv_def case_prod_beta Let_def)

lemma ce_adv_resolve: "ce_adv s (snd (ce_resolve q s))"
  using adv_resolve [of "(ce_customers s)\<lparr>cr_world := ce_world s\<rparr>" q]
  by (simp add: ce_resolve_def case_prod_beta Let_def)

lemma ce_adv_create: "ce_adv s (snd (ce_create_event run q k link s))"
proof -
  have "world_adv w (snd (build_event_from_request q k c w))" for c w
    by (simp add: build_event_from_request_def new_event_id_def uuid4_def now_def world_adv_def Let_def)
  moreover have "ce_world (snd (ce_ingest run e s)) = ce_world s" for e s
    by (simp add: ce_ingest_def split: prod.split sum.split)
  moreover obtain res w where b: "build_event_from_request q k (Some (lo_customer_id link)) (ce_world s) = (res, w)"
    by fastforce
  ultimately have "world_adv (ce_world s) w" "\<And>e. ce_world (snd (ce_ingest run e (s\<lparr>ce_world := w\<rparr>))) = w"
    by (metis snd_conv, simp)
  with b show ?thesis
    by (cases res) (auto simp: ce_create_event_def intro!: ce_adv_andThen)
qed

lemma ce_adv_accept: "ce_adv s (snd (ce_accept run q k s))"
proof -
  obtain res s1 where r: "ce_resolve q s = (res, s1)" by fastforce
  then have "ce_adv s s1" using ce_adv_resolve [of s q] by simp
  then have "world_adv (ce_world s) (ce_world (snd (ce_create_event run q k link s1)))"
    "world_adv (ce_world s) (ce_world (snd (ce_quarantine_event t reason detail raw ctx s1)))" for link t reason detail raw ctx
    using ce_adv_create [of s1] ce_adv_quarantine [of s1] by (blast intro: world_adv_trans)+
  with r \<open>ce_adv s s1\<close> show ?thesis
    by (auto simp: ce_accept_def split: option.split sum.split intro!: ce_adv_andThen)
qed

lemma ce_adv_flag: "ce_adv s (snd (ce_flag_injection rt q k s))"
  unfolding ce_flag_injection_def by (cases "has_injection_markers (payload_strings (JObj (ir_payload q)))")
    (simp_all only: if_True if_False ce_adv_quarantine snd_conv world_adv_refl)

lemma ce_adv_post:
  fixes s :: "'s context_engine"
  shows "ce_adv s (snd (post_event rt run q h s))"
proof -
  have branch: "world_adv w (ce_world (snd x)) \<Longrightarrow> world_adv w (ce_world (snd y)) \<Longrightarrow>
      world_adv w (ce_world (snd (if b then x else y)))"
    for w b and x y :: "(http_exn, response, 's context_engine) outcome"
    by simp
  show ?thesis
    unfolding post_event_def Let_def
    by (intro branch ce_adv_andThen ce_adv_quarantine ce_adv_flag ce_adv_accept)
       (simp_all only: snd_conv world_adv_refl)
qed

lemma handler_effect:
  "\<exists>s'. validation_quarantine_handler path verb body errors s = ((422, [(''detail'', JList errors)]), s') \<and>
    only_quarantines s s' \<and>
    quarantined (recover_tenant body) [VALIDATION_FAILED] (ce_quarantine s) (ce_quarantine s')"
proof -
  have "recover_tenant body \<noteq> []"
    by (auto simp: recover_tenant_def split: option.split json.split)
  from quarantine_event_effect [OF this, of VALIDATION_FAILED] show ?thesis
    unfolding validation_quarantine_handler_def Let_def by (metis snd_conv)
qed

lemma ce_adv_http: "ce_adv s (http_post rt run errors p s)"
proof (cases "Option.bind (fst p) parse_ingestion_request")
  case None
  then show ?thesis
    using handler_effect [of "''/events''" "''POST''" "fst p" "errors (fst p)" s] only_quarantines_fields [of s]
    by (auto simp: http_post_event_def)
next
  case (Some q)
  then show ?thesis using ce_adv_post [of s rt run q "snd p"] by (simp add: http_post_event_def case_prod_beta Let_def)
qed

lemma ce_adv_posts: "ce_adv s (http_posts rt run errors ps s)"
proof (induction ps arbitrary: s)
  case (Cons p ps)
  have "ce_adv s (http_post rt run errors p s)" by (rule ce_adv_http)
  also have "ce_adv (http_post rt run errors p s) (http_posts rt run errors ps (http_post rt run errors p s))"
    by (rule Cons.IH)
  finally show ?case by simp
qed simp

text \<open>One request, whatever its body: the invariant, and what stays.\<close>

definition remembers :: "'s context_engine \<Rightarrow> 's context_engine \<Rightarrow> bool" where
  "remembers s s' \<longleftrightarrow>
     (\<forall>t k e. er_get_event_by_idempotency t k (ce_events s) = Some e \<longrightarrow>
        er_get_event_by_idempotency t k (ce_events s') = Some e) \<and>
     keeps cr_owner (ce_customers s) (ce_customers s')"

lemma parse_valid: "parse_ingestion_request body = Some q \<Longrightarrow> ingestion_request_valid q"
  by (auto simp: parse_ingestion_request_def Let_def split: json.splits if_splits option.splits)

lemma remembers_quarantines: "only_quarantines s s' \<Longrightarrow> remembers s s'"
  using only_quarantines_fields [of s s'] by (simp add: remembers_def)

lemma http_step:
  assumes inv: "ce_inv s" and draws: "distinct_draws (ce_world (http_post rt run errors p s))"
  shows "ce_inv (http_post rt run errors p s) \<and> remembers s (http_post rt run errors p s)"
proof (cases "Option.bind (fst p) parse_ingestion_request")
  case None
  then have "only_quarantines s (http_post rt run errors p s)"
    using handler_effect [of "''/events''" "''POST''" "fst p" "errors (fst p)" s]
    by (auto simp: http_post_event_def)
  then show ?thesis using ce_inv_quarantines [OF inv] remembers_quarantines by blast
next
  case (Some q)
  then have valid: "ingestion_request_valid q" by (auto simp: bind_eq_Some_conv intro: parse_valid)
  have P: "http_post rt run errors p s = snd (post_event rt run q (snd p) s)"
    using Some by (simp add: http_post_event_def case_prod_beta Let_def)
  note ok = ce_inv_quarantines [OF inv] remembers_quarantines
  from draws have d: "distinct_draws (ce_world (snd (post_event rt run q (snd p) s)))" unfolding P .
  show ?thesis unfolding P
  proof (cases rule: post_cases [OF inv valid d, case_names no_key replay unknown failed created])
    case (failed k exn)
    then show "ce_inv (snd (post_event rt run q (snd p) s)) \<and> remembers s (snd (post_event rt run q (snd p) s))"
      by (auto simp: remembers_def intro: ce_inv_step [OF inv])
  next
    case (created k link e)
    then show "ce_inv (snd (post_event rt run q (snd p) s)) \<and> remembers s (snd (post_event rt run q (snd p) s))"
      by (auto simp: remembers_def)
  qed (use ok in blast)+
qed

lemma remembers_refl [simp]: "remembers s s"
  by (simp add: remembers_def)

lemma remembers_trans: "remembers s s' \<Longrightarrow> remembers s' s'' \<Longrightarrow> remembers s s''"
  unfolding remembers_def by (blast intro: keeps_trans)

lemma http_run:
  assumes "ce_inv s" "distinct_draws (ce_world (http_posts rt run errors ps s))"
  shows "ce_inv (http_posts rt run errors ps s) \<and> remembers s (http_posts rt run errors ps s)"
  using assms
proof (induction ps arbitrary: s)
  case (Cons p ps)
  let ?s1 = "http_post rt run errors p s"
  have "ce_adv ?s1 (http_posts rt run errors ps ?s1)" by (rule ce_adv_posts)
  with Cons.prems(2) have "distinct_draws (ce_world ?s1)" by (auto intro: distinct_draws_earlier)
  from http_step [OF Cons.prems(1) this] Cons.IH [of ?s1] Cons.prems(2) show ?case
    by (auto intro: remembers_trans)
qed simp

section \<open>Properties\<close>

lemma http_post_parsed:
  assumes "Option.bind body parse_ingestion_request = Some q"
  shows "http_post_event rt run errors body h s =
    (http_answer (fst (post_event rt run q h s)), snd (post_event rt run q h s))"
  using assms by (simp add: http_post_event_def case_prod_beta Let_def)

lemma http_answer_simps [simp]:
  "http_answer (Inr resp) = resp"
  "http_answer (Inl (HTTPException n d)) = (n, [(''detail'', JStr d)])"
  "http_answer (Inl (Uncaught e)) = (500, [(''detail'', JStr ''Internal Server Error'')])"
  by (simp_all add: http_answer_def)

lemma posted_cases:
  fixes s :: "'s context_engine" and rt :: py_runtime and run :: "nat \<Rightarrow> 's subscriber"
  assumes "ce_inv s" "Option.bind body parse_ingestion_request = Some q"
    and "http_post_event rt run errors body h s = (resp, s')" "distinct_draws (ce_world s')"
  shows "ingestion_request_valid q" "resp = http_answer (fst (post_event rt run q h s))"
    "s' = snd (post_event rt run q h s)" "distinct_draws (ce_world (snd (post_event rt run q h s)))"
  using assms http_post_parsed [OF assms(2), of rt run errors h s]
  by (auto simp: bind_eq_Some_conv intro: parse_valid)

text \<open>
  C25. A webhook delivered again is answered, not processed: after a \<open>202\<close>, and whatever
  requests arrive in between, a request of the same tenant under the same idempotency key gets
  \<open>200\<close> with the event first stored, however its payload was changed, and the events, the
  customers and the bus are left exactly as they were.
\<close>

theorem replayed_post_is_answered:
  assumes "s1 = http_posts rt run errors before (context_engine_new tq dq bs w)"
    and "http_post_event rt run errors body h s1 = ((202, v), s2)"
    and "s3 = http_posts rt run errors between s2"
    and "http_post_event rt run errors body' h' s3 = (resp, s4)"
    and "distinct_draws (ce_world s4)"
    and "Option.bind body parse_ingestion_request = Some q"
    and "Option.bind body' parse_ingestion_request = Some q'"
    and "ir_tenant_id q' = ir_tenant_id q" and "request_key q' h' = request_key q h"
  shows "(\<exists>e c m. v = event_view e c m True \<and> resp = (200, event_view e False JNull False)) \<and>
    ce_events s4 = ce_events s3 \<and> ce_customers s4 = ce_customers s3 \<and> ce_bus s4 = ce_bus s3"
proof -
  have "ce_adv s3 s4" using ce_adv_http [of s3 rt run errors "(body', h')"] assms(4) by simp
  with assms(5) have d3: "distinct_draws (ce_world s3)" by (rule distinct_draws_earlier)
  with ce_adv_posts [of s2 rt run errors between] assms(3) have d2: "distinct_draws (ce_world s2)"
    by (auto intro: distinct_draws_earlier)
  have "ce_adv s1 s2" using ce_adv_http [of s1 rt run errors "(body, h)"] assms(2) by simp
  with d2 have d1: "distinct_draws (ce_world s1)" by (rule distinct_draws_earlier)
  have inv1: "ce_inv s1" using http_run [OF ce_inv_new] d1 unfolding assms(1) by blast
  have inv2: "ce_inv s2" using http_step [OF inv1, of rt run errors "(body, h)"] d2 assms(2) by simp
  have inv3: "ce_inv s3" and rem: "remembers s2 s3"
    using http_run [OF inv2] d3 unfolding assms(3) by blast+
  note P = posted_cases [OF inv1 assms(6) assms(2) d2] and Q = posted_cases [OF inv3 assms(7,4,5)]
  from inv1 P(1,4) obtain k e c m where e: "request_key q h = Some k" "v = event_view e c m True"
    "er_get_event_by_idempotency (ir_tenant_id q) k (ce_events s2) = Some e"
    using P(2,3) by (cases rule: post_cases) auto
  then have hit: "er_get_event_by_idempotency (ir_tenant_id q') k (ce_events s3) = Some e"
    using rem assms(8) by (simp add: remembers_def)
  have key: "request_key q' h' = Some k" using e(1) assms(9) by simp
  from inv3 Q(1,4) have "resp = (200, event_view e False JNull False) \<and> only_quarantines s3 s4"
    using Q(2,3) hit key by (cases rule: post_cases) auto
  with e(2) only_quarantines_fields [of s3 s4] show ?thesis by blast
qed

text \<open>
  C26. An accepted event is stored, linked and announced, and nothing else happens to the
  stores: after a \<open>202\<close> the key, unknown before, leads to the event of the answer; all other
  keys lead where they led; the bus carries one more announcement, that of the event; its
  customer is one of the tenant's and owns every identity of the payload.
\<close>

theorem accepted_post_effect:
  assumes "s1 = http_posts rt run errors before (context_engine_new tq dq bs w)"
    and "http_post_event rt run errors body h s1 = ((202, v), s2)"
    and "distinct_draws (ce_world s2)"
    and "Option.bind body parse_ingestion_request = Some q"
  shows "\<exists>k e c created m. request_key q h = Some k \<and> v = event_view e created m True \<and>
    er_get_event_by_idempotency (ir_tenant_id q) k (ce_events s1) = None \<and>
    (\<forall>t j. er_get_event_by_idempotency t j (ce_events s2) =
       (if (t, j) = (ir_tenant_id q, k) then Some e else er_get_event_by_idempotency t j (ce_events s1))) \<and>
    ev_tenant_id e = ir_tenant_id q \<and> ev_idempotency_key e = k \<and> ev_payload e = ir_payload q \<and>
    eb_published (fst (ce_bus s2)) = eb_published (fst (ce_bus s1)) @ [announcement iso_stamp e] \<and>
    ev_customer_id e = Some c \<and> cr_get_customer (ir_tenant_id q) c (ce_customers s2) \<noteq> None \<and>
    (\<forall>g \<in> set (extract_identity_hints (ir_payload q)).
       map_option cu_id (cr_find_by_identity (ir_tenant_id q) (ih_kind g) (ih_value g) (ce_customers s2)) = Some c)"
proof -
  have "ce_adv s1 s2" using ce_adv_http [of s1 rt run errors "(body, h)"] assms(2) by simp
  with assms(3) have d1: "distinct_draws (ce_world s1)" by (rule distinct_draws_earlier)
  have inv1: "ce_inv s1" using http_run [OF ce_inv_new] d1 unfolding assms(1) by blast
  note P = posted_cases [OF inv1 assms(4,2,3)]
  have published: "eb_published (fst (snd (eb_publish run c d b))) = eb_published (fst b) @ [(c, d)]" for c d b
    by (simp add: eb_publish_def Let_def split: prod.split)
  show ?thesis
  proof (cases rule: post_cases [OF inv1 P(1,4), case_names no_key replay unknown failed created])
    case (created k link e)
    have "cr_inv (ce_customers s2)" using created(13) P(3) by (simp add: ce_inv_def)
    then have "\<forall>g \<in> set (extract_identity_hints (ir_payload q)).
       map_option cu_id (cr_find_by_identity (ir_tenant_id q) (ih_kind g) (ih_value g) (ce_customers s2)) =
         Some (lo_customer_id link)"
      using created(12) P(3) owner_found by blast
    moreover have "eb_published (fst (ce_bus s2)) = eb_published (fst (ce_bus s1)) @ [announcement iso_stamp e]"
      using created(4,10) P(3) by (simp add: published announcement_def)
    ultimately show ?thesis
      using created P(2,3)
      by (intro exI [of _ k] exI [of _ e] exI [of _ "lo_customer_id link"]
            exI [of _ "lo_customer_created link"] exI [of _ "matched_identity link True"]) simp
  qed (use P(2) in auto)
qed







text \<open>
  C28. The front door answers: a well-formed request without an explicit customer, under a key
  of at most 128 characters, whose identities have at most 256 characters and belong to nobody or to
  one customer, is accepted when the key is new and answered from the store when it is not.
\<close>

theorem post_is_accepted_or_replayed:
  assumes "s1 = http_posts rt run errors before (context_engine_new tq dq bs w)"
    and "http_post_event rt run errors body h s1 = ((status, v), s2)"
    and "distinct_draws (ce_world s2)"
    and "Option.bind body parse_ingestion_request = Some q" and "ir_customer_id q = None"
    and "request_key q h = Some k" and "length k \<le> 128"
    and "\<forall>g \<in> set (extract_identity_hints (ir_payload q)). length (ih_value g) \<le> 256 \<and>
      map_option cu_id (cr_find_by_identity (ir_tenant_id q) (ih_kind g) (ih_value g) (ce_customers s1))
        \<in> {None, Some c}"
  shows "status = (if er_get_event_by_idempotency (ir_tenant_id q) k (ce_events s1) = None then 202 else 200)"
proof -
  have "ce_adv s1 s2" using ce_adv_http [of s1 rt run errors "(body, h)"] assms(2) by simp
  with assms(3) have d1: "distinct_draws (ce_world s1)" by (rule distinct_draws_earlier)
  have inv1: "ce_inv s1" using http_run [OF ce_inv_new] d1 unfolding assms(1) by blast
  then have crinv: "cr_inv (ce_customers s1)" by (simp add: ce_inv_def)
  note P = posted_cases [OF inv1 assms(4,2,3)]
  have "\<exists>out. fst (cr_resolve q ((ce_customers s1)\<lparr>cr_world := w'\<rparr>)) = Inr out" for w'
  proof -
    have inv': "cr_inv ((ce_customers s1)\<lparr>cr_world := w'\<rparr>)" using crinv by simp
    have "len_within 1 64 (ir_tenant_id q)" using P(1) by (simp add: ingestion_request_valid_def)
    moreover have "\<forall>g \<in> set (extract_identity_hints (ir_payload q)). storable g \<and>
        hint_owner cr_owner ((ce_customers s1)\<lparr>cr_world := w'\<rparr>) (ir_tenant_id q) g \<in> {None, Some c}"
      using assms(8) cr_lookup_owner [OF crinv] by (simp add: storable_def hint_owner_def)
    ultimately show ?thesis
      using cr.resolve_returns [OF inv' benign_id assms(5), of c] by auto
  qed
  then have "False" if "fst (cr_resolve q ((ce_customers s1)\<lparr>cr_world := w'\<rparr>)) = Inl e" for w' e
    using that by (metis sum.distinct(1))
  then show ?thesis
    using P(2) assms(5-7) by (cases rule: post_cases [OF inv1 P(1,4)]) auto
qed

text \<open>
  A defect of the front door: the \<open>X-Idempotency-Key\<close> header has no length bound, unlike
  the body field.  A key of more than 128 characters passes every check until the event is
  built, which fails: the client gets 500, no event is stored, but the customer that the
  linker created for the request stays.
\<close>

theorem oversized_header_key_fails_late:
  assumes "128 < length key" and "Option.bind body parse_ingestion_request = Some q"
    and "ir_customer_id q = None" and "ir_idempotency_key q = None"
    and "\<forall>g \<in> set (extract_identity_hints (ir_payload q)). length (ih_value g) \<le> 256"
    and "distinct_draws (ce_world s2)"
    and "http_post_event rt run errors body (Some key) (context_engine_new tq dq bs w) = ((status, v), s2)"
  shows "status = 500 \<and> ce_events s2 = er_new \<and> ce_bus s2 = bs \<and>
    (\<exists>c. cr_get_customer (ir_tenant_id q) c (ce_customers s2) \<noteq> None)"
proof -
  let ?s = "context_engine_new tq dq bs w" and ?t = "ir_tenant_id q"
  note P = posted_cases [OF ce_inv_new assms(2,7,6)]
  have key: "request_key q (Some key) = Some key"
    using assms(1,4) by (auto simp: request_key_def)
  from post_with_key [OF len_within_nonempty [OF P(1)] key, of rt run ?s] obtain s1 where
    s1: "post_event rt run q (Some key) ?s = ce_accept run q key s1" "only_quarantines ?s s1" by blast
  note f1 = only_quarantines_fields [OF s1(2)]
  have inv1: "ce_inv s1" by (rule ce_inv_quarantines [OF ce_inv_new s1(2)])
  have new: "ce_events s1 = er_new" "ce_bus s1 = bs" "ce_customers s1 = cr_new w"
    using f1 by (simp_all add: context_engine_new_def)
  then have unseen: "er_get_event_by_idempotency ?t key (ce_events s1) = None"
    by (simp add: er_get_event_by_idempotency_def er_new_def)
  have inv': "cr_inv ((cr_new w)\<lparr>cr_world := ce_world s1\<rparr>)" by simp
  have "len_within 1 64 ?t" using P(1) by (simp add: ingestion_request_valid_def)
  moreover have "\<forall>g \<in> set (extract_identity_hints (ir_payload q)). storable g \<and>
      hint_owner cr_owner ((cr_new w)\<lparr>cr_world := ce_world s1\<rparr>) ?t g \<in> {None, Some []}"
    using assms(5) by (simp add: storable_def hint_owner_def cr_owner_def cr_new_def)
  ultimately obtain link where "fst (resolve_now q s1) = Inr link"
    using cr.resolve_returns [OF inv' benign_id assms(3), of "[]"] new by auto
  from accept_new [OF inv1 P(1) unseen this, of run] P(4) s1(1) assms(1) show ?thesis
    using P(2,3) new by (auto simp: len_within_def)
qed

section \<open>The properties at work\<close>

definition demo_supply :: world where
  "demo_supply = \<lparr>uuid_of = (\<lambda>n. replicate n CHR ''a''), uuids_drawn = 0, time_of = int, clock_reads = 0\<rparr>"

definition demo_engine :: "unit context_engine" where
  "demo_engine = context_engine_new \<lparr>qb_max = 9, qb_by_tenant = Map.empty\<rparr>
     \<lparr>sq_max = 9, sq_by_tenant = Map.empty\<rparr> (eb_new, ()) demo_supply"

definition demo_body :: json where
  "demo_body = JObj [(''tenant_id'', JStr ''t1''), (''channel_code'', JStr ''sms''),
     (''event_type'', JStr ''message_received'')]"

definition demo_post :: ingestion_request where
  "demo_post = \<lparr>ir_tenant_id = ''t1'', ir_customer_id = None, ir_channel_code = SMS,
     ir_event_type = MESSAGE_RECEIVED, ir_idempotency_key = None, ir_payload = []\<rparr>"

lemma demo_parse: "parse_ingestion_request demo_body = Some demo_post"
  by code_simp

lemma demo_draws: "uuid_of w = uuid_of demo_supply \<Longrightarrow> uuids_drawn w \<le> 24 \<Longrightarrow> distinct_draws w"
  by (auto simp: distinct_draws_def inj_on_def demo_supply_def)

lemma demo_no_hints: "extract_identity_hints [] = []" "extract_display_name [] = None"
  "has_injection_markers (payload_strings (JObj []))= False"
  by code_simp+

lemmas demo_eval = demo_engine_def context_engine_new_def demo_supply_def demo_parse demo_post_def
  demo_no_hints http_post_event_def post_event_def ce_flag_injection_def ce_accept_def ce_resolve_def
  er_get_event_by_idempotency_def er_new_def resolve_customer_def ce_create_event_def ce_ingest_def
  cr_create_customer_def cr_new_def uuid4_def now_def customer_valid_def len_within_def opt_max_def
  in_priority_def LOOKUP_PRIORITY_def build_event_from_request_def new_event_id_def event_valid_def
  ingest_event_def er_upsert_event_def eb_publish_def eb_new_def

lemma demo_accepted:
  "\<exists>v s. http_post_event rt run errors (Some demo_body) (Some ''k1'') demo_engine = ((202, v), s) \<and>
    uuid_of (ce_world s) = uuid_of demo_supply \<and> uuids_drawn (ce_world s) = 2"
  by (simp add: demo_eval Let_def del: payload_strings.simps)

lemma demo_replayed:
  "\<exists>v s resp s'. http_post_event rt run errors (Some demo_body) (Some ''k1'') demo_engine = ((202, v), s) \<and>
    http_post_event rt run errors (Some demo_body) (Some ''k1'') s = (resp, s') \<and>
    uuid_of (ce_world s') = uuid_of demo_supply \<and> uuids_drawn (ce_world s') = 2"
  by (simp add: demo_eval Let_def del: payload_strings.simps)

theorem replayed_post_is_answered_witness:
  "\<forall>rt run errors. \<exists>v s resp s' e.
    http_post_event rt run errors (Some demo_body) (Some ''k1'') demo_engine = ((202, v), s) \<and>
    http_post_event rt run errors (Some demo_body) (Some ''k1'') s = ((200, event_view e False JNull False), s') \<and>
    ce_events s' = ce_events s"
proof (intro allI)
  fix rt :: py_runtime and run :: "nat \<Rightarrow> unit subscriber" and errors
  from demo_replayed obtain v s resp s' where
    1: "http_post_event rt run errors (Some demo_body) (Some ''k1'') demo_engine = ((202, v), s)" and
    2: "http_post_event rt run errors (Some demo_body) (Some ''k1'') s = (resp, s')" and
    w: "uuid_of (ce_world s') = uuid_of demo_supply" "uuids_drawn (ce_world s') = 2"
    by metis
  have "(\<exists>e c m. v = event_view e c m True \<and> resp = (200, event_view e False JNull False)) \<and>
    ce_events s' = ce_events s \<and> ce_customers s' = ce_customers s \<and> ce_bus s' = ce_bus s"
    by (rule replayed_post_is_answered [where before = "[]" and between = "[]" and q = demo_post and q' = demo_post
          and h = "Some ''k1''" and h' = "Some ''k1''" and body = "Some demo_body" and body' = "Some demo_body",
          OF _ 1 _ 2 demo_draws])
       (simp_all add: demo_engine_def demo_parse w)
  with 1 2 show "\<exists>v s resp s' e.
    http_post_event rt run errors (Some demo_body) (Some ''k1'') demo_engine = ((202, v), s) \<and>
    http_post_event rt run errors (Some demo_body) (Some ''k1'') s = ((200, event_view e False JNull False), s') \<and>
    ce_events s' = ce_events s" by blast
qed

theorem accepted_post_effect_witness:
  "\<forall>rt run errors. \<exists>v s e.
    http_post_event rt run errors (Some demo_body) (Some ''k1'') demo_engine = ((202, v), s) \<and>
    er_get_event_by_idempotency ''t1'' ''k1'' (ce_events s) = Some e"
proof (intro allI)
  fix rt :: py_runtime and run :: "nat \<Rightarrow> unit subscriber" and errors
  from demo_accepted obtain v s where
    1: "http_post_event rt run errors (Some demo_body) (Some ''k1'') demo_engine = ((202, v), s)" and
    w: "uuid_of (ce_world s) = uuid_of demo_supply" "uuids_drawn (ce_world s) = 2"
    by metis
  have key: "request_key demo_post (Some ''k1'') = Some ''k1''" "ir_tenant_id demo_post = ''t1''"
    by (simp_all add: request_key_def demo_post_def)
  from accepted_post_effect [where before = "[]" and q = demo_post, OF _ 1 demo_draws]
  show "\<exists>v s e. http_post_event rt run errors (Some demo_body) (Some ''k1'') demo_engine = ((202, v), s) \<and>
    er_get_event_by_idempotency ''t1'' ''k1'' (ce_events s) = Some e"
    using 1 w by (fastforce simp: demo_engine_def demo_parse key)
qed


theorem post_is_accepted_or_replayed_witness:
  "\<forall>rt run errors. fst (fst (http_post_event rt run errors (Some demo_body) (Some ''k1'') demo_engine)) = 202"
proof (intro allI)
  fix rt :: py_runtime and run :: "nat \<Rightarrow> unit subscriber" and errors
  obtain status v s where 1: "http_post_event rt run errors (Some demo_body) (Some ''k1'') demo_engine = ((status, v), s)"
    by (metis prod.collapse)
  from demo_accepted [of rt run errors] 1 have w: "uuid_of (ce_world s) = uuid_of demo_supply" "uuids_drawn (ce_world s) = 2"
    by auto
  have "status = (if er_get_event_by_idempotency (ir_tenant_id demo_post) ''k1'' (ce_events demo_engine) = None then 202 else 200)"
    by (rule post_is_accepted_or_replayed [where before = "[]" and h = "Some ''k1''", OF _ 1 demo_draws])
       (simp_all add: demo_engine_def demo_parse w demo_post_def request_key_def demo_no_hints)
  with 1 show "fst (fst (http_post_event rt run errors (Some demo_body) (Some ''k1'') demo_engine)) = 202"
    by (simp add: demo_engine_def context_engine_new_def er_get_event_by_idempotency_def er_new_def)
qed

theorem oversized_header_key_fails_late_witness:
  "\<forall>rt run errors. \<exists>v s c. http_post_event rt run errors (Some demo_body) (Some (replicate 129 CHR ''k'')) demo_engine = ((500, v), s) \<and>
    cr_get_customer ''t1'' c (ce_customers s) \<noteq> None"
proof (intro allI)
  fix rt :: py_runtime and run :: "nat \<Rightarrow> unit subscriber" and errors
  define k where "k = replicate 129 CHR ''k''"
  then have k: "length k = 129" "k \<noteq> []" by auto
  have "\<exists>status v s. http_post_event rt run errors (Some demo_body) (Some k) demo_engine = ((status, v), s) \<and>
    uuid_of (ce_world s) = uuid_of demo_supply \<and> uuids_drawn (ce_world s) = 2"
    using k by (simp add: demo_eval Let_def del: payload_strings.simps)
  then obtain status v s where
    1: "http_post_event rt run errors (Some demo_body) (Some k) demo_engine = ((status, v), s)" and
    w: "uuid_of (ce_world s) = uuid_of demo_supply" "uuids_drawn (ce_world s) = 2"
    by blast
  have "status = 500 \<and> ce_events s = er_new \<and> ce_bus s = (eb_new, ()) \<and>
      (\<exists>c. cr_get_customer (ir_tenant_id demo_post) c (ce_customers s) \<noteq> None)"
    by (rule oversized_header_key_fails_late [OF _ _ _ _ _ demo_draws [OF w(1)] 1 [unfolded demo_engine_def]])
       (use k w in \<open>simp_all add: demo_parse demo_post_def demo_no_hints\<close>)
  with 1 show "\<exists>v s c. http_post_event rt run errors (Some demo_body) (Some (replicate 129 CHR ''k'')) demo_engine = ((500, v), s) \<and>
    cr_get_customer ''t1'' c (ce_customers s) \<noteq> None"
    unfolding k_def by (auto simp: demo_post_def)
qed

end
