(* ===== verification/Json_Writer.thy ===== *)
theory Json_Writer
  imports Json_Reader "HOL-Library.List_Lexorder" "HOL-Library.Char_ord"
begin

text \<open>
  \<open>json.dumps(payload, separators=(",", ":"), sort_keys=True)\<close> of the Python standard library, the
  encoding of everything \<open>context_engine/redis_event_bus.py\<close> puts on the wire, and its round
  trip through the reader.
\<close>

section \<open>The writer\<close>

definition dump_char :: "char \<Rightarrow> string" where
  "dump_char c =
     (if c = quote \<or> c = backslash then [backslash, c]
      else if code c = 10 then [backslash, CHR ''n'']
      else if code c = 13 then [backslash, CHR ''r'']
      else if code c = 9 then [backslash, CHR ''t'']
      else if code c = 12 then [backslash, CHR ''f'']
      else if code c = 8 then [backslash, CHR ''b'']
      else if code c < 32 \<or> 126 < code c
      then [backslash, CHR ''u'', CHR ''0'', CHR ''0'', hex_digit (code c div 16), hex_digit (code c mod 16)]
      else [c])"

definition dump_str :: "string \<Rightarrow> string" where
  "dump_str s = [quote] @ concat (map dump_char s) @ [quote]"

text \<open>The members are written in the order of their keys; a key is written once.\<close>

fun json_dumps :: "json \<Rightarrow> string" where
  "json_dumps JNull = ''null''"
| "json_dumps (JBool b) = (if b then ''true'' else ''false'')"
| "json_dumps (JInt i) = dec_int i"
| "json_dumps (JFloat r) =
     (if r = ''nan'' then ''NaN'' else if r = ''inf'' then ''Infinity''
      else if r = ''-inf'' then ''-Infinity'' else r)"
| "json_dumps (JStr s) = dump_str s"
| "json_dumps (JList xs) = ''['' @ join '','' (map json_dumps xs) @ '']''"
| "json_dumps (JObj d) =
     ''{'' @ join '','' (map (\<lambda>(k, t). dump_str k @ '':'' @ t)
       (sort_key fst (map (\<lambda>(k, v). (k, json_dumps v)) d))) @ ''}''"

text \<open>What the reader gives back: the same value with the members of every object in key order.\<close>

fun canonical :: "json \<Rightarrow> json" where
  "canonical (JList xs) = JList (map canonical xs)"
| "canonical (JObj d) = JObj (sort_key fst (map (\<lambda>(k, v). (k, canonical v)) d))"
| "canonical v = v"

text \<open>
  What survives the wire: no floats (their digits are the interpreter's), no key twice, integers
  within the reader's digit limit, no deeper nesting than it allows.
\<close>

fun wire_ok :: "py_runtime \<Rightarrow> nat \<Rightarrow> json \<Rightarrow> bool" where
  "wire_ok rt depth (JFloat r) \<longleftrightarrow> False"
| "wire_ok rt depth (JInt i) \<longleftrightarrow> length (dec_nat (nat \<bar>i\<bar>)) \<le> max_int_digits rt"
| "wire_ok rt depth (JList xs) \<longleftrightarrow> 0 < depth \<and> list_all (wire_ok rt (depth - 1)) xs"
| "wire_ok rt depth (JObj d) \<longleftrightarrow>
     0 < depth \<and> distinct (map fst d) \<and> list_all (\<lambda>(k, v). wire_ok rt (depth - 1) v) d"
| "wire_ok rt depth v \<longleftrightarrow> True"

section \<open>Strings\<close>

lemma code_less: "code c < 256"
  using of_char_mod_256 [of c, where ?'a = nat] by (metis mod_less_divisor zero_less_numeral)

lemma hex_value_digit: "n < 16 \<Longrightarrow> hex_value (hex_digit n) = Some n"
  by (cases "n < 10") (auto simp: hex_value_def hex_digit_def is_digit_def)

lemma hex4_byte: "n < 256 \<Longrightarrow>
  hex4 (CHR ''0'' # CHR ''0'' # hex_digit (n div 16) # hex_digit (n mod 16) # cs) = Some n"
proof -
  assume "n < 256"
  moreover have "hex_value CHR ''0'' = Some 0" by (simp add: hex_value_def is_digit_def)
  ultimately show ?thesis by (simp add: hex_value_digit)
qed

lemma u_escape_byte: "n < 256 \<Longrightarrow>
  u_escape (CHR ''0'' # CHR ''0'' # hex_digit (n div 16) # hex_digit (n mod 16) # cs) = Some (n, 4)"
  by (simp add: u_escape_def hex4_byte Let_def del: hex4.simps)

lemma control_chars:
  "code c = 10 \<longleftrightarrow> c = CHR 0x0A" "code c = 13 \<longleftrightarrow> c = CHR 0x0D" "code c = 9 \<longleftrightarrow> c = CHR 0x09"
  "code c = 12 \<longleftrightarrow> c = CHR 0x0C" "code c = 8 \<longleftrightarrow> c = CHR 0x08"
  using of_char_eq_iff [of c "CHR 0x0A", where ?'a = nat] of_char_eq_iff [of c "CHR 0x0D", where ?'a = nat]
    of_char_eq_iff [of c "CHR 0x09", where ?'a = nat] of_char_eq_iff [of c "CHR 0x0C", where ?'a = nat]
    of_char_eq_iff [of c "CHR 0x08", where ?'a = nat]
  by (simp_all del: of_char_eq_iff)

lemma scan_dump_char:
  "scan_string rt (dump_char c @ cs) = map_option (\<lambda>(body, rest). (c # body, rest)) (scan_string rt cs)"
proof -
  have bs: "backslash \<noteq> quote" "\<not> code backslash < 32" by (simp_all add: quote_def backslash_def)
  have short: ?thesis if "dump_char c = [backslash, e]" "e \<noteq> CHR ''u''" "map_of escapes e = Some c" for e
    using that bs by simp
  consider (short) "c \<in> set [quote, backslash, CHR 0x0A, CHR 0x0D, CHR 0x09, CHR 0x0C, CHR 0x08]"
    | (wide) "c \<noteq> quote" "c \<noteq> backslash" "code c \<notin> {10, 13, 9, 12, 8}" "code c < 32 \<or> 126 < code c"
    | (plain) "c \<noteq> quote" "c \<noteq> backslash" "\<not> code c < 32" "\<not> 126 < code c"
    by (auto simp: control_chars)
  then show ?thesis
  proof cases
    case short
    then consider "c = quote" | "c = backslash" | "c = CHR 0x0A" | "c = CHR 0x0D" | "c = CHR 0x09"
      | "c = CHR 0x0C" | "c = CHR 0x08" by auto
    then have "\<exists>e. dump_char c = [backslash, e] \<and> e \<noteq> CHR ''u'' \<and> map_of escapes e = Some c"
      by cases (simp_all add: dump_char_def escapes_def quote_def backslash_def)
    with \<open>\<And>e. dump_char c = [backslash, e] \<Longrightarrow> e \<noteq> CHR ''u'' \<Longrightarrow> map_of escapes e = Some c \<Longrightarrow> ?thesis\<close>
    show ?thesis by blast
  next
    case wide
    then have "dump_char c = [backslash, CHR ''u'', CHR ''0'', CHR ''0'',
        hex_digit (code c div 16), hex_digit (code c mod 16)]"
      by (simp add: dump_char_def)
    then show ?thesis using bs by (simp add: u_escape_byte code_less code_point_def)
  next
    case plain
    then have "dump_char c = [c]" by (simp add: dump_char_def)
    with plain show ?thesis by simp
  qed
qed

lemma scan_dump_str: "scan_string rt (concat (map dump_char s) @ quote # rest) = Some (s, rest)"
  by (induction s) (simp_all add: scan_dump_char)

section \<open>Numerals\<close>

lemma digits_of_snoc: "digits_of (ds @ [c]) = 10 * digits_of ds + (code c - 48)"
  by (simp add: digits_of_def)

lemma code_digit: "n < 10 \<Longrightarrow> code (char_of (48 + n)) = 48 + n"
  by simp

lemma digits_rev_digits: "\<forall>c \<in> set (digits_rev n). is_digit c"
proof (induction n rule: digits_rev.induct)
  case (1 n)
  have "is_digit (char_of (48 + m))" if "m < 10" for m :: nat
    using code_digit [OF that] that by (simp add: is_digit_def)
  with 1 show ?case by (subst digits_rev.simps) auto
qed

lemma digits_of_dec_nat: "digits_of (dec_nat n) = n"
proof (induction n rule: digits_rev.induct)
  case (1 n)
  show ?case
  proof (cases "n < 10")
    case True
    then have "digits_rev n = [char_of (48 + n)]" by (subst digits_rev.simps) simp
    with code_digit [OF True] show ?thesis by (simp add: dec_nat_def digits_of_def)
  next
    case False
    then have "digits_rev n = char_of (48 + n mod 10) # digits_rev (n div 10)"
      by (subst digits_rev.simps) simp
    with 1 [OF False] code_digit [of "n mod 10"] show ?thesis
      by (simp add: dec_nat_def digits_of_snoc)
  qed
qed

lemma dec_nat_shape:
  "dec_nat n \<noteq> []" "\<forall>c \<in> set (dec_nat n). is_digit c"
  "hd (dec_nat n) = CHR ''0'' \<Longrightarrow> dec_nat n = [CHR ''0'']"
proof -
  show "dec_nat n \<noteq> []" by (simp add: dec_nat_def) (subst digits_rev.simps, simp)
  show "\<forall>c \<in> set (dec_nat n). is_digit c" using digits_rev_digits [of n] by (simp add: dec_nat_def)
  have "last (digits_rev n) = CHR ''0'' \<Longrightarrow> digits_rev n = [CHR ''0'']"
  proof (induction n rule: digits_rev.induct)
    case (1 n)
    show ?case
    proof (cases "n < 10")
      case True
      then show ?thesis using 1(2) by (subst digits_rev.simps) (subst (asm) digits_rev.simps, simp)
    next
      case False
      have rec: "digits_rev n = char_of (48 + n mod 10) # digits_rev (n div 10)"
        using False by (subst digits_rev.simps) simp
      have "digits_rev (n div 10) \<noteq> []" by (subst digits_rev.simps) simp
      with 1 False rec have "digits_rev (n div 10) = [CHR ''0'']" by simp
      then have "digits_of (dec_nat (n div 10)) = 0" by (simp add: dec_nat_def digits_of_def)
      with False show ?thesis by (simp add: digits_of_dec_nat)
    qed
  qed
  then show "hd (dec_nat n) = CHR ''0'' \<Longrightarrow> dec_nat n = [CHR ''0'']"
    using \<open>dec_nat n \<noteq> []\<close> by (simp add: dec_nat_def hd_rev)
qed

definition delimits :: "string \<Rightarrow> bool" where
  "delimits rest \<longleftrightarrow> rest = [] \<or> hd rest \<in> set [CHR '','', CHR '']'', CHR ''}'']"

lemma scan_dec_int:
  assumes "delimits rest" "length (dec_nat (nat \<bar>i\<bar>)) \<le> max_int_digits rt"
  shows "scan_number rt (dec_int i @ rest) = Inr (JInt i, rest)"
proof -
  define D where "D = dec_nat (nat \<bar>i\<bar>)"
  have D: "D \<noteq> []" "\<forall>c \<in> set D. is_digit c" "digits_of D = nat \<bar>i\<bar>" "length D \<le> max_int_digits rt"
    "dec_int i = (if i < 0 then CHR ''-'' # D else D)"
    using dec_nat_shape(1,2) assms(2) by (simp_all add: D_def digits_of_dec_nat dec_int_def)
  obtain c cs where c: "D = c # cs" using D(1) by (cases D) auto
  have zero: "c = CHR ''0'' \<Longrightarrow> cs = []" using dec_nat_shape(3) [of "nat \<bar>i\<bar>"] c by (simp add: D_def)
  have nodigit: "takeWhile is_digit rest = []"
    using assms(1) by (cases rest) (auto simp: delimits_def is_digit_def)
  have run: "takeWhile is_digit (cs @ rest) = cs" "is_digit c"
    using D(2) nodigit c by (simp_all add: takeWhile_append2)
  have c': "c \<noteq> CHR ''-''" using run(2) by (auto simp: is_digit_def)
  have frac: "split_fraction rest = ([], rest)" "split_exponent rest = ([], rest)"
    using assms(1) by (auto simp: delimits_def split_fraction_def split_exponent_def Let_def split: list.split)
  have "Suc (length cs) \<le> max_int_digits rt" using D(4) c by simp
  moreover have "int (digits_of (c # cs)) = \<bar>i\<bar>" using D(3) c by simp
  ultimately show ?thesis
    using run frac zero c' c D(5) by (cases "c = CHR ''0''") (auto simp: scan_number_def Let_def)
qed

lemma dec_int_no_constant: "find (\<lambda>(word, v). starts_with (dec_int i @ rest) word) constants = None"
proof -
  obtain c cs where ds: "dec_nat (nat \<bar>i\<bar>) = c # cs" "is_digit c"
    using dec_nat_shape(1,2) [of "nat \<bar>i\<bar>"] by (cases "dec_nat (nat \<bar>i\<bar>)") auto
  have "c \<notin> set [CHR ''n'', CHR ''t'', CHR ''f'', CHR ''N'', CHR ''I'', CHR ''-'']"
    using ds(2) by (auto simp: is_digit_def)
  with ds(1) show ?thesis
    by (cases "i < 0") (auto simp: constants_def starts_with_def dec_int_def)
qed

section \<open>The round trip\<close>

lemma insort_key_map_val:
  "insort_key fst (k, f v) (map (\<lambda>(k, v). (k, f v)) d) = map (\<lambda>(k, v). (k, f v)) (insort_key fst (k, v) d)"
  by (induction d) auto

lemma sort_key_map_val:
  "sort_key fst (map (\<lambda>(k, v). (k, f v)) d) = map (\<lambda>(k, v). (k, f v)) (sort_key fst d)"
proof (induction d)
  case (Cons p d)
  then show ?case using insort_key_map_val [of "fst p" f "snd p"] by (cases p) simp
qed simp

lemma dict_set_new: "k \<notin> fst ` set d \<Longrightarrow> dict_set k v d = d @ [(k, v)]"
  by (induction d) auto

lemma dict_sets_new:
  "distinct (map fst ms) \<Longrightarrow> fst ` set ms \<inter> fst ` set d = {} \<Longrightarrow>
   fold (\<lambda>(k, v). dict_set k v) ms d = d @ ms"
proof (induction ms arbitrary: d)
  case (Cons p ms)
  obtain k v where p: "p = (k, v)" by fastforce
  with Cons.prems have "dict_set k v d = d @ [(k, v)]" by (intro dict_set_new) auto
  moreover have "fold (\<lambda>(k, v). dict_set k v) ms (d @ [(k, v)]) = (d @ [(k, v)]) @ ms"
    using Cons.prems p by (intro Cons.IH) auto
  ultimately show ?case using p by simp
qed simp

definition opens :: "string \<Rightarrow> bool" where
  \<comment> \<open>the text of a value starts neither with white space nor with a closing bracket\<close>
  "opens s \<longleftrightarrow> s \<noteq> [] \<and> hd s \<notin> set [CHR '' '', CHR 0x09, CHR 0x0A, CHR 0x0D, CHR '']'', CHR ''}'', CHR '','']"

lemma skip_ws_opens: "opens s \<Longrightarrow> skip_ws (s @ rest) = s @ rest"
  by (cases s) (auto simp: opens_def skip_ws_def)

lemma skip_ws_mark:
  "c \<in> set [CHR '']'', CHR ''}'', CHR '','', CHR '':''] \<Longrightarrow> skip_ws (c # cs) = c # cs"
  by (auto simp: skip_ws_def)

lemma opens_dump_str: "opens (dump_str s)"
  by (simp add: dump_str_def opens_def quote_def)

lemma opens_dumps: "wire_ok rt depth v \<Longrightarrow> opens (json_dumps v)"
proof (cases v)
  case (JInt i)
  obtain c cs where ds: "dec_nat (nat \<bar>i\<bar>) = c # cs" "is_digit c"
    using dec_nat_shape(1,2) [of "nat \<bar>i\<bar>"] by (cases "dec_nat (nat \<bar>i\<bar>)") auto
  have "c \<notin> set [CHR '' '', CHR 0x09, CHR 0x0A, CHR 0x0D, CHR '']'', CHR ''}'', CHR '','']"
    using ds(2) by (auto simp: is_digit_def)
  with ds(1) JInt show ?thesis by (cases "i < 0") (auto simp: opens_def dec_int_def)
qed (auto simp: opens_def dump_str_def quote_def)

definition reads :: "py_runtime \<Rightarrow> nat \<Rightarrow> json \<Rightarrow> bool" where
  "reads rt depth v \<longleftrightarrow>
     (\<forall>fuel rest. delimits rest \<longrightarrow> 2 * length (json_dumps v) \<le> fuel \<longrightarrow>
        scan_value rt fuel depth (json_dumps v @ rest) = Inr (canonical v, rest))"

lemma delimits_simps [simp]: "delimits (CHR '','' # s)" "delimits (CHR '']'' # s)" "delimits (CHR ''}'' # s)"
  by (simp_all add: delimits_def)

lemma scan_list_dumps:
  assumes "xs \<noteq> []" "\<forall>v \<in> set xs. reads rt depth v \<and> wire_ok rt depth v"
    and "2 * length (join '','' (map json_dumps xs)) < fuel"
  shows "scan_list rt fuel depth acc (join '','' (map json_dumps xs) @ CHR '']'' # rest) =
    Inr (JList (acc @ map canonical xs), rest)"
  using assms
proof (induction xs arbitrary: acc fuel)
  case (Cons v xs)
  obtain f where f: "fuel = Suc f" using Cons.prems(3) by (cases fuel) auto
  show ?case
  proof (cases "xs = []")
    case True
    then have "scan_value rt f depth (json_dumps v @ CHR '']'' # rest) = Inr (canonical v, CHR '']'' # rest)"
      using Cons.prems(2,3) f by (simp add: reads_def)
    with True f show ?thesis by (simp add: skip_ws_mark)
  next
    case False
    then obtain y ys where xs: "xs = y # ys" by (cases xs) auto
    let ?more = "join '','' (map json_dumps xs) @ CHR '']'' # rest"
    have whole: "join '','' (map json_dumps (v # xs)) @ CHR '']'' # rest = json_dumps v @ CHR '','' # ?more"
      by (simp add: xs)
    have "scan_value rt f depth (json_dumps v @ CHR '','' # ?more) = Inr (canonical v, CHR '','' # ?more)"
      using Cons.prems(2,3) f xs by (simp add: reads_def)
    moreover have "skip_ws ?more = ?more"
    proof -
      have "opens (json_dumps y)" using Cons.prems(2) xs by (auto intro: opens_dumps)
      then have "skip_ws (json_dumps y @ r) = json_dumps y @ r" for r by (rule skip_ws_opens)
      then show ?thesis by (cases ys) (simp_all add: xs)
    qed
    moreover have "scan_list rt f depth (acc @ [canonical v]) ?more =
        Inr (JList ((acc @ [canonical v]) @ map canonical xs), rest)"
      by (rule Cons.IH) (use Cons.prems f xs in \<open>simp_all add: False\<close>)
    ultimately show ?thesis unfolding whole f by (simp add: skip_ws_mark)
  qed
qed simp

definition dump_member :: "string \<times> json \<Rightarrow> string" where
  "dump_member m = dump_str (fst m) @ '':'' @ json_dumps (snd m)"

lemma scan_object_dumps:
  assumes "ms \<noteq> []" "\<forall>(k, v) \<in> set ms. reads rt depth v \<and> wire_ok rt depth v"
    and "2 * length (join '','' (map dump_member ms)) < fuel"
  shows "scan_object rt fuel depth d (join '','' (map dump_member ms) @ CHR ''}'' # rest) =
    Inr (JObj (fold (\<lambda>(k, v). dict_set k (canonical v)) ms d), rest)"
  using assms
proof (induction ms arbitrary: d fuel)
  case (Cons m ms)
  obtain k v where m: "m = (k, v)" by fastforce
  obtain f where f: "fuel = Suc f" using Cons.prems(3) by (cases fuel) auto
  have wv: "wire_ok rt depth v" and rv: "reads rt depth v" using Cons.prems(2) m by auto
  have skip: "skip_ws (json_dumps v @ r) = json_dumps v @ r" for r
    by (rule skip_ws_opens [OF opens_dumps [OF wv]])
  have member: "scan_object rt (Suc f) depth d (dump_member m @ tail) =
      (case skip_ws tail of
         [] \<Rightarrow> Inl JSONDecodeError
       | c # cs \<Rightarrow>
           if c = CHR ''}'' then Inr (JObj (dict_set k (canonical v) d), cs)
           else if c = CHR '','' then scan_object rt f depth (dict_set k (canonical v) d) (skip_ws cs)
           else Inl JSONDecodeError)"
    if "delimits tail" "2 * length (json_dumps v) \<le> f" for tail
  proof -
    have "scan_value rt f depth (json_dumps v @ tail) = Inr (canonical v, tail)"
      using rv that by (simp add: reads_def)
    then show ?thesis
      using scan_dump_str [of rt k "CHR '':'' # json_dumps v @ tail"]
      by (simp add: dump_member_def m dump_str_def skip_ws_mark skip del: scan_string.simps)
  qed
  have fit: "2 * length (json_dumps v) \<le> f"
    using Cons.prems(3) f m by (cases ms) (simp_all add: dump_member_def)
  show ?case
  proof (cases "ms = []")
    case True
    then show ?thesis using member [OF _ fit, of "CHR ''}'' # rest"] f m by (simp add: skip_ws_mark del: scan_object.simps)
  next
    case False
    then obtain y ys where ms: "ms = y # ys" by (cases ms) auto
    let ?more = "join '','' (map dump_member ms) @ CHR ''}'' # rest"
    have whole: "join '','' (map dump_member (m # ms)) @ CHR ''}'' # rest = dump_member m @ CHR '','' # ?more"
      by (simp add: ms)
    have "opens (dump_member y)"
      using opens_dump_str [of "fst y"] by (auto simp: opens_def dump_member_def dump_str_def)
    then have "skip_ws (dump_member y @ r) = dump_member y @ r" for r by (rule skip_ws_opens)
    then have "skip_ws ?more = ?more" by (cases ys) (simp_all add: ms)
    moreover have "scan_object rt f depth (dict_set k (canonical v) d) ?more =
        Inr (JObj (fold (\<lambda>(k, v). dict_set k (canonical v)) ms (dict_set k (canonical v) d)), rest)"
      by (rule Cons.IH) (use Cons.prems f ms in \<open>simp_all add: False\<close>)
    ultimately show ?thesis
      using member [OF _ fit, of "CHR '','' # ?more"] unfolding whole f
      by (simp add: skip_ws_mark m del: scan_object.simps)
  qed
qed simp

lemma join_length_pos: "opens s \<Longrightarrow> join sep (s # ss) \<noteq> [] \<and> hd (join sep (s # ss)) = hd s"
  by (cases ss) (auto simp: opens_def)

lemma reads_scalar:
  assumes "opens s" "hd s \<notin> set [quote, CHR ''['', CHR ''{'']" "json_dumps v = s"
    and "\<And>rest. delimits rest \<Longrightarrow> scan_scalar rt (s @ rest) = Inr (canonical v, rest)"
  shows "reads rt depth v"
  unfolding reads_def
proof (intro allI impI)
  fix fuel rest assume *: "delimits rest" "2 * length (json_dumps v) \<le> fuel"
  obtain c cs where s: "s = c # cs" using assms(1) by (cases s) (auto simp: opens_def)
  moreover from * s assms(3) obtain f where "fuel = Suc f" by (cases fuel) auto
  ultimately show "scan_value rt fuel depth (json_dumps v @ rest) = Inr (canonical v, rest)"
    using assms(2-4) *(1) by simp
qed

lemma reads_wire_ok: "wire_ok rt depth v \<Longrightarrow> reads rt depth v"
proof (induction v arbitrary: depth)
  case JNull
  show ?case by (rule reads_scalar [of "''null''"])
    (simp_all add: opens_def quote_def scan_scalar_def constants_def starts_with_def)
next
  case (JBool b)
  show ?case by (rule reads_scalar [of "json_dumps (JBool b)"])
    (simp_all add: opens_def quote_def scan_scalar_def constants_def starts_with_def)
next
  case (JInt i)
  obtain c cs where ds: "dec_nat (nat \<bar>i\<bar>) = c # cs" "is_digit c"
    using dec_nat_shape(1,2) [of "nat \<bar>i\<bar>"] by (cases "dec_nat (nat \<bar>i\<bar>)") auto
  have "c \<notin> set [quote, CHR ''['', CHR ''{'']" using ds(2) by (auto simp: is_digit_def quote_def)
  with ds(1) have "hd (dec_int i) \<notin> set [quote, CHR ''['', CHR ''{'']"
    by (cases "i < 0") (auto simp: dec_int_def quote_def)
  then show ?case
    using opens_dumps [OF JInt] scan_dec_int [of _ i rt] JInt dec_int_no_constant
    by (intro reads_scalar [of "dec_int i"]) (simp_all add: scan_scalar_def)
next
  case (JFloat r)
  then show ?case by simp
next
  case (JStr s)
  show ?case
    unfolding reads_def
  proof (intro allI impI)
    fix fuel rest assume "2 * length (json_dumps (JStr s)) \<le> fuel"
    then obtain f where "fuel = Suc f" by (cases fuel) (auto simp: dump_str_def)
    then show "scan_value rt fuel depth (json_dumps (JStr s) @ rest) = Inr (canonical (JStr s), rest)"
      by (simp add: dump_str_def scan_dump_str)
  qed
next
  case (JList xs)
  then obtain d where d: "depth = Suc d" "list_all (wire_ok rt d) xs" by (cases depth) auto
  have IH: "\<forall>v \<in> set xs. reads rt d v \<and> wire_ok rt d v" using JList.IH d by (simp add: list_all_iff)
  show ?case
    unfolding reads_def
  proof (intro allI impI)
    fix fuel rest assume "2 * length (json_dumps (JList xs)) \<le> fuel"
    then obtain f where f: "fuel = Suc f" "2 * length (join '','' (map json_dumps xs)) < f"
      by (cases fuel) auto
    show "scan_value rt fuel depth (json_dumps (JList xs) @ rest) = Inr (canonical (JList xs), rest)"
    proof (cases xs)
      case Nil
      then show ?thesis using f d by (simp add: quote_def skip_ws_def)
    next
      case (Cons y ys)
      then have "opens (json_dumps y)" using IH by (auto intro: opens_dumps)
      from join_length_pos [OF this, of "'',''" "map json_dumps ys"] this
      have o: "opens (join '','' (map json_dumps xs))" using Cons by (auto simp: opens_def)
      have "scan_list rt f d [] (join '','' (map json_dumps xs) @ CHR '']'' # rest) =
          Inr (JList ([] @ map canonical xs), rest)"
        by (rule scan_list_dumps) (use Cons IH f(2) in auto)
      moreover have "hd (join '','' (map json_dumps xs) @ CHR '']'' # rest) \<noteq> CHR '']''"
        using o by (cases "join '','' (map json_dumps xs)") (auto simp: opens_def)
      ultimately show ?thesis
        using skip_ws_opens [OF o, of "CHR '']'' # rest"] f(1) d(1) by (simp add: quote_def)
    qed
  qed
next
  case (JObj ms)
  then obtain d where d: "depth = Suc d" "list_all (\<lambda>(k, v). wire_ok rt d v) ms" "distinct (map fst ms)"
    by (cases depth) auto
  let ?s = "sort_key fst ms"
  have IH: "\<forall>(k, v) \<in> set ?s. reads rt d v \<and> wire_ok rt d v"
    using JObj.IH d(2) by (fastforce simp: list_all_iff)
  have dumps: "json_dumps (JObj ms) = ''{'' @ join '','' (map dump_member ?s) @ ''}''"
    by (simp add: sort_key_map_val comp_def case_prod_beta dump_member_def [abs_def])
  have sorted: "canonical (JObj ms) = JObj (fold (\<lambda>(k, v). dict_set k (canonical v)) ?s [])"
  proof -
    have "distinct (map fst (map (\<lambda>(k, v). (k, canonical v)) ?s))"
      using d(3) by (simp add: comp_def case_prod_beta distinct_map)
    from dict_sets_new [OF this, of "[]"] show ?thesis
      unfolding canonical.simps sort_key_map_val by (simp add: fold_map comp_def case_prod_unfold)
  qed
  show ?case
    unfolding reads_def
  proof (intro allI impI)
    fix fuel rest assume "2 * length (json_dumps (JObj ms)) \<le> fuel"
    then obtain f where f: "fuel = Suc f" "2 * length (join '','' (map dump_member ?s)) < f"
      unfolding dumps by (cases fuel) auto
    show "scan_value rt fuel depth (json_dumps (JObj ms) @ rest) = Inr (canonical (JObj ms), rest)"
    proof (cases ?s)
      case Nil
      then show ?thesis using f(1) d(1) unfolding dumps sorted by (simp add: quote_def skip_ws_def)
    next
      case (Cons y ys)
      have "opens (dump_member y)"
        using opens_dump_str [of "fst y"] by (auto simp: opens_def dump_member_def dump_str_def)
      from join_length_pos [OF this, of "'',''" "map dump_member ys"] this
      have o: "opens (join '','' (map dump_member ?s))" using Cons by (auto simp: opens_def)
      have "scan_object rt f d [] (join '','' (map dump_member ?s) @ CHR ''}'' # rest) =
          Inr (JObj (fold (\<lambda>(k, v). dict_set k (canonical v)) ?s []), rest)"
        by (rule scan_object_dumps) (use Cons IH f(2) in auto)
      moreover have "hd (join '','' (map dump_member ?s) @ CHR ''}'' # rest) \<noteq> CHR ''}''"
        using o by (cases "join '','' (map dump_member ?s)") (auto simp: opens_def)
      ultimately show ?thesis
        using skip_ws_opens [OF o, of "CHR ''}'' # rest"] f(1) d(1) unfolding dumps sorted
        by (simp add: quote_def del: scan_object.simps)
    qed
  qed
qed

text \<open>
  What the writer puts on the wire the reader takes off it: every value without floats comes
  back, with the members of its objects in the order of their keys.
\<close>

lemma loads_dumps:
  assumes "wire_ok rt (recursion_limit rt) v"
  shows "json_loads rt (json_dumps v) = Inr (canonical v)"
proof -
  have "skip_ws (json_dumps v) = json_dumps v" using skip_ws_opens [OF opens_dumps [OF assms], of "[]"] by simp
  moreover have "scan_value rt (2 * length (json_dumps v) + 2) (recursion_limit rt) (json_dumps v @ []) =
      Inr (canonical v, [])"
    by (rule reads_wire_ok [OF assms, unfolded reads_def, rule_format]) (simp_all add: delimits_def)
  ultimately show ?thesis
    using skip_ws_def by (simp add: json_loads_def del: scan_value.simps)
qed

end
