(* ===== verification/Redis_Transport.thy ===== *)
theory Redis_Transport
  imports System Json_Writer
begin

text \<open>
  The Redis path between the services: \<open>context_engine/redis_event_bus.py\<close> publishes an envelope
  as JSON, and the worker thread of \<open>RedisEventListener\<close> (\<open>orchestrator/event_listener.py\<close>) polls
  the subscription and hands what it can read to the handler.  The Redis client is the
  environment: what \<open>publish\<close> answers is a function, and what the polls of a run return is a
  list.
\<close>

section \<open>RedisEventBus\<close>

definition redis_publish :: "(string \<Rightarrow> string \<Rightarrow> 'b \<Rightarrow> (py_exn, int, 'b) outcome) \<Rightarrow> string \<Rightarrow> dict \<Rightarrow>
    'b \<Rightarrow> (py_exn, int, 'b) outcome" where
  "redis_publish client_publish channel payload b =
     client_publish channel (json_dumps (JObj payload)) b"

section \<open>RedisEventListener\<close>

record redis_listener =
  rl_stop_event :: bool
  rl_thread :: "bool option"  \<comment> \<open>\<open>_thread\<close>: none, or one that is alive or not\<close>
  rl_pubsub :: bool

definition rl_new :: redis_listener where
  "rl_new = \<lparr>rl_stop_event = False, rl_thread = None, rl_pubsub = False\<rparr>"

definition rl_start :: "redis_listener \<Rightarrow> redis_listener" where
  "rl_start l =
     (if rl_thread l = Some True then l
      else l\<lparr>rl_stop_event := False, rl_pubsub := True, rl_thread := Some True\<rparr>)"

definition rl_stop :: "redis_listener \<Rightarrow> redis_listener" where
  "rl_stop l = l\<lparr>rl_stop_event := True, rl_thread := None, rl_pubsub := False\<rparr>"

text \<open>
  A poll raises, times out, or returns a message; its data may be missing, bytes (with what
  decoding them as UTF-8 yields, if anything), text, or something else.
\<close>

datatype redis_data =
    NoData
  | RawBytes "string option"
  | RawText string
  | OtherData string  \<comment> \<open>the name of its type\<close>

datatype redis_poll =
    PollError
  | NoMessage
  | Message redis_data

definition data_text :: "redis_data \<Rightarrow> py_exn + string option" where
  "data_text data =
     (case data of
        NoData \<Rightarrow> Inr None
      | RawBytes None \<Rightarrow> Inl (Exn ''UnicodeDecodeError'' ''utf-8'')
      | RawBytes (Some t) \<Rightarrow> Inr (Some t)
      | RawText t \<Rightarrow> Inr (Some t)
      | OtherData ty \<Rightarrow> Inl (Exn ''TypeError''
          (''the JSON object must be str, bytes or bytearray, not '' @ ty)))"

text \<open>One turn of the loop of \<open>_pump\<close>: an exception it lets escape ends the thread.\<close>

definition pump_step :: "py_runtime \<Rightarrow> event_handler \<Rightarrow> redis_poll \<Rightarrow> orchestrator \<Rightarrow>
    (py_exn, unit, orchestrator) outcome" where
  "pump_step rt handler poll s =
     (case poll of
        PollError \<Rightarrow> (Inr (), s)
      | NoMessage \<Rightarrow> (Inr (), s)
      | Message data \<Rightarrow>
          (case data_text data of
             Inl e \<Rightarrow> (Inl e, s)
           | Inr None \<Rightarrow> (Inr (), s)
           | Inr (Some t) \<Rightarrow>
               (case json_loads rt t of
                  Inl JSONDecodeError \<Rightarrow> (Inr (), s)
                | Inl e \<Rightarrow> (Inl (loads_exn e), s)
                | Inr (JObj envelope) \<Rightarrow> (Inr (), snd (handler envelope s))
                | Inr v \<Rightarrow> (Inr (), s))))"

text \<open>The polls of a thread until it is stopped or dies.\<close>

fun pump :: "py_runtime \<Rightarrow> event_handler \<Rightarrow> redis_poll list \<Rightarrow> orchestrator \<Rightarrow>
    (py_exn, unit, orchestrator) outcome" where
  "pump rt handler [] s = (Inr (), s)"
| "pump rt handler (poll # polls) s =
     andThen (pump_step rt handler poll s) (\<lambda>_ s'. pump rt handler polls s')"

section \<open>What arrives\<close>

definition readable :: "py_runtime \<Rightarrow> redis_poll \<Rightarrow> bool" where
  \<comment> \<open>the turn does not end the thread\<close>
  "readable rt poll \<longleftrightarrow>
     (case poll of
        Message data \<Rightarrow>
          (case data_text data of
             Inl e \<Rightarrow> False
           | Inr None \<Rightarrow> True
           | Inr (Some t) \<Rightarrow> json_loads rt t \<in> {Inl JSONDecodeError} \<union> range Inr)
      | _ \<Rightarrow> True)"

definition envelope_in :: "py_runtime \<Rightarrow> redis_poll \<Rightarrow> dict option" where
  "envelope_in rt poll =
     (case poll of
        Message data \<Rightarrow>
          (case data_text data of
             Inr (Some t) \<Rightarrow> (case json_loads rt t of Inr (JObj envelope) \<Rightarrow> Some envelope | _ \<Rightarrow> None)
           | _ \<Rightarrow> None)
      | _ \<Rightarrow> None)"

lemma pump_step_readable:
  "readable rt poll \<Longrightarrow> pump_step rt handler poll s =
     (Inr (), case envelope_in rt poll of None \<Rightarrow> s | Some env \<Rightarrow> snd (handler env s))"
  by (auto simp: readable_def pump_step_def envelope_in_def
      split: redis_poll.splits option.splits sum.splits loads_error.splits json.splits)

lemma pump_readable:
  "list_all (readable rt) polls \<Longrightarrow> pump rt handler polls s =
     (Inr (), fold (\<lambda>env s. snd (handler env s)) (List.map_filter (envelope_in rt) polls) s)"
  by (induction polls arbitrary: s)
     (auto simp: pump_step_readable List.map_filter_def split: option.split)

section \<open>The envelope on the wire\<close>

definition wired :: "dict \<Rightarrow> dict" where
  \<comment> \<open>the envelope as it comes off the wire: its members in the order of their keys\<close>
  "wired env = sort_key fst (map (\<lambda>(k, v). (k, canonical v)) env)"

lemma envelope_wire_ok:
  "0 < recursion_limit rt \<Longrightarrow> wire_ok rt (recursion_limit rt) (JObj (envelope_for isoformat e))"
  by (simp add: envelope_for_def split: option.split)

lemma loads_envelope:
  "0 < recursion_limit rt \<Longrightarrow>
   json_loads rt (json_dumps (JObj (envelope_for isoformat e))) = Inr (JObj (wired (envelope_for isoformat e)))"
  using loads_dumps [OF envelope_wire_ok, of rt isoformat e] by (simp add: wired_def)

lemma map_of_sort_key:
  "distinct (map fst d) \<Longrightarrow> map_of (sort_key fst d) = map_of d"
  by (intro map_of_inject_set [THEN iffD2])
     (simp_all add: distinct_map inj_on_def distinct_sort)

lemma wired_same: "map_of (wired (envelope_for isoformat e)) = map_of (envelope_for isoformat e)"
proof -
  have "map (\<lambda>(k, v). (k, canonical v)) (envelope_for isoformat e) = envelope_for isoformat e"
    by (simp add: envelope_for_def split: option.split)
  moreover have "distinct (map fst (envelope_for isoformat e))" by (simp add: envelope_for_def)
  ultimately show ?thesis by (simp add: wired_def map_of_sort_key)
qed

section \<open>The order of the members does not matter\<close>

lemma get_or_same: "map_of env' = map_of env \<Longrightarrow> dict_get_or env' k v = dict_get_or env k v"
  by (simp add: dict_get_or_def)

lemma propose_same:
  assumes "map_of env' = map_of env"
  shows "propose_action rt \<lparr>plr_envelope = env', plr_brief_text = b\<rparr> c f w =
    propose_action rt \<lparr>plr_envelope = env, plr_brief_text = b\<rparr> c f w"
proof -
  note same = get_or_same [OF assms]
  have make: "make_proposal pid env' a by payload w' = make_proposal pid env a by payload w'"
    for pid a "by" payload w'
    unfolding make_proposal_def same ..
  have fallback: "fallback_proposal \<lparr>plr_envelope = env', plr_brief_text = b\<rparr> f flags w =
      fallback_proposal \<lparr>plr_envelope = env, plr_brief_text = b\<rparr> f flags w" for flags
    unfolding fallback_proposal_def plan_request.select_convs Let_def same make ..
  have prompt: "format_user_prompt rt \<lparr>plr_envelope = env', plr_brief_text = b\<rparr> t =
      format_user_prompt rt \<lparr>plr_envelope = env, plr_brief_text = b\<rparr> t" for t
    unfolding format_user_prompt_def plan_request.select_convs Let_def same ..
  show ?thesis
    unfolding propose_action_def plan_request.select_convs Let_def same make fallback prompt ..
qed

text \<open>Two processes that differ at most in the order of the members of buffered envelopes.\<close>

definition alike :: "orchestrator \<Rightarrow> orchestrator \<Rightarrow> bool" where
  "alike s s' \<longleftrightarrow>
     os_pipeline s' = os_pipeline s \<and> os_proposals s' = os_proposals s \<and>
     reb_max (os_recent s') = reb_max (os_recent s) \<and>
     (\<forall>t. map map_of (get_list (reb_by_tenant (os_recent s')) t) =
        map map_of (get_list (reb_by_tenant (os_recent s)) t))"

lemma alike_refl [simp]: "alike s s"
  by (simp add: alike_def)

lemma map_keep_last_of: "map f (keep_last n xs) = keep_last n (map f xs)"
  by (simp add: keep_last_def drop_map)

lemma alike_recent:
  assumes "alike s s'" "reb_max b' = reb_max b"
    and "\<And>t. map map_of (get_list (reb_by_tenant b') t) = map map_of (get_list (reb_by_tenant b) t)"
  shows "alike (s\<lparr>os_recent := b\<rparr>) (s'\<lparr>os_recent := b'\<rparr>)"
  using assms by (simp add: alike_def)

lemma buffered_alike:
  assumes "alike s s'" "map_of env' = map_of env"
  shows "alike (snd (make_buffered_handler env s)) (snd (make_buffered_handler env' s'))"
proof -
  let ?t = "dict_get_or env ''tenant_id'' JNull"
  let ?grow = "\<lambda>env b. b\<lparr>reb_by_tenant := (reb_by_tenant b)(?t \<mapsto> keep_last (reb_max b)
     (get_list (reb_by_tenant b) ?t @ [env]))\<rparr>"
  have handler: "snd (make_buffered_handler e x) = x\<lparr>os_recent := snd (reb_append e (os_recent x))\<rparr>" for e x
    by (simp add: make_buffered_handler_def split: prod.split)
  have append: "snd (reb_append e b) = (if truthy ?t \<and> \<not> (\<exists>xs. ?t = JList xs) \<and> \<not> (\<exists>d. ?t = JObj d)
      then ?grow e b else b)" if "dict_get_or e ''tenant_id'' JNull = ?t" for e b
    unfolding reb_append_def that by (cases ?t) (simp_all add: Let_def)
  have same: "alike (s\<lparr>os_recent := os_recent s\<rparr>) (s'\<lparr>os_recent := os_recent s'\<rparr>)" using assms(1) by simp
  have "alike (s\<lparr>os_recent := ?grow env (os_recent s)\<rparr>) (s'\<lparr>os_recent := ?grow env' (os_recent s')\<rparr>)"
    using assms by (intro alike_recent) (auto simp: alike_def map_keep_last_of)
  with same show ?thesis
    unfolding handler append [OF refl] append [OF get_or_same [OF assms(2)]] by (simp split: if_split)
qed

lemma planning_alike:
  assumes "alike s s'" "map_of env' = map_of env"
  shows "alike (snd (make_planning_handler rt c f b env s)) (snd (make_planning_handler rt c f b env' s'))"
  using assms
  by (auto simp: alike_def make_planning_handler_def propose_same [OF assms(2)] Let_def
      split: sum.split prod.split)

lemma composed_alike:
  assumes "alike s s'" "map_of env' = map_of env"
  shows "alike (snd (compose_handler rt c env s)) (snd (compose_handler rt c env' s'))"
  using planning_alike [OF buffered_alike [OF assms] assms(2)]
  by (simp add: compose_handler_def chain_handlers_def)

lemma composed_fold_alike:
  assumes "alike s s'" "list_all2 (\<lambda>env env'. map_of env' = map_of env) envs envs'"
    and "\<And>d d'. map_of d = map_of d' \<Longrightarrow> client d = client d'"
  shows "alike (fold (\<lambda>env s. snd (compose_handler rt (client env) env s)) envs s)
    (fold (\<lambda>env s. snd (compose_handler rt (client env) env s)) envs' s')"
  using assms(2,1)
proof (induction arbitrary: s s')
  case (Cons env envs env' envs')
  then have "client env' = client env" by (intro assms(3)) simp
  with Cons composed_alike [OF Cons.prems Cons.hyps(1), of rt "client env"] show ?case by simp
qed simp

section \<open>Properties\<close>

definition wire :: "(time \<Rightarrow> string) \<Rightarrow> event \<Rightarrow> redis_poll" where
  \<comment> \<open>the poll that returns what \<open>redis_publish\<close> put on the channel of the event\<close>
  "wire isoformat e = Message (RawText (json_dumps (JObj (envelope_for isoformat e))))"

lemma envelope_in_wire:
  "0 < recursion_limit rt \<Longrightarrow> envelope_in rt (wire isoformat e) = Some (wired (envelope_for isoformat e))"
  by (simp add: envelope_in_def wire_def data_text_def loads_envelope del: json_dumps.simps)

lemma map_filter_filter:
  "filter (\<lambda>p. f p \<noteq> None) ps = map g es \<Longrightarrow> (\<And>e. f (g e) = Some (h e)) \<Longrightarrow>
   List.map_filter f ps = map h es"
proof (induction ps arbitrary: es)
  case (Cons p ps)
  show ?case
  proof (cases "f p")
    case None
    with Cons show ?thesis by (simp add: List.map_filter_simps)
  next
    case (Some y)
    with Cons.prems obtain e es' where "es = e # es'" "p = g e" "filter (\<lambda>p. f p \<noteq> None) ps = map g es'"
      by (cases es) auto
    with Cons show ?thesis by (simp add: List.map_filter_simps)
  qed
qed (simp add: List.map_filter_simps)

text \<open>
  C16. The Redis path is the in-memory bus.  Announce any events over Redis, and let the worker
  thread poll them in order, with failed and empty polls and readable junk in between (what
  carries no text, what \<open>json.loads\<close> refuses as \<open>JSONDecodeError\<close>, what is JSON but no object; not
  the messages that end the thread): the thread survives, and the orchestrator ends with the same pipeline and the same proposals as
  if the events had been announced on the in-memory bus, its diagnostic buffer the same up to
  the order of the members of the envelopes.
\<close>

theorem redis_path_is_the_bus:
  assumes "subscribed rt client cb run b" and "\<forall>d d'. map_of d = map_of d' \<longrightarrow> client d = client d'"
    and "0 < recursion_limit rt" and "list_all (readable rt) polls"
    and "filter (\<lambda>p. envelope_in rt p \<noteq> None) polls = map (wire isoformat) es"
    and "s1 = snd (fold (\<lambda>(c, d) bs. snd (eb_publish run c d bs)) (map (announcement isoformat) es) (b, s))"
  shows "\<exists>s2. pump rt (\<lambda>env. compose_handler rt (client env) env) polls s = (Inr (), s2) \<and>
    os_pipeline s2 = os_pipeline s1 \<and> os_proposals s2 = os_proposals s1 \<and>
    (\<forall>t n. map map_of (reb_recent t n (os_recent s2)) = map map_of (reb_recent t n (os_recent s1)))"
proof -
  let ?env = "envelope_for isoformat"
  let ?h = "\<lambda>env s. snd (compose_handler rt (client env) env s)"
  have deliver: "os_step rt (Deliver d c) = (\<lambda>s. snd (compose_handler rt c d s))" for d c
    by (rule ext) simp
  have s1: "s1 = fold ?h (map ?env es) s"
    unfolding assms(6) publish_all [OF assms(1)]
    by (simp add: fold_map comp_def deliver)
  have "List.map_filter (envelope_in rt) polls = map (\<lambda>e. wired (?env e)) es"
    by (rule map_filter_filter [OF assms(5)]) (rule envelope_in_wire [OF assms(3)])
  then have s2: "pump rt (\<lambda>env. compose_handler rt (client env) env) polls s =
      (Inr (), fold ?h (map (\<lambda>e. wired (?env e)) es) s)"
    by (simp add: pump_readable [OF assms(4)])
  have "alike s1 (fold ?h (map (\<lambda>e. wired (?env e)) es) s)"
    unfolding s1
    by (rule composed_fold_alike [OF alike_refl _ assms(2) [rule_format]])
       (simp_all add: list_all2_conv_all_nth wired_same)
  moreover have "map map_of (reb_recent t n b') = map map_of (reb_recent t n b)"
    if "\<forall>t. map map_of (get_list (reb_by_tenant b') t) = map map_of (get_list (reb_by_tenant b) t)"
    for b b' t n
  proof -
    have "reb_recent t n x = py_take n (rev (get_list (reb_by_tenant x) (JStr t)))" for x
      by (auto simp: reb_recent_def get_list_def py_take_def split: option.split)
    moreover have "map f (py_take n xs) = py_take n (map f xs)" for f :: "dict \<Rightarrow> string \<rightharpoonup> json" and xs
      by (simp add: py_take_def take_map)
    ultimately show ?thesis using that by (simp add: rev_map [symmetric])
  qed
  ultimately show ?thesis using s2 by (auto simp: alike_def)
qed

lemma nested_too_deep:
  "depth < k \<Longrightarrow> 2 * depth < fuel \<Longrightarrow>
   scan_value rt fuel depth (replicate k CHR ''['') = Inl LoadsRecursionError"
proof (induction depth arbitrary: k fuel)
  case 0
  then obtain f j where "fuel = Suc f" "k = Suc j" by (cases fuel; cases k) auto
  then show ?case by (simp add: quote_def)
next
  case (Suc depth)
  then obtain f j where f: "fuel = Suc (Suc f)" "k = Suc (Suc j)"
    by (cases fuel; cases "fuel - 1"; cases k; cases "k - 1") auto
  have "scan_value rt f depth (replicate (Suc j) CHR ''['') = Inl LoadsRecursionError"
    by (rule Suc.IH) (use Suc.prems f in simp_all)
  moreover have "skip_ws (CHR ''['' # s) = CHR ''['' # s" for s by (simp add: skip_ws_def)
  ultimately show ?case unfolding f by (simp add: quote_def del: scan_value.simps(2))
    (simp add: quote_def)
qed

text \<open>
  C18. A defect of the Redis listener: only \<open>JSONDecodeError\<close> is caught around \<open>json.loads\<close>.  A
  message that opens more brackets than the reader nests raises \<open>RecursionError\<close>, which ends the
  worker thread: no later event is handled, whoever announced it, and the listener does not
  restart by itself.
\<close>

theorem nested_message_stops_listener:
  assumes "recursion_limit rt < k"
  shows "pump rt handler (before @ Message (RawText (replicate k CHR ''['')) # after) s =
    andThen (pump rt handler before s)
      (\<lambda>_ s'. (Inl (loads_exn LoadsRecursionError), s'))"
proof -
  have "skip_ws (replicate k CHR ''['') = replicate k CHR ''[''" by (cases k) (simp_all add: skip_ws_def)
  then have loads: "json_loads rt (replicate k CHR ''['') = Inl LoadsRecursionError"
    using nested_too_deep [OF assms, of "2 * k + 2" rt] assms
    by (simp add: json_loads_def del: scan_value.simps)
  show ?thesis
  proof (induction before arbitrary: s)
    case Nil
    show ?case by (simp add: pump_step_def data_text_def loads)
  next
    case (Cons p ps)
    then show ?case by (cases "pump_step rt handler p s"; cases "fst (pump_step rt handler p s)") simp_all
  qed
qed

definition demo_polls :: "redis_poll list" where
  "demo_polls = [wire demo_isoformat (demo_ev ''e1'' ''k1''), PollError,
     Message (RawText ''junk''), wire demo_isoformat (demo_ev ''e2'' ''k2'')]"

theorem redis_path_is_the_bus_witness:
  "\<exists>s2. pump demo_runtime (compose_handler demo_runtime (Inr (answering demo_answer))) demo_polls
      (orchestrator_new None demo_world) = (Inr (), s2) \<and>
    os_pipeline s2 = os_pipeline (snd (fold (\<lambda>(c, d) bs. snd (eb_publish demo_listener c d bs))
      (map (announcement demo_isoformat) [demo_ev ''e1'' ''k1'', demo_ev ''e2'' ''k2''])
      (demo_bus, orchestrator_new None demo_world)))"
proof -
  let ?es = "[demo_ev ''e1'' ''k1'', demo_ev ''e2'' ''k2'']"
  let ?s1 = "snd (fold (\<lambda>(c, d) bs. snd (eb_publish demo_listener c d bs))
      (map (announcement demo_isoformat) ?es) (demo_bus, orchestrator_new None demo_world))"
  have limit: "0 < recursion_limit demo_runtime" by (simp add: demo_runtime_def)
  have junk: "json_loads demo_runtime ''junk'' = Inl JSONDecodeError" by code_simp
  have s: "subscribed demo_runtime (\<lambda>_. Inr (answering demo_answer)) 0 demo_listener demo_bus"
    by (simp add: subscribed_def demo_bus_def demo_listener_def)
  have wires: "readable demo_runtime (wire demo_isoformat e)" for e
    using loads_envelope [OF limit, of demo_isoformat e]
    by (simp add: readable_def wire_def data_text_def del: json_dumps.simps)
  have readable: "list_all (readable demo_runtime) demo_polls"
    by (simp add: demo_polls_def wires) (simp add: readable_def data_text_def junk)
  have none: "envelope_in demo_runtime PollError = None"
    "envelope_in demo_runtime (Message (RawText ''junk'')) = None"
    by (simp_all add: envelope_in_def data_text_def junk)
  have envelopes: "filter (\<lambda>p. envelope_in demo_runtime p \<noteq> None) demo_polls = map (wire demo_isoformat) ?es"
    by (simp add: demo_polls_def none envelope_in_wire [OF limit])
  from redis_path_is_the_bus [OF s _ limit readable envelopes refl, of "orchestrator_new None demo_world"]
  show ?thesis by blast
qed

theorem nested_message_stops_listener_witness:
  "\<forall>handler e s. pump demo_runtime handler
      [Message (RawText (replicate 1001 CHR ''['')), wire demo_isoformat e] s =
    (Inl (loads_exn LoadsRecursionError), s)"
proof (intro allI)
  fix handler e s
  show "pump demo_runtime handler [Message (RawText (replicate 1001 CHR ''['')), wire demo_isoformat e] s =
      (Inl (loads_exn LoadsRecursionError), s)"
    using nested_message_stops_listener [of demo_runtime 1001 handler "[]" "[wire demo_isoformat e]" s]
    by (simp add: demo_runtime_def)
qed

text \<open>
  C17. What one service publishes the other reads: any payload without floats, repeated keys,
  over-long integers and over-deep nesting arrives at the handler as the same value, the
  members of its objects in the order of their keys.
\<close>

theorem wire_round_trip:
  assumes "wire_ok rt (recursion_limit rt) (JObj payload)"
  shows "\<exists>message envelope.
    (\<forall>client b. redis_publish client channel payload b = client channel message b) \<and>
    (\<forall>handler s. pump_step rt handler (Message (RawText message)) s = (Inr (), snd (handler envelope s))) \<and>
    JObj envelope = canonical (JObj payload)"
proof -
  let ?m = "json_dumps (JObj payload)"
  obtain envelope where e: "canonical (JObj payload) = JObj envelope" by simp
  have "json_loads rt ?m = Inr (JObj envelope)" using loads_dumps [OF assms] e by simp
  then have "pump_step rt handler (Message (RawText ?m)) s = (Inr (), snd (handler envelope s))" for handler s
    by (simp add: pump_step_def data_text_def del: json_dumps.simps)
  moreover have "redis_publish client channel payload b = client channel ?m b"
    for client :: "string \<Rightarrow> string \<Rightarrow> 'b \<Rightarrow> (py_exn, int, 'b) outcome" and b
    by (simp add: redis_publish_def)
  ultimately show ?thesis using e by metis
qed

theorem wire_round_trip_witness:
  "\<forall>client handler (b :: unit) s. \<exists>message.
    redis_publish client ''c'' [(''n'', JInt 7), (''k'', JList [JStr ''x'', JObj []])] b = client ''c'' message b \<and>
    pump_step demo_runtime handler (Message (RawText message)) s =
      (Inr (), snd (handler [(''k'', JList [JStr ''x'', JObj []]), (''n'', JInt 7)] s))"
proof (intro allI)
  fix client :: "string \<Rightarrow> string \<Rightarrow> unit \<Rightarrow> (py_exn, int, unit) outcome" and handler b s
  let ?p = "[(''n'', JInt 7), (''k'', JList [JStr ''x'', JObj []])]"
  have "wire_ok demo_runtime (recursion_limit demo_runtime) (JObj ?p)" by code_simp
  moreover have "canonical (JObj ?p) = JObj [(''k'', JList [JStr ''x'', JObj []]), (''n'', JInt 7)]" by code_simp
  ultimately show "\<exists>message. redis_publish client ''c'' ?p b = client ''c'' message b \<and>
    pump_step demo_runtime handler (Message (RawText message)) s =
      (Inr (), snd (handler [(''k'', JList [JStr ''x'', JObj []]), (''n'', JInt 7)] s))"
    using wire_round_trip [of demo_runtime ?p "''c''", where ?'a = unit] by (metis json.inject(6))
qed

end
