(* ===== verification/Orchestrator_Api.thy ===== *)
theory Orchestrator_Api
  imports Redis_Transport Context_Api
begin

text \<open>
  The HTTP surface of the orchestrator, \<open>orchestrator/api.py\<close>: the wiring of the listener, the
  diagnostic views, and the routes by which approvers list, approve, reject and read actions.
  A route is a function on the singletons of the process; the bounds the framework checks on
  the query parameters come first, and what they refuse is answered with 422.
\<close>

section \<open>The process and its listener\<close>

text \<open>
  \<open>_listener\<close> is unset, bound to an in-memory bus (named by its identity in \<open>oa_buses\<close>), or the
  Redis listener; each start of an in-memory listener makes a new callback.
\<close>

datatype listener =
    OnBus nat event_listener
  | OnRedis redis_listener

record orchestrator_app =
  oa_core :: orchestrator
  oa_listener :: "listener option"
  oa_listener_mode :: string
  oa_buses :: "nat \<Rightarrow> event_bus"
  oa_callbacks :: nat

definition orchestrator_app_new :: "orchestrator \<Rightarrow> (nat \<Rightarrow> event_bus) \<Rightarrow> orchestrator_app" where
  "orchestrator_app_new core buses =
     \<lparr>oa_core = core, oa_listener = None, oa_listener_mode = ''unattached'', oa_buses = buses,
      oa_callbacks = 0\<rparr>"

definition stop_listener :: "orchestrator_app \<Rightarrow> orchestrator_app" where
  \<comment> \<open>\<open>_listener.stop()\<close> when there is one\<close>
  "stop_listener s =
     (case oa_listener s of
        None \<Rightarrow> s
      | Some (OnBus i l) \<Rightarrow>
          let (l', b) = el_stop (l, oa_buses s i)
          in s\<lparr>oa_listener := Some (OnBus i l'), oa_buses := (oa_buses s)(i := b)\<rparr>
      | Some (OnRedis l) \<Rightarrow> s\<lparr>oa_listener := Some (OnRedis (rl_stop l))\<rparr>)"

definition build_default_listener :: "environ \<Rightarrow> listener option \<times> string" where
  "build_default_listener env =
     (if env_strip env ''REDIS_URL'' = [] then (None, ''unattached'')
      else (Some (OnRedis rl_new), ''redis''))"

definition attach_in_memory_bus :: "nat \<Rightarrow> orchestrator_app \<Rightarrow> orchestrator_app" where
  "attach_in_memory_bus i s =
     (let s1 = stop_listener s;
          (l, b) = el_start (oa_callbacks s1) (el_new, oa_buses s1 i)
      in s1\<lparr>oa_listener := Some (OnBus i l), oa_buses := (oa_buses s1)(i := b),
            oa_callbacks := Suc (oa_callbacks s1), oa_listener_mode := ''in-memory''\<rparr>)"

definition lifespan_start :: "environ \<Rightarrow> orchestrator_app \<Rightarrow> orchestrator_app" where
  "lifespan_start env s =
     (let s1 = (case oa_listener s of
                  None \<Rightarrow> let (built, mode) = build_default_listener env
                          in s\<lparr>oa_listener := built, oa_listener_mode := mode\<rparr>
                | Some l \<Rightarrow> s)
      in case oa_listener s1 of
           Some (OnRedis l) \<Rightarrow>
             if oa_listener_mode s1 = ''redis''
             then s1\<lparr>oa_listener := Some (OnRedis (rl_start l))\<rparr> else s1
         | _ \<Rightarrow> s1)"

definition lifespan_stop :: "orchestrator_app \<Rightarrow> orchestrator_app" where
  "lifespan_stop s = stop_listener s"

definition reset_listener_for_tests :: "orchestrator_app \<Rightarrow> orchestrator_app" where
  "reset_listener_for_tests s =
     (let s1 = (case oa_listener s of None \<Rightarrow> s | Some l \<Rightarrow> (stop_listener s)\<lparr>oa_listener := None\<rparr>);
          c = oa_core s1
      in s1\<lparr>oa_listener_mode := ''unattached'',
            oa_core := c\<lparr>os_recent := reb_clear (os_recent c), os_proposals := pb_clear (os_proposals c),
                         os_pipeline := p_clear (os_pipeline c)\<rparr>\<rparr>)"

section \<open>Rendering\<close>

text \<open>The JSON mode of the model library writes UTC as \<open>Z\<close>.\<close>

definition z_stamp :: "time \<Rightarrow> string" where
  "z_stamp t = take (length (iso_stamp t) - 6) (iso_stamp t) @ ''Z''"

definition audit_dump :: "audit_entry \<Rightarrow> json" where
  "audit_dump e = JObj
     [(''id'', case ae_id e of None \<Rightarrow> JNull | Some i \<Rightarrow> JInt i),
      (''tenant_id'', JStr (ae_tenant_id e)), (''ts'', JStr (z_stamp (ae_ts e))),
      (''kind'', JStr (audit_kind_value (ae_kind e))), (''action_id'', json_opt (ae_action_id e)),
      (''caused_by_event_id'', json_opt (ae_caused_by_event_id e)),
      (''actor_kind'', JStr (audit_actor_kind_value (ae_actor_kind e))),
      (''actor_id'', json_opt (ae_actor_id e)), (''payload'', JObj (ae_payload e))]"

definition proposal_dump :: "proposal \<Rightarrow> json" where
  "proposal_dump p = JObj
     [(''id'', JStr (pr_id p)), (''tenant_id'', JStr (pr_tenant_id p)),
      (''event_id'', JStr (pr_event_id p)), (''customer_id'', json_opt (pr_customer_id p)),
      (''action_type'', JStr (action_type_value (pr_action_type p))),
      (''proposed_by'', JStr (proposed_by_value (pr_proposed_by p))),
      (''payload'', JObj (pr_payload p)), (''created_at'', JStr (z_stamp (pr_created_at p)))]"

definition strings :: "string list \<Rightarrow> json" where
  "strings xs = JList (map JStr xs)"

definition approval_progress :: "action \<Rightarrow> pipeline \<Rightarrow> json" where
  "approval_progress a p =
     (case p_approval_rule (a_id a) p of
        None \<Rightarrow> JNull
      | Some rule \<Rightarrow> JObj
          [(''state'', JStr (ar_state rule)),
           (''required_approvals'', JInt (ar_required_approvals rule)),
           (''approvals_recorded'', JInt (int (length (ar_approvals rule)))),
           (''approvals_remaining'', JInt (approvals_remaining rule)),
           (''approvers'', strings (ar_approvals rule)),
           (''eligible_approvers'', case ar_eligible_approvers rule of None \<Rightarrow> JNull
              | Some pool \<Rightarrow> strings pool)])"

definition dict_pop :: "string \<Rightarrow> json \<Rightarrow> dict \<Rightarrow> json \<times> dict" where
  \<comment> \<open>\<open>d.pop(k, v)\<close>\<close>
  "dict_pop k v d = (dict_get_or d k v, filter (\<lambda>(k', v'). k' \<noteq> k) d)"

definition action_view :: "action \<Rightarrow> pipeline \<Rightarrow> dict" where
  "action_view a p =
     (let audit_trail = map audit_dump (audit_for_action (a_id a) p);
          (reasoning, payload) = dict_pop ''_planner_reasoning'' (JStr []) (a_payload a);
          (executed_payload, payload) = dict_pop ''_executed_payload'' JNull payload
      in [(''action_id'', JStr (a_id a)), (''tenant_id'', JStr (a_tenant_id a)),
          (''event_id'', JStr (a_event_id a)), (''proposal_id'', JStr (a_proposal_id a)),
          (''customer_id'', json_opt (a_customer_id a)),
          (''action_type'', JStr (action_type_value (a_action_type a))),
          (''status'', JStr (action_status_value (a_status a))), (''reasoning'', reasoning),
          (''payload'', JObj payload), (''executed_payload'', executed_payload),
          (''created_at'', JStr (iso_stamp (a_created_at a))),
          (''updated_at'', JStr (iso_stamp (a_updated_at a))),
          (''executed_at'', case a_executed_at a of None \<Rightarrow> JNull | Some t \<Rightarrow> JStr (iso_stamp t)),
          (''approval_progress'', approval_progress a p), (''audit_trail'', JList audit_trail)])"

section \<open>What the framework checks\<close>

definition tenant_ok :: "string \<Rightarrow> bool" where
  "tenant_ok t \<longleftrightarrow> len_within 1 64 t"

definition tenant_opt_ok :: "string option \<Rightarrow> bool" where
  "tenant_opt_ok t \<longleftrightarrow> (case t of None \<Rightarrow> True | Some s \<Rightarrow> tenant_ok s)"

text \<open>A 422 with the framework's error report; this service quarantines nothing.\<close>

definition unprocessable :: "json list \<Rightarrow> response" where
  "unprocessable errors = (422, [(''detail'', JList errors)])"

section \<open>Views\<close>

definition events_recent :: "json list \<Rightarrow> string \<Rightarrow> int \<Rightarrow> orchestrator_app \<Rightarrow> response" where
  "events_recent errors tenant_id limit s =
     (if \<not> tenant_ok tenant_id \<or> limit < 1 \<or> 100 < limit then unprocessable errors
      else
        let items = (if oa_listener s = None then []
                     else reb_recent tenant_id limit (os_recent (oa_core s)))
        in (200, [(''tenant_id'', JStr tenant_id), (''limit'', JInt limit),
                  (''count'', JInt (int (length items))), (''events'', JList (map JObj items)),
                  (''listener_mode'', JStr (oa_listener_mode s))]))"

definition proposals_recent :: "json list \<Rightarrow> string \<Rightarrow> int \<Rightarrow> orchestrator_app \<Rightarrow> response" where
  "proposals_recent errors tenant_id limit s =
     (if \<not> tenant_ok tenant_id \<or> limit < 1 \<or> 100 < limit then unprocessable errors
      else
        let serialized = map proposal_dump (pb_recent tenant_id limit (os_proposals (oa_core s)))
        in (200, [(''tenant_id'', JStr tenant_id), (''limit'', JInt limit),
                  (''count'', JInt (int (length serialized))), (''proposals'', JList serialized),
                  (''listener_mode'', JStr (oa_listener_mode s))]))"

definition approvals_list :: "json list \<Rightarrow> string \<Rightarrow> pipeline \<Rightarrow> response" where
  "approvals_list errors tenant_id p =
     (if \<not> tenant_ok tenant_id then unprocessable errors
      else
        let pending = list_pending_actions tenant_id p
        in (200, [(''tenant_id'', JStr tenant_id), (''count'', JInt (int (length pending))),
                  (''approvals'', JList (map (\<lambda>a. JObj (action_view a p)) pending))]))"

section \<open>Votes\<close>

text \<open>The messages of the errors a vote can raise; \<open>p\<close> is the state the vote met.\<close>

definition refusal_detail :: "string \<Rightarrow> string \<Rightarrow> string \<Rightarrow> pipeline \<Rightarrow> pipeline_error \<Rightarrow> string" where
  "refusal_detail verb aid decided_by p e =
     (case e of
        ActionNotFoundError \<Rightarrow> ''no action with id='' @ py_repr_str aid
      | QueueError ApprovalNotFoundError \<Rightarrow> ''no approval row for action_id='' @ py_repr_str aid
      | QueueError ApprovalStateError \<Rightarrow>
          ''approval for action_id='' @ py_repr_str aid @ '' is already '' @
          py_repr_str (case p_approval_rule aid p of None \<Rightarrow> [] | Some rule \<Rightarrow> ar_state rule) @
          ''; cannot '' @ verb
      | QueueError ApproverNotEligibleError \<Rightarrow>
          py_repr_str decided_by @ '' is not an eligible approver for action_id='' @ py_repr_str aid
      | QueueError DuplicateApproverError \<Rightarrow>
          py_repr_str decided_by @ '' has already approved action_id='' @ py_repr_str aid @
          ''; one approver cannot fill two quorum seats''
      | _ \<Rightarrow> ''ValidationError'')"

definition approve_status :: "pipeline_error \<Rightarrow> int option" where
  "approve_status e =
     (case e of
        ActionNotFoundError \<Rightarrow> Some 404
      | QueueError ApprovalNotFoundError \<Rightarrow> Some 404
      | QueueError ApproverNotEligibleError \<Rightarrow> Some 403
      | QueueError ApprovalStateError \<Rightarrow> Some 409
      | QueueError DuplicateApproverError \<Rightarrow> Some 409
      | _ \<Rightarrow> None)"

definition reject_status :: "pipeline_error \<Rightarrow> int option" where
  "reject_status e = (if e = QueueError DuplicateApproverError then None else approve_status e)"

definition refused :: "int option \<Rightarrow> string \<Rightarrow> http_exn" where
  "refused status detail =
     (case status of None \<Rightarrow> Uncaught (Exn ''Exception'' detail) | Some n \<Rightarrow> HTTPException n detail)"

definition approvals_approve :: "string \<Rightarrow> string \<Rightarrow> string option \<Rightarrow> pipeline \<Rightarrow>
    (http_exn, response, pipeline) outcome" where
  "approvals_approve action_id decided_by tenant_id p =
     (case approve_action action_id decided_by tenant_id p of
        (Inl e, p') \<Rightarrow>
          (Inl (refused (approve_status e) (refusal_detail ''approve'' action_id decided_by p e)), p')
      | (Inr a, p') \<Rightarrow> (Inr (200, action_view a p'), p'))"

definition approvals_reject :: "string \<Rightarrow> string \<Rightarrow> string \<Rightarrow> string option \<Rightarrow> pipeline \<Rightarrow>
    (http_exn, response, pipeline) outcome" where
  "approvals_reject action_id reason decided_by tenant_id p =
     (case reject_action action_id reason decided_by tenant_id p of
        (Inl e, p') \<Rightarrow>
          (Inl (refused (reject_status e) (refusal_detail ''reject'' action_id decided_by p e)), p')
      | (Inr a, p') \<Rightarrow> (Inr (200, action_view a p'), p'))"

definition actions_get :: "string \<Rightarrow> string option \<Rightarrow> pipeline \<Rightarrow> http_exn + response" where
  "actions_get action_id tenant_id p =
     (case get_action action_id tenant_id p of
        Inl e \<Rightarrow> Inl (HTTPException 404 (refusal_detail ''get'' action_id [] p e))
      | Inr a \<Rightarrow> Inr (200, action_view a p))"

text \<open>
  The requests as they come in: the parameters with their defaults, the framework's bounds,
  the answer and the pipeline afterwards.
\<close>

definition http_approve :: "json list \<Rightarrow> string \<Rightarrow> string option \<Rightarrow> string option \<Rightarrow> pipeline \<Rightarrow>
    response \<times> pipeline" where
  "http_approve errors action_id decided_by tenant_id p =
     (let v = (case decided_by of None \<Rightarrow> ''api'' | Some v \<Rightarrow> v)
      in if \<not> len_within 1 128 v \<or> \<not> tenant_opt_ok tenant_id then (unprocessable errors, p)
         else let (r, p') = approvals_approve action_id v tenant_id p in (http_answer r, p'))"

definition http_reject :: "json list \<Rightarrow> string \<Rightarrow> string option \<Rightarrow> string option \<Rightarrow> string option \<Rightarrow>
    pipeline \<Rightarrow> response \<times> pipeline" where
  "http_reject errors action_id reason decided_by tenant_id p =
     (let v = (case decided_by of None \<Rightarrow> ''api'' | Some v \<Rightarrow> v);
          why = (case reason of None \<Rightarrow> [] | Some r \<Rightarrow> r)
      in if \<not> len_within 1 128 v \<or> \<not> tenant_opt_ok tenant_id \<or> 2048 < length why
         then (unprocessable errors, p)
         else let (r, p') = approvals_reject action_id why v tenant_id p in (http_answer r, p'))"

definition http_get_action :: "json list \<Rightarrow> string \<Rightarrow> string option \<Rightarrow> pipeline \<Rightarrow> response" where
  "http_get_action errors action_id tenant_id p =
     (if \<not> tenant_opt_ok tenant_id then unprocessable errors
      else http_answer (actions_get action_id tenant_id p))"

section \<open>Meta routes\<close>

definition oa_root :: "environ \<Rightarrow> (llm_sdk \<Rightarrow> bool) \<Rightarrow> orchestrator_app \<Rightarrow> dict" where
  "oa_root env installed s =
     [(''service'', JStr ''orchestrator''), (''version'', JStr ''0.2.0''),
      (''llm_mode'', JStr (llm_mode env installed)), (''status'', JStr ''mvp''),
      (''phase'', JStr ''2-mvp-build''), (''listener_mode'', JStr (oa_listener_mode s))]"

definition oa_info :: "environ \<Rightarrow> string option \<Rightarrow> dict" where
  "oa_info env tracing_mode = (''service'', JStr ''orchestrator'') # build_info env tracing_mode"

text \<open>\<open>pg\<close> and \<open>redis\<close> are what the two probes raise, if they do.\<close>

definition oa_readyz :: "environ \<Rightarrow> py_exn option \<Rightarrow> py_exn option \<Rightarrow> orchestrator_app \<Rightarrow> response" where
  "oa_readyz env pg redis s =
     (let wanted = filter (\<lambda>(name, url, r). url \<noteq> [])
            [(''postgres'', env_strip env ''DATABASE_URL'', pg), (''redis'', env_strip env ''REDIS_URL'', redis)];
          probed = List.map_filter (\<lambda>(name, url, r). case r of None \<Rightarrow> Some (name, JStr ''ok'') | Some e \<Rightarrow> None) wanted;
          failures = List.map_filter (\<lambda>(name, url, r). map_option (\<lambda>e. (name, JStr (exn_text e))) r) wanted
      in if failures \<noteq> [] then
           (503, [(''status'', JStr ''not_ready''), (''datastores_probed'', JBool True),
                  (''probed'', JObj probed), (''failures'', JObj failures),
                  (''listener_mode'', JStr (oa_listener_mode s))])
         else
           (200, [(''status'', JStr ''ready''), (''datastores_probed'', JBool (probed \<noteq> [])),
                  (''probed'', JObj probed), (''listener_mode'', JStr (oa_listener_mode s))]))"

end
