(* ===== verification/Orchestrator_Api_Spec.thy ===== *)
theory Orchestrator_Api_Spec
  imports Orchestrator_Api
begin

text \<open>
  What the HTTP surface of the orchestrator promises: in every reachable state the status of a
  vote is determined by the state it met, a refusal changes nothing, an accepted vote is recorded and answered with the action as stored, and however
  the process is wired and rewired, an announcement reaches it at most once.
\<close>

section \<open>Votes\<close>

text \<open>The status of a vote (or a veto) on the state it meets.\<close>

definition vote_status :: "bool \<Rightarrow> string \<Rightarrow> string \<Rightarrow> string option \<Rightarrow> pipeline \<Rightarrow> int" where
  "vote_status veto aid v t p =
     (case (get_action aid t p, p_approval_rule aid p) of
        (Inr a, Some r) \<Rightarrow>
          if ar_state r \<noteq> ''pending'' then 409
          else if \<not> may_vote v r then 403
          else if \<not> veto \<and> v \<in> set (ar_approvals r) then 409
          else 200
      | _ \<Rightarrow> 404)"

definition bounds_ok :: "string \<Rightarrow> string option \<Rightarrow> bool" where
  "bounds_ok v t \<longleftrightarrow> len_within 1 128 v \<and> tenant_opt_ok t"

definition untouched :: "pipeline \<Rightarrow> pipeline \<Rightarrow> bool" where
  \<comment> \<open>nothing but the clock has moved\<close>
  "untouched p p' \<longleftrightarrow> p' = p \<or> p' = snd (p_now p)"

lemma eligible_may_vote: "check_eligible r (Some v) \<longleftrightarrow> may_vote v r"
  by (simp add: check_eligible_def may_vote_def split: option.split)

lemma same_queue: "snd (p_now p)\<lparr>p_queue := p_queue p\<rparr> = snd (p_now p)"
  by (simp add: p_now_def case_prod_beta Let_def)

text \<open>After the queue has accepted a vote, only the audit contract can raise.\<close>

lemma write_audit_raises: "p_write_audit k a by v d p = (Inl e, p') \<Longrightarrow> e = ValidationError"
  by (auto simp: p_write_audit_def Let_def case_prod_beta split: if_splits)

lemma andThen_raises: "andThen r f = (Inl e, s) \<Longrightarrow>
    r = (Inl e, s) \<or> (\<exists>x s'. r = (Inr x, s') \<and> f x s' = (Inl e, s))"
  by (auto simp: andThen_def split: prod.splits sum.splits)

lemma execute_raises: "p_execute a p = (Inl e, p') \<Longrightarrow> e = ValidationError"
  by (auto simp: p_execute_def Let_def case_prod_beta split: sum.splits py_exn.splits
      dest!: andThen_raises write_audit_raises)

lemma approve_http_refusals:
  assumes "approve_action aid v t p = (Inl e, p')" and "e \<noteq> ValidationError"
  shows "approve_status e = Some (vote_status False aid v t p) \<and> untouched p p'"
proof (cases "get_action aid t p")
  case (Inl e')
  then have "e = ActionNotFoundError \<and> p' = p"
    using assms(1) by (auto simp: get_action_def approve_action_def split: option.splits if_splits)
  with Inl show ?thesis by (simp add: vote_status_def approve_status_def untouched_def)
next
  case (Inr a)
  then have a: "as_get aid (p_actions p) = Some a" "tenant_guard t a"
    by (auto simp: get_action_def split: option.splits if_splits)
  let ?r = "aq_approve (fst (p_now p)) aid (Some v) (p_queue p)"
  show ?thesis
  proof (cases "fst ?r")
    case (Inl f)
    then have q: "snd ?r = p_queue p" by (rule vq.approve_raises)
    have e: "e = QueueError f" "p' = snd (p_now p)"
      using assms(1) a Inl q by (auto simp: approve_action_def case_prod_beta Let_def same_queue)
    show ?thesis
      using Inl Inr e
      by (auto simp: vote_status_def approve_status_def untouched_def p_approval_rule_def aq_get_def
          aq_approve_def require_pending_def eligible_may_vote Let_def case_prod_beta
          split: option.splits if_splits)
  next
    case (Inr rule)
    with assms(1,2) a show ?thesis
      by (auto simp: approve_action_def case_prod_beta Let_def split: if_splits
          dest!: andThen_raises write_audit_raises execute_raises)
  qed
qed

lemma reject_refusals:
  assumes "reject_action aid reason v t p = (Inl e, p')" and "e \<noteq> ValidationError"
  shows "reject_status e = Some (vote_status True aid v t p) \<and> untouched p p'"
proof (cases "get_action aid t p")
  case (Inl e')
  then have "e = ActionNotFoundError \<and> p' = p"
    using assms(1) by (auto simp: get_action_def reject_action_def split: option.splits if_splits)
  with Inl show ?thesis
    by (simp add: vote_status_def reject_status_def approve_status_def untouched_def)
next
  case (Inr a)
  then have a: "as_get aid (p_actions p) = Some a" "tenant_guard t a"
    by (auto simp: get_action_def split: option.splits if_splits)
  let ?r = "aq_reject (fst (p_now p)) aid reason (Some v) (p_queue p)"
  show ?thesis
  proof (cases "fst ?r")
    case (Inl f)
    then have q: "snd ?r = p_queue p" by (rule vq.reject_raises)
    have e: "e = QueueError f" "p' = snd (p_now p)"
      using assms(1) a Inl q by (auto simp: reject_action_def case_prod_beta Let_def same_queue)
    show ?thesis
      using Inl Inr e
      by (auto simp: vote_status_def reject_status_def approve_status_def untouched_def
          p_approval_rule_def aq_get_def aq_reject_def require_pending_def eligible_may_vote Let_def
          case_prod_beta split: option.splits if_splits)
  next
    case (Inr rule)
    with assms(1,2) a show ?thesis
      by (auto simp: reject_action_def case_prod_beta Let_def
          dest!: andThen_raises write_audit_raises)
  qed
qed

text \<open>What an accepted vote leaves.\<close>

definition voted :: "string \<Rightarrow> string \<Rightarrow> string option \<Rightarrow> pipeline \<Rightarrow> pipeline \<Rightarrow> action \<Rightarrow> bool" where
  "voted aid v t p p' a' \<longleftrightarrow>
     (\<exists>a r r'. get_action aid t p = Inr a \<and> p_approval_rule aid p = Some r \<and>
        get_action aid t p' = Inr a' \<and> same_ident a a' \<and> p_approval_rule aid p' = Some r' \<and>
        ar_approvals r' = ar_approvals r @ [v] \<and>
        (if ar_required_approvals r \<le> int (length (ar_approvals r)) + 1
         then ar_state r' = ''approved'' \<and> a_status a' \<in> {EXECUTED, EXECUTION_FAILED}
         else ar_state r' = ''pending'' \<and> a' = a))"

definition vetoed :: "string \<Rightarrow> string option \<Rightarrow> pipeline \<Rightarrow> pipeline \<Rightarrow> action \<Rightarrow> bool" where
  "vetoed aid t p p' a' \<longleftrightarrow>
     (\<exists>a r'. get_action aid t p = Inr a \<and> get_action aid t p' = Inr a' \<and> same_ident a a' \<and>
        a_status a' = REJECTED \<and> p_approval_rule aid p' = Some r' \<and> ar_state r' = ''rejected'')"

lemma guard_same_ident: "tenant_guard t a \<Longrightarrow> same_ident a a' \<Longrightarrow> tenant_guard t a'"
  by (simp add: tenant_guard_def same_ident_def split: option.splits)

lemma get_action_ok: "get_action aid t p = Inr a \<longleftrightarrow> store p aid = Some a \<and> tenant_guard t a"
  by (auto simp: get_action_def as_get_def split: option.splits)

lemma row_of [simp]: "p_approval_rule aid p = queue_rows p aid"
  by (simp add: p_approval_rule_def aq_get_def)

lemma row_step_votes:
  assumes "row_step r r'" "ar_approvals r' = ar_approvals r @ [v]"
  shows "ar_state r = ''pending'' \<and> may_vote v r \<and> v \<notin> set (ar_approvals r) \<and>
    (ar_state r' = ''approved'' \<longleftrightarrow> ar_required_approvals r \<le> int (length (ar_approvals r)) + 1) \<and>
    (ar_state r' = ''approved'' \<or> ar_state r' = ''pending'')"
  using assms by (auto elim!: row_step.cases)

lemma approve_outcome:
  assumes inv: "pipe_inv p" and len: "length v \<le> 128"
  obtains (refused) e p' where "approve_action aid v t p = (Inl e, p')"
      "approve_status e = Some (vote_status False aid v t p)" "untouched p p'"
      "vote_status False aid v t p \<noteq> 200"
  | (accepted) a' p' where "approve_action aid v t p = (Inr a', p')"
      "vote_status False aid v t p = 200" "voted aid v t p p' a'"
proof (cases rule: approve_cases_inv [OF inv len inv, of aid t "[]", case_names refused partial executed])
  case (refused e p')
  from approve_http_refusals [OF refused(1,5)] that(1) [OF refused(1)] show thesis
    by (auto simp: approve_status_def split: pipeline_error.splits approval_error.splits)
next
  case x: (partial a r r' e p')
  note votes = row_step_votes [OF x(4,6)]
  show thesis
    by (rule that(2) [OF x(8)])
       (use x(1-3) votes in \<open>simp add: vote_status_def get_action_ok [THEN iffD2]\<close>,
        use x(1-6,10,11) votes in \<open>auto simp: voted_def get_action_ok\<close>)
next
  case x: (executed a r r' a' e f p')
  note votes = row_step_votes [OF x(4,6)]
  show thesis
    by (rule that(2) [OF x(8)])
       (use x(1-3) votes in \<open>simp add: vote_status_def get_action_ok [THEN iffD2]\<close>,
        use x(1-6,10-13) votes guard_same_ident [OF x(2,12)] in
          \<open>auto simp: voted_def get_action_ok executed_ok_def\<close>)
qed

lemma reject_eligible:
  assumes "reject_action aid reason v t p = (Inr a, p')" "queue_rows p aid = Some r"
  shows "may_vote v r"
proof (rule ccontr)
  assume "\<not> may_vote v r"
  then have "\<exists>e. fst (aq_reject s aid reason (Some v) (p_queue p)) = Inl e" for s
    using assms(2) by (auto simp: aq_reject_def require_pending_def eligible_may_vote split: if_splits)
  then obtain e where "fst (aq_reject (fst (p_now p)) aid reason (Some v) (p_queue p)) = Inl e" by blast
  with assms(1) show False
    by (auto simp: reject_action_def Let_def case_prod_beta split: option.splits if_splits)
qed

lemma reject_outcome:
  assumes inv: "pipe_inv p" and len: "length v \<le> 128"
  obtains (refused) e p' where "reject_action aid reason v t p = (Inl e, p')"
      "reject_status e = Some (vote_status True aid v t p)" "untouched p p'"
      "vote_status True aid v t p \<noteq> 200"
  | (accepted) a' p' where "reject_action aid reason v t p = (Inr a', p')"
      "vote_status True aid v t p = 200" "vetoed aid t p p' a'"
proof (cases rule: reject_cases_inv [OF inv len inv, of aid reason t "[]", case_names refused rejected])
  case (refused e p')
  from reject_refusals [OF refused(1,5)] that(1) [OF refused(1)] show thesis
    by (auto simp: reject_status_def approve_status_def
        split: pipeline_error.splits approval_error.splits if_splits)
next
  case x: (rejected a r r' s e p')
  have "ar_state r = ''pending''" by (rule row_step_from_pending [OF x(4)])
  with x(1-3) reject_eligible [OF x(8,3)] have "vote_status True aid v t p = 200"
    by (simp add: vote_status_def get_action_ok [THEN iffD2])
  moreover have "same_ident a (set_status REJECTED s a)" by simp
  ultimately show thesis
    by (intro that(2) [OF x(8)])
       (use x(1-5,10,11) guard_same_ident [OF x(2)] in \<open>auto simp: vetoed_def get_action_ok\<close>)
qed

section \<open>Properties of the routes\<close>

definition or_api :: "string option \<Rightarrow> string" where
  \<comment> \<open>the default of \<open>decided_by\<close>\<close>
  "or_api v = (case v of None \<Rightarrow> ''api'' | Some v \<Rightarrow> v)"

text \<open>
  C13. The approve route answers every request in every state reached by calls with valid proposals
  and names of at most 128 characters, never with a 500.  It is 422 for parameters out of bounds,
  and else by the state met: 404 without such an action of the tenant or without a row, 409 for a
  resolved row (the docstring of \<open>approvals_approve\<close> lists that state under 404 too), 403 for somebody outside
  the pool, 409 for a second vote, and otherwise 200.  Any other answer than
  200 leaves all but the clock untouched; with 200 the vote stands in the row, the action is
  executed exactly when the vote completed the quorum, and the body is the action as stored.
\<close>

theorem approve_route_answers:
  assumes "run_ok cs (make_pipeline ex w)" and "p = p_run cs (make_pipeline ex w)"
    and "http_approve errors aid decided_by t p = ((status, body), p')" and "v = or_api decided_by"
  shows "status = (if bounds_ok v t then vote_status False aid v t p else 422) \<and>
    (status \<noteq> 200 \<longrightarrow> untouched p p') \<and>
    (status = 200 \<longrightarrow> (\<exists>a'. voted aid v t p p' a' \<and> body = action_view a' p'))"
proof -
  have inv: "pipe_inv p" using reachable_inv [OF assms(1)] assms(2) by simp
  have http: "http_approve errors aid decided_by t p =
      (if \<not> bounds_ok v t then (unprocessable errors, p)
       else (http_answer (fst (approvals_approve aid v t p)), snd (approvals_approve aid v t p)))"
    by (simp add: http_approve_def bounds_ok_def assms(4) or_api_def Let_def case_prod_beta)
  show ?thesis
  proof (cases "bounds_ok v t")
    case False
    with assms(3) show ?thesis by (auto simp: http unprocessable_def untouched_def)
  next
    case True
    then have "length v \<le> 128" by (simp add: bounds_ok_def len_within_def)
    then show ?thesis
      by (rule approve_outcome [OF inv, of v aid t])
         (use True assms(3) in \<open>auto simp: http approvals_approve_def refused_def http_answer_def\<close>)
  qed
qed

text \<open>
  The reject route likewise: 422, 404, 409 and 403 as for a vote, with nothing changed but
  the clock, and 200 for everybody in the pool, also after a vote of his own; then the row is
  rejected whatever votes it had, and the body is the rejected action.
\<close>

theorem reject_route_answers:
  assumes "run_ok cs (make_pipeline ex w)" and "p = p_run cs (make_pipeline ex w)"
    and "http_reject errors aid reason decided_by t p = ((status, body), p')" and "v = or_api decided_by"
  shows "status = (if bounds_ok v t \<and> opt_max 2048 reason then vote_status True aid v t p else 422) \<and>
    (status \<noteq> 200 \<longrightarrow> untouched p p') \<and>
    (status = 200 \<longrightarrow> (\<exists>a'. vetoed aid t p p' a' \<and> body = action_view a' p'))"
proof -
  have inv: "pipe_inv p" using reachable_inv [OF assms(1)] assms(2) by simp
  let ?ok = "bounds_ok v t \<and> opt_max 2048 reason"
  let ?r = "approvals_reject aid (case reason of None \<Rightarrow> [] | Some r \<Rightarrow> r) v t p"
  have http: "http_reject errors aid reason decided_by t p =
      (if \<not> ?ok then (unprocessable errors, p) else (http_answer (fst ?r), snd ?r))"
    by (cases reason) (auto simp: http_reject_def bounds_ok_def opt_max_def assms(4) or_api_def Let_def case_prod_beta)
  show ?thesis
  proof (cases ?ok)
    case False
    with assms(3) show ?thesis by (auto simp: http unprocessable_def untouched_def)
  next
    case True
    then have "length v \<le> 128" by (simp add: bounds_ok_def len_within_def)
    then show ?thesis
      by (rule reject_outcome [OF inv, of v aid "case reason of None \<Rightarrow> [] | Some r \<Rightarrow> r" t])
         (use True assms(3) in \<open>auto simp: http approvals_reject_def refused_def http_answer_def\<close>)
  qed
qed

lemma demo_request:
  obtains r where "get_action demo_action (Some ''acme'') (p_run [HandleProposal demo_event] (make_pipeline None demo_world)) \<noteq> Inl ActionNotFoundError"
    "p_approval_rule demo_action (p_run [HandleProposal demo_event] (make_pipeline None demo_world)) = Some r"
    "ar_state r = ''pending''" "ar_approvals r = []" "ar_eligible_approvers r = None"
    "get_action demo_action (Some ''other'') (p_run [HandleProposal demo_event] (make_pipeline None demo_world)) = Inl ActionNotFoundError"
    "run_ok [HandleProposal demo_event] (make_pipeline None demo_world)"
proof (rule demo_pending)
  let ?p = "p_run [HandleProposal demo_event] (make_pipeline None demo_world)"
  have ok: "run_ok [HandleProposal demo_event] (make_pipeline None demo_world)"
    by (rule demo_run_ok) simp_all
  fix a r
  assume "store ?p demo_action = Some a" "a_tenant_id a = ''acme''"
    and "queue_rows ?p demo_action = Some r" "ar_state r = ''pending''" "ar_approvals r = []"
    "ar_eligible_approvers r = None"
  then show thesis
    by (intro that [of r]) (use ok in \<open>simp_all add: get_action_def as_get_def tenant_guard_def del: fold_simps\<close>)
qed

theorem approve_route_answers_witness:
  "\<exists>a p'. http_approve [] demo_action (Some ''ann'') (Some ''acme'')
      (p_run [HandleProposal demo_event] (make_pipeline None demo_world)) = ((200, action_view a p'), p')"
proof (rule demo_request)
  let ?p = "p_run [HandleProposal demo_event] (make_pipeline None demo_world)"
  fix r
  assume a: "get_action demo_action (Some ''acme'') ?p \<noteq> Inl ActionNotFoundError"
    and r: "p_approval_rule demo_action ?p = Some r" "ar_state r = ''pending''" "ar_approvals r = []"
      "ar_eligible_approvers r = None"
    and ok: "run_ok [HandleProposal demo_event] (make_pipeline None demo_world)"
  obtain status body p' where h:
    "http_approve [] demo_action (Some ''ann'') (Some ''acme'') ?p = ((status, body), p')"
    by (metis prod.exhaust)
  from a have "\<exists>x. get_action demo_action (Some ''acme'') ?p = Inr x"
    by (auto simp: get_action_def split: option.splits if_splits)
  with r have "vote_status False demo_action ''ann'' (Some ''acme'') ?p = 200"
    by (auto simp: vote_status_def may_vote_def simp del: fold_simps row_of)
  with approve_route_answers [OF ok refl h refl] h show ?thesis
    by (auto simp: or_api_def bounds_ok_def len_within_def tenant_opt_ok_def tenant_ok_def simp del: fold_simps)
qed

theorem reject_route_answers_witness:
  "\<exists>body p'. http_reject [] demo_action None None (Some ''other'')
      (p_run [HandleProposal demo_event] (make_pipeline None demo_world)) = ((404, body), p') \<and>
    untouched (p_run [HandleProposal demo_event] (make_pipeline None demo_world)) p'"
proof (rule demo_request)
  let ?p = "p_run [HandleProposal demo_event] (make_pipeline None demo_world)"
  assume a: "get_action demo_action (Some ''other'') ?p = Inl ActionNotFoundError"
    and ok: "run_ok [HandleProposal demo_event] (make_pipeline None demo_world)"
  obtain status body p' where h:
    "http_reject [] demo_action None None (Some ''other'') ?p = ((status, body), p')"
    by (metis prod.exhaust)
  have "vote_status True demo_action ''api'' (Some ''other'') ?p = 404"
    using a by (simp add: vote_status_def del: fold_simps)
  with reject_route_answers [OF ok refl h refl] h show ?thesis
    by (auto simp: or_api_def bounds_ok_def len_within_def tenant_opt_ok_def tenant_ok_def simp del: fold_simps)
qed

text \<open>
  C14. To a tenant, another tenant's action looks exactly like one that does not exist: reading
  it, voting on it and rejecting it are all answered by the same 404, whose text is made of the
  id of the request alone, and nothing changes, not even the clock is read.
\<close>

theorem foreign_action_looks_missing:
  assumes "\<forall>a. get_action aid None p = Inr a \<longrightarrow> a_tenant_id a \<noteq> t"
    and "len_within 1 64 t" and "len_within 1 128 v" and "length reason \<le> 2048"
    and "missing = (404, [(''detail'', JStr (''no action with id='' @ py_repr_str aid))])"
  shows "http_get_action errors aid (Some t) p = missing \<and>
    http_approve errors aid (Some v) (Some t) p = (missing, p) \<and>
    http_reject errors aid (Some reason) (Some v) (Some t) p = (missing, p)"
proof -
  have none: "get_action aid (Some t) p = Inl ActionNotFoundError"
    using assms(1) by (auto simp: get_action_def tenant_guard_def split: option.splits)
  then have "approve_action aid v (Some t) p = (Inl ActionNotFoundError, p)"
    "reject_action aid reason v (Some t) p = (Inl ActionNotFoundError, p)"
    by (auto simp: get_action_def approve_action_def reject_action_def split: option.splits if_splits)
  with none show ?thesis
    using assms(2-5)
    by (simp add: http_get_action_def http_approve_def http_reject_def tenant_opt_ok_def tenant_ok_def
        actions_get_def approvals_approve_def approvals_reject_def refusal_detail_def http_answer_def
        refused_def reject_status_def approve_status_def)
qed

theorem foreign_action_looks_missing_witness:
  "http_get_action [] demo_action (Some ''other'')
      (p_run [HandleProposal demo_event] (make_pipeline None demo_world)) =
    (404, [(''detail'', JStr (''no action with id='' @ py_repr_str demo_action))])"
proof (rule demo_pending)
  let ?p = "p_run [HandleProposal demo_event] (make_pipeline None demo_world)"
  fix a assume "store ?p demo_action = Some a" "a_tenant_id a = ''acme''"
  then have "\<forall>b. get_action demo_action None ?p = Inr b \<longrightarrow> a_tenant_id b \<noteq> ''other''"
    by (simp add: get_action_stored del: fold_simps)
  from foreign_action_looks_missing [OF this, of "''v''" "[]"] show ?thesis
    by (simp add: len_within_def)
qed

section \<open>Wiring\<close>

text \<open>What a process and its tests do with the listener.\<close>

datatype app_call =
    Attach nat
  | Startup environ
  | Shutdown
  | ResetForTests

fun app_step :: "app_call \<Rightarrow> orchestrator_app \<Rightarrow> orchestrator_app" where
  "app_step (Attach i) s = attach_in_memory_bus i s"
| "app_step (Startup env) s = lifespan_start env s"
| "app_step Shutdown s = lifespan_stop s"
| "app_step ResetForTests s = reset_listener_for_tests s"

definition own_callbacks :: "orchestrator_app \<Rightarrow> nat \<Rightarrow> nat list" where
  "own_callbacks s i =
     (case oa_listener s of
        Some (OnBus j l) \<Rightarrow> if i = j then (case el_callback l of None \<Rightarrow> [] | Some cb \<Rightarrow> [cb]) else []
      | _ \<Rightarrow> [])"

definition wired_inv :: "orchestrator_app \<Rightarrow> bool" where
  "wired_inv s \<longleftrightarrow>
     (\<forall>i. eb_subscribers (oa_buses s i) = own_callbacks s i \<and>
        (\<forall>c \<in> set (own_callbacks s i). c < oa_callbacks s))"

lemma stop_fields [simp]:
  "oa_callbacks (stop_listener s) = oa_callbacks s"
  "oa_listener_mode (stop_listener s) = oa_listener_mode s"
  "own_callbacks (stop_listener s) i = []"
  by (auto simp: stop_listener_def own_callbacks_def Let_def case_prod_beta el_stop_def
      split: option.split listener.split)

lemma stop_subscribers:
  assumes "wired_inv s"
  shows "eb_subscribers (oa_buses (stop_listener s) i) = []"
proof -
  have subs: "eb_subscribers (oa_buses s i) = own_callbacks s i" using assms by (simp add: wired_inv_def)
  show ?thesis
  proof (cases "oa_listener s")
    case None
    with subs show ?thesis by (simp add: stop_listener_def own_callbacks_def)
  next
    case (Some l)
    show ?thesis
    proof (cases l)
      case (OnBus j el)
      with Some subs show ?thesis
        by (cases "el_callback el"; cases "i = j")
           (simp_all add: stop_listener_def own_callbacks_def el_stop_def eb_unsubscribe_def)
    next
      case (OnRedis rl)
      with Some subs show ?thesis by (simp add: stop_listener_def own_callbacks_def)
    qed
  qed
qed

lemma wired_stop: "wired_inv s \<Longrightarrow> wired_inv (stop_listener s)"
  using stop_subscribers [of s] by (simp add: wired_inv_def)

lemma attach_fields:
  "oa_listener (attach_in_memory_bus i s) = Some (OnBus i \<lparr>el_callback = Some (oa_callbacks s)\<rparr>)"
  "oa_callbacks (attach_in_memory_bus i s) = Suc (oa_callbacks s)"
  "oa_buses (attach_in_memory_bus i s) =
     (oa_buses (stop_listener s))(i := eb_subscribe (oa_callbacks s) (oa_buses (stop_listener s) i))"
  by (simp_all add: attach_in_memory_bus_def el_start_def el_new_def Let_def)

lemma wired_attach:
  assumes "wired_inv s"
  shows "wired_inv (attach_in_memory_bus i s)"
proof -
  note subs = stop_subscribers [OF assms]
  have "eb_subscribers (eb_subscribe c (oa_buses (stop_listener s) i)) = [c]" for c
    using subs [of i] by (simp add: eb_subscribe_def)
  moreover have "own_callbacks (attach_in_memory_bus i s) j = (if j = i then [oa_callbacks s] else [])" for j
    by (simp add: own_callbacks_def attach_fields)
  ultimately show ?thesis
    unfolding wired_inv_def attach_fields using subs by (intro allI conjI) (simp_all split: if_split)
qed

lemma wired_inv_same:
  "wired_inv s \<Longrightarrow> oa_buses s' = oa_buses s \<Longrightarrow> oa_callbacks s' = oa_callbacks s \<Longrightarrow>
   own_callbacks s' = own_callbacks s \<Longrightarrow> wired_inv s'"
  by (simp add: wired_inv_def)

lemma wired_step: "wired_inv s \<Longrightarrow> wired_inv (app_step c s)"
proof (cases c)
  case (Startup env)
  assume "wired_inv s"
  then show ?thesis unfolding Startup app_step.simps
    by (rule wired_inv_same)
       (auto simp: lifespan_start_def build_default_listener_def own_callbacks_def fun_eq_iff
        split: option.splits listener.splits if_splits)
next
  case ResetForTests
  assume inv: "wired_inv s"
  show ?thesis
  proof (cases "oa_listener s")
    case None
    show ?thesis unfolding ResetForTests app_step.simps
      by (rule wired_inv_same [OF inv])
         (auto simp: reset_listener_for_tests_def None own_callbacks_def fun_eq_iff Let_def)
  next
    case (Some l)
    have "own_callbacks (reset_listener_for_tests s) = own_callbacks (stop_listener s)"
      by (rule ext) (simp, simp add: own_callbacks_def reset_listener_for_tests_def Some Let_def)
    then show ?thesis unfolding ResetForTests app_step.simps
      by (intro wired_inv_same [OF wired_stop [OF inv]])
         (simp_all add: reset_listener_for_tests_def Some Let_def)
  qed
qed (auto intro: wired_attach simp: lifespan_stop_def wired_stop)

lemma wired_run: "wired_inv s \<Longrightarrow> wired_inv (fold app_step cs s)"
  by (induction cs arbitrary: s) (auto intro: wired_step)

definition armed :: "nat \<Rightarrow> bool \<Rightarrow> orchestrator_app \<Rightarrow> bool" where
  "armed j live s \<longleftrightarrow> oa_listener_mode s = ''in-memory'' \<and>
     (\<exists>l. oa_listener s = Some (OnBus j l) \<and> (el_callback l \<noteq> None) = live)"

lemma armed_attach: "armed j True (attach_in_memory_bus j s)"
  by (simp add: armed_def attach_in_memory_bus_def el_start_def el_new_def Let_def)

lemma armed_after:
  "armed j live s \<Longrightarrow> \<forall>c \<in> set cs. \<exists>env. c = Startup env \<or> c = Shutdown \<Longrightarrow>
   armed j (live \<and> Shutdown \<notin> set cs) (fold app_step cs s)"
proof (induction cs arbitrary: s live)
  case (Cons c cs)
  from Cons.prems(2) consider env where "c = Startup env" | "c = Shutdown" by auto
  then have "armed j (live \<and> c \<noteq> Shutdown) (app_step c s)"
    by cases (use Cons.prems(1) in \<open>auto simp: armed_def lifespan_start_def lifespan_stop_def
      stop_listener_def el_stop_def split: option.splits\<close>)
  from Cons.IH [OF this] Cons.prems(2) show ?case by (cases c) auto
qed simp

text \<open>
  C19. However the process is wired, an event is handled at most once.  After any sequence of
  attachments, startups, shutdowns and resets, on buses nobody else listens to, let bus \<open>j\<close> be
  attached and then only startups and shutdowns follow: announcing on bus \<open>i\<close> runs the handler
  exactly once if \<open>i\<close> is \<open>j\<close> and no shutdown came, and otherwise not at all.  In particular a
  startup does not arm an attached listener again, although the mode it reports is still
  in-memory.
\<close>

theorem attached_once:
  assumes "\<forall>i. eb_subscribers (buses i) = []"
    and "s = fold app_step (before @ Attach j # after) (orchestrator_app_new core buses)"
    and "\<forall>c \<in> set after. \<exists>env. c = Startup env \<or> c = Shutdown"
    and "\<forall>cb. run cb = (\<lambda>channel. handler)"
  shows "oa_listener_mode s = ''in-memory'' \<and>
    snd (snd (eb_publish run channel envelope (oa_buses s i, x))) =
      (if i = j \<and> Shutdown \<notin> set after then snd (handler envelope x) else x)"
proof -
  have "wired_inv (orchestrator_app_new core buses)"
    using assms(1) by (simp add: wired_inv_def own_callbacks_def orchestrator_app_new_def)
  then have inv: "wired_inv s" unfolding assms(2) by (rule wired_run)
  have "armed j (Shutdown \<notin> set after) s"
    using armed_after [OF armed_attach assms(3)] by (simp add: assms(2))
  then obtain l where l: "oa_listener_mode s = ''in-memory''" "oa_listener s = Some (OnBus j l)"
    "(el_callback l \<noteq> None) = (Shutdown \<notin> set after)" by (auto simp: armed_def)
  from inv have "eb_subscribers (oa_buses s i) = own_callbacks s i" by (simp add: wired_inv_def)
  with l assms(4) show ?thesis
    by (cases "el_callback l") (auto simp: own_callbacks_def eb_publish_def Let_def)
qed

theorem attached_once_witness:
  "snd (snd (eb_publish (\<lambda>cb channel envelope n. (Inr (), Suc n)) ''c'' []
      (oa_buses (fold app_step [Attach 0, ResetForTests, Attach 1, Attach 1, Startup (\<lambda>_. None)]
        (orchestrator_app_new (orchestrator_new None demo_world) (\<lambda>_. eb_new))) 1, 0))) = 1 \<and>
   snd (snd (eb_publish (\<lambda>cb channel envelope n. (Inr (), Suc n)) ''c'' []
      (oa_buses (fold app_step [Attach 1, Shutdown, Startup (\<lambda>_. None)]
        (orchestrator_app_new (orchestrator_new None demo_world) (\<lambda>_. eb_new))) 1, 0))) = 0"
proof -
  let ?run = "\<lambda>(cb :: nat) (channel :: string) (envelope :: dict) n. (Inr () :: py_exn + unit, Suc n)"
  note once = attached_once [OF _ refl, of "\<lambda>_. eb_new", where run = ?run and
    handler = "\<lambda>envelope n. (Inr (), Suc n)" and j = 1 and i = 1 and channel = "''c''" and
    envelope = "[]" and core = "orchestrator_new None demo_world" and x = 0]
  show ?thesis
    using once [of "[Startup (\<lambda>_. None)]" "[Attach 0, ResetForTests, Attach 1]"]
      once [of "[Shutdown, Startup (\<lambda>_. None)]" "[]"]
    by (simp add: eb_new_def)
qed

end
