(* ===== verification/Approver_Data.thy ===== *)
theory Approver_Data
  imports Orchestrator_Api_Spec Floats
begin

text \<open>
  The adapter under the approver's dashboard, \<open>ui/approver_data.py\<close>: the panels as plain
  dictionaries, votes with their errors translated, and the seeding of demo data.  It keeps no
  state of its own and works on the pipeline of the orchestrator.
\<close>

section \<open>Errors\<close>

text \<open>\<open>ApproverActionError\<close>, and whatever else a call lets escape.\<close>

datatype approver_error =
    ApproverActionError string string
  | EscapedError pipeline_error

section \<open>Rows of the panels\<close>

definition action_to_panel_dict :: "pipeline \<Rightarrow> action \<Rightarrow> dict" where
  "action_to_panel_dict p a =
     [(''action_id'', JStr (a_id a)), (''tenant_id'', JStr (a_tenant_id a)),
      (''event_id'', JStr (a_event_id a)), (''customer_id'', json_opt (a_customer_id a)),
      (''action_type'', JStr (action_type_value (a_action_type a))),
      (''status'', JStr (action_status_value (a_status a))),
      (''reasoning'', dict_get_or (a_payload a) ''_planner_reasoning'' (JStr [])),
      (''created_at'', JStr (iso_stamp (a_created_at a))),
      (''updated_at'', JStr (iso_stamp (a_updated_at a))),
      (''approval_progress'', approval_progress a p)]"

definition audit_entry_to_dict :: "audit_entry \<Rightarrow> dict" where
  "audit_entry_to_dict e =
     [(''id'', case ae_id e of None \<Rightarrow> JNull | Some i \<Rightarrow> JInt i),
      (''kind'', JStr (audit_kind_value (ae_kind e))), (''tenant_id'', JStr (ae_tenant_id e)),
      (''action_id'', json_opt (ae_action_id e)), (''event_id'', json_opt (ae_caused_by_event_id e)),
      (''actor_kind'', JStr (audit_actor_kind_value (ae_actor_kind e))),
      (''actor_id'', json_opt (ae_actor_id e)), (''ts'', JStr (iso_stamp (ae_ts e))),
      (''payload'', JObj (ae_payload e))]"

definition action_to_detail_dict :: "pipeline \<Rightarrow> action \<Rightarrow> dict" where
  "action_to_detail_dict p a =
     (let base = action_to_panel_dict p a;
          base = dict_set ''audit_trail''
            (JList (map (\<lambda>e. JObj (audit_entry_to_dict e)) (audit_for_action (a_id a) p))) base
      in dict_set ''payload''
           (JObj (filter (\<lambda>(k, v). \<not> starts_with k ''_'') (a_payload a))) base)"

section \<open>Reading\<close>

definition list_tenants :: "pipeline \<Rightarrow> string list" where
  "list_tenants p =
     fold (\<lambda>e seen. if ae_tenant_id e \<in> set seen then seen else seen @ [ae_tenant_id e])
       (al_all_entries (p_audit p)) []"

definition list_pending :: "string \<Rightarrow> pipeline \<Rightarrow> dict list" where
  "list_pending tenant_id p = map (action_to_panel_dict p) (list_pending_actions tenant_id p)"

definition recent_audit :: "string \<Rightarrow> int \<Rightarrow> pipeline \<Rightarrow> dict list" where
  "recent_audit tenant_id limit p =
     map audit_entry_to_dict (py_take limit
       (sort_desc (<) (\<lambda>e. case ae_id e of None \<Rightarrow> 0 | Some i \<Rightarrow> i)
          (al_entries_for_tenant tenant_id (p_audit p))))"

definition get_action_detail :: "string \<Rightarrow> string \<Rightarrow> pipeline \<Rightarrow> dict option" where
  "get_action_detail action_id tenant_id p =
     (case get_action action_id (Some tenant_id) p of
        Inl e \<Rightarrow> None
      | Inr a \<Rightarrow> Some (action_to_detail_dict p a))"

section \<open>Votes\<close>

definition approve_category :: "pipeline_error \<Rightarrow> string option" where
  "approve_category e =
     (case e of
        ActionNotFoundError \<Rightarrow> Some ''not_found''
      | QueueError ApprovalNotFoundError \<Rightarrow> Some ''not_found''
      | QueueError ApprovalStateError \<Rightarrow> Some ''already_decided''
      | QueueError ApproverNotEligibleError \<Rightarrow> Some ''not_eligible''
      | QueueError DuplicateApproverError \<Rightarrow> Some ''duplicate_vote''
      | _ \<Rightarrow> None)"

definition reject_category :: "pipeline_error \<Rightarrow> string option" where
  "reject_category e = (if e = QueueError DuplicateApproverError then None else approve_category e)"

definition translated :: "string option \<Rightarrow> string \<Rightarrow> pipeline_error \<Rightarrow> approver_error" where
  "translated category message e =
     (case category of None \<Rightarrow> EscapedError e | Some c \<Rightarrow> ApproverActionError c message)"

definition ui_approve :: "string \<Rightarrow> string \<Rightarrow> string \<Rightarrow> pipeline \<Rightarrow>
    (approver_error, dict, pipeline) outcome" where
  "ui_approve action_id decided_by tenant_id p =
     (case approve_action action_id decided_by (Some tenant_id) p of
        (Inl e, p') \<Rightarrow>
          (Inl (translated (approve_category e) (refusal_detail ''approve'' action_id decided_by p e) e), p')
      | (Inr a, p') \<Rightarrow> (Inr (action_to_panel_dict p' a), p'))"

definition ui_reject :: "string \<Rightarrow> string \<Rightarrow> string \<Rightarrow> string \<Rightarrow> pipeline \<Rightarrow>
    (approver_error, dict, pipeline) outcome" where
  "ui_reject action_id decided_by tenant_id reason p =
     (case reject_action action_id reason decided_by (Some tenant_id) p of
        (Inl e, p') \<Rightarrow>
          (Inl (translated (reject_category e) (refusal_detail ''reject'' action_id decided_by p e) e), p')
      | (Inr a, p') \<Rightarrow> (Inr (action_to_panel_dict p' a), p'))"

section \<open>Demo data\<close>

definition demo_policies :: "(string \<times> (string \<times> json) list) list" where
  "demo_policies =
     [(''tenant_acme_bank'',
        [(''send_borrower_message'', JStr ''auto''), (''notify_loan_officer'', JStr ''approval_required''),
         (''request_document'', JStr ''approval_required'')]),
      (''tenant_globetrek_concierge'',
        [(''send_borrower_message'', JStr ''auto''), (''notify_loan_officer'', JStr ''auto''),
         (''request_document'', JStr ''approval_required'')]),
      (''tenant_jefferson_credit'',
        [(''send_borrower_message'', JStr ''auto''), (''notify_loan_officer'', JStr ''approval_required''),
         (''request_document'', JStr ''approval_required'')])]"

definition seed_row :: "string \<Rightarrow> string \<Rightarrow> string \<Rightarrow> string \<Rightarrow> action_type \<Rightarrow> proposed_by \<Rightarrow> string \<Rightarrow>
    pipeline \<Rightarrow> proposal \<times> pipeline" where
  \<comment> \<open>\<open>ActionProposal(...)\<close>, its \<open>created_at\<close> from the clock\<close>
  "seed_row pid tenant event customer a by reasoning p =
     (let (t, p') = p_now p
      in (\<lparr>pr_id = pid, pr_tenant_id = tenant, pr_event_id = event, pr_customer_id = Some customer,
           pr_action_type = a, pr_proposed_by = by,
           pr_payload = [(''_planner_reasoning'', JStr reasoning)], pr_created_at = t\<rparr>, p'))"

definition demo_proposals :: "pipeline \<Rightarrow> proposal list \<times> pipeline" where
  "demo_proposals p =
     (let (r1, p1) = seed_row ''pp_demo_acme_1'' ''tenant_acme_bank'' ''evt_demo_acme_1'' ''cus_jane_doe''
            SEND_BORROWER_MESSAGE LLM ''acknowledge paystub upload'' p;
          (r2, p2) = seed_row ''pp_demo_acme_2'' ''tenant_acme_bank'' ''evt_demo_acme_2'' ''cus_jane_doe''
            NOTIFY_LOAN_OFFICER LLM ''income verification anomaly above threshold'' p1;
          (r3, p3) = seed_row ''pp_demo_globe_1'' ''tenant_globetrek_concierge'' ''evt_demo_globe_1''
            ''cus_alex_traveler'' SEND_BORROWER_MESSAGE FALLBACK ''auto-reply to chat ping'' p2;
          (r4, p4) = seed_row ''pp_demo_jeff_1'' ''tenant_jefferson_credit'' ''evt_demo_jeff_1''
            ''cus_chris_borrower'' REQUEST_DOCUMENT LLM ''missing W-2 for prior year'' p3
      in ([r1, r2, r3, r4], p4))"

definition demo_configured :: "pipeline \<Rightarrow> pipeline" where
  "demo_configured p =
     (let p1 = fold (\<lambda>(t, tbl). p_call (SetPolicies t tbl)) demo_policies p
      in p_call (SetQuorum ''tenant_acme_bank'' NOTIFY_LOAN_OFFICER 2
           (Some [''compliance_alice'', ''risk_bob'', ''legal_carol''])) p1)"

fun handle_all :: "proposal list \<Rightarrow> pipeline \<Rightarrow> (pipeline_error, unit, pipeline) outcome" where
  "handle_all [] p = (Inr (), p)"
| "handle_all (pr # prs) p = andThen (handle_proposal pr p) (\<lambda>_ p'. handle_all prs p')"

definition seed_counts :: "pipeline \<Rightarrow> dict" where
  "seed_counts p =
     [(''pending'', JInt (int (card (dom (aq_by_id (p_queue p)))))),
      (''audit'', JInt (int (length (al_all_entries (p_audit p)))))]"

definition seed_demo_data :: "bool \<Rightarrow> pipeline \<Rightarrow> (pipeline_error, dict, pipeline) outcome" where
  "seed_demo_data force p =
     (if \<not> force \<and> al_all_entries (p_audit p) \<noteq> [] then
        (Inr ([(''seeded'', JBool False),
               (''reason'', JStr ''pipeline already contains data; pass force=True to reseed'')] @
              seed_counts p), p)
      else
        let p1 = (if force then p_clear p else p);
            (proposals, p2) = demo_proposals (demo_configured p1)
        in andThen (handle_all proposals p2) (\<lambda>_ p3.
             (Inr ([(''seeded'', JBool True), (''tenants'', strings (map fst demo_policies))] @
                   seed_counts p3), p3)))"

section \<open>The dashboard and the API\<close>

fun status_of_category :: "string \<Rightarrow> int" where
  "status_of_category c =
     (if c = ''not_found'' then 404 else if c = ''not_eligible'' then 403
      else if c = ''already_decided'' \<or> c = ''duplicate_vote'' then 409 else 500)"

definition panel_keys :: "string list" where
  "panel_keys = [''action_id'', ''tenant_id'', ''event_id'', ''customer_id'', ''action_type'', ''status'',
     ''reasoning'', ''created_at'', ''updated_at'', ''approval_progress'']"

definition same_answer :: "approver_error + dict \<Rightarrow> response \<Rightarrow> bool" where
  "same_answer u h \<longleftrightarrow>
     (case u of
        Inl (ApproverActionError c m) \<Rightarrow> h = (status_of_category c, [(''detail'', JStr m)])
      | Inl (EscapedError e) \<Rightarrow> False
      | Inr panel \<Rightarrow> fst h = 200 \<and> map fst panel = panel_keys \<and>
          list_all (\<lambda>k. map_of panel k = map_of (snd h) k) panel_keys)"

lemma panel_in_view: "same_answer (Inr (action_to_panel_dict p a)) (200, action_view a p)"
  by (simp add: same_answer_def panel_keys_def action_to_panel_dict_def action_view_def dict_pop_def Let_def)

lemma category_status:
  "approve_status e = Some n \<Longrightarrow> \<exists>c. approve_category e = Some c \<and> status_of_category c = n"
  "reject_status e = Some n \<Longrightarrow> \<exists>c. reject_category e = Some c \<and> status_of_category c = n"
proof -
  have approve: "\<exists>c. approve_category e = Some c \<and> status_of_category c = n" if "approve_status e = Some n"
  proof (cases e)
    case (QueueError q)
    with that show ?thesis by (cases q) (simp_all add: approve_status_def approve_category_def)
  qed (use that in \<open>simp_all add: approve_status_def approve_category_def\<close>)
  then show "approve_status e = Some n \<Longrightarrow> \<exists>c. approve_category e = Some c \<and> status_of_category c = n" .
  from approve show "reject_status e = Some n \<Longrightarrow> \<exists>c. reject_category e = Some c \<and> status_of_category c = n"
    by (cases "e = QueueError DuplicateApproverError") (simp_all add: reject_status_def reject_category_def)
qed

text \<open>
  C20. The dashboard and the HTTP API decide alike.  In every state reached by calls with valid
  proposals and names of at most 128 characters, with a tenant of 1 to 64, an approver of 1 to 128
  and a reason of at most 2048 characters (the API refuses others before it reads the state, the
  dashboard does not check), a vote through either ends in the same state; where the API
  refuses, the dashboard raises \<open>ApproverActionError\<close> with the category of that status and the
  same text, and no other exception; where the API answers 200, the dashboard returns a row, every
  field of which is that of the API's view.  The same holds for rejections.
\<close>

theorem dashboard_votes_like_api:
  assumes "run_ok cs (make_pipeline ex w)" and "p = p_run cs (make_pipeline ex w)"
    and "len_within 1 64 t" and "len_within 1 128 v" and "length reason \<le> 2048"
  shows "same_answer (fst (ui_approve aid v t p)) (fst (http_approve errors aid (Some v) (Some t) p)) \<and>
    snd (ui_approve aid v t p) = snd (http_approve errors aid (Some v) (Some t) p) \<and>
    same_answer (fst (ui_reject aid v t reason p)) (fst (http_reject errors aid (Some reason) (Some v) (Some t) p)) \<and>
    snd (ui_reject aid v t reason p) = snd (http_reject errors aid (Some reason) (Some v) (Some t) p)"
proof -
  have inv: "pipe_inv p" using reachable_inv [OF assms(1)] assms(2) by simp
  have len: "length v \<le> 128" using assms(4) by (simp add: len_within_def)
  have http: "http_approve errors aid (Some v) (Some t) p =
      (http_answer (fst (approvals_approve aid v (Some t) p)), snd (approvals_approve aid v (Some t) p))"
    "http_reject errors aid (Some reason) (Some v) (Some t) p =
      (http_answer (fst (approvals_reject aid reason v (Some t) p)), snd (approvals_reject aid reason v (Some t) p))"
    using assms(3-5)
    by (simp_all add: http_approve_def http_reject_def tenant_opt_ok_def tenant_ok_def case_prod_beta)
  have refusal: "same_answer (Inl (translated c m e)) (http_answer (Inl (refused s m)))"
    if "s = Some n" "\<exists>k. c = Some k \<and> status_of_category k = n" for c m e s n
    using that by (auto simp: same_answer_def translated_def refused_def http_answer_def)
  have approve: "same_answer (fst (ui_approve aid v t p)) (http_answer (fst (approvals_approve aid v (Some t) p))) \<and>
      snd (ui_approve aid v t p) = snd (approvals_approve aid v (Some t) p)"
  proof (cases rule: approve_outcome [OF inv len, of aid "Some t", case_names refused accepted])
    case (refused e p')
    show ?thesis
      using refusal [OF refused(2) category_status(1) [OF refused(2)]] refused(1)
      by (simp add: ui_approve_def approvals_approve_def)
  next
    case (accepted a' p')
    then show ?thesis using panel_in_view [of p' a']
      by (simp add: ui_approve_def approvals_approve_def http_answer_def)
  qed
  have reject: "same_answer (fst (ui_reject aid v t reason p)) (http_answer (fst (approvals_reject aid reason v (Some t) p))) \<and>
      snd (ui_reject aid v t reason p) = snd (approvals_reject aid reason v (Some t) p)"
  proof (cases rule: reject_outcome [OF inv len, of aid reason "Some t", case_names refused accepted])
    case (refused e p')
    show ?thesis
      using refusal [OF refused(2) category_status(2) [OF refused(2)]] refused(1)
      by (simp add: ui_reject_def approvals_reject_def)
  next
    case (accepted a' p')
    then show ?thesis using panel_in_view [of p' a']
      by (simp add: ui_reject_def approvals_reject_def http_answer_def)
  qed
  from approve reject show ?thesis by (simp add: http)
qed

theorem dashboard_votes_like_api_witness:
  "same_answer (fst (ui_approve demo_action ''ann'' ''acme'' (p_run demo_history (make_pipeline None demo_world))))
    (fst (http_approve [] demo_action (Some ''ann'') (Some ''acme'') (p_run demo_history (make_pipeline None demo_world))))"
  using dashboard_votes_like_api [OF demo_history_ok refl, of "''acme''" "''ann''" "[]"]
  by (simp add: len_within_def)

section \<open>Panels\<close>

lemma pending_member:
  assumes inv: "pipe_inv p" and a: "a \<in> set (list_pending_actions t p)"
  shows "a_tenant_id a = t \<and> a_status a = PENDING_APPROVAL"
proof -
  have aq: "aq_inv (p_queue p)" using pipe_invD(1) [OF inv] by (simp add: comps_inv_def)
  from a obtain aid r where r: "aid \<in> set (get_list (aq_pending_by_tenant (p_queue p)) t)"
      "queue_rows p aid = Some r" "store p (ar_action_id r) = Some a"
    by (auto simp: list_pending_actions_def aq_list_pending_def as_get_def List.map_filter_def split: option.splits)
  then have "pending_of (queue_rows p) t aid" "ar_action_id r = aid"
    using aq_invD(1,4) [OF aq] by auto
  with r(2,3) pipe_invD(6) [OF inv, of aid a] show ?thesis
    by (auto simp: coherent_def pending_of_def)
qed

lemma sort_desc_rev: "sorted_wrt (\<lambda>x y. key x < (key y :: int)) xs \<Longrightarrow> sort_desc (<) key xs = rev xs"
proof (induction xs)
  case (Cons x xs)
  have "insert_desc (<) key x ys = ys @ [x]" if "\<forall>y \<in> set ys. key x < key y" for ys
    using that by (induction ys) simp_all
  with Cons show ?case by (simp add: sort_desc_Cons)
qed (simp add: sort_desc_def)

lemma tenant_rows_sorted:
  assumes "al_inv l"
  shows "sorted_wrt (\<lambda>x y. (case ae_id x of None \<Rightarrow> 0 | Some i \<Rightarrow> i) < (case ae_id y of None \<Rightarrow> 0 | Some i \<Rightarrow> i))
    (al_entries_for_tenant t l)"
proof -
  have "sorted_wrt (\<lambda>x y. (case ae_id x of None \<Rightarrow> 0 | Some i \<Rightarrow> i) < (case ae_id y of None \<Rightarrow> 0 | Some i \<Rightarrow> i))
      (al_entries l)"
    using assms by (simp add: al_inv_def sorted_wrt_iff_nth_less)
  with assms show ?thesis
    by (simp add: al_inv_def al_entries_for_tenant_def sorted_wrt_filter)
qed

lemma tenant_rows_scoped: "al_inv l \<Longrightarrow> e \<in> set (al_entries_for_tenant t l) \<Longrightarrow> ae_tenant_id e = t"
  by (simp add: al_inv_def al_entries_for_tenant_def)

lemma set_py_take: "set (py_take n xs) \<subseteq> set xs"
  by (auto simp: py_take_def dest: in_set_takeD)

text \<open>
  The panels of a tenant show that tenant only: in every reachable state each pending row,
  each audit row and each detail asked for with a tenant is of that tenant, the pending rows
  are pending, and the audit panel is the newest rows of the tenant's log, newest first.
\<close>

theorem panels_are_scoped:
  assumes "run_ok cs (make_pipeline ex w)" and "p = p_run cs (make_pipeline ex w)"
  shows "(\<forall>row \<in> set (list_pending t p). map_of row ''tenant_id'' = Some (JStr t) \<and>
      map_of row ''status'' = Some (JStr ''pending_approval'')) \<and>
    recent_audit t n p = map audit_entry_to_dict (py_take n (rev (al_entries_for_tenant t (p_audit p)))) \<and>
    (\<forall>row \<in> set (recent_audit t n p). map_of row ''tenant_id'' = Some (JStr t)) \<and>
    (\<forall>aid d. get_action_detail aid t p = Some d \<longrightarrow> map_of d ''tenant_id'' = Some (JStr t))"
proof -
  have inv: "pipe_inv p" using reachable_inv [OF assms(1)] assms(2) by simp
  then have log: "al_inv (p_audit p)" by (simp add: pipe_inv_def comps_inv_def)
  have recent: "recent_audit t n p =
      map audit_entry_to_dict (py_take n (rev (al_entries_for_tenant t (p_audit p))))"
    by (simp add: recent_audit_def sort_desc_rev [OF tenant_rows_sorted [OF log]])
  have "\<forall>row \<in> set (list_pending t p). map_of row ''tenant_id'' = Some (JStr t) \<and>
      map_of row ''status'' = Some (JStr ''pending_approval'')"
    using pending_member [OF inv] by (auto simp: list_pending_def action_to_panel_dict_def)
  moreover have "\<forall>row \<in> set (recent_audit t n p). map_of row ''tenant_id'' = Some (JStr t)"
    using set_py_take [of n "rev (al_entries_for_tenant t (p_audit p))"] tenant_rows_scoped [OF log]
    by (auto simp: recent audit_entry_to_dict_def)
  moreover have "\<forall>aid d. get_action_detail aid t p = Some d \<longrightarrow> map_of d ''tenant_id'' = Some (JStr t)"
    by (auto simp: get_action_detail_def get_action_def tenant_guard_def action_to_detail_dict_def
        action_to_panel_dict_def Let_def split: option.splits if_splits)
  ultimately show ?thesis using recent by blast
qed

theorem panels_are_scoped_witness:
  "\<exists>d. get_action_detail demo_action ''acme'' (p_run demo_history (make_pipeline None demo_world)) = Some d \<and>
    map_of d ''tenant_id'' = Some (JStr ''acme'')"
proof (rule demo_executed)
  let ?p = "p_run demo_history (make_pipeline None demo_world)"
  fix a assume "store ?p demo_action = Some a" "a_tenant_id a = ''acme''"
  then have "get_action_detail demo_action ''acme'' ?p \<noteq> None"
    by (simp add: get_action_detail_def get_action_ok [THEN iffD2] tenant_guard_def)
  then show ?thesis using panels_are_scoped [OF demo_history_ok refl, of "''acme''"] by blast
qed

end
