(* ===== verification/Demo_Scenario.thy ===== *)
theory Demo_Scenario
  imports Approver_Data Ingestion Prompt_Injection
begin

text \<open>
  The guided demo, \<open>ui/demo_scenario.py\<close>: the timeline and the finding cards as the module holds them,
  and \<open>build_scenario_state\<close>, which pushes Jane's two proposals through the pipeline of the orchestrator
  and stamps the timeline with the actions.  \<open>u\<close> gives the characters from code point 256 on (a dash, an
  arrow), which strings of the model do not have.
\<close>

section \<open>The texts\<close>

definition PHASE_FINDINGS :: "(nat \<Rightarrow> string) \<Rightarrow> (string \<times> dict) list" where
  "PHASE_FINDINGS u =
     [(''hybrid_retrieval'',
        [(''phase'', JInt 5),
         (''title'', JStr (
           ''Hybrid retrieval '' @ u 0x2014 @ '' 4'' @ [CHR 0xD7] @
           '' cheaper than naive on long histories'')),
         (''body'', JStr (
           ''On the 200-pair benchmark, hybrid retrieval (recency + semantic + summarized '' @
           ''cold tail) matched naive-baseline answer quality on the 50 fact-bearing mortgage '' @
           ''queries while running 4'' @ [CHR 0xD7] @
           '' cheaper on the `very_long` history bucket and 24% cheaper aggregate. The '' @
           ''cost gap widens as the customer'' @ [CHR 0x27] @ ''s history grows '' @ u 0x2014 @
           '' exactly the shape a production system needs.'')),
         (''reference'', JStr (
           ''reports/day27_phase5_report.md + results/phase5_naive_vs_champion_context_engine.json''))]),
      (''declarative_pareto'',
        [(''phase'', JInt 3),
         (''title'', JStr (
           ''Declarative YAML policy '' @ u 0x2014 @ '' strict Pareto winner over naive LLM'')),
         (''body'', JStr (
           ''Declarative beats naive on every axis: correctness (100% vs 54%), latency '' @ ''(0.6 '' @
           [CHR 0xB5] @ ''s vs 1.8 '' @ [CHR 0xB5] @
           ''s), prod cost ($0 vs $0.57/100), auditability (5 vs 2). Naive'' @ [CHR 0x27] @
           ''s failure mode is tenant-asymmetric '' @ u 0x2014 @
           '' over-approves the strict tenant (compliance bug) AND over-rejects the permissive '' @
           ''tenants (UX bug). A tenant-agnostic heuristic can'' @ [CHR 0x27] @
           ''t satisfy tenants with opposite rules.'')),
         (''reference'', JStr (
           ''reports/day28_phase5_report.md + results/phase5_naive_vs_champion_orchestrator.json''))]),
      (''quorum_four_eyes'',
        [(''phase'', JInt 5),
         (''title'', JStr (
           ''N-of-M quorum with veto asymmetry '' @ u 0x2014 @ '' Day 26'')),
         (''body'', JStr (
           ''Approval rows can be armed for N distinct sign-offs from an M-eligible pool. '' @
           ''One eligible reject vetoes the row regardless of partial approvals (four-eyes '' @
           ''asymmetry). Duplicate voters can'' @ [CHR 0x27] @
           ''t fill two seats. Defaults stay single-approver so the takehome adapter 6/6 '' @
           ''score is untouched.'')),
         (''reference'', JStr (
           ''reports/day26_phase5_report.md + tests/unit/test_quorum_approval_queue.py''))]),
      (''audit_trail'',
        [(''phase'', JInt 2),
         (''title'', JStr (
           ''Every transition writes audit '' @ u 0x2014 @ '' Day 10 invariant 16'')),
         (''body'', JStr (
           ''Every action proposal, decision, approval, rejection, and execution writes '' @
           ''an `AuditLogEntry`. The audit log is the source of truth for compliance review '' @
           u 0x2014 @ '' reconstructing '' @ [CHR 0x27] @ ''who decided what and when'' @ [CHR 0x27] @
           '' is one tenant-scoped query.'')),
         (''reference'', JStr (
           ''orchestrator/decision_pipeline.py '' @ [CHR 0xA7] @ ''AuditKind''))]),
      (''tracing_spine'',
        [(''phase'', JInt 6),
         (''title'', JStr (
           ''Tenant-aware OTel spans across the event flow '' @ u 0x2014 @ '' Day 30'')),
         (''body'', JStr (
           ''Every span on the ingest '' @ u 0x2192 @ '' decide '' @ u 0x2192 @
           '' execute path carries `pennycore.tenant_id` as a first-class attribute. Multi-tenant '' @
           ''isolation (rule 15) becomes a Jaeger tag filter, not a documentation invariant.'')),
         (''reference'', JStr (
           ''contracts/observability.py + results/samples/day30_phase6_jaeger_trace.png''))])]"

definition JANE_TIMELINE :: "(nat \<Rightarrow> string) \<Rightarrow> dict list" where
  "JANE_TIMELINE u =
     [[(''title'', JStr ''Jane uploads a paystub''),
       (''description'', JStr (
         ''A `document_uploaded` event lands on the context-engine ingestion API for '' @
         ''tenant_acme_bank. The event is stored, deduped on `(tenant_id, idempotency_key)`, '' @
         ''and published on the bus.'')),
       (''show_event'', JBool True)],
      [(''title'', JStr ''Context-engine assembles a brief''),
       (''description'', JStr (
         ''Hybrid retrieval pulls Jane'' @ [CHR 0x27] @
         ''s last 24h messages, the semantic-relevant slice from older history, and a '' @
         ''summary of the cold tail. The packer fits the segments into the token budget.'')),
       (''show_brief'', JBool True),
       (''finding'', JStr ''hybrid_retrieval'')],
      [(''title'', JStr (
         ''Orchestrator decides '' @ u 0x2014 @ '' auto-acknowledge'')),
       (''description'', JStr (
         ''Declarative policy for tenant_acme_bank says `send_borrower_message: auto`. '' @
         ''The pipeline auto-executes the acknowledgement and writes the audit row. No '' @
         ''queue stop, no human in the loop '' @ u 0x2014 @
         '' exactly what the Phase-3 declarative champion is for.'')),
       (''action_kind'', JStr ''ack''),
       (''finding'', JStr ''declarative_pareto'')],
      [(''title'', JStr ''Income anomaly triggers an approval-required action''),
       (''description'', JStr (
         ''A follow-up `anomaly_detected` event proposes `notify_loan_officer`. The same '' @
         ''declarative engine returns `approval_required` for this action type on tenant_acme_bank '' @
         u 0x2014 @ '' a different decision for a different action, same tenant, same policy file.'')),
       (''action_kind'', JStr ''anomaly''),
       (''finding'', JStr ''audit_trail'')],
      [(''title'', JStr ''2-of-3 quorum signed off''),
       (''description'', JStr (
         ''The notify_loan_officer row is armed for a 2-of-3 quorum across compliance_alice, '' @
         ''risk_bob, and legal_carol. Alice signs first (partial); Bob completes the '' @
         ''quorum; the executor runs the action and the audit trail closes.'')),
       (''action_kind'', JStr ''anomaly''),
       (''finding'', JStr ''quorum_four_eyes'')],
      [(''title'', JStr ''Every step is one Jaeger trace''),
       (''description'', JStr (
         ''Ingest, decide, execute '' @ u 0x2014 @
         '' all three spans carry `pennycore.tenant_id` and roll up under one trace per '' @
         ''event. The static screenshot in `results/samples/day30_phase6_jaeger_trace.png` '' @
         ''is rendered from real captured spans.'')),
       (''finding'', JStr ''tracing_spine'')]]"

definition jane_brief :: "(nat \<Rightarrow> string) \<Rightarrow> dict" where
  "jane_brief u =
     [(''strategy'', JStr ''hybrid (Phase-5 champion)''),
      (''tokens'', JInt 412),
      (''budget'', JInt 512),
      (''body'', JStr (
        ''## Customer brief '' @ u 0x2014 @ '' Jane Doe (cus_jane_doe)'' @ [newline] @
        ''### Recent (last 24h)'' @ [newline] @ ''- 2026-06-02 14:32 '' @ u 0x2014 @ '' email: '' @
        [CHR 0x27] @ ''sending paystub for May'' @ [CHR 0x27] @ [newline] @ ''- 2026-06-02 14:33 '' @
        u 0x2014 @ '' paystub.pdf uploaded (this event)'' @ [newline] @
        ''### Semantic-relevant older history'' @ [newline] @ ''- 2026-05-18 '' @ u 0x2014 @
        '' discussed income verification timeline'' @ [newline] @ ''- 2026-05-09 '' @ u 0x2014 @
        '' confirmed employer name (ACME Tech Co.)'' @ [newline] @ ''### Cold-tail summary'' @
        [newline] @
        ''- Application opened 2026-04-04. Pre-approval granted   2026-04-10. Conditional '' @
        ''approval contingent on income   verification and clean credit pull.''))]"

section \<open>The state builder\<close>

datatype scenario_error = ScenarioPipeline pipeline_error | ScenarioRaised py_exn

definition jane_event :: "time \<Rightarrow> event" where
  "jane_event t =
     \<lparr>ev_id = ''evt_jane_paystub_upload'', ev_tenant_id = ''tenant_acme_bank'',
      ev_customer_id = Some ''cus_jane_doe'', ev_channel_code = EMAIL, ev_event_type = DOCUMENT_UPLOADED,
      ev_idempotency_key = ''idem_jane_paystub_v1'',
      ev_payload = [(''document_type'', JStr ''paystub''),
        (''document_url'', JStr ''s3://acme-mortgage/jane/may-paystub.pdf''),
        (''filename'', JStr ''may-paystub.pdf'')],
      ev_received_at = t\<rparr>"

text \<open>The repository and the bus are new ones, dropped on return; nobody subscribes to the bus.\<close>

definition push_paystub_event :: "(time \<Rightarrow> string) \<Rightarrow> pipeline \<Rightarrow> (scenario_error, dict, pipeline) outcome" where
  "push_paystub_event isoformat p =
     (let (t, p') = p_now p;
          e = jane_event t
      in case ingest_event er_upsert_event (eb_publish (\<lambda>cb channel payload s. (Inr (), s))) isoformat e
                (er_new, (eb_new, ())) of
           (Inl exn, rb) \<Rightarrow> (Inl (ScenarioRaised exn), p')
         | (Inr stored, rb) \<Rightarrow>
             (Inr [(''event_id'', JStr (ev_id e)), (''tenant_id'', JStr (ev_tenant_id e)),
                   (''customer_id'', json_opt (ev_customer_id e)),
                   (''channel_code'', JStr (channel_value (ev_channel_code e))),
                   (''event_type'', JStr (event_type_value (ev_event_type e))),
                   (''idempotency_key'', JStr (ev_idempotency_key e)),
                   (''payload'', JObj (ev_payload e))], p'))"

definition first_action_id :: "(pipeline_error, action list, pipeline) outcome \<Rightarrow>
    (scenario_error, string, pipeline) outcome" where
  \<comment> \<open>\<open>actions[0].id\<close>\<close>
  "first_action_id res =
     (case res of
        (Inl e, p) \<Rightarrow> (Inl (ScenarioPipeline e), p)
      | (Inr [], p) \<Rightarrow> (Inl (ScenarioRaised (Exn ''IndexError'' ''list index out of range'')), p)
      | (Inr (a # actions), p) \<Rightarrow> (Inr (a_id a), p))"

definition ack_reasoning :: string where
  "ack_reasoning =
     ''Acknowledge paystub receipt and inform Jane it will be reviewed within one '' @ ''business day.''"

definition anomaly_reasoning :: "(nat \<Rightarrow> string) \<Rightarrow> string" where
  "anomaly_reasoning u =
     ''Income on May paystub deviates 18% from the application'' @ [CHR 0x27] @
     ''s stated income '' @ u 0x2014 @ '' above the auto-flag threshold.''"

definition push_ack_proposal :: "pipeline \<Rightarrow> (scenario_error, string, pipeline) outcome" where
  "push_ack_proposal p =
     (let (proposal, p') = seed_row ''pp_jane_ack'' ''tenant_acme_bank'' ''evt_jane_paystub_upload''
            ''cus_jane_doe'' SEND_BORROWER_MESSAGE LLM
            ack_reasoning p
      in first_action_id (handle_proposal proposal p'))"

definition push_anomaly_proposal :: "(nat \<Rightarrow> string) \<Rightarrow> pipeline \<Rightarrow> (scenario_error, string, pipeline) outcome" where
  "push_anomaly_proposal u p =
     (let (proposal, p') = seed_row ''pp_jane_anomaly'' ''tenant_acme_bank'' ''evt_jane_income_anomaly''
            ''cus_jane_doe'' NOTIFY_LOAN_OFFICER LLM
            (anomaly_reasoning u) p
      in first_action_id (handle_proposal proposal p'))"

definition stamp_step :: "string \<Rightarrow> string \<Rightarrow> dict \<Rightarrow> dict" where
  "stamp_step ack_id anomaly_id step =
     (if dict_get step ''action_kind'' = Some (JStr ''ack'') then dict_set ''action_id'' (JStr ack_id) step
      else if dict_get step ''action_kind'' = Some (JStr ''anomaly'')
      then dict_set ''action_id'' (JStr anomaly_id) step else step)"

record scenario_state =
  sn_paystub_event :: dict
  sn_brief :: dict
  sn_ack_action_id :: string
  sn_anomaly_action_id :: string

text \<open>The state is the timeline of the module, whose steps are stamped in place, and the pipeline.\<close>

definition build_scenario_state :: "(nat \<Rightarrow> string) \<Rightarrow> (time \<Rightarrow> string) \<Rightarrow> dict list \<times> pipeline \<Rightarrow>
    (scenario_error, scenario_state, dict list \<times> pipeline) outcome" where
  "build_scenario_state u isoformat state =
     (let (timeline, p) = state;
          (res, p') =
            (case seed_demo_data False p of
               (Inl e, p1) \<Rightarrow> (Inl (ScenarioPipeline e), p1)
             | (Inr counts, p1) \<Rightarrow>
                 andThen (push_paystub_event isoformat p1) (\<lambda>envelope p2.
                 andThen (push_ack_proposal p2) (\<lambda>ack_id p3.
                 andThen (push_anomaly_proposal u p3) (\<lambda>anomaly_id p4.
                   (Inr \<lparr>sn_paystub_event = envelope, sn_brief = jane_brief u,
                        sn_ack_action_id = ack_id, sn_anomaly_action_id = anomaly_id\<rparr>, p4)))))
      in case res of
           Inl e \<Rightarrow> (Inl e, (timeline, p'))
         | Inr s \<Rightarrow>
             (Inr s, (map (stamp_step (sn_ack_action_id s) (sn_anomaly_action_id s)) timeline, p')))"

section \<open>What handling a proposal keeps\<close>

text \<open>
  \<open>moved k p p'\<close>: \<open>p'\<close> is \<open>p\<close> after proposals that drew at most \<open>k\<close> ids; configuration, stored actions
  and their approval rows are as they were.
\<close>

definition moved :: "nat \<Rightarrow> pipeline \<Rightarrow> pipeline \<Rightarrow> bool" where
  "moved k p p' \<longleftrightarrow> pipe_inv p' \<and> draws k p p' \<and> p_policy p' = p_policy p \<and> p_quorum p' = p_quorum p \<and>
     p_executors p' = p_executors p \<and>
     (\<forall>aid a. store p aid = Some a \<longrightarrow> store p' aid = Some a \<and> queue_rows p' aid = queue_rows p aid)"

lemma moved_refl: "pipe_inv p \<Longrightarrow> moved k p p"
  by (simp add: moved_def)

lemma moved_trans: "moved j p p1 \<Longrightarrow> moved k p1 p2 \<Longrightarrow> moved (j + k) p p2"
  by (auto simp: moved_def intro: draws_trans)

lemma moved_now: "pipe_inv p \<Longrightarrow> moved 0 p (snd (p_now p))"
  using pipe_inv_world [of p "snd (now (p_world p))"]
  by (simp add: moved_def) (simp add: p_now_def now_def)

lemma uuids_ok_moved: "moved j p p' \<Longrightarrow> uuids_ok (j + k) (p_world p) \<Longrightarrow> uuids_ok k (p_world p')"
  by (auto simp: moved_def intro: uuids_ok_draws)

lemma handled:
  assumes inv: "pipe_inv p" and valid: "proposal_valid pr" and w: "uuids_ok 2 (p_world p)"
  obtains a p' where "handle_proposal pr p = (Inr [a], p')" "moved 2 p p'" "store p' (a_id a) = Some a"
    "a_tenant_id a = pr_tenant_id pr" "a_event_id a = pr_event_id pr"
    "\<And>k. k \<noteq> (pr_tenant_id pr, pr_event_id pr) \<Longrightarrow> p_dedup p' k = p_dedup p k"
    "p_dedup p (pr_tenant_id pr, pr_event_id pr) = None \<Longrightarrow>
       decided_status (decision_of pr p) (a_status a) \<and>
       queue_row_for (qp_resolve (pr_tenant_id pr) (pr_action_type pr) (p_quorum p)) a (queue_rows p' (a_id a)) \<and>
       (decision_of pr p = AUTO \<longrightarrow> p_executors p = default_executors \<longrightarrow> a_status a = EXECUTED)"
proof (cases "p_dedup p (pr_tenant_id pr, pr_event_id pr)")
  case (Some ids)
  show thesis
    by (rule handle_proposal_cached [OF inv Some]) (rule that, use inv Some in \<open>auto intro: moved_refl\<close>)
next
  case None
  have inv': "pipe_inv (snd (handle_proposal pr p))" by (rule pipe_inv_handle [OF inv valid w])
  show thesis
  proof (rule handle_new_inv [OF inv valid w None inv w inv w])
    fix a :: action and e f es and p1 :: pipeline
    let ?p' = "p1\<lparr>p_dedup := (p_dedup p)((pr_tenant_id pr, pr_event_id pr) \<mapsto> [a_id a])\<rparr>"
    assume h: "handle_proposal pr p = (Inr [a], ?p')" and fresh: "a_id a = fresh_action pr p"
      and made: "from_proposal pr a" and t: "touches (a_id a) (a_tenant_id a) (e # f # es) p p1"
      and st: "store p1 (a_id a) = Some a" and d: "decided_status (decision_of pr p) (a_status a)"
      and q: "queue_row_for (qp_resolve (pr_tenant_id pr) (pr_action_type pr) (p_quorum p)) a
        (queue_rows p1 (a_id a))"
      and auto: "decision_of pr p = AUTO \<longrightarrow> p_executors p = default_executors \<longrightarrow> a_status a = EXECUTED"
    have "store p aid = Some b \<Longrightarrow> aid \<noteq> a_id a" for aid b
      using fresh_not_stored(1) [OF inv w, of pr] fresh by auto
    then have "moved 2 p ?p'"
      using h inv' draws_handle [of p pr] touchesD(2-6) [OF t] by (auto simp: moved_def)
    then show thesis
      by (rule that [OF h]) (use st made d q auto in \<open>auto simp: from_proposal_def\<close>)
  qed
qed

lemma stored_means_audited: "pipe_inv p \<Longrightarrow> store p aid = Some a \<Longrightarrow> al_all_entries (p_audit p) \<noteq> []"
  using pipe_invD(6) [of p aid a]
  by (auto simp: coherent_def trail_of_def replay_def al_all_entries_def)

lemma handle_all_moved:
  assumes "pipe_inv p" "list_all proposal_valid prs" "uuids_ok (2 * length prs) (p_world p)"
  shows "\<exists>p'. handle_all prs p = (Inr (), p') \<and> moved (2 * length prs) p p' \<and>
    (\<forall>k. k \<notin> (\<lambda>pr. (pr_tenant_id pr, pr_event_id pr)) ` set prs \<longrightarrow> p_dedup p' k = p_dedup p k) \<and>
    (prs \<noteq> [] \<longrightarrow> al_all_entries (p_audit p') \<noteq> [])"
  using assms
proof (induction prs arbitrary: p)
  case Nil
  then show ?case by (simp add: moved_refl)
next
  case (Cons pr prs)
  have w: "uuids_ok 2 (p_world p)" by (rule uuids_ok_mono [OF Cons.prems(3)]) simp
  have valid: "proposal_valid pr" using Cons.prems(2) by simp
  obtain a p1 where h: "handle_proposal pr p = (Inr [a], p1)" "moved 2 p p1" "store p1 (a_id a) = Some a"
    "\<And>k. k \<noteq> (pr_tenant_id pr, pr_event_id pr) \<Longrightarrow> p_dedup p1 k = p_dedup p k"
    by (rule handled [OF Cons.prems(1) valid w]) metis
  have "uuids_ok (2 * length prs) (p_world p1)"
    by (rule uuids_ok_moved [OF h(2)]) (use Cons.prems(3) in simp)
  with Cons.IH [of p1] Cons.prems(2) h(2) obtain p' where
    p': "handle_all prs p1 = (Inr (), p')" "moved (2 * length prs) p1 p'"
      "\<forall>k. k \<notin> (\<lambda>pr. (pr_tenant_id pr, pr_event_id pr)) ` set prs \<longrightarrow> p_dedup p' k = p_dedup p1 k"
    by (auto simp: moved_def)
  have "al_all_entries (p_audit p') \<noteq> []"
    by (rule stored_means_audited [of _ "a_id a" a]) (use p'(2) h(3) in \<open>auto simp: moved_def\<close>)
  with h p' moved_trans [OF h(2) p'(2)] show ?case by (auto simp: andThen_def)
qed

section \<open>Seeding\<close>

lemma seed_row_simps:
  "pr_tenant_id (fst (seed_row pid t e c a b r p)) = t" "pr_event_id (fst (seed_row pid t e c a b r p)) = e"
  "pr_action_type (fst (seed_row pid t e c a b r p)) = a"
  "proposal_valid (fst (seed_row pid t e c a b r p)) \<longleftrightarrow>
     len_within 1 64 pid \<and> len_within 1 64 t \<and> len_within 1 64 e \<and> length c \<le> 64"
  "snd (seed_row pid t e c a b r p) = snd (p_now p)"
  by (simp_all add: seed_row_def case_prod_beta proposal_valid_def opt_max_def)

definition seed_keys :: "(string \<times> string) list" where
  "seed_keys =
     [(''tenant_acme_bank'', ''evt_demo_acme_1''), (''tenant_acme_bank'', ''evt_demo_acme_2''),
      (''tenant_globetrek_concierge'', ''evt_demo_globe_1''), (''tenant_jefferson_credit'', ''evt_demo_jeff_1'')]"

lemma demo_proposals_made:
  assumes "pipe_inv p"
  obtains prs p' where "demo_proposals p = (prs, p')" "list_all proposal_valid prs" "length prs = 4"
    "map (\<lambda>pr. (pr_tenant_id pr, pr_event_id pr)) prs = seed_keys" "moved 0 p p'" "p_dedup p' = p_dedup p"
proof -
  have step: "moved 0 p q \<Longrightarrow> moved 0 p (snd (p_now q))" for q
    using moved_trans [of 0 p q 0 "snd (p_now q)"] moved_now [of q] by (simp add: moved_def)
  have m: "moved 0 p (snd (p_now (snd (p_now (snd (p_now (snd (p_now p))))))))"
    by (intro step moved_refl assms)
  show thesis
    by (rule that [of "fst (demo_proposals p)" "snd (demo_proposals p)"])
       (use m in \<open>simp_all add: demo_proposals_def case_prod_beta Let_def seed_row_simps seed_keys_def
          len_within_def\<close>)
qed

lemma configured_run:
  "demo_configured p = p_run (map (\<lambda>(t, tbl). SetPolicies t tbl) demo_policies @
     [SetQuorum ''tenant_acme_bank'' NOTIFY_LOAN_OFFICER 2
        (Some [''compliance_alice'', ''risk_bob'', ''legal_carol''])]) p"
  by (simp add: demo_configured_def demo_policies_def)

lemma configured_keeps:
  "p_world (demo_configured p) = p_world p" "p_dedup (demo_configured p) = p_dedup p"
  "p_executors (demo_configured p) = p_executors p" "p_actions (demo_configured p) = p_actions p"
  "p_queue (demo_configured p) = p_queue p" "p_audit (demo_configured p) = p_audit p"
  "pipe_inv p \<Longrightarrow> pipe_inv (demo_configured p)"
proof -
  assume "pipe_inv p"
  then show "pipe_inv (demo_configured p)"
    unfolding demo_configured_def demo_policies_def Let_def fold_simps prod.case
    by (simp add: pipe_inv_def dedup_inv_def comps_inv_def qp_inv_set_rule)
qed (simp_all add: demo_configured_def demo_policies_def)

lemma configured_table:
  "de_by_tenant (p_policy (demo_configured p)) ''tenant_acme_bank'' =
     Some [(''send_borrower_message'', AUTO), (''notify_loan_officer'', APPROVAL_REQUIRED),
       (''request_document'', APPROVAL_REQUIRED)]"
proof -
  have "normalize_table UnknownPolicyDecisionError [(''send_borrower_message'', JStr ''auto''),
      (''notify_loan_officer'', JStr ''approval_required''), (''request_document'', JStr ''approval_required'')] [] =
    Inr [(''send_borrower_message'', AUTO), (''notify_loan_officer'', APPROVAL_REQUIRED),
      (''request_document'', APPROVAL_REQUIRED)]"
    by code_simp
  then show ?thesis
    by (simp add: demo_configured_def demo_policies_def de_set_policies_def split: sum.split)
qed

lemma configured_decides:
  "de_decide ''tenant_acme_bank'' (Enum SEND_BORROWER_MESSAGE) (p_policy (demo_configured p)) = AUTO"
  "de_decide ''tenant_acme_bank'' (Enum NOTIFY_LOAN_OFFICER) (p_policy (demo_configured p)) = APPROVAL_REQUIRED"
  by (simp_all add: de_decide_def configured_table) code_simp+

lemma configured_quorum:
  "qp_resolve ''tenant_acme_bank'' NOTIFY_LOAN_OFFICER (p_quorum (demo_configured p)) =
     \<lparr>qr_required_approvals = 2, qr_eligible_approvers = Some [''compliance_alice'', ''risk_bob'', ''legal_carol'']\<rparr>"
  by (simp add: demo_configured_def demo_policies_def qp_set_rule_def qp_resolve_def quorum_rule_post_init_def Let_def)

lemma seeded:
  assumes inv: "pipe_inv p" and w: "uuids_ok 8 (p_world p)"
  obtains counts p' where "seed_demo_data False p = (Inr counts, p')" "pipe_inv p'" "draws 8 p p'"
    "al_all_entries (p_audit p') \<noteq> []" "p_executors p' = p_executors p"
    "\<And>k. k \<notin> set seed_keys \<Longrightarrow> p_dedup p' k = p_dedup p k"
    "al_all_entries (p_audit p) = [] \<Longrightarrow> p_policy p' = p_policy (demo_configured p) \<and>
       p_quorum p' = p_quorum (demo_configured p)"
    "al_all_entries (p_audit p) \<noteq> [] \<Longrightarrow> p' = p"
proof (cases "al_all_entries (p_audit p) = []")
  case False
  then show thesis by (intro that [of _ p]) (use inv in \<open>simp_all add: seed_demo_data_def\<close>)
next
  case True
  obtain prs p2 where m: "demo_proposals (demo_configured p) = (prs, p2)" "list_all proposal_valid prs"
    "length prs = 4" "map (\<lambda>pr. (pr_tenant_id pr, pr_event_id pr)) prs = seed_keys"
    "moved 0 (demo_configured p) p2" "p_dedup p2 = p_dedup p"
    by (rule demo_proposals_made [OF configured_keeps(7) [OF inv]]) (simp add: configured_keeps)
  have "uuids_ok (2 * length prs) (p_world p2)"
    by (rule uuids_ok_moved [OF m(5)]) (use w m(3) in \<open>simp add: configured_keeps\<close>)
  with handle_all_moved [of p2 prs] m(2,5) obtain p' where
    p': "handle_all prs p2 = (Inr (), p')" "moved (2 * length prs) p2 p'"
      "\<forall>k. k \<notin> (\<lambda>pr. (pr_tenant_id pr, pr_event_id pr)) ` set prs \<longrightarrow> p_dedup p' k = p_dedup p2 k"
      "prs \<noteq> [] \<longrightarrow> al_all_entries (p_audit p') \<noteq> []"
    by (auto simp: moved_def)
  have mv: "moved 8 (demo_configured p) p'" using moved_trans [OF m(5) p'(2)] m(3) by simp
  have keys: "(\<lambda>pr. (pr_tenant_id pr, pr_event_id pr)) ` set prs = set seed_keys"
    using m(4) by (metis set_map)
  obtain counts where seed: "seed_demo_data False p = (Inr counts, p')"
    using True m(1) p'(1) by (simp add: seed_demo_data_def andThen_def)
  have dedup: "k \<notin> set seed_keys \<Longrightarrow> p_dedup p' k = p_dedup p k" for k
    using p'(3) keys m(6) by (cases k) simp
  have rest: "pipe_inv p'" "draws 8 p p'" "p_executors p' = p_executors p"
    "p_policy p' = p_policy (demo_configured p)" "p_quorum p' = p_quorum (demo_configured p)"
    using mv by (simp_all add: moved_def draws_def configured_keeps)
  have "al_all_entries (p_audit p') \<noteq> []" using p'(4) m(3) by auto
  with seed dedup rest True show thesis by (intro that [of counts p']) simp_all
qed

section \<open>The scenario\<close>

lemma paystub_pushed:
  obtains envelope where "push_paystub_event isoformat p = (Inr envelope, snd (p_now p))"
  by (simp add: push_paystub_event_def case_prod_beta Let_def ingest_event_def er_upsert_event_def er_new_def
      jane_event_def eb_publish_def eb_new_def)

text \<open>
  One proposal of Jane's: its action is stored, and a new one is as the policy decides.
\<close>

lemma row_pushed:
  assumes inv: "pipe_inv p" and w: "uuids_ok 2 (p_world p)"
    and len: "len_within 1 64 pid" "len_within 1 64 t" "len_within 1 64 e" "length c \<le> 64"
  obtains b p' where
    "first_action_id (case seed_row pid t e c act by r p of (pr, p1) \<Rightarrow> handle_proposal pr p1) = (Inr (a_id b), p')"
    "moved 2 p p'" "store p' (a_id b) = Some b" "a_tenant_id b = t" "a_event_id b = e"
    "\<And>k. k \<noteq> (t, e) \<Longrightarrow> p_dedup p' k = p_dedup p k"
    "p_dedup p (t, e) = None \<Longrightarrow>
       decided_status (de_decide t (Enum act) (p_policy p)) (a_status b) \<and>
       queue_row_for (qp_resolve t act (p_quorum p)) b (queue_rows p' (a_id b)) \<and>
       (de_decide t (Enum act) (p_policy p) = AUTO \<longrightarrow> p_executors p = default_executors \<longrightarrow>
          a_status b = EXECUTED)"
proof -
  let ?pr = "fst (seed_row pid t e c act by r p)" and ?p = "snd (p_now p)"
  have m: "moved 0 p ?p" by (rule moved_now [OF inv])
  have inv1: "pipe_inv ?p" using m by (simp add: moved_def)
  have valid: "proposal_valid ?pr" using len by (simp add: seed_row_simps)
  have w1: "uuids_ok 2 (p_world ?p)" using w by simp
  show thesis
  proof (rule handled [OF inv1 valid w1])
    fix b p'
    assume h: "handle_proposal ?pr ?p = (Inr [b], p')" and m2: "moved 2 ?p p'"
    have "first_action_id (case seed_row pid t e c act by r p of (pr, p1) \<Rightarrow> handle_proposal pr p1) = (Inr (a_id b), p')"
      using h by (simp add: case_prod_beta seed_row_simps first_action_id_def)
    moreover have "moved 2 p p'" using moved_trans [OF m m2] by (simp add: numeral_2_eq_2)
    moreover assume "store p' (a_id b) = Some b"
      "a_tenant_id b = pr_tenant_id ?pr" "a_event_id b = pr_event_id ?pr"
      "\<And>k. k \<noteq> (pr_tenant_id ?pr, pr_event_id ?pr) \<Longrightarrow> p_dedup p' k = p_dedup ?p k"
      "p_dedup ?p (pr_tenant_id ?pr, pr_event_id ?pr) = None \<Longrightarrow>
         decided_status (decision_of ?pr ?p) (a_status b) \<and>
         queue_row_for (qp_resolve (pr_tenant_id ?pr) (pr_action_type ?pr) (p_quorum ?p)) b (queue_rows p' (a_id b)) \<and>
         (decision_of ?pr ?p = AUTO \<longrightarrow> p_executors ?p = default_executors \<longrightarrow> a_status b = EXECUTED)"
    ultimately show thesis
      by (intro that [of b p']) (simp_all add: seed_row_simps)
  qed
qed

lemma row_repushed:
  assumes "p_dedup p (t, e) = Some [a_id b]" "store p (a_id b) = Some b"
  shows "first_action_id (case seed_row pid t e c act by r p of (pr, p1) \<Rightarrow> handle_proposal pr p1) =
    (Inr (a_id b), snd (p_now p))"
proof -
  have "handle_proposal (fst (seed_row pid t e c act by r p)) (snd (p_now p)) = (Inr [b], snd (p_now p))"
    by (rule handle_proposal_hit [of _ t e "a_id b"]) (use assms in \<open>simp_all add: seed_row_simps\<close>)
  then show ?thesis by (simp add: case_prod_beta seed_row_simps first_action_id_def)
qed

lemma push_rows:
  "push_ack_proposal p = first_action_id (case seed_row ''pp_jane_ack'' ''tenant_acme_bank''
     ''evt_jane_paystub_upload'' ''cus_jane_doe'' SEND_BORROWER_MESSAGE LLM
     ack_reasoning p of
     (pr, p1) \<Rightarrow> handle_proposal pr p1)"
  "push_anomaly_proposal u p = first_action_id (case seed_row ''pp_jane_anomaly'' ''tenant_acme_bank''
     ''evt_jane_income_anomaly'' ''cus_jane_doe'' NOTIFY_LOAN_OFFICER LLM
     (anomaly_reasoning u) p of
     (pr, p1) \<Rightarrow> handle_proposal pr p1)"
  unfolding push_ack_proposal_def push_anomaly_proposal_def Let_def case_prod_beta by (rule refl)+

abbreviation jane_ack :: "string \<times> string" where
  "jane_ack \<equiv> (''tenant_acme_bank'', ''evt_jane_paystub_upload'')"

abbreviation jane_anomaly :: "string \<times> string" where
  "jane_anomaly \<equiv> (''tenant_acme_bank'', ''evt_jane_income_anomaly'')"

text \<open>Building: both actions are stored, and new ones as the policy after the seeding decides.\<close>

lemma scenario_built:
  assumes inv: "pipe_inv p" and w: "uuids_ok 12 (p_world p)"
  obtains s p1 p' a b where
    "build_scenario_state u isoformat (steps, p) =
       (Inr s, (map (stamp_step (sn_ack_action_id s) (sn_anomaly_action_id s)) steps, p'))"
    "pipe_inv p'" "draws 12 p p'" "sn_ack_action_id s = a_id a" "sn_anomaly_action_id s = a_id b"
    "store p' (a_id a) = Some a" "(a_tenant_id a, a_event_id a) = jane_ack"
    "store p' (a_id b) = Some b" "(a_tenant_id b, a_event_id b) = jane_anomaly"
    "p_dedup p jane_ack = None \<Longrightarrow>
       decided_status (de_decide ''tenant_acme_bank'' (Enum SEND_BORROWER_MESSAGE) (p_policy p1)) (a_status a) \<and>
       (de_decide ''tenant_acme_bank'' (Enum SEND_BORROWER_MESSAGE) (p_policy p1) = AUTO \<longrightarrow>
          p_executors p = default_executors \<longrightarrow> a_status a = EXECUTED)"
    "p_dedup p jane_anomaly = None \<Longrightarrow>
       decided_status (de_decide ''tenant_acme_bank'' (Enum NOTIFY_LOAN_OFFICER) (p_policy p1)) (a_status b) \<and>
       queue_row_for (qp_resolve ''tenant_acme_bank'' NOTIFY_LOAN_OFFICER (p_quorum p1)) b
         (queue_rows p' (a_id b))"
    "al_all_entries (p_audit p) = [] \<Longrightarrow> p_policy p1 = p_policy (demo_configured p) \<and>
       p_quorum p1 = p_quorum (demo_configured p)"
    "al_all_entries (p_audit p) \<noteq> [] \<Longrightarrow> p1 = p"
proof -
  have w8: "uuids_ok 8 (p_world p)" by (rule uuids_ok_mono [OF w]) simp
  obtain counts p1 where s: "seed_demo_data False p = (Inr counts, p1)" "pipe_inv p1" "draws 8 p p1"
    "al_all_entries (p_audit p1) \<noteq> []" "p_executors p1 = p_executors p"
    "\<And>k. k \<notin> set seed_keys \<Longrightarrow> p_dedup p1 k = p_dedup p k"
    "al_all_entries (p_audit p) = [] \<Longrightarrow> p_policy p1 = p_policy (demo_configured p) \<and>
       p_quorum p1 = p_quorum (demo_configured p)"
    "al_all_entries (p_audit p) \<noteq> [] \<Longrightarrow> p1 = p"
    by (rule seeded [OF inv w8]) (rule that; simp)
  obtain env where e: "push_paystub_event isoformat p1 = (Inr env, snd (p_now p1))" by (rule paystub_pushed)
  let ?p2 = "snd (p_now p1)"
  have m2: "moved 0 p1 ?p2" by (rule moved_now [OF s(2)])
  have w4: "uuids_ok 4 (p_world ?p2)" using uuids_ok_draws [OF s(3), of 4] w by simp
  have w2: "uuids_ok 2 (p_world ?p2)" by (rule uuids_ok_mono [OF w4]) simp
  have inv2: "pipe_inv ?p2" using m2 by (simp add: moved_def)
  show thesis
  proof (rule row_pushed [OF inv2 w2, of "''pp_jane_ack''" "''tenant_acme_bank''"
        "''evt_jane_paystub_upload''" "''cus_jane_doe''" SEND_BORROWER_MESSAGE LLM])
    fix a p3
    assume a: "first_action_id (case seed_row ''pp_jane_ack'' ''tenant_acme_bank''
        ''evt_jane_paystub_upload'' ''cus_jane_doe'' SEND_BORROWER_MESSAGE LLM
        ack_reasoning ?p2 of
        (pr, p1) \<Rightarrow> handle_proposal pr p1) = (Inr (a_id a), p3)"
      and m3: "moved 2 ?p2 p3" and sa: "store p3 (a_id a) = Some a"
      and ta: "a_tenant_id a = ''tenant_acme_bank''" "a_event_id a = ''evt_jane_paystub_upload''"
      and da: "\<And>k. k \<noteq> jane_ack \<Longrightarrow> p_dedup p3 k = p_dedup ?p2 k"
      and na: "p_dedup ?p2 jane_ack = None \<Longrightarrow>
        decided_status (de_decide ''tenant_acme_bank'' (Enum SEND_BORROWER_MESSAGE) (p_policy ?p2)) (a_status a) \<and>
        queue_row_for (qp_resolve ''tenant_acme_bank'' SEND_BORROWER_MESSAGE (p_quorum ?p2)) a
          (queue_rows p3 (a_id a)) \<and>
        (de_decide ''tenant_acme_bank'' (Enum SEND_BORROWER_MESSAGE) (p_policy ?p2) = AUTO \<longrightarrow>
          p_executors ?p2 = default_executors \<longrightarrow> a_status a = EXECUTED)"
    have inv3: "pipe_inv p3" using m3 by (simp add: moved_def)
    have w3: "uuids_ok 2 (p_world p3)" by (rule uuids_ok_moved [OF m3]) (use w4 in simp)
    show thesis
    proof (rule row_pushed [OF inv3 w3, of "''pp_jane_anomaly''" "''tenant_acme_bank''"
          "''evt_jane_income_anomaly''" "''cus_jane_doe''" NOTIFY_LOAN_OFFICER LLM])
      fix b p4
      assume b: "first_action_id (case seed_row ''pp_jane_anomaly'' ''tenant_acme_bank''
          ''evt_jane_income_anomaly'' ''cus_jane_doe'' NOTIFY_LOAN_OFFICER LLM
          (anomaly_reasoning u) p3 of
          (pr, p1) \<Rightarrow> handle_proposal pr p1) = (Inr (a_id b), p4)"
        and m4: "moved 2 p3 p4" and sb: "store p4 (a_id b) = Some b"
        and tb: "a_tenant_id b = ''tenant_acme_bank''" "a_event_id b = ''evt_jane_income_anomaly''"
        and nb: "p_dedup p3 jane_anomaly = None \<Longrightarrow>
          decided_status (de_decide ''tenant_acme_bank'' (Enum NOTIFY_LOAN_OFFICER) (p_policy p3)) (a_status b) \<and>
          queue_row_for (qp_resolve ''tenant_acme_bank'' NOTIFY_LOAN_OFFICER (p_quorum p3)) b
            (queue_rows p4 (a_id b)) \<and>
          (de_decide ''tenant_acme_bank'' (Enum NOTIFY_LOAN_OFFICER) (p_policy p3) = AUTO \<longrightarrow>
            p_executors p3 = default_executors \<longrightarrow> a_status b = EXECUTED)"
      let ?s = "\<lparr>sn_paystub_event = env, sn_brief = jane_brief u,
        sn_ack_action_id = a_id a, sn_anomaly_action_id = a_id b\<rparr>"
      have built: "build_scenario_state u isoformat (steps, p) = (Inr ?s, (map (stamp_step (a_id a) (a_id b)) steps, p4))"
        by (simp add: build_scenario_state_def s(1) e andThen_def a [folded push_rows] b [folded push_rows])
      have "draws 4 p1 p4"
        using moved_trans [OF moved_trans [OF m2 m3] m4] by (simp add: moved_def eval_nat_numeral)
      from draws_trans [OF s(3) this] have d: "draws 12 p p4" by simp
      have keys: "jane_ack \<notin> set seed_keys" "jane_anomaly \<notin> set seed_keys" by (simp_all add: seed_keys_def)
      have inv4: "pipe_inv p4" and sa': "store p4 (a_id a) = Some a"
        using m4 sa by (auto simp: moved_def)
      have pol: "p_policy p3 = p_policy p1" "p_quorum p3 = p_quorum p1" using m3 by (simp_all add: moved_def)
      have "p_dedup p jane_ack = None \<Longrightarrow> p_dedup ?p2 jane_ack = None"
        using s(6) [OF keys(1)] by simp
      note na' = na [OF this]
      have "p_dedup p jane_anomaly = None \<Longrightarrow> p_dedup p3 jane_anomaly = None"
        using s(6) [OF keys(2)] da [of jane_anomaly] by simp
      note nb' = nb [OF this]
      show thesis
        by (rule that [of ?s p4 a b p1])
           (use built inv4 d sa' sb ta tb na' nb' s(5,7,8) pol in \<open>simp_all\<close>)
    qed (simp_all add: len_within_def)
  qed (simp_all add: len_within_def)
qed

text \<open>
  Building the scenario twice does not act twice.  From any reachable state of the pipeline the
  builder returns a snapshot; built again after any further calls, on any timeline, it gives the same
  two action ids, stamps the timeline with them, and changes nothing in the pipeline but the clock,
  whatever became of the actions meanwhile.
\<close>

theorem scenario_is_idempotent:
  assumes "run_ok cs (make_pipeline ex w)" and "p = p_run cs (make_pipeline ex w)"
    and "uuids_ok (12 + 2 * length ds) (p_world p)" and "list_all call_ok ds"
    and "build_scenario_state u isoformat (steps, p) = (res, (steps1, p1))" and "p2 = p_run ds p1"
  shows "\<exists>s s' w'. res = Inr s \<and>
    build_scenario_state u isoformat (steps', p2) =
      (Inr s', (map (stamp_step (sn_ack_action_id s) (sn_anomaly_action_id s)) steps', p2\<lparr>p_world := w'\<rparr>)) \<and>
    sn_ack_action_id s' = sn_ack_action_id s \<and> sn_anomaly_action_id s' = sn_anomaly_action_id s \<and>
    (\<forall>aid \<in> {sn_ack_action_id s, sn_anomaly_action_id s}.
       returned (get_action aid (Some ''tenant_acme_bank'') p2, p2))"
proof -
  have inv: "pipe_inv p" using reachable_inv [OF assms(1)] assms(2) by simp
  have w12: "uuids_ok 12 (p_world p)" by (rule uuids_ok_mono [OF assms(3)]) simp
  show ?thesis
  proof (rule scenario_built [OF inv w12, of u isoformat steps])
    fix s q p1' a b
    assume "build_scenario_state u isoformat (steps, p) =
        (Inr s, (map (stamp_step (sn_ack_action_id s) (sn_anomaly_action_id s)) steps, p1'))"
      and inv1: "pipe_inv p1'" and d: "draws 12 p p1'"
      and ids: "sn_ack_action_id s = a_id a" "sn_anomaly_action_id s = a_id b"
      and a: "store p1' (a_id a) = Some a" "(a_tenant_id a, a_event_id a) = jane_ack"
      and b: "store p1' (a_id b) = Some b" "(a_tenant_id b, a_event_id b) = jane_anomaly"
    then have res: "res = Inr s" and p1: "p1 = p1'" using assms(5) by simp_all
    have "uuids_ok (2 * length ds) (p_world p1)"
      using uuids_ok_draws [OF d assms(3)] p1 by simp
    then have run: "run_ok ds p1'" using assms(4) p1 by (simp add: run_ok_def)
    have inv2: "pipe_inv p2" using pipe_inv_run [OF inv1 run] assms(6) p1 by simp
    obtain a' where a': "store p2 (a_id a) = Some a'" "same_ident a a'"
      using run_action [OF inv1 run a(1)] assms(6) p1 by auto
    obtain b' where b': "store p2 (a_id b) = Some b'" "same_ident b b'"
      using run_action [OF inv1 run b(1)] assms(6) p1 by auto
    have dedup: "p_dedup p2 jane_ack = Some [a_id a']" "p_dedup p2 jane_anomaly = Some [a_id b']"
      using pipe_invD(5) [OF inv2 a'(1)] pipe_invD(5) [OF inv2 b'(1)] a'(2) b'(2) a(2) b(2)
      by (simp_all add: same_ident_def)
    have same: "a_id a' = a_id a" "a_id b' = a_id b" using a'(2) b'(2) by (simp_all add: same_ident_def)
    obtain counts where seed: "seed_demo_data False p2 = (Inr counts, p2)"
      using stored_means_audited [OF inv2 a'(1)] by (simp add: seed_demo_data_def)
    obtain env where env: "push_paystub_event isoformat p2 = (Inr env, snd (p_now p2))" by (rule paystub_pushed)
    let ?q = "snd (p_now (snd (p_now (snd (p_now p2)))))"
    have ack: "push_ack_proposal (snd (p_now p2)) = (Inr (a_id a), snd (p_now (snd (p_now p2))))"
      unfolding push_rows by (rule row_repushed [of _ _ _ a', unfolded same]) (use dedup a' same in simp_all)
    have anomaly: "push_anomaly_proposal u (snd (p_now (snd (p_now p2)))) = (Inr (a_id b), ?q)"
      unfolding push_rows by (rule row_repushed [of _ _ _ b', unfolded same]) (use dedup b' same in simp_all)
    have "?q = p2\<lparr>p_world := p_world ?q\<rparr>" by (simp add: p_now_def now_def)
    then obtain w' where w': "?q = p2\<lparr>p_world := w'\<rparr>" by blast
    have again: "build_scenario_state u isoformat (steps', p2) =
        (Inr \<lparr>sn_paystub_event = env, sn_brief = jane_brief u, sn_ack_action_id = a_id a,
             sn_anomaly_action_id = a_id b\<rparr>, (map (stamp_step (a_id a) (a_id b)) steps', ?q))"
      by (simp add: build_scenario_state_def seed env andThen_def ack anomaly)
    have "returned (get_action (a_id a) (Some ''tenant_acme_bank'') p2, p2)"
      "returned (get_action (a_id b) (Some ''tenant_acme_bank'') p2, p2)"
      using a' b' a(2) b(2) by (simp_all add: get_action_def as_get_def tenant_guard_def same_ident_def)
    with res again ids w' show ?thesis
      by (intro exI [of _ s] exI [of _ "\<lparr>sn_paystub_event = env, sn_brief = jane_brief u,
            sn_ack_action_id = a_id a, sn_anomaly_action_id = a_id b\<rparr>"] exI [of _ w']) simp
  qed
qed

text \<open>
  On a fresh pipeline the acknowledgement is executed at once and the anomaly waits for two of three
  named approvers: the builder casts no vote, although the fifth step of the timeline reports them.
\<close>

lemma scenario_on_fresh_pipeline:
  assumes "uuids_ok 12 w"
  obtains s steps' p' a b r where
    "build_scenario_state u isoformat (JANE_TIMELINE u, make_default_pipeline w) = (Inr s, (steps', p'))"
    "store p' (sn_ack_action_id s) = Some a" "a_status a = EXECUTED"
    "store p' (sn_anomaly_action_id s) = Some b" "a_status b = PENDING_APPROVAL"
    "queue_rows p' (sn_anomaly_action_id s) = Some r" "ar_required_approvals r = 2" "ar_approvals r = []"
    "ar_eligible_approvers r = Some [''compliance_alice'', ''risk_bob'', ''legal_carol'']"
proof -
  let ?p = "make_default_pipeline w"
  have inv: "pipe_inv ?p" unfolding make_default_pipeline_def by (rule pipe_inv_new)
  have w: "uuids_ok 12 (p_world ?p)" using assms by (simp add: make_default_pipeline_def make_pipeline_def)
  have new: "al_all_entries (p_audit ?p) = []" "p_dedup ?p k = None" "p_executors ?p = default_executors" for k
    by (simp_all add: make_default_pipeline_def make_pipeline_def al_all_entries_def al_new_def executor_init_def)
  show thesis
  proof (rule scenario_built [OF inv w, of u isoformat "JANE_TIMELINE u"])
    fix s p1 p' a b
    assume built: "build_scenario_state u isoformat (JANE_TIMELINE u, ?p) =
        (Inr s, (map (stamp_step (sn_ack_action_id s) (sn_anomaly_action_id s)) (JANE_TIMELINE u), p'))"
      and ids: "sn_ack_action_id s = a_id a" "sn_anomaly_action_id s = a_id b"
      and st: "store p' (a_id a) = Some a" "store p' (a_id b) = Some b"
      and a: "p_dedup ?p jane_ack = None \<Longrightarrow>
        decided_status (de_decide ''tenant_acme_bank'' (Enum SEND_BORROWER_MESSAGE) (p_policy p1)) (a_status a) \<and>
        (de_decide ''tenant_acme_bank'' (Enum SEND_BORROWER_MESSAGE) (p_policy p1) = AUTO \<longrightarrow>
           p_executors ?p = default_executors \<longrightarrow> a_status a = EXECUTED)"
      and b: "p_dedup ?p jane_anomaly = None \<Longrightarrow>
        decided_status (de_decide ''tenant_acme_bank'' (Enum NOTIFY_LOAN_OFFICER) (p_policy p1)) (a_status b) \<and>
        queue_row_for (qp_resolve ''tenant_acme_bank'' NOTIFY_LOAN_OFFICER (p_quorum p1)) b
          (queue_rows p' (a_id b))"
      and "al_all_entries (p_audit ?p) = [] \<Longrightarrow> p_policy p1 = p_policy (demo_configured ?p) \<and>
        p_quorum p1 = p_quorum (demo_configured ?p)"
    then have conf: "p_policy p1 = p_policy (demo_configured ?p)" "p_quorum p1 = p_quorum (demo_configured ?p)"
      using new(1) by simp_all
    have sa: "a_status a = EXECUTED" using a [OF new(2)] new(3) conf by (simp add: configured_decides)
    have sb: "a_status b = PENDING_APPROVAL"
      using b [OF new(2)] conf by (simp add: configured_decides decided_status_def)
    obtain r where "queue_rows p' (a_id b) = Some r" "ar_required_approvals r = 2" "ar_approvals r = []"
      "ar_eligible_approvers r = Some [''compliance_alice'', ''risk_bob'', ''legal_carol'']"
      using b [OF new(2)] conf sb by (auto simp: configured_quorum queue_row_for_def split: option.splits)
    then show thesis using st sa sb unfolding ids [symmetric] by (intro that [OF built])
  qed
qed

text \<open>Every card a step of the timeline names exists, and the steps with an action are stamped.\<close>

lemma timeline_findings_exist:
  "list_all (\<lambda>step. case dict_get step ''finding'' of Some (JStr f) \<Rightarrow> f \<in> fst ` set (PHASE_FINDINGS u) | x \<Rightarrow> x = None)
     (JANE_TIMELINE u)"
  by (simp add: JANE_TIMELINE_def PHASE_FINDINGS_def)

lemma timeline_stamped:
  "map (\<lambda>step. dict_get step ''action_id'') (map (stamp_step i j) (JANE_TIMELINE u)) =
     [None, None, Some (JStr i), Some (JStr j), Some (JStr j), None]"
  by (simp add: JANE_TIMELINE_def stamp_step_def)

text \<open>
  On a pipeline that already holds other actions the seeding is skipped, policies and quorum rule
  included: with no policy of the tenant the acknowledgement waits for approval.
\<close>

lemma scenario_on_used_pipeline:
  assumes "pipe_inv p" "uuids_ok 12 (p_world p)" "al_all_entries (p_audit p) \<noteq> []"
    "de_by_tenant (p_policy p) ''tenant_acme_bank'' = None" "p_dedup p jane_ack = None"
  obtains s steps' p' a where "build_scenario_state u isoformat (steps, p) = (Inr s, (steps', p'))"
    "store p' (sn_ack_action_id s) = Some a" "a_status a = PENDING_APPROVAL"
proof (rule scenario_built [OF assms(1,2), of u isoformat steps])
  fix s p1 p' a
  assume built: "build_scenario_state u isoformat (steps, p) =
      (Inr s, (map (stamp_step (sn_ack_action_id s) (sn_anomaly_action_id s)) steps, p'))"
    and ids: "sn_ack_action_id s = a_id a" and st: "store p' (a_id a) = Some a"
    and a: "p_dedup p jane_ack = None \<Longrightarrow>
      decided_status (de_decide ''tenant_acme_bank'' (Enum SEND_BORROWER_MESSAGE) (p_policy p1)) (a_status a) \<and>
      (de_decide ''tenant_acme_bank'' (Enum SEND_BORROWER_MESSAGE) (p_policy p1) = AUTO \<longrightarrow>
         p_executors p = default_executors \<longrightarrow> a_status a = EXECUTED)"
    and "al_all_entries (p_audit p) \<noteq> [] \<Longrightarrow> p1 = p"
  then have "p1 = p" using assms(3) by simp
  with a [OF assms(5)] assms(4) have "a_status a = PENDING_APPROVAL"
    by (simp add: de_decide_def decided_status_def)
  with st show thesis unfolding ids [symmetric] by (intro that [OF built])
qed

end
