(* ===== verification/Stored_Records.thy ===== *)
theory Stored_Records
  imports Decision_Pipeline_Spec
begin

text \<open>
  The contracts of \<open>src/contracts\<close> are checked when a record is built; the pipeline changes
  records with \<open>model_copy\<close>, which checks nothing.  This theory shows that what the store, the
  queue and the log hold satisfies the contracts all the same.
\<close>

section \<open>The fields a transition cannot break\<close>

definition fields_ok :: "action \<Rightarrow> bool" where
  "fields_ok a \<longleftrightarrow> len_within 1 64 (a_id a) \<and> len_within 1 64 (a_tenant_id a) \<and>
     len_within 1 64 (a_proposal_id a) \<and> len_within 1 64 (a_event_id a) \<and> opt_max 64 (a_customer_id a)"

lemma action_valid_fields: "action_valid a \<longleftrightarrow> fields_ok a \<and> executed_at_consistent a"
  by (auto simp: action_valid_def fields_ok_def)

lemma fields_ok_status [simp]:
  "fields_ok (set_status s t a) = fields_ok a" "fields_ok (a\<lparr>a_status := s, a_updated_at := t\<rparr>) = fields_ok a"
  by (simp_all add: fields_ok_def set_status_def)

lemma fields_ok_execute: "ex_execute tbl t a = Inr a' \<Longrightarrow> fields_ok a' = fields_ok a"
  using ex_execute_Inr [of tbl t a a'] by (simp add: fields_ok_def)

definition rows_ok :: "approval_queue \<Rightarrow> bool" where
  "rows_ok q \<longleftrightarrow> (\<forall>aid r. aq_by_id q aid = Some r \<longrightarrow> approval_rule_valid r)"

definition log_ok :: "audit_log \<Rightarrow> bool" where
  "log_ok l \<longleftrightarrow> 1 \<le> al_next_id l \<and> (\<forall>e \<in> set (al_entries l). audit_entry_valid e)"

definition records_ok :: "pipeline \<Rightarrow> bool" where
  "records_ok p \<longleftrightarrow> (\<forall>aid a. store p aid = Some a \<longrightarrow> fields_ok a) \<and> rows_ok (p_queue p) \<and> log_ok (p_audit p)"

section \<open>What each operation keeps\<close>

lemma rows_ok_resolve:
  assumes "rows_ok q" "approval_rule_valid r" "opt_max 128 v" "opt_max 2048 n" "target \<in> set approval_states"
  shows "rows_ok (snd (resolve t target v n vs r q))"
  using assms
  by (auto simp: rows_ok_def resolve_def resolved_rule_def approval_rule_valid_def Let_def split: option.splits)

lemma resolved_states: "''approved'' \<in> set approval_states" "''rejected'' \<in> set approval_states"
  by (simp_all add: approval_states_def)

lemma rows_ok_require: "rows_ok q \<Longrightarrow> require_pending aid q = Inr r \<Longrightarrow> approval_rule_valid r"
  by (auto simp: rows_ok_def require_pending_def split: option.splits if_splits)

lemma rows_ok_approve:
  assumes "rows_ok q" "opt_max 128 v"
  shows "rows_ok (snd (aq_approve t aid v q))"
proof (cases "require_pending aid q")
  case (Inr r)
  note valid = rows_ok_require [OF assms(1) Inr]
  have approved: "rows_ok (snd (resolve t ''approved'' v None vs r q))" for vs
    by (rule rows_ok_resolve) (use assms valid resolved_states in simp_all)
  have vote: "rows_ok (q\<lparr>aq_by_id := (aq_by_id q)(aid \<mapsto> r\<lparr>ar_approvals := vs, ar_row_version := ar_row_version r + 1\<rparr>)\<rparr>)" for vs
    using assms(1) valid by (auto simp: rows_ok_def approval_rule_valid_def)
  show ?thesis
    using assms(1) approved vote by (auto simp: aq_approve_def Inr Let_def case_prod_beta split: option.split)
qed (simp add: aq_approve_def assms)

lemma rows_ok_reject:
  assumes "rows_ok q" "opt_max 128 v" "length reason \<le> 2048"
  shows "rows_ok (snd (aq_reject t aid reason v q))"
proof (cases "require_pending aid q")
  case (Inr r)
  note valid = rows_ok_require [OF assms(1) Inr]
  have "rows_ok (snd (resolve t ''rejected'' v n vs r q))" if "opt_max 2048 n" for n vs
    by (rule rows_ok_resolve) (use assms valid resolved_states that in simp_all)
  then show ?thesis using assms by (simp add: aq_reject_def Inr Let_def case_prod_beta)
qed (simp add: aq_reject_def assms)

lemma rows_ok_enqueue: "rows_ok q \<Longrightarrow> rows_ok (snd (aq_enqueue u s aid t asg n pool q))"
  by (auto simp: rows_ok_def aq_enqueue_def Let_def split: option.split)

text \<open>A step that keeps the records in order, and its value in order too.\<close>

definition keeps :: "(pipeline_error, 'a, pipeline) outcome \<Rightarrow> ('a \<Rightarrow> bool) \<Rightarrow> bool" where
  "keeps r good \<longleftrightarrow> records_ok (snd r) \<and> (case fst r of Inl e \<Rightarrow> True | Inr v \<Rightarrow> good v)"

lemma keeps_andThen: "keeps r good \<Longrightarrow> (\<And>v q. good v \<Longrightarrow> records_ok q \<Longrightarrow> keeps (f v q) good') \<Longrightarrow>
    keeps (andThen r f) good'"
  by (cases r; cases "fst r") (auto simp: keeps_def)

lemma keeps_weaken: "keeps r good \<Longrightarrow> keeps r (\<lambda>_. True)"
  by (simp add: keeps_def split: sum.splits)

lemma keeps_return [simp]: "keeps (Inr v, p) good \<longleftrightarrow> records_ok p \<and> good v"
  "keeps (Inl e, p) good \<longleftrightarrow> records_ok p"
  by (simp_all add: keeps_def)

lemma records_ok_simps [simp]:
  "records_ok (snd (p_now p)) = records_ok p" "records_ok (snd (p_uuid p)) = records_ok p"
  "records_ok (p\<lparr>p_dedup := d\<rparr>) = records_ok p" "records_ok (p\<lparr>p_policy := x\<rparr>) = records_ok p"
  "records_ok (p\<lparr>p_quorum := y\<rparr>) = records_ok p"
  "records_ok p \<Longrightarrow> records_ok (p\<lparr>p_queue := q\<rparr>) = rows_ok q"
  by (simp_all add: records_ok_def)

lemma records_ok_put: "records_ok p \<Longrightarrow> fields_ok a \<Longrightarrow> records_ok (p_put a p)"
  by (auto simp: records_ok_def)

lemma keeps_audit: "records_ok p \<Longrightarrow> keeps (p_write_audit k a b v d p) (\<lambda>_. True)"
  by (auto simp: p_write_audit_def Let_def case_prod_beta keeps_def records_ok_def log_ok_def
      al_write_def audit_entry_valid_def)

lemma keeps_execute: "records_ok p \<Longrightarrow> fields_ok a \<Longrightarrow> keeps (p_execute a p) fields_ok"
  by (auto simp: p_execute_def Let_def case_prod_beta fields_ok_execute records_ok_put
      intro!: keeps_andThen keeps_audit split: sum.split py_exn.split)

lemma keeps_enqueue: "records_ok p \<Longrightarrow> keeps (p_enqueue a rule p) (\<lambda>_. True)"
  by (auto simp: p_enqueue_def Let_def case_prod_beta rows_ok_enqueue records_ok_def
      split: sum.split)

lemma keeps_apply: "records_ok p \<Longrightarrow> fields_ok a \<Longrightarrow> keeps (p_apply_decision a d p) fields_ok"
  by (cases d) (auto simp: p_apply_decision_def Let_def case_prod_beta records_ok_put
      intro!: keeps_andThen keeps_audit keeps_enqueue keeps_execute)

lemma keeps_materialize: "records_ok p \<Longrightarrow> keeps (p_materialize_action pr p) fields_ok"
  by (simp add: p_materialize_action_def Let_def case_prod_beta action_valid_fields)

lemma keeps_handle: "records_ok p \<Longrightarrow> keeps (handle_proposal pr p) (\<lambda>_. True)"
  by (auto simp: handle_proposal_def Let_def records_ok_put split: option.split
      intro!: keeps_andThen [OF keeps_materialize] keeps_andThen [OF keeps_audit] keeps_andThen [OF keeps_apply])

lemma keeps_approve:
  assumes "records_ok p" "length v \<le> 128"
  shows "keeps (approve_action aid v t p) (\<lambda>_. True)"
proof (cases "as_get aid (p_actions p)")
  case (Some a)
  then have "fields_ok a" using assms(1) by (auto simp: records_ok_def as_get_def)
  moreover have "rows_ok (snd (aq_approve s aid (Some v) (p_queue p)))" for s
    by (rule rows_ok_approve) (use assms in \<open>simp_all add: records_ok_def\<close>)
  ultimately show ?thesis
    using assms(1)
    by (auto simp: approve_action_def Some Let_def case_prod_beta records_ok_put split: sum.split
        intro!: keeps_andThen [OF keeps_audit] keeps_execute [THEN keeps_weaken])
qed (simp add: approve_action_def assms)

lemma keeps_reject:
  assumes "records_ok p" "length v \<le> 128" "length reason \<le> 2048"
  shows "keeps (reject_action aid reason v t p) (\<lambda>_. True)"
proof (cases "as_get aid (p_actions p)")
  case (Some a)
  then have "fields_ok a" using assms(1) by (auto simp: records_ok_def as_get_def)
  moreover have "rows_ok (snd (aq_reject s aid reason (Some v) (p_queue p)))" for s
    by (rule rows_ok_reject) (use assms in \<open>simp_all add: records_ok_def\<close>)
  ultimately show ?thesis
    using assms(1)
    by (auto simp: reject_action_def Some Let_def case_prod_beta records_ok_put split: sum.split
        intro!: keeps_andThen [OF keeps_audit])
qed (simp add: reject_action_def assms)

section \<open>Every reachable state\<close>

fun short_reason :: "pipeline_call \<Rightarrow> bool" where
  "short_reason (RejectAction aid reason v t) = (length reason \<le> 2048)"
| "short_reason _ = True"

lemma records_ok_call: "records_ok p \<Longrightarrow> call_ok c \<Longrightarrow> short_reason c \<Longrightarrow> records_ok (p_call c p)"
  using keeps_handle [of p] keeps_approve [of p] keeps_reject [of p]
  by (cases c) (auto simp: keeps_def)

lemma records_ok_run:
  "records_ok p \<Longrightarrow> list_all call_ok cs \<Longrightarrow> list_all short_reason cs \<Longrightarrow> records_ok (p_run cs p)"
  by (induction cs arbitrary: p) (auto intro: records_ok_call)

lemma records_ok_new: "records_ok (make_pipeline ex w)"
  by (simp add: records_ok_def make_pipeline_def as_new_def rows_ok_def aq_new_def log_ok_def al_new_def)

text \<open>
  C15. Whatever is stored satisfies its contract, although transitions copy records without
  validating them: after any calls with valid proposals, names of at most 128 and reasons of at
  most 2048 characters, every action in
  the store, every row of the queue and every row of the log satisfies the validators of its
  class, and the action stands under its own id.
\<close>

theorem stored_records_valid:
  assumes "run_ok cs (make_pipeline ex w)" and "list_all short_reason cs"
    and "p = p_run cs (make_pipeline ex w)"
  shows "(\<forall>aid a. get_action aid None p = Inr a \<longrightarrow> action_valid a \<and> a_id a = aid) \<and>
    (\<forall>aid r. p_approval_rule aid p = Some r \<longrightarrow> approval_rule_valid r) \<and>
    (\<forall>t. \<forall>e \<in> set (al_entries_for_tenant t (p_audit p)). audit_entry_valid e)"
proof -
  have inv: "pipe_inv p" using reachable_inv [OF assms(1)] assms(3) by simp
  have ok: "records_ok p"
    using records_ok_run [OF records_ok_new] assms by (simp add: run_ok_def)
  have "action_valid a" if "store p aid = Some a" for aid a
    using ok pipe_invD(6) [OF inv that] that by (auto simp: action_valid_fields records_ok_def coherent_def)
  moreover have "e \<in> set (al_entries (p_audit p))" if "e \<in> set (al_entries_for_tenant t (p_audit p))" for e t
    using inv that by (auto simp: pipe_inv_def comps_inv_def al_inv_def al_entries_for_tenant_def split: option.splits)
  ultimately show ?thesis
    using ok pipe_invD(3) [OF inv]
    by (auto simp: get_action_stored p_approval_rule_def aq_get_def records_ok_def rows_ok_def log_ok_def)
qed

theorem stored_records_valid_witness:
  "\<exists>a. get_action demo_action None (p_run demo_history (make_pipeline None demo_world)) = Inr a \<and>
    action_valid a \<and> a_status a = EXECUTED"
proof (rule demo_executed)
  fix a assume "store (p_run demo_history (make_pipeline None demo_world)) demo_action = Some a"
    "a_status a = EXECUTED"
  then show ?thesis
    using stored_records_valid [OF demo_history_ok _ refl]
    by (auto simp: get_action_stored demo_history_def simp del: fold_simps)
qed

text \<open>The bound on reasons is needed: nothing in the pipeline checks it.\<close>

lemma long_reason_breaks_row:
  assumes "aq_by_id q aid = Some r" "ar_state r = ''pending''" "check_eligible r v" "2048 < length reason"
  shows "\<exists>r'. fst (aq_reject t aid reason v q) = Inr r' \<and> \<not> approval_rule_valid r'"
  using assms
  by (auto simp: aq_reject_def require_pending_def Let_def case_prod_beta resolve_fst resolved_rule_def
      approval_rule_valid_def)

end
