(* ===== verification/Policy_Llm.thy ===== *)
theory Policy_Llm
  imports Policy Planner_Spec Json_Writer
begin

text \<open>
  The two policy engines that ask a language model, \<open>orchestrator/policy/llm_judge.py\<close> (the table
  as JSON, a JSON answer) and \<open>naive.py\<close> (the table in prose, a word in the answer).  The client is
  the record of Llm_Clients; every decision also counts calls and estimates tokens.
\<close>

section \<open>The judge\<close>

definition JUDGE_SYSTEM_PROMPT :: string where
  \<open>JUDGE_SYSTEM_PROMPT = join [newline]
     [''You are a strict policy evaluator for a customer-service AI system.'',
      '''',
      ''You will receive a tenant's policy as a JSON object mapping action'',
      ''types to decisions, plus a proposed action. Look up the exact'',
      ''action_type in the policy table. If absent, use the "default" key. If'',
      ''"default" is absent, return "approval_required" (the safe default).'',
      '''',
      ''Respond with EXACTLY a JSON object of the shape:'',
      ''  {"decision": "<auto|approval_required|reject>", "reasoning": "<short>"}'',
      '''',
      ''No prose, no markdown fences, no preamble.'']\<close>

record judge_engine =
  lj_client :: llm_client
  lj_tables :: "string \<rightharpoonup> policy_table"
  lj_call_count :: int
  lj_input_tokens :: int
  lj_output_tokens :: int

definition lj_new :: "llm_client \<Rightarrow> judge_engine" where
  "lj_new client = \<lparr>lj_client = client, lj_tables = Map.empty, lj_call_count = 0, lj_input_tokens = 0,
     lj_output_tokens = 0\<rparr>"

definition lj_reset_metrics :: "judge_engine \<Rightarrow> judge_engine" where
  "lj_reset_metrics e = e\<lparr>lj_call_count := 0, lj_input_tokens := 0, lj_output_tokens := 0\<rparr>"

definition lj_set_policies :: "string \<Rightarrow> (string \<times> json) list \<Rightarrow> judge_engine \<Rightarrow>
    (policy_error, unit, judge_engine) outcome" where
  "lj_set_policies tenant policies e =
     (if tenant = [] then (Inl PolicyValueError, e)
      else case normalize_table PolicyValueError policies [] of
        Inl err \<Rightarrow> (Inl err, e)
      | Inr t \<Rightarrow> (Inr (), e\<lparr>lj_tables := (lj_tables e)(tenant \<mapsto> t)\<rparr>))"

text \<open>\<open>json.dumps\<close> with its default separators\<close>

definition table_json :: "policy_table \<Rightarrow> string" where
  "table_json table =
     ''{'' @ join '', '' (map (\<lambda>(k, d). dump_str k @ '': '' @ dump_str (policy_decision_value d))
       (sort_key fst table)) @ ''}''"

definition judge_prompt :: "policy_table \<Rightarrow> string \<Rightarrow> string" where
  "judge_prompt table action_str =
     ''Tenant policy table (JSON):'' @ [newline] @ table_json table @ [newline, newline] @
     ''Proposed action_type: '' @ action_str @ [newline, newline] @
     ''Return ONLY the JSON object as instructed.''"

definition resolve_from_table :: "policy_table \<Rightarrow> string \<Rightarrow> policy_decision" where
  "resolve_from_table table action_str =
     (if table = [] then APPROVAL_REQUIRED
      else case map_of table action_str of Some d \<Rightarrow> d
      | None \<Rightarrow> (case map_of table default_key of Some d \<Rightarrow> d
      | None \<Rightarrow> (case map_of table wildcard_key of Some d \<Rightarrow> d
      | None \<Rightarrow> APPROVAL_REQUIRED)))"

definition read_judgement :: "json \<Rightarrow> policy_decision" where
  "read_judgement obj =
     (case obj of
        JObj d \<Rightarrow>
          (case dict_get_or d ''decision'' JNull of
             JStr decision_str \<Rightarrow>
               (case policy_decision_of decision_str of None \<Rightarrow> APPROVAL_REQUIRED | Some p \<Rightarrow> p)
           | _ \<Rightarrow> APPROVAL_REQUIRED)
      | _ \<Rightarrow> APPROVAL_REQUIRED)"

text \<open>Only \<open>JSONDecodeError\<close> is caught; the fence is dropped as in the planner.\<close>

definition parse_judge_response :: "py_runtime \<Rightarrow> string \<Rightarrow> py_exn + policy_decision" where
  "parse_judge_response rt raw =
     (if raw = [] then Inr APPROVAL_REQUIRED
      else case json_loads rt (strip_fence (py_strip raw)) of
        Inl JSONDecodeError \<Rightarrow> Inr APPROVAL_REQUIRED
      | Inl e \<Rightarrow> Inl (loads_exn e)
      | Inr obj \<Rightarrow> Inr (read_judgement obj))"

definition lj_decide :: "py_runtime \<Rightarrow> string \<Rightarrow> action_key \<Rightarrow> judge_engine \<Rightarrow>
    (py_exn, policy_decision, judge_engine) outcome" where
  "lj_decide rt tenant action_type e =
     (let action_str = normalize_action_type action_type;
          table = (case lj_tables e tenant of None \<Rightarrow> [] | Some t \<Rightarrow> t);
          user_prompt = judge_prompt table action_str;
          e1 = e\<lparr>lj_call_count := lj_call_count e + 1,
                 lj_input_tokens := lj_input_tokens e +
                   int (length JUDGE_SYSTEM_PROMPT + length user_prompt) div 4\<rparr>
      in if llm_name (lj_client e) = ''mock''
         then (Inr (resolve_from_table table action_str), e1\<lparr>lj_output_tokens := lj_output_tokens e1 + 32\<rparr>)
         else case llm_complete (lj_client e) user_prompt (Some JUDGE_SYSTEM_PROMPT) 128 of
           Inl exn \<Rightarrow> (Inr APPROVAL_REQUIRED, e1)
         | Inr response \<Rightarrow>
             (parse_judge_response rt response,
              e1\<lparr>lj_output_tokens := lj_output_tokens e1 + int (length response) div 4\<rparr>))"

definition lj_policies_for :: "string \<Rightarrow> judge_engine \<Rightarrow> (string \<times> string) list" where
  "lj_policies_for tenant e =
     (case lj_tables e tenant of
        None \<Rightarrow> []
      | Some t \<Rightarrow> map (\<lambda>(k, d). (k, policy_decision_value d)) t)"

definition lj_clear :: "judge_engine \<Rightarrow> judge_engine" where
  "lj_clear e = e\<lparr>lj_tables := Map.empty, lj_call_count := 0, lj_input_tokens := 0, lj_output_tokens := 0\<rparr>"

section \<open>The naive engine\<close>

definition NAIVE_SYSTEM_PROMPT :: string where
  \<open>NAIVE_SYSTEM_PROMPT = join [newline]
     [''You are a customer-service AI policy engine. Given a tenant's policy'',
      ''described in English and a proposed action, decide whether the action'',
      ''should auto-execute, require human approval, or be rejected outright.'',
      '''',
      ''Respond with the single word "auto", "approval_required", or'',
      ''"reject", followed by one short sentence explaining why.'']\<close>

definition NAIVE_MOCK_HEURISTIC :: "(string \<times> policy_decision) list" where
  "NAIVE_MOCK_HEURISTIC =
     [(''message_received'', AUTO), (''document_uploaded'', APPROVAL_REQUIRED),
      (''status_changed'', APPROVAL_REQUIRED), (''anomaly_detected'', APPROVAL_REQUIRED),
      (''system_event'', AUTO)]"

record naive_engine =
  nv_client :: llm_client
  nv_policy_text :: "string \<rightharpoonup> string"
  nv_raw_tables :: "string \<rightharpoonup> (string \<times> string) list"
  nv_call_count :: int
  nv_input_tokens :: int
  nv_output_tokens :: int

definition nv_new :: "llm_client \<Rightarrow> naive_engine" where
  "nv_new client = \<lparr>nv_client = client, nv_policy_text = Map.empty, nv_raw_tables = Map.empty,
     nv_call_count = 0, nv_input_tokens = 0, nv_output_tokens = 0\<rparr>"

definition nv_reset_metrics :: "naive_engine \<Rightarrow> naive_engine" where
  "nv_reset_metrics e = e\<lparr>nv_call_count := 0, nv_input_tokens := 0, nv_output_tokens := 0\<rparr>"

definition naive_line :: "string \<Rightarrow> string \<Rightarrow> string" where
  "naive_line key value =
     (if key = ''default'' then
        ''  - For any action not listed below, the system should treat it as '' @ [CHR 0x27] @ value @ [CHR 0x27] @ ''.''
      else if key = ''*'' then
        ''  - For any action, the system should treat it as '' @ [CHR 0x27] @ value @ [CHR 0x27] @ ''.''
      else
        ''  - When the proposed action is '' @ [CHR 0x27] @ key @ [CHR 0x27] @
        '', the system should treat it as '' @ [CHR 0x27] @ value @ [CHR 0x27] @ ''.'')"

definition render_narrative :: "string \<Rightarrow> (string \<times> string) list \<Rightarrow> string" where
  "render_narrative tenant policies =
     ''Tenant '' @ py_repr_str tenant @ '' has the following customer-service policy rules:'' @ [newline] @
     join [newline] (map (\<lambda>(k, v). naive_line k v) (sort_key fst policies))"

text \<open>The values have to be strings, whatever strings they are.\<close>

fun string_values :: "(string \<times> json) list \<Rightarrow> (string \<times> string) list option" where
  "string_values [] = Some []"
| "string_values ((k, JStr s) # rest) = map_option (\<lambda>r. (k, s) # r) (string_values rest)"
| "string_values ((k, v) # rest) = None"

definition nv_set_policies :: "string \<Rightarrow> (string \<times> json) list \<Rightarrow> naive_engine \<Rightarrow>
    (policy_error, unit, naive_engine) outcome" where
  "nv_set_policies tenant policies e =
     (if tenant = [] then (Inl PolicyValueError, e)
      else case string_values policies of
        None \<Rightarrow> (Inl PolicyValueError, e)
      | Some t \<Rightarrow>
          (Inr (), e\<lparr>nv_policy_text := (nv_policy_text e)(tenant \<mapsto> render_narrative tenant t),
                     nv_raw_tables := (nv_raw_tables e)(tenant \<mapsto> t)\<rparr>))"

definition naive_prompt :: "string \<Rightarrow> string \<Rightarrow> json \<Rightarrow> string" where
  "naive_prompt policy_text action_str event_type =
     ''Policy narrative:'' @ [newline] @ policy_text @ [newline, newline] @
     ''Proposed action: '' @ action_str @ [newline] @
     ''Source event type: '' @ py_str event_type @ [newline, newline] @
     ''What should the system do?''"

definition nv_parse_decision :: "llm_client \<Rightarrow> string \<Rightarrow> json \<Rightarrow> py_exn + policy_decision" where
  "nv_parse_decision client response event_type =
     (if llm_name client = ''mock'' then
        (case event_type of
           JList xs \<Rightarrow> Inl (unhashable ''list'')
         | JObj d \<Rightarrow> Inl (unhashable ''dict'')
         | JStr s \<Rightarrow> Inr (case map_of NAIVE_MOCK_HEURISTIC s of None \<Rightarrow> APPROVAL_REQUIRED | Some d \<Rightarrow> d)
         | _ \<Rightarrow> Inr APPROVAL_REQUIRED)
      else
        let lower = py_lower response
        in Inr (if py_in ''reject'' lower then REJECT
                else if py_in ''approval_required'' lower \<or> py_in ''approval required'' lower then APPROVAL_REQUIRED
                else if py_in ''approval'' lower then APPROVAL_REQUIRED
                else if py_in ''auto'' lower then AUTO
                else APPROVAL_REQUIRED))"

definition nv_decide :: "string \<Rightarrow> action_key \<Rightarrow> dict option \<Rightarrow> naive_engine \<Rightarrow>
    (py_exn, policy_decision, naive_engine) outcome" where
  "nv_decide tenant action_type event_context e =
     (let action_str = normalize_action_type action_type;
          policy_text = (case nv_policy_text e tenant of
            None \<Rightarrow> ''(no policy configured for this tenant)'' | Some t \<Rightarrow> t);
          event_type = dict_get_or (case event_context of None \<Rightarrow> [] | Some d \<Rightarrow> d) ''event_type'' (JStr ''unknown'');
          user_prompt = naive_prompt policy_text action_str event_type;
          e1 = e\<lparr>nv_call_count := nv_call_count e + 1,
                 nv_input_tokens := nv_input_tokens e +
                   int (length NAIVE_SYSTEM_PROMPT + length user_prompt) div 4\<rparr>
      in case llm_complete (nv_client e) user_prompt (Some NAIVE_SYSTEM_PROMPT) 128 of
           Inl exn \<Rightarrow> (Inr APPROVAL_REQUIRED, e1)
         | Inr response \<Rightarrow>
             (nv_parse_decision (nv_client e) response event_type,
              e1\<lparr>nv_output_tokens := nv_output_tokens e1 + int (length response) div 4\<rparr>))"

definition nv_policies_for :: "string \<Rightarrow> naive_engine \<Rightarrow> (string \<times> string) list" where
  "nv_policies_for tenant e = (case nv_raw_tables e tenant of None \<Rightarrow> [] | Some t \<Rightarrow> t)"

definition nv_clear :: "naive_engine \<Rightarrow> naive_engine" where
  "nv_clear e = e\<lparr>nv_policy_text := Map.empty, nv_raw_tables := Map.empty, nv_call_count := 0,
     nv_input_tokens := 0, nv_output_tokens := 0\<rparr>"

section \<open>The judge as a policy engine\<close>

lemma resolve_from_table_eq: "resolve_from_table t a = resolve_table (map_of t) a"
  by (auto simp: resolve_from_table_def resolve_table_def split: option.split)

definition lj_resolve :: "string \<Rightarrow> action_key \<Rightarrow> judge_engine \<Rightarrow> policy_decision" where
  \<comment> \<open>what a judge that follows its prompt decides\<close>
  "lj_resolve tenant a e =
     resolve_from_table (case lj_tables e tenant of None \<Rightarrow> [] | Some t \<Rightarrow> t) (normalize_action_type a)"

lemma lj_set_returned:
  "returned (lj_set_policies tenant ps e) \<longleftrightarrow> tenant \<noteq> [] \<and> well_typed ps"
  using normalize_table_ok [of ps PolicyValueError "[]"]
  by (auto simp: lj_set_policies_def split: sum.splits)

interpretation lj: policy_engine "lj_new client" lj_set_policies lj_resolve
proof unfold_locales
  fix tenant ps and e :: judge_engine
  show "raised (lj_set_policies tenant ps e) \<longleftrightarrow> tenant = [] \<or> \<not> well_typed ps"
    unfolding raised_not_returned lj_set_returned by auto
  show "raised (lj_set_policies tenant ps e) \<Longrightarrow> snd (lj_set_policies tenant ps e) = e"
    by (auto simp: lj_set_policies_def split: sum.splits if_splits)
next
  fix tenant ps t' a and e :: judge_engine
  assume "returned (lj_set_policies tenant ps e)"
  then obtain t where ne: "tenant \<noteq> []"
    and t: "normalize_table PolicyValueError ps [] = Inr t"
    by (auto simp: lj_set_policies_def split: sum.splits if_splits)
  have "map_of t = decisions ps"
    using normalize_table_map_of [OF t] by simp
  with ne t show "lj_resolve t' a (snd (lj_set_policies tenant ps e)) =
            (if t' = tenant
             then resolve_table (decisions ps) (normalize_action_type a)
             else lj_resolve t' a e)"
    by (simp add: lj_set_policies_def lj_resolve_def resolve_from_table_eq)
qed (simp add: lj_resolve_def lj_new_def resolve_from_table_def)

lemma lj_client_set [simp]: "lj_client (snd (lj_set_policies tenant ps e)) = lj_client e"
  by (simp add: lj_set_policies_def split: sum.split)

lemma lj_client_configured:
  "lj_client (fold (\<lambda>(tenant, ps) e. snd (lj_set_policies tenant ps e)) cs e) = lj_client e"
  by (induction cs arbitrary: e) auto

lemma lj_decide_mock:
  "llm_name (lj_client e) = ''mock'' \<Longrightarrow> fst (lj_decide rt t a e) = Inr (lj_resolve t a e)"
  by (simp add: lj_decide_def lj_resolve_def Let_def)

text \<open>
  On the mock client the judge is the declarative engine: after the same configuration
  calls, accepted or refused, it decides every action of every tenant alike, and what it
  decided before plays no part.
\<close>

theorem judge_is_declarative_in_mock:
  assumes "llm_name client = ''mock''"
  shows "fst (lj_decide rt t a (fold (\<lambda>(tenant, ps) e. snd (lj_set_policies tenant ps e)) cs (lj_new client))) =
    Inr (de_decide t a (fold (\<lambda>(tenant, ps) e. snd (de_set_policies tenant ps e)) cs de_new))"
proof -
  let ?e = "fold (\<lambda>(tenant, ps) e. snd (lj_set_policies tenant ps e)) cs (lj_new client)"
  have "llm_name (lj_client ?e) = ''mock''"
    using assms by (simp add: lj_client_configured) (simp add: lj_new_def)
  then have "fst (lj_decide rt t a ?e) = Inr (lj_resolve t a ?e)" by (rule lj_decide_mock)
  moreover have "lj_resolve t a ?e =
      de_decide t a (fold (\<lambda>(tenant, ps) e. snd (de_set_policies tenant ps e)) cs de_new)"
    using lj.decide_configure [of t a cs "lj_new client"] de.decide_configure [of t a cs de_new]
    by (simp add: lj.configure_def de.configure_def lj.decide_init de.decide_init split: option.split)
  ultimately show ?thesis by simp
qed

theorem judge_is_declarative_in_mock_witness:
  "fst (lj_decide demo_runtime ''a'' (Enum NO_OP)
      (snd (lj_set_policies ''a'' [(''default'', JStr ''reject'')] (lj_new mock_client)))) = Inr REJECT"
proof -
  have "fst (lj_decide demo_runtime ''a'' (Enum NO_OP)
      (fold (\<lambda>(tenant, ps) e. snd (lj_set_policies tenant ps e)) [(''a'', [(''default'', JStr ''reject'')])] (lj_new mock_client))) =
    Inr (de_decide ''a'' (Enum NO_OP)
      (fold (\<lambda>(tenant, ps) e. snd (de_set_policies tenant ps e)) [(''a'', [(''default'', JStr ''reject'')])] de_new))"
    by (rule judge_is_declarative_in_mock) (simp add: mock_client_def)
  moreover have "de_decide ''a'' (Enum NO_OP) (snd (de_set_policies ''a'' [(''default'', JStr ''reject'')] de_new)) = REJECT"
    by code_simp
  ultimately show ?thesis by simp
qed

text \<open>
  C21. The judge fails safe.  With the mock client it decides by the table of the tenant.  With any
  other client a decision other than approval_required comes from the client's answer to the very
  prompt this call made of the tenant's table and the action: but for blanks and one fence the answer
  is a JSON object whose member \<open>decision\<close> is the value of that decision.  Everything else, a failing
  client included, is approval_required, with one exception the docstring of the parser denies: an
  answer whose integer has too many digits or whose nesting is too deep makes the call raise.  The
  tables are never touched, and each call is counted once.
\<close>

theorem judge_fails_safe:
  assumes "lj_decide rt t a e = (r, e')"
    and "table = (case lj_tables e t of None \<Rightarrow> [] | Some table \<Rightarrow> table)"
    and "answer = llm_complete (lj_client e) (judge_prompt table (normalize_action_type a))
      (Some JUDGE_SYSTEM_PROMPT) 128"
  shows "lj_tables e' = lj_tables e \<and> lj_call_count e' = lj_call_count e + 1 \<and>
    (if llm_name (lj_client e) = ''mock'' then r = Inr (resolve_from_table table (normalize_action_type a))
     else case r of
       Inl exn \<Rightarrow> \<exists>raw err. answer = Inr raw \<and> json_loads rt (strip_fence (py_strip raw)) = Inl err \<and>
         err \<in> {LoadsValueError, LoadsRecursionError} \<and> exn = loads_exn err
     | Inr d \<Rightarrow> d = APPROVAL_REQUIRED \<or>
         (\<exists>raw obj. answer = Inr raw \<and> json_loads rt (strip_fence (py_strip raw)) = Inr (JObj obj) \<and>
            dict_get obj ''decision'' = Some (JStr (policy_decision_value d))))"
proof (cases "llm_name (lj_client e) = ''mock''")
  case True
  with assms show ?thesis by (auto simp: lj_decide_def Let_def)
next
  case False
  have ans: "llm_complete (lj_client e) (judge_prompt (case lj_tables e t of None \<Rightarrow> [] | Some table \<Rightarrow> table)
      (normalize_action_type a)) (Some JUDGE_SYSTEM_PROMPT) 128 = answer"
    using assms(2,3) by simp
  show ?thesis
  proof (cases answer)
    case (Inl exn)
    with assms(1) ans False show ?thesis by (auto simp: lj_decide_def Let_def)
  next
    case (Inr raw)
    with assms(1) ans False have r: "r = parse_judge_response rt raw" "lj_tables e' = lj_tables e"
      "lj_call_count e' = lj_call_count e + 1" by (auto simp: lj_decide_def Let_def)
    have "case r of
        Inl exn \<Rightarrow> \<exists>err. json_loads rt (strip_fence (py_strip raw)) = Inl err \<and>
          err \<in> {LoadsValueError, LoadsRecursionError} \<and> exn = loads_exn err
      | Inr d \<Rightarrow> d = APPROVAL_REQUIRED \<or>
          (\<exists>obj. json_loads rt (strip_fence (py_strip raw)) = Inr (JObj obj) \<and>
             dict_get obj ''decision'' = Some (JStr (policy_decision_value d)))"
      using json_loads_never_out_of_fuel [of rt "strip_fence (py_strip raw)"]
      by (auto simp: r(1) parse_judge_response_def read_judgement_def dict_get_or_def policy_decision_of_Some
          split: sum.split loads_error.split json.split option.splits)
    with r(2,3) Inr False show ?thesis by (simp split: sum.splits)
  qed
qed

theorem judge_fails_safe_witness:
  "case fst (lj_decide demo_runtime ''a'' (Enum NO_OP) (lj_new (mock_client\<lparr>llm_name := ''openai'',
      llm_complete := \<lambda>prompt system n. Inl (Exn ''APIError'' ''down'')\<rparr>))) of
    Inl exn \<Rightarrow> False | Inr d \<Rightarrow> d = APPROVAL_REQUIRED"
proof -
  let ?e = "lj_new (mock_client\<lparr>llm_name := ''openai'',
      llm_complete := \<lambda>prompt system n. Inl (Exn ''APIError'' ''down'')\<rparr>)"
  obtain r e' where r: "lj_decide demo_runtime ''a'' (Enum NO_OP) ?e = (r, e')" by (cases "lj_decide demo_runtime ''a'' (Enum NO_OP) ?e")
  from judge_fails_safe [OF this refl refl] r show ?thesis
    by (auto simp: lj_new_def lj_decide_def Let_def mock_client_def)
qed

text \<open>The naive engine on the mock client does not read the policies of the tenant.\<close>

lemma naive_mock_ignores_policies:
  assumes "llm_name (nv_client e) = ''mock''" "llm_complete (nv_client e) = llm_complete mock_client"
    and "nv_client e' = nv_client e"
  shows "fst (nv_decide t a ctx e') = fst (nv_decide t' a' ctx e)"
  using assms by (simp add: nv_decide_def Let_def nv_parse_decision_def mock_client_def)

text \<open>An answer that mentions a word decides by it: refusing to reject is rejecting.\<close>

lemma naive_reads_words:
  "llm_name client \<noteq> ''mock'' \<Longrightarrow>
   nv_parse_decision client ''auto - no reason to reject this'' ev = Inr REJECT"
proof -
  have "py_in ''reject'' (py_lower ''auto - no reason to reject this'')" by code_simp
  then show "llm_name client \<noteq> ''mock'' \<Longrightarrow> ?thesis" by (simp add: nv_parse_decision_def Let_def)
qed

end
