(* ===== verification/Takehome.thy ===== *)
theory Takehome
  imports Orchestrator_Api Retrieval
begin

text \<open>
  The adapters an external evaluator drives: \<open>takehome/context-engine/memory_system.py\<close> over the
  recency strategy and the packer, and \<open>takehome/orchestrator/orchestrator_impl.py\<close> over the planner
  and the decision pipeline.  The evaluator's objects are the messages and actions of Retrieval, a
  message with the borrower it belongs to.
\<close>

section \<open>PennyCoreMemorySystem\<close>

record memory_message = message_like +
  mm_borrower_id :: string

definition as_message :: "memory_message \<Rightarrow> message_like" where
  \<comment> \<open>what the formatter sees of a message\<close>
  "as_message m = message_like.truncate m"

record memory_system =
  ms_messages :: "string \<rightharpoonup> memory_message list"
  ms_actions :: "string \<rightharpoonup> action_like list"

definition ms_new :: memory_system where
  "ms_new = \<lparr>ms_messages = Map.empty, ms_actions = Map.empty\<rparr>"

definition ingest_message :: "memory_message \<Rightarrow> memory_system \<Rightarrow> memory_system" where
  "ingest_message m s = s\<lparr>ms_messages := push (ms_messages s) (mm_borrower_id m) m\<rparr>"

definition record_action :: "string \<Rightarrow> action_like \<Rightarrow> memory_system \<Rightarrow> memory_system" where
  "record_action borrower a s = s\<lparr>ms_actions := push (ms_actions s) borrower a\<rparr>"

definition get_actions :: "string \<Rightarrow> memory_system \<Rightarrow> action_like list" where
  "get_actions borrower s = get_list (ms_actions s) borrower"

definition assemble_context :: "'f floats \<Rightarrow> string \<Rightarrow> int \<Rightarrow> memory_system \<Rightarrow> py_exn + string" where
  "assemble_context F borrower token_budget s =
     (let messages = get_list (ms_messages s) borrower;
          actions = get_list (ms_actions s) borrower;
          segments = recency_segments F (map as_message messages) actions;
          header = ''Borrower: '' @ borrower
      in pack_segments segments token_budget (Some header))"

section \<open>PennyCoreOrchestrator\<close>

datatype adapter_error =
    PlannerRaised py_exn
  | PipelineRaised pipeline_error
  | PolicyRaised policy_error

text \<open>Its state is one pipeline.\<close>

definition first_stamp :: "audit_kind \<Rightarrow> audit_entry list \<Rightarrow> json" where
  "first_stamp k es =
     (case find (\<lambda>e. ae_kind e = k) es of None \<Rightarrow> JNull | Some e \<Rightarrow> JStr (iso_stamp (ae_ts e)))"

definition th_action_to_dict :: "pipeline \<Rightarrow> action \<Rightarrow> dict" where
  "th_action_to_dict p a =
     (let audit_entries = audit_for_action (a_id a) p;
          audit_trail = map audit_dump audit_entries;
          (reasoning, payload) = dict_pop ''_planner_reasoning'' (JStr []) (a_payload a);
          (executed_payload, payload) = dict_pop ''_executed_payload'' JNull payload
      in [(''action_id'', JStr (a_id a)), (''action_type'', JStr (action_type_value (a_action_type a))),
          (''status'', JStr (action_status_value (a_status a))), (''tenant_id'', JStr (a_tenant_id a)),
          (''event_id'', JStr (a_event_id a)), (''proposal_id'', JStr (a_proposal_id a)),
          (''customer_id'', json_opt (a_customer_id a)), (''reasoning'', reasoning),
          (''payload'', JObj payload), (''executed_payload'', executed_payload),
          (''audit_trail'', JList audit_trail), (''created_at'', JStr (iso_stamp (a_created_at a))),
          (''updated_at'', JStr (iso_stamp (a_updated_at a))),
          (''executed_at'', case a_executed_at a of None \<Rightarrow> JNull | Some t \<Rightarrow> JStr (iso_stamp t)),
          (''approved_at'', first_stamp A_APPROVAL audit_entries),
          (''rejected_at'', first_stamp A_REJECTION audit_entries)])"

definition normalize_event :: "dict \<Rightarrow> world \<Rightarrow> dict \<times> world" where
  "normalize_event event w =
     (let (envelope, w1) =
            (if \<not> truthy (dict_get_or event ''event_id'' JNull)
             then let (u, w1) = uuid4 w in (dict_set ''event_id'' (JStr (''evt_'' @ u)) event, w1)
             else (event, w));
          envelope = (if dict_get envelope ''customer_id'' = None
                      then dict_set ''customer_id'' JNull envelope else envelope);
          envelope = (if dict_get envelope ''channel_code'' = None
                      then dict_set ''channel_code'' (JStr ''api'') envelope else envelope)
      in (envelope, w1))"

definition th_handle_event :: "py_runtime \<Rightarrow> llm_client \<Rightarrow> dict \<Rightarrow> pipeline \<Rightarrow>
    (adapter_error, dict list, pipeline) outcome" where
  \<comment> \<open>\<open>client\<close> is what \<open>get_client()\<close> returns to the planner\<close>
  "th_handle_event rt client event p =
     (let (envelope, w) = normalize_event event (p_world p)
      in case propose_action rt \<lparr>plr_envelope = envelope, plr_brief_text = []\<rparr> client default_proposal_id w of
           (Inl e, w') \<Rightarrow> (Inl (PlannerRaised e), p\<lparr>p_world := w'\<rparr>)
         | (Inr proposal, w') \<Rightarrow>
             (case handle_proposal proposal (p\<lparr>p_world := w'\<rparr>) of
                (Inl e, p') \<Rightarrow> (Inl (PipelineRaised e), p')
              | (Inr actions, p') \<Rightarrow> (Inr (map (th_action_to_dict p') actions), p')))"

definition th_configure_policies :: "string \<Rightarrow> (string \<times> json) list \<Rightarrow> pipeline \<Rightarrow>
    (adapter_error, unit, pipeline) outcome" where
  "th_configure_policies tenant policies p =
     (let cleaned = filter (\<lambda>(k, v). case v of JStr s \<Rightarrow> True | _ \<Rightarrow> False) policies
      in case de_set_policies tenant cleaned (p_policy p) of
           (Inl e, e') \<Rightarrow> (Inl (PolicyRaised e), p\<lparr>p_policy := e'\<rparr>)
         | (Inr u, e') \<Rightarrow> (Inr (), p\<lparr>p_policy := e'\<rparr>))"

definition th_get_pending_actions :: "string \<Rightarrow> pipeline \<Rightarrow> dict list" where
  "th_get_pending_actions tenant p = map (th_action_to_dict p) (list_pending_actions tenant p)"

definition th_answer :: "(pipeline_error, action, pipeline) outcome \<Rightarrow> (adapter_error, dict, pipeline) outcome" where
  "th_answer r =
     (case r of (Inl e, p') \<Rightarrow> (Inl (PipelineRaised e), p') | (Inr a, p') \<Rightarrow> (Inr (th_action_to_dict p' a), p'))"

definition th_approve_action :: "string \<Rightarrow> pipeline \<Rightarrow> (adapter_error, dict, pipeline) outcome" where
  "th_approve_action aid p = th_answer (approve_action aid ''evaluator'' None p)"

definition th_reject_action :: "string \<Rightarrow> string \<Rightarrow> pipeline \<Rightarrow> (adapter_error, dict, pipeline) outcome" where
  "th_reject_action aid reason p = th_answer (reject_action aid reason ''evaluator'' None p)"

end
