(* ===== verification/Takehome_Spec.thy ===== *)
theory Takehome_Spec
  imports Takehome Retrieval_Spec
begin

text \<open>
  What the evaluator's adapters promise: the context of a borrower is made of that borrower's
  history alone and within the budget, and a repeated event leads to the action of the first.
\<close>

section \<open>Memory\<close>

datatype memory_call =
    Ingest memory_message
  | Record string action_like

fun ms_step :: "memory_call \<Rightarrow> memory_system \<Rightarrow> memory_system" where
  "ms_step (Ingest m) s = ingest_message m s"
| "ms_step (Record b a) s = record_action b a s"

fun of_borrower :: "string \<Rightarrow> memory_call \<Rightarrow> bool" where
  "of_borrower b (Ingest m) \<longleftrightarrow> mm_borrower_id m = b"
| "of_borrower b (Record b' a) \<longleftrightarrow> b' = b"

fun recorded :: "memory_call list \<Rightarrow> action_like list" where
  "recorded [] = []"
| "recorded (Record b a # cs) = a # recorded cs"
| "recorded (Ingest m # cs) = recorded cs"

definition of_b :: "string \<Rightarrow> memory_system \<Rightarrow> memory_message list \<times> action_like list" where
  "of_b b s = (get_list (ms_messages s) b, get_list (ms_actions s) b)"

lemma of_b_step: "of_b b (ms_step c s) = (if of_borrower b c
    then (case c of Ingest m \<Rightarrow> (fst (of_b b s) @ [m], snd (of_b b s))
          | Record b' a \<Rightarrow> (fst (of_b b s), snd (of_b b s) @ [a]))
    else of_b b s)"
  by (cases c) (auto simp: of_b_def ingest_message_def record_action_def)

lemma of_b_run: "of_b b s = of_b b s' \<Longrightarrow>
    of_b b (fold ms_step cs s) = of_b b (fold ms_step (filter (of_borrower b) cs) s')"
proof (induction cs arbitrary: s s')
  case (Cons c cs)
  then have "of_b b (ms_step c s) = (if of_borrower b c then of_b b (ms_step c s') else of_b b s')"
    by (simp add: of_b_step split: memory_call.split)
  with Cons.IH show ?case by (cases "of_borrower b c") simp_all
qed simp

lemma actions_run: "get_actions b (fold ms_step cs s) = get_actions b s @ recorded (filter (of_borrower b) cs)"
proof (induction cs arbitrary: s)
  case (Cons c cs)
  then show ?case by (cases c) (auto simp: get_actions_def ingest_message_def record_action_def)
qed simp

text \<open>
  C22. The memory of one borrower is its own.  Whatever is ingested and recorded for whomever,
  the context assembled for a borrower is the one its own calls alone give, \<open>get_actions\<close> returns
  its recorded actions in their order, and the context is refused exactly for a budget that is not
  positive and is otherwise within the budget by the evaluator's estimate.
\<close>

theorem memory_is_per_borrower:
  "assemble_context F b n (fold ms_step cs ms_new) =
     assemble_context F b n (fold ms_step (filter (of_borrower b) cs) ms_new) \<and>
   get_actions b (fold ms_step cs ms_new) = recorded (filter (of_borrower b) cs) \<and>
   (case assemble_context F b n (fold ms_step cs ms_new) of
      Inl e \<Rightarrow> n \<le> 0
    | Inr text \<Rightarrow> 0 < n \<and> int (length text) div 4 \<le> n)"
proof -
  have ctx: "assemble_context F b n s = pack_segments
      (recency_segments F (map as_message (fst (of_b b s))) (snd (of_b b s))) n (Some (''Borrower: '' @ b))" for s
    by (simp add: assemble_context_def of_b_def Let_def)
  have "get_actions b ms_new = []" by (simp add: get_actions_def ms_new_def)
  then show ?thesis
    using of_b_run [of b ms_new ms_new cs] actions_run [of b cs ms_new]
      brief_within_budget [where segments = "recency_segments F (map as_message (fst (of_b b (fold ms_step cs ms_new))))
         (snd (of_b b (fold ms_step cs ms_new)))" and token_budget = n and header = "Some (''Borrower: '' @ b)"]
    unfolding ctx by (auto simp: estimate_tokens_def split: sum.splits)
qed

section \<open>Repeated events\<close>

lemma normalized:
  assumes "env_ok event t e"
  obtains env where "normalize_event event w = (env, w)" "env_ok env t e"
proof -
  have "truthy (dict_get_or event ''event_id'' JNull)"
    using assms by (auto simp: env_ok_def dict_get_or_def len_within_def)
  with assms show thesis
    by (intro that [of "fst (normalize_event event w)"])
       (auto simp: normalize_event_def Let_def env_ok_def dict_get_or_def)
qed

text \<open>One event: the planner draws an id and reads the clock, then the pipeline decides.\<close>

lemma th_handle_step:
  assumes env: "env_ok event t e" and w: "uuids_ok 1 (p_world p)"
    and ok: "accepted rt (fst (normalize_event event (p_world p))) (Inr client)"
  obtains pr where "proposal_valid pr" "pr_tenant_id pr = t" "pr_event_id pr = e"
    "th_handle_event rt client event p =
       (case handle_proposal pr (p\<lparr>p_world := snd (now (snd (uuid4 (p_world p))))\<rparr>) of
          (Inl x, p') \<Rightarrow> (Inl (PipelineRaised x), p')
        | (Inr actions, p') \<Rightarrow> (Inr (map (th_action_to_dict p') actions), p'))"
proof -
  obtain env' where n: "normalize_event event (p_world p) = (env', p_world p)" "env_ok env' t e"
    by (rule normalized [OF env])
  obtain ans where ans: "llm_answer rt \<lparr>plr_envelope = env', plr_brief_text = []\<rparr> client = Inr ans"
    using ok n(1) by (auto simp: accepted_def split: sum.splits)
  have "length (uuid_of (p_world p) (uuids_drawn (p_world p))) = 32" using w by (simp add: uuids_ok_def)
  from propose_ok [OF n(2) _ this ans] obtain pr where pr:
    "propose_action rt \<lparr>plr_envelope = env', plr_brief_text = []\<rparr> client default_proposal_id (p_world p) =
       (Inr pr, snd (now (snd (uuid4 (p_world p)))))"
    "proposal_valid pr" "pr_tenant_id pr = t" "pr_event_id pr = e" by auto
  show thesis
    by (rule that [OF pr(2-4)]) (simp add: th_handle_event_def n(1) pr(1))
qed

lemma th_handled:
  assumes inv: "pipe_inv p" and env: "env_ok event t e" and w: "uuids_ok 3 (p_world p)"
    and ok: "accepted rt (fst (normalize_event event (p_world p))) (Inr client)"
  obtains a p' where "th_handle_event rt client event p = (Inr [th_action_to_dict p' a], p')"
    "pipe_inv p'" "store p' (a_id a) = Some a" "a_tenant_id a = t" "a_event_id a = e" "draws 3 p p'"
proof -
  have w1: "uuids_ok 1 (p_world p)" by (rule uuids_ok_mono [OF w]) simp
  obtain pr where pr: "proposal_valid pr" "pr_tenant_id pr = t" "pr_event_id pr = e"
    "th_handle_event rt client event p =
       (case handle_proposal pr (p\<lparr>p_world := snd (now (snd (uuid4 (p_world p))))\<rparr>) of
          (Inl x, p') \<Rightarrow> (Inl (PipelineRaised x), p')
        | (Inr actions, p') \<Rightarrow> (Inr (map (th_action_to_dict p') actions), p'))"
    by (rule th_handle_step [OF env w1 ok])
  let ?p = "p\<lparr>p_world := snd (now (snd (uuid4 (p_world p))))\<rparr>"
  have d1: "draws 1 p ?p" by (simp add: draws_def)
  have w2: "uuids_ok 2 (p_world ?p)" by (rule uuids_ok_draws [OF d1]) (use w in \<open>simp add: numeral_2_eq_2 numeral_3_eq_3\<close>)
  have inv1: "pipe_inv ?p" by (rule pipe_inv_world [OF inv]) simp_all
  have d3: "draws 3 p (snd (handle_proposal pr ?p))"
    using draws_trans [OF d1 draws_handle, of pr] by (simp add: numeral_3_eq_3)
  obtain a p' where h: "handle_proposal pr ?p = (Inr [a], p')" "store p' (a_id a) = Some a"
    "a_tenant_id a = t" "a_event_id a = e"
  proof (cases "p_dedup ?p (pr_tenant_id pr, pr_event_id pr)")
    case (Some ids)
    show thesis by (rule handle_proposal_cached [OF inv1 Some]) (use that pr in auto)
  next
    case None
    show thesis
      by (rule after_proposal [OF inv1 pr(1) w2 None]) (use that pr in \<open>auto simp: from_proposal_def\<close>)
  qed
  show thesis
    by (rule that [of p' a]) (use h pr(4) d3 pipe_inv_handle [OF inv1 pr(1) w2] in simp_all)
qed

text \<open>
  A repeated event does not act twice.  After an event was handled, and whatever calls
  follow, handling an event of the same tenant and id again returns exactly the stored action,
  rendered as it then is, and changes nothing but the clock and the ids drawn (the planner runs
  again all the same, whatever it now proposes).
\<close>

theorem repeated_event_same_action:
  assumes "run_ok cs (make_pipeline ex w)" and "p = p_run cs (make_pipeline ex w)"
    and "env_ok event t e" and "env_ok event' t e" and "uuids_ok (3 + 2 * length ds + 1) (p_world p)"
    and "accepted rt (fst (normalize_event event (p_world p))) (Inr client)"
    and "list_all call_ok ds" and "p2 = p_run ds (snd (th_handle_event rt client event p))"
    and "accepted rt (fst (normalize_event event' (p_world p2))) (Inr client')"
  shows "\<exists>d d' w'. fst (th_handle_event rt client event p) = Inr [d] \<and>
    th_handle_event rt client' event' p2 = (Inr [d'], p2\<lparr>p_world := w'\<rparr>) \<and>
    map_of d' ''action_id'' = map_of d ''action_id'' \<and>
    (\<exists>a. get_action (a_id a) None p2 = Inr a \<and> d' = th_action_to_dict (p2\<lparr>p_world := w'\<rparr>) a \<and>
       a_tenant_id a = t \<and> a_event_id a = e)"
proof -
  have inv: "pipe_inv p" using reachable_inv [OF assms(1)] assms(2) by simp
  have w3: "uuids_ok 3 (p_world p)" by (rule uuids_ok_mono [OF assms(5)]) simp
  obtain a p1 where h: "th_handle_event rt client event p = (Inr [th_action_to_dict p1 a], p1)"
    "pipe_inv p1" "store p1 (a_id a) = Some a" "a_tenant_id a = t" "a_event_id a = e" "draws 3 p p1"
    by (rule th_handled [OF inv assms(3) w3 assms(6)])
  have w1: "uuids_ok (2 * length ds + 1) (p_world p1)"
    by (rule uuids_ok_draws [OF h(6)]) (use assms(5) in \<open>simp add: add.assoc\<close>)
  then have run: "run_ok ds p1" using assms(7) by (auto simp: run_ok_def intro: uuids_ok_mono)
  have p2: "p2 = p_run ds p1" using assms(8) h(1) by simp
  have inv2: "pipe_inv p2" unfolding p2 by (rule pipe_inv_run [OF h(2) run])
  obtain b where b: "store p2 (a_id a) = Some b" "same_ident a b"
    using run_action [OF h(2) run h(3)] p2 by auto
  have "draws (2 * length ds) p1 p2" unfolding p2
  proof (induction ds arbitrary: p1)
    case (Cons d ds)
    from draws_trans [OF draws_call Cons.IH] show ?case by simp
  qed simp
  then have w2: "uuids_ok 1 (p_world p2)" by (rule uuids_ok_draws) (use w1 in simp)
  obtain pr where pr: "pr_tenant_id pr = t" "pr_event_id pr = e"
    "th_handle_event rt client' event' p2 =
       (case handle_proposal pr (p2\<lparr>p_world := snd (now (snd (uuid4 (p_world p2))))\<rparr>) of
          (Inl x, p') \<Rightarrow> (Inl (PipelineRaised x), p')
        | (Inr actions, p') \<Rightarrow> (Inr (map (th_action_to_dict p') actions), p'))"
    by (rule th_handle_step [OF assms(4) w2 assms(9)])
  let ?w = "snd (now (snd (uuid4 (p_world p2))))"
  have bid: "a_id b = a_id a" "a_tenant_id b = t" "a_event_id b = e"
    using b(2) h(4,5) by (simp_all add: same_ident_def)
  have "p_dedup p2 (t, e) = Some [a_id a]" using pipe_invD(5) [OF inv2 b(1)] bid by simp
  then have "handle_proposal pr (p2\<lparr>p_world := ?w\<rparr>) = (Inr [b], p2\<lparr>p_world := ?w\<rparr>)"
    by (intro handle_proposal_hit [of _ t e "a_id a"]) (use pr b in simp_all)
  then have second: "th_handle_event rt client' event' p2 =
      (Inr [th_action_to_dict (p2\<lparr>p_world := ?w\<rparr>) b], p2\<lparr>p_world := ?w\<rparr>)"
    by (simp add: pr(3))
  have "map_of (th_action_to_dict q x) ''action_id'' = Some (JStr (a_id x))" for q x
    by (simp add: th_action_to_dict_def dict_pop_def Let_def)
  with h(1) second b bid show ?thesis
    by (intro exI [of _ "th_action_to_dict p1 a"] exI [of _ "th_action_to_dict (p2\<lparr>p_world := ?w\<rparr>) b"]
        exI [of _ ?w] conjI exI [of _ b]) (simp_all add: get_action_stored)
qed

definition demo_event_dict :: dict where
  "demo_event_dict = [(''tenant_id'', JStr ''acme''), (''event_id'', JStr ''ev_9''),
     (''event_type'', JStr ''message_received'')]"

theorem repeated_event_same_action_witness:
  "\<exists>d d' p2. fst (th_handle_event demo_runtime mock_client demo_event_dict (make_pipeline None demo_world)) = Inr [d] \<and>
    fst (th_handle_event demo_runtime mock_client demo_event_dict p2) = Inr [d'] \<and>
    map_of d' ''action_id'' = map_of d ''action_id''"
proof -
  have env: "env_ok demo_event_dict ''acme'' ''ev_9''"
    by (simp add: env_ok_def demo_event_dict_def len_within_def dict_get_or_def)
  have mock: "accepted rt env (Inr mock_client)" for rt env
    by (simp add: accepted_def llm_answer_def mock_client_def)
  have w: "uuids_ok (3 + 2 * length [] + 1) (p_world (make_pipeline None demo_world))"
    by (simp add: make_pipeline_def demo_uuids_ok)
  have ok: "run_ok [] (make_pipeline None demo_world)" by (rule demo_run_ok) simp_all
  have none: "list_all call_ok []" by simp
  show ?thesis
    using repeated_event_same_action [OF ok refl env env _ mock none refl mock] w
    by (simp add: exI) (metis fst_conv)
qed

end
