(* ===== verification/Pg_Store.thy ===== *)
theory Pg_Store
  imports Context_Api "HOL-Library.List_Lexorder" "HOL-Library.Char_ord"
begin

text \<open>
  The Postgres back ends, \<open>context_engine/pg_repository.py\<close> and \<open>pg_customer_repository.py\<close>.  The
  tables are those of \<open>migrations/versions/0001_initial_schema.sql\<close> that the two adapters use, a
  list of rows each, and every statement the adapters send is a function on them: the conflict it
  arbitrates, then the primary and unique keys, then the foreign keys.  What JSONB makes of a
  payload (it orders the members and refuses the escape \<open>\u0000\<close>) is a parameter, \<open>jsonb\<close>.
  A method is one transaction; where other transactions can commit between two of its statements
  and matter, what they do is the argument \<open>meanwhile\<close>.
\<close>

section \<open>Tables\<close>

record event_row =
  re_id :: string
  re_tenant_id :: string
  re_customer_id :: "string option"
  re_channel_code :: string
  re_event_type :: string
  re_idempotency_key :: string
  re_payload :: dict
  re_received_at :: time

record identity_row =
  ri_id :: string
  ri_tenant_id :: string
  ri_customer_id :: string
  ri_identity_kind :: string
  ri_identity_value :: string
  ri_created_at :: time

text \<open>
  A row of \<open>customers\<close> has the columns of the contract \<open>Customer\<close>, not its bounds.  \<open>db_down\<close> is what
  connecting raises while the server cannot be reached; ids and the clock are those of the world.
\<close>

record pg_db =
  db_tenants :: "string list"
  db_customers :: "customer list"
  db_identities :: "identity_row list"
  db_events :: "event_row list"
  db_down :: "py_exn option"
  db_world :: world

definition db_uuid :: "pg_db \<Rightarrow> string \<times> pg_db" where
  "db_uuid db = (let (u, w) = uuid4 (db_world db) in (u, db\<lparr>db_world := w\<rparr>))"

definition db_now :: "pg_db \<Rightarrow> time \<times> pg_db" where
  \<comment> \<open>\<open>NOW()\<close>, the time the transaction started\<close>
  "db_now db = (let (t, w) = now (db_world db) in (t, db\<lparr>db_world := w\<rparr>))"

definition rollback :: "pg_db \<Rightarrow> pg_db \<Rightarrow> pg_db" where
  \<comment> \<open>the tables as the transaction found them\<close>
  "rollback start db = start\<lparr>db_world := db_world db\<rparr>"

definition text_ok :: "string \<Rightarrow> bool" where
  "text_ok s \<longleftrightarrow> CHR 0x00 \<notin> set s"

abbreviation opt_text_ok :: "string option \<Rightarrow> bool" where
  "opt_text_ok v \<equiv> (case v of None \<Rightarrow> True | Some s \<Rightarrow> text_ok s)"

definition nul_error :: py_exn where
  \<comment> \<open>what the driver raises for a parameter that holds a NUL\<close>
  "nul_error = Exn ''DataError'' ''PostgreSQL text fields cannot contain NUL (0x00) bytes''"

definition unique_violation :: py_exn where
  "unique_violation = Exn ''UniqueViolation'' ''23505''"

definition foreign_key_violation :: py_exn where
  "foreign_key_violation = Exn ''ForeignKeyViolation'' ''23503''"

definition is_unique_violation :: "py_exn \<Rightarrow> bool" where
  "is_unique_violation exn \<longleftrightarrow> (case exn of Exn name message \<Rightarrow> name = ''UniqueViolation'')"

section \<open>PgEventRepository\<close>

definition event_to_row :: "event \<Rightarrow> event_row" where
  "event_to_row e =
     \<lparr>re_id = ev_id e, re_tenant_id = ev_tenant_id e, re_customer_id = ev_customer_id e,
      re_channel_code = channel_value (ev_channel_code e),
      re_event_type = event_type_value (ev_event_type e),
      re_idempotency_key = ev_idempotency_key e, re_payload = ev_payload e,
      re_received_at = ev_received_at e\<rparr>"

definition row_to_event :: "event_row \<Rightarrow> py_exn + event" where
  "row_to_event row =
     (case channel_of (re_channel_code row) of
        None \<Rightarrow> Inl (Exn ''ValueError'' (py_repr_str (re_channel_code row) @ '' is not a valid ChannelType''))
      | Some channel \<Rightarrow>
          (case event_type_of (re_event_type row) of
             None \<Rightarrow> Inl (Exn ''ValueError'' (py_repr_str (re_event_type row) @ '' is not a valid EventType''))
           | Some type \<Rightarrow>
               let e = \<lparr>ev_id = re_id row, ev_tenant_id = re_tenant_id row, ev_customer_id = re_customer_id row,
                        ev_channel_code = channel, ev_event_type = type,
                        ev_idempotency_key = re_idempotency_key row, ev_payload = re_payload row,
                        ev_received_at = re_received_at row\<rparr>
               in if event_valid e then Inr e else Inl (Exn ''ValidationError'' ''Event'')))"

text \<open>
  \<open>INSERT ... ON CONFLICT (tenant_id, idempotency_key) DO NOTHING RETURNING id\<close>: only the named
  conflict is passed over.
\<close>

definition sql_insert_event :: "(dict \<Rightarrow> py_exn + dict) \<Rightarrow> event_row \<Rightarrow> pg_db \<Rightarrow>
    (py_exn, string option, pg_db) outcome" where
  "sql_insert_event jsonb row db =
     (if \<not> list_all text_ok [re_id row, re_tenant_id row, re_channel_code row, re_event_type row,
           re_idempotency_key row] \<or> \<not> opt_text_ok (re_customer_id row)
      then (Inl nul_error, db)
      else case jsonb (re_payload row) of
        Inl e \<Rightarrow> (Inl e, db)
      | Inr payload \<Rightarrow>
          if \<exists>r \<in> set (db_events db). re_tenant_id r = re_tenant_id row \<and>
               re_idempotency_key r = re_idempotency_key row
          then (Inr None, db)
          else if \<exists>r \<in> set (db_events db). re_id r = re_id row then (Inl unique_violation, db)
          else if re_tenant_id row \<notin> set (db_tenants db) \<or>
               (case re_customer_id row of None \<Rightarrow> False
                | Some c \<Rightarrow> c \<notin> cu_id ` set (db_customers db))
          then (Inl foreign_key_violation, db)
          else (Inr (Some (re_id row)),
                db\<lparr>db_events := db_events db @ [row\<lparr>re_payload := payload\<rparr>]\<rparr>))"

definition sql_select_event_by_key :: "string \<Rightarrow> string \<Rightarrow> pg_db \<Rightarrow> py_exn + event_row option" where
  "sql_select_event_by_key tenant key db =
     (if text_ok tenant \<and> text_ok key
      then Inr (find (\<lambda>r. re_tenant_id r = tenant \<and> re_idempotency_key r = key) (db_events db))
      else Inl nul_error)"

definition sql_select_event_by_id :: "string \<Rightarrow> string \<Rightarrow> pg_db \<Rightarrow> py_exn + event_row option" where
  "sql_select_event_by_id tenant event_id db =
     (if text_ok tenant \<and> text_ok event_id
      then Inr (find (\<lambda>r. re_tenant_id r = tenant \<and> re_id r = event_id) (db_events db))
      else Inl nul_error)"

definition pg_upsert_event :: "(dict \<Rightarrow> py_exn + dict) \<Rightarrow> event \<Rightarrow> pg_db \<Rightarrow>
    (py_exn, event \<times> bool, pg_db) outcome" where
  "pg_upsert_event jsonb event db =
     (case db_down db of
        Some e \<Rightarrow> (Inl e, db)
      | None \<Rightarrow>
          (case sql_insert_event jsonb (event_to_row event) db of
             (Inl e, db') \<Rightarrow> (Inl e, rollback db db')
           | (Inr (Some inserted), db') \<Rightarrow> (Inr (event, True), db')
           | (Inr None, db') \<Rightarrow>
               (case sql_select_event_by_key (ev_tenant_id event) (ev_idempotency_key event) db' of
                  Inl e \<Rightarrow> (Inl e, rollback db db')
                | Inr None \<Rightarrow>
                    (Inl (Exn ''RuntimeError'' ''upsert_event: ON CONFLICT path returned no existing row''), db')
                | Inr (Some existing_row) \<Rightarrow>
                    (case row_to_event existing_row of
                       Inl e \<Rightarrow> (Inl e, db')
                     | Inr stored \<Rightarrow> (Inr (stored, False), db')))))"

definition read_event :: "py_exn + event_row option \<Rightarrow> py_exn + event option" where
  \<comment> \<open>\<open>self._row_to_event(row) if row else None\<close>\<close>
  "read_event res =
     (case res of
        Inl e \<Rightarrow> Inl e
      | Inr None \<Rightarrow> Inr None
      | Inr (Some row) \<Rightarrow> (case row_to_event row of Inl e \<Rightarrow> Inl e | Inr event \<Rightarrow> Inr (Some event)))"

definition pg_get_event_by_idempotency :: "string \<Rightarrow> string \<Rightarrow> pg_db \<Rightarrow> py_exn + event option" where
  "pg_get_event_by_idempotency tenant key db =
     (case db_down db of
        Some e \<Rightarrow> Inl e
      | None \<Rightarrow> read_event (sql_select_event_by_key tenant key db))"

definition pg_get_event_by_id :: "string \<Rightarrow> string \<Rightarrow> pg_db \<Rightarrow> py_exn + event option" where
  "pg_get_event_by_id tenant event_id db =
     (case db_down db of
        Some e \<Rightarrow> Inl e
      | None \<Rightarrow> read_event (sql_select_event_by_id tenant event_id db))"

definition pg_count_events :: "string option \<Rightarrow> pg_db \<Rightarrow> py_exn + int" where
  "pg_count_events tenant db =
     (case db_down db of
        Some e \<Rightarrow> Inl e
      | None \<Rightarrow>
          (case tenant of
             None \<Rightarrow> Inr (int (length (db_events db)))
           | Some t \<Rightarrow>
               if text_ok t then Inr (int (length (filter (\<lambda>r. re_tenant_id r = t) (db_events db))))
               else Inl nul_error))"

section \<open>PgCustomerRepository\<close>

definition row_to_customer :: "customer \<Rightarrow> repo_error + customer" where
  "row_to_customer row = (if customer_valid row then Inr row else Inl CustomerValidationError)"

definition identity_kind_of :: "string \<Rightarrow> identity_kind option" where
  "identity_kind_of s =
     find (\<lambda>k. identity_kind_value k = s) [EMAIL_ID, PHONE_ID, EXTERNAL_ID, CHAT_HANDLE_ID]"

definition row_to_identity :: "identity_row \<Rightarrow> repo_error + customer_identity" where
  "row_to_identity row =
     (case identity_kind_of (ri_identity_kind row) of
        None \<Rightarrow> Inl (StoreError (Exn ''ValueError''
          (py_repr_str (ri_identity_kind row) @ '' is not a valid IdentityKind'')))
      | Some kind \<Rightarrow>
          (case make_identity (ri_id row) (ri_tenant_id row) (ri_customer_id row) kind
                  (ri_identity_value row) (ri_created_at row) of
             None \<Rightarrow> Inl CustomerValidationError
           | Some ident \<Rightarrow> Inr ident))"

definition sql_select_customer :: "string \<Rightarrow> string \<Rightarrow> pg_db \<Rightarrow> py_exn + customer option" where
  "sql_select_customer tenant customer db =
     (if text_ok tenant \<and> text_ok customer
      then Inr (find (\<lambda>c. cu_tenant_id c = tenant \<and> cu_id c = customer) (db_customers db))
      else Inl nul_error)"

definition sql_join_identity :: "string \<Rightarrow> string \<Rightarrow> string \<Rightarrow> pg_db \<Rightarrow> py_exn + customer option" where
  \<comment> \<open>\<open>customers c JOIN customer_identities ci ON ci.customer_id = c.id AND ci.tenant_id = c.tenant_id\<close>\<close>
  "sql_join_identity tenant kind v db =
     (if text_ok tenant \<and> text_ok v
      then Inr (find (\<lambda>c. cu_tenant_id c = tenant \<and>
          (\<exists>ci \<in> set (db_identities db). ri_customer_id ci = cu_id c \<and>
             ri_tenant_id ci = cu_tenant_id c \<and> ri_identity_kind ci = kind \<and>
             ri_identity_value ci = v)) (db_customers db))
      else Inl nul_error)"

definition sql_select_identity :: "string \<Rightarrow> string \<Rightarrow> string \<Rightarrow> pg_db \<Rightarrow> py_exn + identity_row option" where
  "sql_select_identity tenant kind v db =
     (if text_ok tenant \<and> text_ok v
      then Inr (find (\<lambda>r. ri_tenant_id r = tenant \<and> ri_identity_kind r = kind \<and>
          ri_identity_value r = v) (db_identities db))
      else Inl nul_error)"

definition sql_insert_customer :: "time \<Rightarrow> string \<Rightarrow> string \<Rightarrow> string option \<Rightarrow> pg_db \<Rightarrow>
    (py_exn, customer, pg_db) outcome" where
  "sql_insert_customer t customer tenant name db =
     (let row = \<lparr>cu_id = customer, cu_tenant_id = tenant, cu_display_name = name, cu_created_at = t,
                 cu_updated_at = t, cu_metadata = []\<rparr>
      in if \<not> (text_ok customer \<and> text_ok tenant \<and> opt_text_ok name) then (Inl nul_error, db)
         else if customer \<in> cu_id ` set (db_customers db) then (Inl unique_violation, db)
         else if tenant \<notin> set (db_tenants db) then (Inl foreign_key_violation, db)
         else (Inr row, db\<lparr>db_customers := db_customers db @ [row]\<rparr>))"

definition sql_insert_identity :: "time \<Rightarrow> string \<Rightarrow> string \<Rightarrow> string \<Rightarrow> string \<Rightarrow> string \<Rightarrow> pg_db \<Rightarrow>
    (py_exn, identity_row, pg_db) outcome" where
  "sql_insert_identity t i tenant customer kind v db =
     (let row = \<lparr>ri_id = i, ri_tenant_id = tenant, ri_customer_id = customer, ri_identity_kind = kind,
                 ri_identity_value = v, ri_created_at = t\<rparr>
      in if \<not> list_all text_ok [i, tenant, customer, v] then (Inl nul_error, db)
         else if \<exists>r \<in> set (db_identities db). ri_id r = i \<or>
              ri_tenant_id r = tenant \<and> ri_identity_kind r = kind \<and> ri_identity_value r = v
         then (Inl unique_violation, db)
         else if tenant \<notin> set (db_tenants db) \<or> customer \<notin> cu_id ` set (db_customers db)
         then (Inl foreign_key_violation, db)
         else (Inr row, db\<lparr>db_identities := db_identities db @ [row]\<rparr>))"

definition store_errors :: "py_exn + 'a \<Rightarrow> repo_error + 'a" where
  "store_errors res = (case res of Inl e \<Rightarrow> Inl (StoreError e) | Inr x \<Rightarrow> Inr x)"

definition read_customer :: "repo_error + customer option \<Rightarrow> repo_error + customer option" where
  \<comment> \<open>\<open>self._row_to_customer(row) if row else None\<close>\<close>
  "read_customer res =
     (case res of
        Inl e \<Rightarrow> Inl e
      | Inr None \<Rightarrow> Inr None
      | Inr (Some row) \<Rightarrow> (case row_to_customer row of Inl e \<Rightarrow> Inl e | Inr c \<Rightarrow> Inr (Some c)))"

definition pg_get_customer :: "string \<Rightarrow> string \<Rightarrow> pg_db \<Rightarrow> repo_error + customer option" where
  "pg_get_customer tenant customer db =
     (case db_down db of
        Some e \<Rightarrow> Inl (StoreError e)
      | None \<Rightarrow> read_customer (store_errors (sql_select_customer tenant customer db)))"

definition pg_find_customer_by_identity :: "string \<Rightarrow> identity_kind \<Rightarrow> string \<Rightarrow> pg_db \<Rightarrow>
    repo_error + customer option" where
  "pg_find_customer_by_identity tenant kind v db =
     (let normalized = ident_index_value kind v
      in case db_down db of
        Some e \<Rightarrow> Inl (StoreError e)
      | None \<Rightarrow> read_customer (store_errors
          (sql_join_identity tenant (identity_kind_value kind) normalized db)))"

fun rows_to_identities :: "identity_row list \<Rightarrow> repo_error + customer_identity list" where
  "rows_to_identities [] = Inr []"
| "rows_to_identities (row # rows) =
     (case row_to_identity row of
        Inl e \<Rightarrow> Inl e
      | Inr ident \<Rightarrow>
          (case rows_to_identities rows of Inl e \<Rightarrow> Inl e | Inr idents \<Rightarrow> Inr (ident # idents)))"

definition pg_list_identities :: "string \<Rightarrow> string \<Rightarrow> pg_db \<Rightarrow> repo_error + customer_identity list" where
  \<comment> \<open>\<open>ORDER BY created_at ASC, id ASC\<close>\<close>
  "pg_list_identities tenant customer db =
     (case db_down db of
        Some e \<Rightarrow> Inl (StoreError e)
      | None \<Rightarrow>
          if text_ok tenant \<and> text_ok customer
          then rows_to_identities (sort_key ri_created_at (sort_key ri_id
                 (filter (\<lambda>r. ri_tenant_id r = tenant \<and> ri_customer_id r = customer) (db_identities db))))
          else Inl (StoreError nul_error))"

definition pg_count_customers :: "string option \<Rightarrow> pg_db \<Rightarrow> repo_error + int" where
  "pg_count_customers tenant db =
     (case db_down db of
        Some e \<Rightarrow> Inl (StoreError e)
      | None \<Rightarrow>
          (case tenant of
             None \<Rightarrow> Inr (int (length (db_customers db)))
           | Some t \<Rightarrow>
               if text_ok t then Inr (int (length (filter (\<lambda>c. cu_tenant_id c = t) (db_customers db))))
               else Inl (StoreError nul_error)))"

text \<open>The loop over the identities of a new customer, inside its transaction.\<close>

fun insert_identities :: "time \<Rightarrow> string \<Rightarrow> string \<Rightarrow> (identity_kind \<times> string) list \<Rightarrow> pg_db \<Rightarrow>
    (py_exn, unit, pg_db) outcome" where
  "insert_identities t tenant customer [] db = (Inr (), db)"
| "insert_identities t tenant customer ((kind, v) # rest) db =
     (let (u, db1) = db_uuid db
      in andThen (sql_insert_identity t (''idn_'' @ take 24 u) tenant customer (identity_kind_value kind)
            (ident_index_value kind v) db1)
           (\<lambda>_ db2. insert_identities t tenant customer rest db2))"

definition insert_error :: "py_exn \<Rightarrow> repo_error" where
  "insert_error e = (if is_unique_violation e then IdentityCollision else StoreError e)"

definition pg_create_customer :: "string \<Rightarrow> (identity_kind \<times> string) list \<Rightarrow> string option \<Rightarrow> pg_db \<Rightarrow>
    (repo_error, customer, pg_db) outcome" where
  "pg_create_customer tenant identities display_name db =
     (let (u, db1) = db_uuid db;
          customer_id = ''cust_'' @ take 24 u
      in case db_down db1 of
           Some e \<Rightarrow> (Inl (StoreError e), db1)
         | None \<Rightarrow>
             let (t, db2) = db_now db1
             in case andThen (sql_insert_customer t customer_id tenant display_name db2) (\<lambda>row db3.
                       andThen (insert_identities t tenant customer_id identities db3) (\<lambda>_ db4.
                         (Inr row, db4))) of
                  (Inl e, db') \<Rightarrow> (Inl (insert_error e), rollback db2 db')
                | (Inr row, db') \<Rightarrow> (row_to_customer row, db'))"

text \<open>
  The row is mapped after the commit: when the mapper raises, the insertion stays.  Between the
  reads of \<open>add_identity\<close> and its insertion other transactions may commit.
\<close>

definition pg_add_identity :: "(pg_db \<Rightarrow> pg_db) \<Rightarrow> string \<Rightarrow> string \<Rightarrow> identity_kind \<Rightarrow> string \<Rightarrow> pg_db \<Rightarrow>
    (repo_error, customer_identity, pg_db) outcome" where
  "pg_add_identity meanwhile tenant customer kind v db =
     (let normalized = ident_index_value kind v
      in case db_down db of
           Some e \<Rightarrow> (Inl (StoreError e), db)
         | None \<Rightarrow>
             (case sql_select_identity tenant (identity_kind_value kind) normalized db of
                Inl e \<Rightarrow> (Inl (StoreError e), db)
              | Inr (Some existing) \<Rightarrow>
                  if ri_customer_id existing \<noteq> customer then (Inl IdentityCollision, db)
                  else (row_to_identity existing, db)
              | Inr None \<Rightarrow>
                  (case sql_select_customer tenant customer db of
                     Inl e \<Rightarrow> (Inl (StoreError e), db)
                   | Inr None \<Rightarrow>
                       (Inl (CustomerKeyError (''customer '' @ py_repr_str customer @
                          '' not found in tenant '' @ py_repr_str tenant)), db)
                   | Inr (Some found) \<Rightarrow>
                       let (t, db1) = db_now db;
                           (u, db2) = db_uuid (meanwhile db1)
                       in case sql_insert_identity t (''idn_'' @ take 24 u) tenant customer
                                 (identity_kind_value kind) normalized db2 of
                            (Inl e, db') \<Rightarrow> (Inl (insert_error e), rollback db2 db')
                          | (Inr row, db') \<Rightarrow> (row_to_identity row, db'))))"

end
