(* ===== verification/Pg_Store_Spec.thy ===== *)
theory Pg_Store_Spec
  imports Pg_Store
begin

text \<open>
  The Postgres adapters keep the contracts of the repositories: \<open>PgCustomerRepository\<close> is an instance
  of \<open>customer_repository\<close>, so the linker is safe on it, and \<open>PgEventRepository\<close> of
  \<open>event_repository\<close>, so ingestion announces each event once and answers as it does in memory.
\<close>

section \<open>The invariant of the tables\<close>

definition identity_key :: "identity_row \<Rightarrow> string \<times> string \<times> string" where
  "identity_key r = (ri_tenant_id r, ri_identity_kind r, ri_identity_value r)"

definition pg_owner :: "pg_db \<Rightarrow> string \<Rightarrow> identity_kind \<Rightarrow> string \<Rightarrow> string option" where
  "pg_owner db t k v =
     map_option ri_customer_id (find (\<lambda>r. identity_key r = (t, identity_kind_value k, v)) (db_identities db))"

definition has_customer :: "pg_db \<Rightarrow> string \<Rightarrow> string \<Rightarrow> bool" where
  "has_customer db t c \<longleftrightarrow> (\<exists>x \<in> set (db_customers db). cu_id x = c \<and> cu_tenant_id x = t)"

text \<open>What the constraints of the schema and the adapter keep.\<close>

definition pg_inv :: "pg_db \<Rightarrow> bool" where
  "pg_inv db \<longleftrightarrow>
     distinct (map cu_id (db_customers db)) \<and> 
     (\<forall>x \<in> set (db_customers db). text_ok (cu_id x) \<and> cu_tenant_id x \<in> set (db_tenants db)) \<and>
     distinct (map identity_key (db_identities db)) \<and>
     (\<forall>r \<in> set (db_identities db). has_customer db (ri_tenant_id r) (ri_customer_id r))"

text \<open>Rows are only added, and reaching the server is nobody's doing.\<close>

definition grows :: "pg_db \<Rightarrow> pg_db \<Rightarrow> bool" where
  "grows db db' \<longleftrightarrow>
     db_tenants db' = db_tenants db \<and> db_down db' = db_down db \<and>
     (\<exists>cs. db_customers db' = db_customers db @ cs) \<and>
     (\<exists>rs. db_identities db' = db_identities db @ rs) \<and>
     (\<exists>es. db_events db' = db_events db @ es)"

lemma grows_refl [simp]: "grows db db" "grows db (db\<lparr>db_world := w\<rparr>)"
  by (simp_all add: grows_def)

lemma grows_world [simp]: "grows db (db'\<lparr>db_world := w\<rparr>) = grows db db'"
  by (simp add: grows_def)

lemma grows_trans: "grows a b \<Longrightarrow> grows b c \<Longrightarrow> grows a c"
  by (auto simp: grows_def)

lemma grows_has: "grows db db' \<Longrightarrow> has_customer db t c \<Longrightarrow> has_customer db' t c"
  by (auto simp: grows_def has_customer_def)

lemma grows_keeps: "grows db db' \<Longrightarrow> keeps pg_owner db db'"
  by (auto simp: grows_def keeps_def pg_owner_def find_append split: option.splits)

lemma identity_kind_value_inj [simp]: "identity_kind_value a = identity_kind_value b \<longleftrightarrow> a = b"
  by (cases a; cases b) (simp_all add: identity_kind_value_def)

lemma identity_kind_of_value [simp]: "identity_kind_of (identity_kind_value k) = Some k"
  by (cases k) (simp_all add: identity_kind_of_def identity_kind_value_def)

lemma pg_world_irrelevant [simp]:
  "pg_owner (db\<lparr>db_world := w\<rparr>) = pg_owner db" "pg_inv (db\<lparr>db_world := w\<rparr>) = pg_inv db"
  "has_customer (db\<lparr>db_world := w\<rparr>) = has_customer db"
  "pg_owner (db\<lparr>db_events := es\<rparr>) = pg_owner db" "pg_inv (db\<lparr>db_events := es\<rparr>) = pg_inv db"
  "has_customer (db\<lparr>db_events := es\<rparr>) = has_customer db"
  "pg_owner (db\<lparr>db_down := d\<rparr>) = pg_owner db" "pg_inv (db\<lparr>db_down := d\<rparr>) = pg_inv db"
  "has_customer (db\<lparr>db_down := d\<rparr>) = has_customer db"
  by (simp_all add: pg_owner_def pg_inv_def has_customer_def fun_eq_iff)

lemma ident_index_idem [simp]: "ident_index_value k (ident_index_value k v) = ident_index_value k v"
  by (simp add: ident_index_value_def Let_def py_strip_lower)

section \<open>Statements\<close>

lemma sql_insert_identity_cases:
  assumes inv: "pg_inv db" and c: "has_customer db t c"
  obtains (error) e where "sql_insert_identity s i t c k v db = (Inl e, db)"
  | (row) row where "sql_insert_identity s i t c k v db = (Inr row, db\<lparr>db_identities := db_identities db @ [row]\<rparr>)"
      "ri_id row = i" "ri_customer_id row = c" "identity_key row = (t, k, v)" "ri_created_at row = s"
      "pg_inv (db\<lparr>db_identities := db_identities db @ [row]\<rparr>)"
proof (cases "sql_insert_identity s i t c k v db")
  case (Pair res db')
  show thesis
  proof (cases res)
    case (Inl e)
    with Pair show thesis
      by (intro error [of e]) (auto simp: sql_insert_identity_def Let_def split: if_splits)
  next
    case (Inr row)
    with Pair have r: "row = \<lparr>ri_id = i, ri_tenant_id = t, ri_customer_id = c, ri_identity_kind = k,
          ri_identity_value = v, ri_created_at = s\<rparr>" "db' = db\<lparr>db_identities := db_identities db @ [row]\<rparr>"
      and new: "(t, k, v) \<notin> identity_key ` set (db_identities db)"
      by (auto simp: sql_insert_identity_def identity_key_def Let_def split: if_splits)
    have "pg_inv (db\<lparr>db_identities := db_identities db @ [row]\<rparr>)"
      using inv c new r(1) by (auto simp: pg_inv_def has_customer_def identity_key_def)
    with Pair Inr r show thesis by (intro row [of row]) (simp_all add: identity_key_def)
  qed
qed

text \<open>The loop over the identities keeps the invariant, returning or not.\<close>

lemma insert_identities_effect:
  assumes "pg_inv db" "has_customer db t c"
  shows "pg_inv (snd (insert_identities s t c ids db)) \<and>
    db_customers (snd (insert_identities s t c ids db)) = db_customers db \<and>
    grows db (snd (insert_identities s t c ids db)) \<and>
    (returned (insert_identities s t c ids db) \<longrightarrow>
      (\<forall>(k, v) \<in> set ids. pg_owner (snd (insert_identities s t c ids db)) t k (ident_index_value k v) = Some c))"
  using assms
proof (induction ids arbitrary: db)
  case (Cons kv ids)
  obtain k v where kv: "kv = (k, v)" by (cases kv)
  obtain u db1 where u: "db_uuid db = (u, db1)" by fastforce
  then have db1: "pg_inv db1" "has_customer db1 t c" "db_customers db1 = db_customers db" "grows db db1"
    using Cons.prems by (auto simp: db_uuid_def case_prod_beta)
  show ?case
  proof (cases rule: sql_insert_identity_cases [OF db1(1,2), of s "''idn_'' @ take 24 u"
        "identity_kind_value k" "ident_index_value k v", case_names error row])
    case (error e)
    with u kv db1 show ?thesis by simp
  next
    case (row row)
    let ?db2 = "db1\<lparr>db_identities := db_identities db1 @ [row]\<rparr>"
    have g: "grows db1 ?db2" by (auto simp: grows_def)
    have own: "pg_owner ?db2 t k (ident_index_value k v) = Some c"
    proof -
      have "(t, identity_kind_value k, ident_index_value k v) \<notin> identity_key ` set (db_identities db1)"
        using row(4,6) by (simp add: pg_inv_def)
      then have "find (\<lambda>r. identity_key r = (t, identity_kind_value k, ident_index_value k v)) (db_identities db1) = None"
        by (force simp: find_None_iff)
      then show ?thesis using row(3,4) by (simp add: pg_owner_def find_append)
    qed
    note IH = Cons.IH [OF row(6) grows_has [OF g db1(2)]]
    let ?r = "insert_identities s t c ids ?db2"
    have "keeps pg_owner ?db2 (snd ?r)" using IH grows_keeps by blast
    then have "pg_owner (snd ?r) t k (ident_index_value k v) = Some c" using own by (auto simp: keeps_def)
    moreover have "insert_identities s t c (kv # ids) db = ?r" using u kv row(1) by simp
    ultimately show ?thesis
      using IH db1(3) kv grows_trans [OF db1(4) grows_trans [OF g]] by auto
  qed
qed simp

section \<open>Creating a customer\<close>

text \<open>All or nothing: an error before the commit leaves the tables as they were.\<close>

lemma pg_create_cases:
  assumes inv: "pg_inv db"
  obtains (error) e w where "pg_create_customer t ids name db = (Inl e, db\<lparr>db_world := w\<rparr>)"
  | (committed) row db' where "pg_create_customer t ids name db = (row_to_customer row, db')"
      "pg_inv db'" "grows db db'" "db_customers db' = db_customers db @ [row]" "db_down db = None"
      "cu_tenant_id row = t" "text_ok t" "text_ok (cu_id row)" "t \<in> set (db_tenants db)"
      "cu_display_name row = name" "len_within 1 64 (cu_id row)"
      "\<forall>(k, v) \<in> set ids. pg_owner db' t k (ident_index_value k v) = Some (cu_id row)"
proof -
  obtain u db1 where u: "db_uuid db = (u, db1)" by fastforce
  obtain s db2 where s: "db_now db1 = (s, db2)" by fastforce
  let ?w1 = "snd (uuid4 (db_world db))" and ?w = "snd (now (snd (uuid4 (db_world db))))"
  have w: "db2 = db\<lparr>db_world := ?w\<rparr>" "db_down db1 = db_down db" "db1 = db\<lparr>db_world := ?w1\<rparr>"
    using u s by (auto simp: db_uuid_def db_now_def case_prod_beta)
  let ?c = "''cust_'' @ take 24 u"
  let ?insert = "sql_insert_customer s ?c t name db2"
  let ?all = "\<lambda>db3. insert_identities s t ?c ids db3"
  have create: "pg_create_customer t ids name db =
      (case db_down db of
         Some e \<Rightarrow> (Inl (StoreError e), db1)
       | None \<Rightarrow>
           (case andThen ?insert (\<lambda>row db3. andThen (?all db3) (\<lambda>_ db4. (Inr row, db4))) of
              (Inl e, db') \<Rightarrow> (Inl (insert_error e), rollback db2 db')
            | (Inr row, db') \<Rightarrow> (row_to_customer row, db')))"
    by (simp only: pg_create_customer_def u s w(2) Let_def prod.case)
  have undone: "rollback db2 db' = db\<lparr>db_world := db_world db'\<rparr>" for db'
    by (simp add: rollback_def w(1))
  show thesis
  proof (cases "db_down db")
    case (Some e)
    with create w(3) show thesis by (intro error) simp
  next
    case None
    show thesis
    proof (cases "fst ?insert")
      case (Inl e)
      then obtain db' where "?insert = (Inl e, db')" by (cases ?insert) auto
      with create None undone [of db'] show thesis by (intro error) simp
    next
      case (Inr row)
      let ?db3 = "db2\<lparr>db_customers := db_customers db2 @ [row]\<rparr>"
      have row: "?insert = (Inr row, ?db3)" "cu_id row = ?c" "cu_tenant_id row = t" "text_ok t" "text_ok ?c"
        "t \<in> set (db_tenants db)" "cu_display_name row = name" and new: "?c \<notin> cu_id ` set (db_customers db)"
        using Inr w(1) by (auto simp: sql_insert_customer_def Let_def split: if_splits)
      have inv3: "pg_inv ?db3"
        using inv row(2,3,5,6) new w(1) by (auto simp: pg_inv_def has_customer_def)
      have g3: "grows db ?db3" using w(1) by (auto simp: grows_def)
      have "has_customer ?db3 t ?c" using row(2,3) by (auto simp: has_customer_def)
      note ids = insert_identities_effect [OF inv3 this, of s ids]
      show thesis
      proof (cases "fst (?all ?db3)")
        case (Inl e)
        then obtain db' where "?all ?db3 = (Inl e, db')" by (cases "?all ?db3") auto
        with create None row(1) undone [of db'] show thesis by (intro error) simp
      next
        case (Inr r)
        then obtain db' where all: "?all ?db3 = (Inr r, db')" by (cases "?all ?db3") auto
        show thesis
        proof (rule committed [of row db'])
          show "pg_create_customer t ids name db = (row_to_customer row, db')"
            using create None row(1) all by simp
          show "grows db db'" using grows_trans [OF g3] ids all by simp
        qed (use ids all row None w(1) in \<open>auto simp: row(2) len_within_def\<close>)
      qed
    qed
  qed
qed

lemma find_customer:
  "pg_inv db \<Longrightarrow> x \<in> set (db_customers db) \<Longrightarrow> cu_tenant_id x = t \<Longrightarrow>
   find (\<lambda>c. cu_tenant_id c = t \<and> cu_id c = cu_id x) (db_customers db) = Some x"
proof -
  assume "pg_inv db" and x: "x \<in> set (db_customers db)" "cu_tenant_id x = t"
  then have "inj_on cu_id (set (db_customers db))" by (simp add: pg_inv_def distinct_map)
  then have "y = x" if "find (\<lambda>c. cu_tenant_id c = t \<and> cu_id c = cu_id x) (db_customers db) = Some y" for y
    using that x by (auto simp: find_Some_iff inj_on_def)
  moreover have "find (\<lambda>c. cu_tenant_id c = t \<and> cu_id c = cu_id x) (db_customers db) \<noteq> None"
    using x by (auto simp: find_None_iff)
  ultimately show ?thesis by blast
qed

text \<open>Reading a customer: what the row says, when the statement and the mapper go through.\<close>

lemma pg_get_Some:
  assumes "pg_inv db"
  shows "pg_get_customer t c db = Inr (Some x) \<longleftrightarrow>
    db_down db = None \<and> text_ok t \<and> text_ok c \<and> x \<in> set (db_customers db) \<and> cu_tenant_id x = t \<and>
    cu_id x = c \<and> customer_valid x"
proof
  assume "pg_get_customer t c db = Inr (Some x)"
  then show "db_down db = None \<and> text_ok t \<and> text_ok c \<and> x \<in> set (db_customers db) \<and> cu_tenant_id x = t \<and>
    cu_id x = c \<and> customer_valid x"
    by (auto simp: pg_get_customer_def sql_select_customer_def store_errors_def read_customer_def
        row_to_customer_def find_Some_iff split: option.splits if_splits sum.splits)
next
  assume "db_down db = None \<and> text_ok t \<and> text_ok c \<and> x \<in> set (db_customers db) \<and> cu_tenant_id x = t \<and>
    cu_id x = c \<and> customer_valid x"
  then show "pg_get_customer t c db = Inr (Some x)"
    using find_customer [OF assms, of x t]
    by (auto simp: pg_get_customer_def sql_select_customer_def store_errors_def read_customer_def
        row_to_customer_def)
qed

lemma pg_get_has: "has_customer db t c \<Longrightarrow> pg_get_customer t c db \<noteq> Inr None"
  by (auto simp: pg_get_customer_def sql_select_customer_def store_errors_def read_customer_def
      has_customer_def find_None_iff split: option.splits sum.splits)

text \<open>The identity of a key belongs to the customer the join finds.\<close>

lemma pg_owner_Some:
  assumes "pg_inv db"
  shows "pg_owner db t k v = Some c \<longleftrightarrow>
    (\<exists>r \<in> set (db_identities db). identity_key r = (t, identity_kind_value k, v) \<and> ri_customer_id r = c)"
proof -
  let ?P = "\<lambda>r. identity_key r = (t, identity_kind_value k, v)"
  have inj: "inj_on identity_key (set (db_identities db))" using assms by (simp add: pg_inv_def distinct_map)
  have "find ?P (db_identities db) = Some r" if r: "r \<in> set (db_identities db)" "?P r" for r
  proof (cases "find ?P (db_identities db)")
    case None
    with r show ?thesis unfolding find_None_iff by blast
  next
    case (Some q)
    then have "q \<in> set (db_identities db)" "?P q" unfolding find_Some_iff by auto
    then have "q = r" using r inj_onD [OF inj, of q r] by simp
    with Some show ?thesis by simp
  qed
  moreover have "r \<in> set (db_identities db) \<and> ?P r" if "find ?P (db_identities db) = Some r" for r
    using that unfolding find_Some_iff by auto
  ultimately show ?thesis unfolding pg_owner_def map_option_eq_Some by blast
qed

lemma pg_owner_has: "pg_inv db \<Longrightarrow> pg_owner db t k v = Some c \<Longrightarrow> has_customer db t c"
  by (auto simp: pg_owner_Some pg_inv_def identity_key_def)

lemma pg_join:
  assumes inv: "pg_inv db" and "text_ok t" "text_ok v"
  shows "sql_join_identity t (identity_kind_value k) v db =
    Inr (case pg_owner db t k v of
           None \<Rightarrow> None
         | Some c \<Rightarrow> find (\<lambda>x. cu_tenant_id x = t \<and> cu_id x = c) (db_customers db))"
proof -
  have "(\<exists>ci \<in> set (db_identities db). ri_customer_id ci = cu_id c \<and> ri_tenant_id ci = cu_tenant_id c \<and>
        ri_identity_kind ci = identity_kind_value k \<and> ri_identity_value ci = v) \<longleftrightarrow>
      pg_owner db t k v = Some (cu_id c)" if "cu_tenant_id c = t" for c
    using that by (auto simp: pg_owner_Some [OF inv] identity_key_def)
  then have "(\<lambda>c. cu_tenant_id c = t \<and> (\<exists>ci \<in> set (db_identities db). ri_customer_id ci = cu_id c \<and>
        ri_tenant_id ci = cu_tenant_id c \<and> ri_identity_kind ci = identity_kind_value k \<and>
        ri_identity_value ci = v)) = (\<lambda>c. cu_tenant_id c = t \<and> pg_owner db t k v = Some (cu_id c))"
    by (auto simp: fun_eq_iff)
  from arg_cong [OF this, of "\<lambda>P. Inr (find P (db_customers db))"]
  have "sql_join_identity t (identity_kind_value k) v db =
      Inr (find (\<lambda>c. cu_tenant_id c = t \<and> pg_owner db t k v = Some (cu_id c)) (db_customers db))"
    using assms(2,3) by (simp only: sql_join_identity_def simp_thms if_True)
  moreover have "find (\<lambda>c. False) xs = None" for xs :: "customer list"
    by (simp add: find_None_iff)
  moreover have "find (\<lambda>c. cu_tenant_id c = t \<and> a = cu_id c) xs = find (\<lambda>c. cu_tenant_id c = t \<and> cu_id c = a) xs"
    for a and xs :: "customer list"
    by (rule arg_cong [of _ _ "\<lambda>P. find P xs"]) auto
  ultimately show ?thesis by (cases "pg_owner db t k v") simp_all
qed

lemma pg_find_eq:
  assumes inv: "pg_inv db" and up: "db_down db = None" and ok: "text_ok t" "text_ok (ident_index_value k v)"
  shows "pg_find_customer_by_identity t k v db =
    (case pg_owner db t k (ident_index_value k v) of
       None \<Rightarrow> Inr None
     | Some c \<Rightarrow> pg_get_customer t c db)"
proof (cases "pg_owner db t k (ident_index_value k v)")
  case None
  then show ?thesis
    by (simp add: pg_find_customer_by_identity_def up pg_join [OF inv ok] store_errors_def read_customer_def)
next
  case (Some c)
  have "has_customer db t c" by (rule pg_owner_has [OF inv Some])
  then have "text_ok c" using inv by (auto simp: has_customer_def pg_inv_def)
  then show ?thesis
    by (simp add: pg_find_customer_by_identity_def pg_get_customer_def sql_select_customer_def up
        pg_join [OF inv ok] Some ok(1))
qed

lemma pg_find_Inr:
  assumes "pg_find_customer_by_identity t k v db = Inr found"
  shows "db_down db = None" "text_ok t" "text_ok (ident_index_value k v)"
  using assms by (auto simp: pg_find_customer_by_identity_def sql_join_identity_def store_errors_def
      read_customer_def Let_def split: option.splits if_splits)

section \<open>Adding an identity\<close>

text \<open>Other transactions that commit in between keep the invariant and only add rows.\<close>

definition commits :: "(pg_db \<Rightarrow> pg_db) \<Rightarrow> bool" where
  "commits m \<longleftrightarrow> (\<forall>db. pg_inv db \<longrightarrow> pg_inv (m db) \<and> grows db (m db))"

lemma commits_nothing [simp]: "commits (\<lambda>db. db)"
  by (simp add: commits_def)

lemma pg_add_effect:
  fixes t c :: string and k :: identity_kind and v :: string
  assumes inv: "pg_inv db" and m: "commits m"
  defines "R \<equiv> pg_add_identity m t c k v db"
  shows "pg_inv (snd R) \<and> grows db (snd R) \<and>
    (returned R \<longrightarrow> pg_owner (snd R) t k (ident_index_value k v) = Some c)"
proof (cases "db_down db")
  case (Some e)
  with inv show ?thesis by (simp add: R_def pg_add_identity_def)
next
  case up: None
  let ?n = "ident_index_value k v"
  show ?thesis
  proof (cases "sql_select_identity t (identity_kind_value k) ?n db")
    case (Inl e)
    with inv up show ?thesis by (simp add: R_def pg_add_identity_def)
  next
    case sel: (Inr row)
    show ?thesis
    proof (cases row)
      case (Some r)
      then have "r \<in> set (db_identities db)" "identity_key r = (t, identity_kind_value k, ?n)"
        using sel by (auto simp: sql_select_identity_def find_Some_iff identity_key_def split: if_splits)
      with inv up sel Some show ?thesis
        by (auto simp: R_def pg_add_identity_def Let_def pg_owner_Some)
    next
      case None
      show ?thesis
      proof (cases "sql_select_customer t c db = Inr None \<or> (\<exists>e. sql_select_customer t c db = Inl e)")
        case True
        with inv up sel None show ?thesis by (auto simp: R_def pg_add_identity_def Let_def)
      next
        case False
        then obtain x where x: "sql_select_customer t c db = Inr (Some x)"
          by (cases "sql_select_customer t c db") (auto split: option.splits)
        then have has: "has_customer db t c"
          by (auto simp: sql_select_customer_def has_customer_def find_Some_iff split: if_splits)
        obtain s db1 where s: "db_now db = (s, db1)" by fastforce
        obtain u db2 where u: "db_uuid (m db1) = (u, db2)" by fastforce
        have 1: "pg_inv db1" "grows db db1" using s inv by (auto simp: db_now_def case_prod_beta)
        then have 2: "pg_inv db2" "grows db db2"
          using u m by (auto simp: db_uuid_def case_prod_beta commits_def intro: grows_trans)
        have R: "R = (case sql_insert_identity s (''idn_'' @ take 24 u) t c (identity_kind_value k) ?n db2 of
            (Inl e, db') \<Rightarrow> (Inl (insert_error e), rollback db2 db')
          | (Inr row, db') \<Rightarrow> (row_to_identity row, db'))"
          using up sel None x s u by (simp add: R_def pg_add_identity_def Let_def)
        show ?thesis
        proof (cases rule: sql_insert_identity_cases [OF 2(1) grows_has [OF 2(2) has], of s
              "''idn_'' @ take 24 u" "identity_kind_value k" ?n, case_names error row])
          case (error e)
          with R 2 show ?thesis by (simp add: rollback_def)
        next
          case (row r)
          have "grows db2 (snd R)" using R row(1) by (auto simp: grows_def)
          moreover have "pg_owner (snd R) t k ?n = Some c"
            using R row(1,3,4) pg_owner_Some [OF row(6)] by auto
          ultimately show ?thesis using R row(1,6) 2 by (auto intro: grows_trans)
        qed
      qed
    qed
  qed
qed

section \<open>The contract\<close>

text \<open>The transactions of this process, one after the other.\<close>

abbreviation pg_resolve :: "ingestion_request \<Rightarrow> pg_db \<Rightarrow> (repo_error, linking_outcome, pg_db) outcome" where
  "pg_resolve \<equiv> resolve_customer pg_get_customer pg_find_customer_by_identity pg_create_customer
     (pg_add_identity (\<lambda>db. db))"

datatype pg_call =
    PgCreate string "(identity_kind \<times> string) list" "string option"
  | PgAdd string string identity_kind string
  | PgUpsert event

fun pg_step :: "(dict \<Rightarrow> py_exn + dict) \<Rightarrow> pg_call \<Rightarrow> pg_db \<Rightarrow> pg_db" where
  "pg_step jsonb (PgCreate t ids name) db = snd (pg_create_customer t ids name db)"
| "pg_step jsonb (PgAdd t c k v) db = snd (pg_add_identity (\<lambda>db. db) t c k v db)"
| "pg_step jsonb (PgUpsert e) db = snd (pg_upsert_event jsonb e db)"

abbreviation pg_run :: "(dict \<Rightarrow> py_exn + dict) \<Rightarrow> pg_call list \<Rightarrow> pg_db \<Rightarrow> pg_db" where
  "pg_run jsonb cs db \<equiv> fold (pg_step jsonb) cs db"

lemma pg_create_effect:
  assumes "pg_inv db"
  shows "pg_inv (snd (pg_create_customer t ids name db)) \<and> grows db (snd (pg_create_customer t ids name db))"
  by (cases rule: pg_create_cases [OF assms, of t ids name, case_names error committed]) (use assms in auto)

lemma pg_upsert_effect:
  "pg_inv db \<Longrightarrow> pg_inv (snd (pg_upsert_event jsonb e db)) \<and> grows db (snd (pg_upsert_event jsonb e db))"
  by (auto simp: pg_upsert_event_def sql_insert_event_def rollback_def grows_def
      split: option.splits sum.splits if_splits)

lemma pg_step_effect: "pg_inv db \<Longrightarrow> pg_inv (pg_step jsonb c db) \<and> grows db (pg_step jsonb c db)"
  using pg_add_effect [OF _ commits_nothing] pg_create_effect pg_upsert_effect by (cases c) auto

lemma commits_run: "commits (pg_run jsonb cs)"
  unfolding commits_def
proof (intro allI)
  fix db show "pg_inv db \<longrightarrow> pg_inv (pg_run jsonb cs db) \<and> grows db (pg_run jsonb cs db)"
    by (induction cs arbitrary: db) (use pg_step_effect grows_trans in \<open>auto, blast+\<close>)
qed

interpretation pg: customer_repository pg_inv pg_owner pg_get_customer pg_find_customer_by_identity
  pg_create_customer "pg_add_identity (pg_run jsonb cs)" for jsonb cs
proof unfold_locales
  fix db :: pg_db and t s c d k k' v v' ids name x y found
  assume inv: "pg_inv db"
  note create = pg_create_effect [OF inv] and add = pg_add_effect [OF inv commits_run [of jsonb cs]]
  show "pg_inv (snd (pg_create_customer t ids name db))" using create by blast
  show "pg_inv (snd (pg_add_identity (pg_run jsonb cs) t c k v db))" using add by blast
  show "pg_owner (snd (pg_create_customer t ids name db)) s k v = Some c" if "pg_owner db s k v = Some c"
    using that create grows_keeps unfolding keeps_def by blast
  show "pg_owner (snd (pg_add_identity (pg_run jsonb cs) t d k' v' db)) s k v = Some c"
    if "pg_owner db s k v = Some c"
    using that add grows_keeps unfolding keeps_def by blast
  show "map_option cu_id found = pg_owner db t k v"
    if "ident_index_value k v = v" "pg_find_customer_by_identity t k v db = Inr found"
    using that pg_find_eq [OF inv pg_find_Inr [OF that(2)]] pg_get_Some [OF inv]
      pg_get_has [OF pg_owner_has [OF inv, of t k v]]
    by (cases "pg_owner db t k v"; cases found) auto
  show "pg_get_customer t (cu_id x) db = Inr (Some x)"
    if "pg_find_customer_by_identity t k v db = Inr (Some x)"
    using that pg_find_eq [OF inv pg_find_Inr [OF that]] pg_get_Some [OF inv]
    by (cases "pg_owner db t k (ident_index_value k v)") auto
  show "cu_id x = c" if "pg_get_customer t c db = Inr (Some x)"
    using that by (simp add: pg_get_Some [OF inv])
  show "\<exists>y. pg_get_customer s c (snd (pg_add_identity (pg_run jsonb cs) t d k v db)) = Inr (Some y)"
    if "pg_get_customer s c db = Inr (Some x)"
    using that add [of t d k v] pg_get_Some [OF inv]
    by (intro exI [of _ x]) (auto simp: pg_get_Some grows_def)
  show "pg_owner (snd (pg_add_identity (pg_run jsonb cs) t c k v db)) t k (ident_index_value k v) = Some c"
    if "fst (pg_add_identity (pg_run jsonb cs) t c k v db) = Inr y"
    using that add by blast
  show "pg_owner (snd (pg_create_customer t ids name db)) t k (ident_index_value k v) = Some (cu_id x)"
    if "fst (pg_create_customer t ids name db) = Inr x" "(k, v) \<in> set ids"
    by (cases rule: pg_create_cases [OF inv, of t ids name, case_names error committed])
       (use that in \<open>auto simp: row_to_customer_def split: if_splits\<close>)
  show "pg_get_customer t (cu_id x) (snd (pg_create_customer t ids name db)) = Inr (Some x)"
    if "fst (pg_create_customer t ids name db) = Inr x"
    by (cases rule: pg_create_cases [OF inv, of t ids name, case_names error committed])
       (use that in \<open>auto simp: row_to_customer_def pg_get_Some grows_def split: if_splits\<close>)
qed

section \<open>Events\<close>

lemma channel_of_value [simp]: "channel_of (channel_value c) = Some c"
  by (cases c) (simp_all add: channel_of_def)

lemma event_type_of_value [simp]: "event_type_of (event_type_value t) = Some t"
  by (cases t) (simp_all add: event_type_of_def)

lemma row_round_trip: "event_valid e \<Longrightarrow> row_to_event (event_to_row e) = Inr e"
  by (cases e) (simp add: row_to_event_def event_to_row_def Let_def)

definition pg_stored :: "pg_db \<Rightarrow> string \<times> string \<Rightarrow> event option" where
  "pg_stored db key =
     (case find (\<lambda>r. (re_tenant_id r, re_idempotency_key r) = key) (db_events db) of
        None \<Rightarrow> None
      | Some row \<Rightarrow> (case row_to_event row of Inl e \<Rightarrow> None | Inr e \<Rightarrow> Some e))"

definition pg_events_inv :: "pg_db \<Rightarrow> bool" where
  "pg_events_inv db \<longleftrightarrow> (\<forall>r \<in> set (db_events db). \<exists>e. row_to_event r = Inr e)"

text \<open>
  An event the tables can take: the server is up, the tenant and the customer have their rows, the
  id is unused, and no text or payload is refused or changed on the way.
\<close>

definition pg_fresh :: "(dict \<Rightarrow> py_exn + dict) \<Rightarrow> event \<Rightarrow> pg_db \<Rightarrow> bool" where
  "pg_fresh jsonb e db \<longleftrightarrow>
     db_down db = None \<and> ev_tenant_id e \<in> set (db_tenants db) \<and>
     (case ev_customer_id e of None \<Rightarrow> True | Some c \<Rightarrow> c \<in> cu_id ` set (db_customers db) \<and> text_ok c) \<and>
     (\<forall>r \<in> set (db_events db). re_id r \<noteq> ev_id e) \<and>
     list_all text_ok [ev_id e, ev_tenant_id e, ev_idempotency_key e] \<and> event_valid e \<and>
     jsonb (ev_payload e) = Inr (ev_payload e)"

definition same_event_id :: "event \<Rightarrow> event \<Rightarrow> bool" where
  "same_event_id a b \<longleftrightarrow> ev_id a = ev_id b"

lemma values_text_ok [simp]: "text_ok (channel_value c)" "text_ok (event_type_value t)"
  by (cases c; simp add: text_ok_def) (cases t; simp add: text_ok_def)

lemma event_to_row_simps [simp]:
  "re_id (event_to_row e) = ev_id e" "re_tenant_id (event_to_row e) = ev_tenant_id e"
  "re_customer_id (event_to_row e) = ev_customer_id e" "re_idempotency_key (event_to_row e) = ev_idempotency_key e"
  "re_channel_code (event_to_row e) = channel_value (ev_channel_code e)"
  "re_event_type (event_to_row e) = event_type_value (ev_event_type e)"
  "re_payload (event_to_row e) = ev_payload e" "(event_to_row e)\<lparr>re_payload := ev_payload e\<rparr> = event_to_row e"
  by (simp_all add: event_to_row_def)

interpretation pge: event_repository pg_events_inv pg_stored "pg_fresh jsonb" same_event_id "pg_upsert_event jsonb"
  for jsonb
proof unfold_locales
  fix db e s
  assume inv: "pg_events_inv db" and fresh: "pg_fresh jsonb e db"
  let ?find = "find (\<lambda>r. (re_tenant_id r, re_idempotency_key r) = ev_key e) (db_events db)"
  have texts: "list_all text_ok [ev_id e, ev_tenant_id e, channel_value (ev_channel_code e),
      event_type_value (ev_event_type e), ev_idempotency_key e]" "opt_text_ok (ev_customer_id e)"
    and up: "db_down db = None" and payload: "jsonb (ev_payload e) = Inr (ev_payload e)"
    using fresh by (auto simp: pg_fresh_def split: option.splits)
  have sel: "sql_select_event_by_key (ev_tenant_id e) (ev_idempotency_key e) db = Inr ?find"
    using texts by (simp add: sql_select_event_by_key_def ev_key_def)
  have taken: "(\<exists>r \<in> set (db_events db). re_tenant_id r = ev_tenant_id e \<and>
      re_idempotency_key r = ev_idempotency_key e) \<longleftrightarrow> ?find \<noteq> None"
    by (auto simp: find_None_iff ev_key_def)
  have insert: "sql_insert_event jsonb (event_to_row e) db =
      (if ?find \<noteq> None then (Inr None, db)
       else (Inr (Some (ev_id e)), db\<lparr>db_events := db_events db @ [event_to_row e]\<rparr>))"
    using fresh texts payload
    by (auto simp: sql_insert_event_def taken pg_fresh_def split: option.split)
  show "pg_upsert_event jsonb e db = (Inr (s, False), db)" if "pg_stored db (ev_key e) = Some s"
    using that by (auto simp: pg_upsert_event_def up insert sel pg_stored_def split: option.splits sum.splits)
  assume "pg_stored db (ev_key e) = None"
  then have none: "?find = None"
    using inv by (auto simp: pg_stored_def pg_events_inv_def find_Some_iff split: option.splits sum.splits)
       (metis nth_mem sum.distinct(1))
  let ?db = "db\<lparr>db_events := db_events db @ [event_to_row e]\<rparr>"
  have valid: "event_valid e" using fresh by (simp add: pg_fresh_def)
  have "pg_upsert_event jsonb e db = (Inr (e, True), ?db)"
    by (simp add: pg_upsert_event_def up insert none)
  moreover have "pg_events_inv ?db" using inv row_round_trip [OF valid] by (auto simp: pg_events_inv_def)
  moreover have "pg_stored ?db = (pg_stored db)(ev_key e \<mapsto> e)"
    using none row_round_trip [OF valid]
    by (auto simp: pg_stored_def fun_eq_iff find_append ev_key_def split: option.split)
  moreover have "pg_fresh jsonb x ?db" if "pg_fresh jsonb x db" "\<not> same_event_id e x" for x
    using that by (cases "ev_customer_id x") (auto simp: pg_fresh_def same_event_id_def)
  ultimately show "\<exists>r'. pg_upsert_event jsonb e db = (Inr (e, True), r') \<and> pg_events_inv r' \<and>
      pg_stored r' = (pg_stored db)(ev_key e \<mapsto> e) \<and>
      (\<forall>x. pg_fresh jsonb x db \<and> \<not> same_event_id e x \<longrightarrow> pg_fresh jsonb x r')"
    by blast
qed

interpretation pging: ingestion pg_events_inv pg_stored "pg_fresh jsonb" same_event_id "pg_upsert_event jsonb"
  "eb_publish run" "\<lambda>bs. eb_published (fst bs)" for jsonb and run :: "nat \<Rightarrow> 's subscriber"
  by unfold_locales (auto simp: eb_publish_def Let_def)

end
