(* ===== verification/Pg_Backend.thy ===== *)
theory Pg_Backend
  imports Pg_Store_Spec Orchestrator_Api
begin

text \<open>
  What the service may rely on when \<open>DATABASE_URL\<close> selects Postgres: the linker's guarantee over any
  history of requests, commits and outages, the atomic creation of customers, and the answers of
  ingestion, which are those of the in-memory repository.
\<close>

section \<open>Histories\<close>

text \<open>
  A resolve on Postgres: \<open>rivals\<close> are the transactions that commit between its lookup and its creation,
  \<open>inner\<close> those between the statements of each \<open>add_identity\<close>.
\<close>

abbreviation pg_resolve_with_gap :: "(dict \<Rightarrow> py_exn + dict) \<Rightarrow> pg_call list \<Rightarrow> pg_call list \<Rightarrow>
    ingestion_request \<Rightarrow> pg_db \<Rightarrow> (repo_error, linking_outcome, pg_db) outcome" where
  "pg_resolve_with_gap jsonb rivals inner \<equiv> resolve_customer pg_get_customer pg_find_customer_by_identity
     (\<lambda>t ids name db. pg_create_customer t ids name (pg_run jsonb rivals db))
     (pg_add_identity (pg_run jsonb inner))"

datatype pg_request =
    Commit pg_call
  | ResolveRequest "pg_call list" "pg_call list" ingestion_request
  | Reach "py_exn option"

fun pg_request_step :: "(dict \<Rightarrow> py_exn + dict) \<Rightarrow> pg_request \<Rightarrow> pg_db \<Rightarrow> pg_db" where
  "pg_request_step jsonb (Commit c) db = pg_step jsonb c db"
| "pg_request_step jsonb (ResolveRequest rivals inner q) db = snd (pg_resolve_with_gap jsonb rivals inner q db)"
| "pg_request_step jsonb (Reach d) db = db\<lparr>db_down := d\<rparr>"

abbreviation pg_history :: "(dict \<Rightarrow> py_exn + dict) \<Rightarrow> pg_request list \<Rightarrow> pg_db \<Rightarrow> pg_db" where
  "pg_history jsonb hs db \<equiv> fold (pg_request_step jsonb) hs db"

text \<open>The migrated database, with the tenants somebody has put there.\<close>

definition pg_new :: "string list \<Rightarrow> world \<Rightarrow> pg_db" where
  "pg_new tenants w =
     \<lparr>db_tenants = tenants, db_customers = [], db_identities = [], db_events = [], db_down = None, db_world = w\<rparr>"

lemma pg_inv_new [simp]: "pg_inv (pg_new tenants w)"
  by (simp add: pg_inv_def pg_new_def)

lemma benign_gap: "pg.benign (pg_run jsonb rivals)"
  using commits_run [of jsonb rivals] grows_keeps by (auto simp: pg.benign_def commits_def)

lemma pg_request_effect:
  "pg_inv db \<Longrightarrow> pg_inv (pg_request_step jsonb h db) \<and> keeps pg_owner db (pg_request_step jsonb h db)"
proof (cases h)
  case (ResolveRequest rivals inner q)
  then show "pg_inv db \<Longrightarrow> ?thesis" using pg.resolve_effect [OF _ benign_gap] by auto
qed (use pg_step_effect grows_keeps in \<open>auto simp: keeps_def\<close>, blast)

lemma pg_history_effect:
  "pg_inv db \<Longrightarrow> pg_inv (pg_history jsonb hs db) \<and> keeps pg_owner db (pg_history jsonb hs db)"
proof (induction hs arbitrary: db)
  case (Cons h hs)
  from pg_request_effect [OF Cons.prems] have "pg_inv (pg_request_step jsonb h db)"
    "keeps pg_owner db (pg_request_step jsonb h db)" by auto
  with Cons.IH show ?case by (auto intro: keeps_trans)
qed simp

section \<open>Linking\<close>

text \<open>
  C31. On Postgres, too, two events of a tenant that share an identity resolve to the same
  customer, whatever requests ran before and between, whatever commits in the gaps of either, and
  whether or not the server was reachable in the meantime; and the customer is one of the tenant.
\<close>

theorem pg_shared_identity_same_customer:
  assumes "db1 = pg_history jsonb before (pg_new tenants w)"
    and "pg_resolve_with_gap jsonb rivals inner q db1 = (Inr out, db2)"
    and "db3 = pg_history jsonb between db2"
    and "pg_resolve_with_gap jsonb rivals' inner' q' db3 = (Inr out', db4)"
    and "ir_tenant_id q' = ir_tenant_id q"
    and "h \<in> set (extract_identity_hints (ir_payload q))"
    and "h \<in> set (extract_identity_hints (ir_payload q'))"
  shows "lo_customer_id out' = lo_customer_id out \<and>
    (\<exists>c. pg_get_customer (ir_tenant_id q) (lo_customer_id out) db4 = Inr (Some c))"
proof -
  have inv1: "pg_inv db1" using pg_history_effect [OF pg_inv_new] assms(1) by simp
  note first = pg.resolve_effect [where jsonb = jsonb and cs = inner, OF inv1 benign_gap [of jsonb rivals], of q]
  have own2: "hint_owner pg_owner db2 (ir_tenant_id q) h = Some (lo_customer_id out)" and inv2: "pg_inv db2"
    using first assms(2,6) by simp_all
  have inv3: "pg_inv db3" and "keeps pg_owner db2 db3"
    using pg_history_effect [OF inv2] assms(3) by simp_all
  then have own3: "hint_owner pg_owner db3 (ir_tenant_id q) h = Some (lo_customer_id out)"
    using own2 by (simp add: keeps_hint)
  note second = pg.resolve_effect [where jsonb = jsonb and cs = inner', OF inv3 benign_gap [of jsonb rivals'], of q']
  have "hint_owner pg_owner db4 (ir_tenant_id q) h = Some (lo_customer_id out)"
    using second assms(4) own3 by (auto intro: keeps_hint)
  moreover have "hint_owner pg_owner db4 (ir_tenant_id q) h = Some (lo_customer_id out')"
    using second assms(4,5,7) by simp
  moreover have "\<exists>c. pg_get_customer (ir_tenant_id q') (lo_customer_id out') db4 = Inr (Some c)"
    using pg.resolve_exists [where jsonb = jsonb and cs = inner', OF inv3 benign_gap [of jsonb rivals'], of q' out'] assms(4) by simp
  ultimately show ?thesis using assms(5) by simp
qed

section \<open>Creating a customer\<close>

definition same_tables :: "pg_db \<Rightarrow> pg_db \<Rightarrow> bool" where
  "same_tables a b \<longleftrightarrow> b\<lparr>db_world := db_world a\<rparr> = a"

text \<open>
  C32. \<open>create_customer\<close> is atomic on Postgres.  In every reachable state it either returns a customer
  that can be read back and owns every identity of the call, with no owner of another identity
  changed, or it raises and the tables are as they were; only a row the contract refuses (a
  display name of more than 128 characters, a tenant id of none or more than 64) is committed and raises
  all the same.
\<close>

theorem pg_create_is_atomic:
  assumes "db = pg_history jsonb before (pg_new tenants w)"
    and "pg_create_customer t ids name db = (res, db')"
  shows "case res of
      Inr c \<Rightarrow> pg_get_customer t (cu_id c) db' = Inr (Some c) \<and>
        (\<forall>(k, v) \<in> set ids. pg_owner db' t k (ident_index_value k v) = Some (cu_id c)) \<and>
        keeps pg_owner db db'
    | Inl e \<Rightarrow> same_tables db db' \<or> e = CustomerValidationError \<and> \<not> (len_within 1 64 t \<and> opt_max 128 name)"
proof -
  have inv: "pg_inv db" using pg_history_effect [OF pg_inv_new] assms(1) by simp
  show ?thesis
  proof (cases rule: pg_create_cases [OF inv, of t ids name, case_names error committed])
    case (error e w)
    with assms(2) show ?thesis by (auto simp: same_tables_def)
  next
    case (committed row db1)
    show ?thesis
    proof (cases "customer_valid row")
      case True
      with committed assms(2) have "res = Inr row" "db' = db1" by (auto simp: row_to_customer_def)
      moreover have "db_down db1 = None" using committed(3,5) by (simp add: grows_def)
      ultimately show ?thesis
        using committed True grows_keeps [OF committed(3)] by (simp add: pg_get_Some)
    next
      case False
      with committed(1,6,10,11) assms(2) show ?thesis
        by (auto simp: row_to_customer_def customer_valid_def)
    qed
  qed
qed

section \<open>Ingestion\<close>

text \<open>
  C33. The two event stores answer alike.  Events with distinct ids that the tables can take (their
  tenants and customers have rows, no text holds a NUL, JSONB keeps the payloads), ingested into empty
  tables and into the empty in-memory repository, get the same answers, put the same
  announcements on the bus, leave the subscribers in the same state, and every key leads to the same
  event afterwards.
\<close>

theorem backends_answer_alike:
  assumes "db_events db = []" and "distinct (map ev_id es)" and "\<forall>e \<in> set es. pg_fresh jsonb e db"
  shows "\<exists>answers db' r' bs.
    ingest_all (pg_upsert_event jsonb) (eb_publish run) isoformat es (db, (b, s)) = (answers, (db', bs)) \<and>
    ingest_all er_upsert_event (eb_publish run) isoformat es (er_new, (b, s)) = (answers, (r', bs)) \<and>
    (\<forall>tenant key. pg_stored db' (tenant, key) = er_get_event_by_idempotency tenant key r')"
proof -
  have inv: "pg_events_inv db" and empty: "pg_stored db = er_stored er_new"
    using assms(1) by (simp_all add: pg_events_inv_def pg_stored_def er_new_facts(1) fun_eq_iff)
  have "sorted_wrt (\<lambda>a b. \<not> same_event_id a b) es"
    using assms(2) by (induction es) (auto simp: same_event_id_def)
  note pg = pging.ingest_all_replies [OF inv this assms(3), where ?b = "(b, s)" and ?run = run and
      ?isoformat = isoformat, unfolded empty]
  have "sorted_wrt (\<lambda>a b. \<not> same_id a b) es"
    using assms(2) by (induction es) (auto simp: same_id_def)
  note er = ing.ingest_all_replies [OF er_inv_new this, where ?b = "(b, s)" and ?run = run and
      ?isoformat = isoformat]
  let ?answers = "replies (er_stored er_new) es"
  let ?bs = "fold (\<lambda>(c, d) b. snd (eb_publish run c d b)) (map (announcement isoformat)
    (map fst (filter snd ?answers))) (b, s)"
  from pg obtain db' where "ingest_all (pg_upsert_event jsonb) (eb_publish run) isoformat es (db, (b, s)) =
       (map Inr ?answers, (db', ?bs))"
    and "pg_stored db' = (\<lambda>k. case er_stored er_new k of None \<Rightarrow> find (\<lambda>x. ev_key x = k) es | Some s \<Rightarrow> Some s)"
    by blast
  moreover from er er_new_facts(2) obtain r' where
    "ingest_all er_upsert_event (eb_publish run) isoformat es (er_new, (b, s)) = (map Inr ?answers, (r', ?bs))"
    and "er_stored r' = (\<lambda>k. case er_stored er_new k of None \<Rightarrow> find (\<lambda>x. ev_key x = k) es | Some s \<Rightarrow> Some s)"
    by blast
  ultimately have "pg_stored db' = er_stored r'" by (simp only:)
  then have "pg_stored db' (t, k) = er_get_event_by_idempotency t k r'" for t k
    by (simp add: er_stored_def)
  with \<open>ingest_all (pg_upsert_event jsonb) _ _ _ _ = _\<close> \<open>ingest_all er_upsert_event _ _ _ _ = _\<close>
  show ?thesis by blast
qed

section \<open>Provisioning\<close>

lemma pg_history_grows:
  "pg_inv db \<Longrightarrow> db_tenants (pg_history jsonb hs db) = db_tenants db"
proof (induction hs arbitrary: db)
  case (Cons h hs)
  have "db_tenants (pg_request_step jsonb h db) = db_tenants db"
  proof (cases h)
    case (Commit c)
    then show ?thesis using pg_step_effect [OF Cons.prems, of jsonb c] by (simp add: grows_def)
  next
    case (ResolveRequest rivals inner q)
    let ?P = "\<lambda>d. pg_inv d \<and> grows db d"
    have "?P (snd (pg_resolve_with_gap jsonb rivals inner q db))"
    proof (rule resolve_preserves [where P = ?P])
      fix t ids name d assume "?P d"
      then have "?P (pg_run jsonb rivals d)"
        using commits_run [of jsonb rivals] unfolding commits_def by (blast intro: grows_trans)
      then show "?P (snd (pg_create_customer t ids name (pg_run jsonb rivals d)))"
        using pg_create_effect by (blast intro: grows_trans)
    next
      fix t c k v d assume "?P d"
      then show "?P (snd (pg_add_identity (pg_run jsonb inner) t c k v d))"
        using pg_add_effect [OF _ commits_run] by (blast intro: grows_trans)
    qed (use Cons.prems in simp)
    with ResolveRequest show ?thesis by (simp add: grows_def)
  qed simp
  with Cons pg_request_effect [OF Cons.prems] show ?case by simp
qed simp

lemma first_match_misses:
  "\<forall>h \<in> set hs. lookup t (ih_kind h) (ih_value h) r = Inr None \<Longrightarrow> first_match lookup t hs r = Inr None"
  by (induction hs) auto

definition next_customer_id :: "pg_db \<Rightarrow> string" where
  "next_customer_id db = ''cust_'' @ take 24 (fst (uuid4 (db_world db)))"

text \<open>
  C34. Postgres refuses the tenants nobody has provisioned.  The schema ties every customer to a row of
  \<open>tenants\<close>, and no operation of the service inserts one: on a tenant that had no row at the start, in
  every reachable state in which the server is reached, a request without an explicit customer, whose
  texts hold no NUL, raises the foreign-key violation and stores nothing (the id drawn for the
  customer is not taken).  The in-memory repository, in every reachable state in which the request's
  identities are unknown, answers the same request with a new customer, if it is valid and its
  identities have at most 256 characters.
\<close>

theorem unprovisioned_tenant_is_refused:
  assumes "db = pg_history jsonb before (pg_new tenants w)" and "db_down db = None"
    and "ir_tenant_id q \<notin> set tenants" and "ir_customer_id q = None"
    and "text_ok (ir_tenant_id q)" and "opt_text_ok (extract_display_name (ir_payload q))"
    and "\<forall>h \<in> set (extract_identity_hints (ir_payload q)). text_ok (ih_value h)"
    and "text_ok (next_customer_id db)" and "next_customer_id db \<notin> cu_id ` set (db_customers db)"
  shows "(\<exists>w'. pg_resolve q db = (Inl (StoreError foreign_key_violation), db\<lparr>db_world := w'\<rparr>)) \<and>
    (ingestion_request_valid q \<longrightarrow>
     (\<forall>h \<in> set (extract_identity_hints (ir_payload q)). length (ih_value h) \<le> 256 \<and>
       cr_find_by_identity (ir_tenant_id q) (ih_kind h) (ih_value h) (repo_run cs (cr_new w2)) = None) \<longrightarrow>
     (\<exists>out. fst (resolve_with_gap (\<lambda>r. r) q (repo_run cs (cr_new w2))) = Inr out \<and> lo_customer_created out))"
proof (intro conjI impI)
  assume valid: "ingestion_request_valid q" and new: "\<forall>h \<in> set (extract_identity_hints (ir_payload q)).
    length (ih_value h) \<le> 256 \<and>
    cr_find_by_identity (ir_tenant_id q) (ih_kind h) (ih_value h) (repo_run cs (cr_new w2)) = None"
  let ?r = "repo_run cs (cr_new w2)"
  have t: "len_within 1 64 (ir_tenant_id q)" using valid by (simp add: ingestion_request_valid_def)
  have free: "\<forall>h \<in> set (extract_identity_hints (ir_payload q)). storable h \<and>
      hint_owner cr_owner ?r (ir_tenant_id q) h = None"
  proof
    fix h assume "h \<in> set (extract_identity_hints (ir_payload q))"
    then show "storable h \<and> hint_owner cr_owner ?r (ir_tenant_id q) h = None"
      using new cr_lookup_owner [OF reachable_repo, of "ir_tenant_id q" "ih_kind h" "ih_value h" cs w2]
      by (simp add: storable_def hint_owner_def)
  qed
  then show "\<exists>out. fst (resolve_with_gap (\<lambda>r. r) q ?r) = Inr out \<and> lo_customer_created out"
    using cr.resolve_returns [where r = ?r and c = "[]", OF reachable_repo benign_id assms(4) t] by auto
next
  let ?t = "ir_tenant_id q" and ?hs = "extract_identity_hints (ir_payload q)"
  have inv: "pg_inv db" using pg_history_effect [OF pg_inv_new] assms(1) by simp
  have tenants: "?t \<notin> set (db_tenants db)"
    using pg_history_grows [OF pg_inv_new, of jsonb before tenants w] assms(1,3) by (simp add: pg_new_def)
  then have nobody: "\<not> has_customer db ?t c" for c using inv by (auto simp: has_customer_def pg_inv_def)
  have "pg_find_customer_by_identity ?t (ih_kind h) (ih_value h) db = Inr None" if "h \<in> set ?hs" for h
  proof -
    have n: "ident_index_value (ih_kind h) (ih_value h) = ih_value h"
      using extracted_hints(2) [OF that] by (simp add: hint_normal_def)
    have "pg_owner db ?t (ih_kind h) (ih_value h) \<noteq> Some c" for c
      using pg_owner_has [OF inv] nobody by blast
    then show ?thesis using pg_find_eq [OF inv assms(2,5)] assms(7) that by (simp add: n split: option.split)
  qed
  then have miss: "first_match pg_find_customer_by_identity ?t (in_priority ?hs) db = Inr None"
    by (intro first_match_misses) simp
  obtain u db1 where u: "db_uuid db = (u, db1)" by fastforce
  obtain s db2 where s: "db_now db1 = (s, db2)" by fastforce
  have facts: "''cust_'' @ take 24 u = next_customer_id db" "db_customers db2 = db_customers db"
    "db_tenants db2 = db_tenants db" "db_down db1 = None" "db2\<lparr>db_world := w'\<rparr> = db\<lparr>db_world := w'\<rparr>" for w'
    using u s assms(2) by (auto simp: db_uuid_def db_now_def case_prod_beta next_customer_id_def)
  have created: "pg_create_customer ?t ids name db = (Inl (StoreError foreign_key_violation), rollback db2 db2)"
    if name: "opt_text_ok name" for ids name
  proof -
    have "sql_insert_customer s (next_customer_id db) ?t name db2 = (Inl foreign_key_violation, db2)"
      using assms(5,8,9) tenants name by (simp add: sql_insert_customer_def facts)
    then show ?thesis
      unfolding pg_create_customer_def Let_def u s prod.case facts(1,4)
      by (simp add: insert_error_def is_unique_violation_def foreign_key_violation_def)
  qed
  have "pg_resolve q db = (Inl (StoreError foreign_key_violation), rollback db2 db2)"
    using assms(4) miss created [OF assms(6)] by (simp add: resolve_customer_def Let_def)
  then show "\<exists>w'. pg_resolve q db = (Inl (StoreError foreign_key_violation), db\<lparr>db_world := w'\<rparr>)"
    by (intro exI [of _ "db_world db2"]) (simp add: rollback_def facts)
qed

text \<open>The readiness probe counts the events, so it tells whether the server is reached and no more.\<close>

lemma readiness_is_reachability:
  "fst (ce_readyz ''postgres'' (case pg_count_events None db of Inl e \<Rightarrow> Some e | Inr n \<Rightarrow> None)) =
     (if db_down db = None then 200 else 503)"
  by (cases "db_down db") (simp_all add: pg_count_events_def ce_readyz_def)

section \<open>Concrete runs\<close>

definition pg_demo_world :: world where
  "pg_demo_world = \<lparr>uuid_of = \<lambda>n. replicate n (CHR ''a''), uuids_drawn = 0, time_of = \<lambda>n. int n, clock_reads = 0\<rparr>"

abbreviation pg_demo :: pg_db where
  "pg_demo \<equiv> pg_new [''t1''] pg_demo_world"

theorem pg_shared_identity_same_customer_witness:
  "case pg_resolve_with_gap Inr [] [] (demo_request ''+1 (555) 01'') pg_demo of
     (Inl e, db2) \<Rightarrow> False
   | (Inr out, db2) \<Rightarrow>
       (case pg_resolve_with_gap Inr [] [] (demo_request ''+1 555-01'') db2 of
          (Inl e, db4) \<Rightarrow> False
        | (Inr out', db4) \<Rightarrow> lo_customer_id out' = lo_customer_id out)"
proof -
  have "case pg_resolve_with_gap Inr [] [] (demo_request ''+1 (555) 01'') pg_demo of
      (Inl e, db2) \<Rightarrow> False
    | (Inr out, db2) \<Rightarrow>
        (case pg_resolve_with_gap Inr [] [] (demo_request ''+1 555-01'') db2 of
           (Inl e, db4) \<Rightarrow> False | (Inr out', db4) \<Rightarrow> True)"
    by code_simp
  then obtain out db2 out' db4 where
    runs: "pg_resolve_with_gap Inr [] [] (demo_request ''+1 (555) 01'') pg_demo = (Inr out, db2)"
      "pg_resolve_with_gap Inr [] [] (demo_request ''+1 555-01'') db2 = (Inr out', db4)"
    by (auto split: prod.splits sum.splits)
  have "lo_customer_id out' = lo_customer_id out"
    using pg_shared_identity_same_customer [where before = "[]" and between = "[]" and
        h = "\<lparr>ih_kind = PHONE_ID, ih_value = ''+155501''\<rparr>", OF _ runs(1) _ runs(2)]
    by (simp add: demo_hints)
  then show ?thesis by (simp only: runs prod.case sum.case)
qed

theorem pg_create_is_atomic_witness:
  "case pg_create_customer ''t1'' [(PHONE_ID, ''1''), (EMAIL_ID, ''A@x'')] None
      (pg_history Inr [Commit (PgCreate ''t1'' [(EMAIL_ID, ''a@x'')] None)] pg_demo) of
     (Inl e, db) \<Rightarrow> e = IdentityCollision \<and>
       same_tables (pg_history Inr [Commit (PgCreate ''t1'' [(EMAIL_ID, ''a@x'')] None)] pg_demo) db
   | (Inr c, db) \<Rightarrow> False"
proof -
  let ?db = "pg_history Inr [Commit (PgCreate ''t1'' [(EMAIL_ID, ''a@x'')] None)] pg_demo"
  have "fst (pg_create_customer ''t1'' [(PHONE_ID, ''1''), (EMAIL_ID, ''A@x'')] None ?db) = Inl IdentityCollision"
    by code_simp
  then obtain db where r: "pg_create_customer ''t1'' [(PHONE_ID, ''1''), (EMAIL_ID, ''A@x'')] None ?db =
      (Inl IdentityCollision, db)"
    by (metis prod.collapse)
  from pg_create_is_atomic [OF refl r] r show ?thesis by simp
qed

theorem backends_answer_alike_witness:
  "fst (ingest_all (pg_upsert_event Inr) (eb_publish demo_bug) (\<lambda>t. ''T'')
     [demo_ev ''evt_1'' ''k'', demo_ev ''evt_2'' ''k''] (pg_new [''a''] pg_demo_world, (eb_new, ()))) =
   fst (ingest_all er_upsert_event (eb_publish demo_bug) (\<lambda>t. ''T'')
     [demo_ev ''evt_1'' ''k'', demo_ev ''evt_2'' ''k''] (er_new, (eb_new, ())))"
proof -
  let ?es = "[demo_ev ''evt_1'' ''k'', demo_ev ''evt_2'' ''k'']"
  have "db_events (pg_new [''a''] pg_demo_world) = []" "distinct (map ev_id ?es)"
    "\<forall>e \<in> set ?es. pg_fresh Inr e (pg_new [''a''] pg_demo_world)"
    by (simp_all add: pg_new_def demo_ev_def pg_fresh_def text_ok_def event_valid_def len_within_def opt_max_def)
  from backends_answer_alike [OF this, of demo_bug "\<lambda>t. ''T''" eb_new "()"] show ?thesis by auto
qed

theorem unprovisioned_tenant_is_refused_witness:
  "fst (pg_resolve (demo_request ''+1 555-01'') (pg_new [''acme''] pg_demo_world)) =
     Inl (StoreError foreign_key_violation) \<and>
   (\<exists>out. fst (resolve_with_gap (\<lambda>r. r) (demo_request ''+1 555-01'') (cr_new pg_demo_world)) = Inr out \<and>
      lo_customer_created out)"
proof -
  let ?q = "demo_request ''+1 555-01''" and ?db = "pg_new [''acme''] pg_demo_world"
  have name: "extract_display_name (ir_payload ?q) = None" by (simp add: extract_display_name_def demo_request_def)
  have id: "next_customer_id ?db = ''cust_''"
    by (simp add: next_customer_id_def pg_new_def pg_demo_world_def)
  have db: "?db = pg_history Inr [] (pg_new [''acme''] pg_demo_world)" by simp
  have facts: "db_down ?db = None" "ir_tenant_id ?q \<notin> set [''acme'']" "ir_customer_id ?q = None"
    "text_ok (ir_tenant_id ?q)" "opt_text_ok (extract_display_name (ir_payload ?q))"
    "\<forall>h \<in> set (extract_identity_hints (ir_payload ?q)). text_ok (ih_value h)"
    "text_ok (next_customer_id ?db)" "next_customer_id ?db \<notin> cu_id ` set (db_customers ?db)"
    unfolding name id by (simp_all add: demo_hints, simp_all add: pg_new_def text_ok_def demo_request_def)
  have valid: "ingestion_request_valid ?q"
    by (simp add: ingestion_request_valid_def demo_request_def len_within_def opt_max_def)
  have new: "\<forall>h \<in> set (extract_identity_hints (ir_payload ?q)). length (ih_value h) \<le> 256 \<and>
      cr_find_by_identity (ir_tenant_id ?q) (ih_kind h) (ih_value h) (repo_run [] (cr_new pg_demo_world)) = None"
    by (simp add: demo_hints cr_find_by_identity_def cr_new_def)
  from unprovisioned_tenant_is_refused [OF db facts, of "[]" pg_demo_world] valid new show ?thesis by auto
qed

section \<open>Where the back ends differ\<close>

text \<open>In memory, a creation that raises leaves the customer behind.\<close>

lemma memory_create_is_not_atomic:
  "case cr_create_customer ''t1'' [(PHONE_ID, [])] None (cr_new pg_demo_world) of
     (Inl e, r) \<Rightarrow> cr_get_customer ''t1'' ''cust_'' r \<noteq> None
   | (Inr c, r) \<Rightarrow> False"
  by code_simp

text \<open>
  Adding an identity that the customer has already is idempotent, unless the row commits while the
  call runs: then it raises \<open>IdentityCollision\<close>, although nobody else holds the identity.
\<close>

lemma pg_concurrent_add_collides:
  "case pg_create_customer ''t1'' [] None pg_demo of
     (Inl e, db) \<Rightarrow> False
   | (Inr c, db) \<Rightarrow>
       (case pg_add_identity (pg_run Inr [PgAdd ''t1'' (cu_id c) PHONE_ID ''1'']) ''t1'' (cu_id c) PHONE_ID ''1'' db of
          (Inl e, db') \<Rightarrow> e = IdentityCollision | (Inr i, db') \<Rightarrow> False) \<and>
       (case pg_add_identity (\<lambda>db. db) ''t1'' (cu_id c) PHONE_ID ''1''
            (snd (pg_add_identity (\<lambda>db. db) ''t1'' (cu_id c) PHONE_ID ''1'' db)) of
          (Inl e, db') \<Rightarrow> False | (Inr i, db') \<Rightarrow> True)"
  by code_simp

text \<open>The two repositories disagree about a lookup that is not normalised.\<close>

lemma unnormalised_lookup_differs:
  "cr_find_by_identity ''t1'' EMAIL_ID ''A@x''
     (snd (cr_create_customer ''t1'' [(EMAIL_ID, ''A@x'')] None (cr_new pg_demo_world))) = None"
  "pg_find_customer_by_identity ''t1'' EMAIL_ID ''A@x''
     (snd (pg_create_customer ''t1'' [(EMAIL_ID, ''A@x'')] None pg_demo)) \<noteq> Inr None"
  by code_simp+

section \<open>The choice of the back ends\<close>

text \<open>
  \<open>_build_default_repos\<close> and \<open>_build_default_bus\<close> of \<open>context_engine/api.py\<close>: the URL a connection is
  opened to, if any, and the mode that is reported.
\<close>

datatype default_repos = InMemoryRepos | PgRepos string

definition build_default_repos :: "environ \<Rightarrow> default_repos \<times> string" where
  "build_default_repos env =
     (case env ''DATABASE_URL'' of
        None \<Rightarrow> (InMemoryRepos, ''memory'')
      | Some database_url \<Rightarrow>
          if database_url = [] then (InMemoryRepos, ''memory'') else (PgRepos database_url, ''postgres''))"

datatype default_bus = InMemoryBus | RedisBus string

definition build_default_bus :: "environ \<Rightarrow> default_bus \<times> string" where
  "build_default_bus env =
     (let redis_url = env_strip env ''REDIS_URL''
      in if redis_url = [] then (InMemoryBus, ''in-memory'') else (RedisBus redis_url, ''redis''))"

text \<open>
  The modes follow the choice, so the probe of the context engine asks a database exactly when the
  stores are on one.  A URL of blanks is a database to the context engine and none to the
  orchestrator, which strips it.
\<close>

lemma probe_follows_choice:
  "fst (ce_readyz (snd (build_default_repos env)) probe) =
     (if fst (build_default_repos env) = InMemoryRepos \<or> probe = None then 200 else 503)"
  by (auto simp: build_default_repos_def ce_readyz_def split: option.splits)

lemma blank_database_url:
  assumes "env ''DATABASE_URL'' = Some url" "url \<noteq> []" "py_strip url = []" "env_strip env ''REDIS_URL'' = []"
  shows "build_default_repos env = (PgRepos url, ''postgres'')" "fst (oa_readyz env probe redis s) = 200"
proof -
  have "env_strip env ''DATABASE_URL'' = []" using assms(1,3) by (simp add: env_strip_def getenv_or_def)
  then show "fst (oa_readyz env probe redis s) = 200"
    using assms(4) by (simp add: oa_readyz_def map_filter_simps)
qed (use assms in \<open>simp add: build_default_repos_def\<close>)

end
