(* ===== verification/Vendor_Clients.thy ===== *)
theory Vendor_Clients
  imports Llm_Clients Prompt_Injection
begin

text \<open>
  The vendor adapters, \<open>context_engine/llm/openai_client.py\<close>, \<open>azure_client.py\<close> and
  \<open>anthropic_client.py\<close>: how a prompt becomes a request of the vendor's SDK and its answer a text.  The
  SDKs are parameters: functions from the configuration and the request to what the call raises or
  returns.  Every caller leaves the temperature at its default, 0.0.
\<close>

section \<open>What the SDKs take and give\<close>

record chat_message =
  cm_role :: string
  cm_content :: string

record openai_config =
  oc_api_key :: string
  oc_base_url :: "string option"
  oc_api_version :: "string option"   \<comment> \<open>\<open>default_query\<close>\<close>

record chat_request =
  cq_model :: string
  cq_messages :: "chat_message list"
  cq_max_tokens :: int

text \<open>\<open>chat.completions.create\<close>: the contents of the choices.\<close>

type_synonym openai_sdk = "openai_config \<Rightarrow> chat_request \<Rightarrow> py_exn + string option list"

record message_request =
  mq_model :: string
  mq_max_tokens :: int
  mq_messages :: "chat_message list"
  mq_system :: "string option"        \<comment> \<open>the keyword, when it is passed\<close>

text \<open>\<open>messages.create\<close>: the texts of the content blocks, \<open>None\<close> for a block without one.\<close>

type_synonym anthropic_sdk = "string \<Rightarrow> message_request \<Rightarrow> py_exn + string option list"

section \<open>OpenAI and Azure\<close>

definition user_message :: "string \<Rightarrow> chat_message" where
  "user_message prompt = \<lparr>cm_role = ''user'', cm_content = prompt\<rparr>"

definition chat_messages :: "string \<Rightarrow> string option \<Rightarrow> chat_message list" where
  "chat_messages prompt system =
     (case system of
        None \<Rightarrow> []
      | Some s \<Rightarrow> if s = [] then [] else [\<lparr>cm_role = ''system'', cm_content = s\<rparr>]) @
     [user_message prompt]"

definition first_choice :: "string option list \<Rightarrow> py_exn + string" where
  \<comment> \<open>\<open>resp.choices[0].message.content or ""\<close>\<close>
  "first_choice choices =
     (case choices of
        [] \<Rightarrow> Inl (Exn ''IndexError'' ''list index out of range'')
      | c # cs \<Rightarrow> Inr (case c of None \<Rightarrow> [] | Some t \<Rightarrow> t))"

definition openai_complete :: "openai_sdk \<Rightarrow> openai_config \<Rightarrow> string \<Rightarrow> string \<Rightarrow> string option \<Rightarrow> int \<Rightarrow>
    py_exn + string" where
  "openai_complete create config model prompt system max_tokens =
     (case create config \<lparr>cq_model = model, cq_messages = chat_messages prompt system,
                          cq_max_tokens = max_tokens\<rparr> of
        Inl e \<Rightarrow> Inl e
      | Inr choices \<Rightarrow> first_choice choices)"

definition summary_prompt :: "string \<Rightarrow> int \<Rightarrow> string" where
  "summary_prompt history max_tokens =
     ''Summarize the following customer-history excerpt in <= '' @ dec_int max_tokens @ '' tokens. '' @
     ''Preserve names, account references, dates, and any pending requests:'' @ [newline, newline] @ history"

definition SUMMARY_SYSTEM :: string where
  "SUMMARY_SYSTEM =
     ''You are a precise summarizer for a customer-service AI memory layer. '' @
     ''Never invent facts. If the excerpt is empty, return an empty string.''"

definition openai_client :: "openai_sdk \<Rightarrow> string \<Rightarrow> string \<Rightarrow> llm_client" where
  "openai_client create api_key model =
     (let config = \<lparr>oc_api_key = api_key, oc_base_url = None, oc_api_version = None\<rparr>;
          complete = openai_complete create config model
      in \<lparr>llm_name = ''openai'', llm_model = model, llm_complete = complete,
          llm_summarize = (\<lambda>history max_tokens.
            complete (summary_prompt history max_tokens) (Some SUMMARY_SYSTEM) max_tokens)\<rparr>)"

definition rstrip_slash :: "string \<Rightarrow> string" where
  "rstrip_slash s = rev (dropWhile (\<lambda>c. c = CHR ''/'') (rev s))"

definition azure_client :: "openai_sdk \<Rightarrow> string \<Rightarrow> string \<Rightarrow> string \<Rightarrow> string \<Rightarrow> llm_client" where
  "azure_client create api_key endpoint api_version model =
     (let config = \<lparr>oc_api_key = api_key, oc_base_url = Some (rstrip_slash endpoint),
                    oc_api_version = Some api_version\<rparr>;
          complete = openai_complete create config model
      in \<lparr>llm_name = ''azure'', llm_model = model, llm_complete = complete,
          llm_summarize = (\<lambda>history max_tokens.
            complete (summary_prompt history max_tokens) (Some SUMMARY_SYSTEM) max_tokens)\<rparr>)"

section \<open>Anthropic\<close>

definition anthropic_complete :: "anthropic_sdk \<Rightarrow> string \<Rightarrow> string \<Rightarrow> string \<Rightarrow> string option \<Rightarrow> int \<Rightarrow>
    py_exn + string" where
  "anthropic_complete create api_key model prompt system max_tokens =
     (case create api_key \<lparr>mq_model = model, mq_max_tokens = max_tokens,
                           mq_messages = [user_message prompt], mq_system = system\<rparr> of
        Inl e \<Rightarrow> Inl e
      | Inr blocks \<Rightarrow> Inr (concat (List.map_filter (\<lambda>b. b) blocks)))"

definition anthropic_client :: "anthropic_sdk \<Rightarrow> string \<Rightarrow> string \<Rightarrow> llm_client" where
  "anthropic_client create api_key model =
     (let complete = anthropic_complete create api_key model
      in \<lparr>llm_name = ''anthropic'', llm_model = model, llm_complete = complete,
          llm_summarize = (\<lambda>history max_tokens.
            complete (summary_prompt history max_tokens) (Some SUMMARY_SYSTEM) max_tokens)\<rparr>)"

section \<open>From the choice to the client\<close>

text \<open>The constructor calls at the ends of the branches of \<open>get_client\<close>.\<close>

fun chosen_client :: "openai_sdk \<Rightarrow> anthropic_sdk \<Rightarrow> client_choice \<Rightarrow> llm_client" where
  "chosen_client openai anthropic UseMock = mock_client"
| "chosen_client openai anthropic (UseAnthropic api_key model) = anthropic_client anthropic api_key model"
| "chosen_client openai anthropic (UseAzure api_key endpoint api_version model) =
     azure_client openai api_key endpoint api_version model"
| "chosen_client openai anthropic (UseOpenAI api_key model) = openai_client openai api_key model"

text \<open>
  Only the mock is named mock, so the shortcuts that test for that name never meet a vendor; and a
  vendor's client fails only when the SDK raises or answers without a choice.
\<close>

lemma only_the_mock_is_mock:
  "llm_name (chosen_client openai anthropic choice) = ''mock'' \<longleftrightarrow> choice = UseMock"
  by (cases choice) (simp_all add: mock_client_def openai_client_def azure_client_def anthropic_client_def Let_def)

lemma vendor_failure:
  assumes "llm_complete (chosen_client openai anthropic choice) prompt system n = Inl e"
  shows "e = Exn ''IndexError'' ''list index out of range'' \<or>
    (\<exists>config request. openai config request = Inl e) \<or> (\<exists>key request. anthropic key request = Inl e)"
  using assms
  by (cases choice)
     (auto simp: mock_client_def openai_client_def azure_client_def anthropic_client_def Let_def
        openai_complete_def anthropic_complete_def first_choice_def split: sum.splits list.splits)

text \<open>Without an explicit system prompt a vendor gets the prompt alone.\<close>

lemma openai_prompt_last: "last (chat_messages prompt system) = user_message prompt"
  by (simp add: chat_messages_def)

end
